(* ===== verification/Prelude.thy ===== *)
theory Prelude
  imports Main "HOL-Library.Word" "HOL-Library.Char_ord" "HOL-Library.List_Lexorder"
begin

text \<open>
  What the component theories share: the machine types of the C++ code, the
  character classes and the \<^verbatim>\<open>std::string\<close> searches it uses, the
  ordered maps it keeps (\<^verbatim>\<open>std::map<std::string, V>\<close>), decimal
  printing, big-endian words, and the lemmas about them that carry the
  component proofs.  \<open>codec\<close> collects decoder/encoder equations,
  \<open>bounds\<close> collects index bounds and \<open>preserves\<close> collects facts
  of the form ``this operation keeps that invariant''.
\<close>

named_theorems codec
named_theorems bounds
named_theorems preserves

subsection \<open>Machine types\<close>

type_synonym byte = "8 word"
type_synonym u16 = "16 word"
type_synonym u32 = "32 word"
type_synonym bytes = "byte list"

text \<open>\<^verbatim>\<open>uint8_t\<close> data seen as \<^verbatim>\<open>char\<close> data and back.\<close>

definition char_of_byte :: "byte \<Rightarrow> char" where
  "char_of_byte b = char_of (unat b)"

definition byte_of_char :: "char \<Rightarrow> byte" where
  "byte_of_char c = of_nat (of_char c)"

lemma unat_byte [bounds]: "unat (b::byte) < 256"
  using unsigned_less [of b, where 'a = nat] by simp

lemma byte_of_char_of_byte [simp, codec]: "byte_of_char (char_of_byte b) = b"
  using unat_byte [of b] by (simp add: byte_of_char_def char_of_byte_def)

lemma char_of_byte_of_char [simp, codec]: "char_of_byte (byte_of_char c) = c"
  by (simp add: byte_of_char_def char_of_byte_def unat_of_nat)

abbreviation text_of :: "bytes \<Rightarrow> string" where
  "text_of \<equiv> map char_of_byte"

abbreviation bytes_of :: "string \<Rightarrow> bytes" where
  "bytes_of \<equiv> map byte_of_char"

lemma text_of_bytes_of [simp, codec]: "text_of (bytes_of s) = s"
  by (induction s) auto

lemma text_bytes_comp [simp]: "map (char_of_byte \<circ> byte_of_char) s = s"
  by (induction s) auto

lemma bytes_of_text_of [simp, codec]: "bytes_of (text_of bs) = bs"
  by (induction bs) auto

text \<open>\<^verbatim>\<open>std::wstring\<close>, and an ASCII literal as one.\<close>

type_synonym wstring = "u16 list"

definition wide :: "string \<Rightarrow> wstring" where
  "wide s = map (\<lambda>c. of_nat (of_char c)) s"

subsection \<open>Optional values\<close>

text \<open>\<^verbatim>\<open>std::optional::value_or\<close>.\<close>

definition value_or :: "'a option \<Rightarrow> 'a \<Rightarrow> 'a" where
  "value_or v_opt d = (case v_opt of None \<Rightarrow> d | Some v \<Rightarrow> v)"

lemma value_or_simps [simp]: "value_or None d = d" "value_or (Some v) d = v"
  by (simp_all add: value_or_def)

subsection \<open>Character classes of the C locale\<close>

abbreviation code :: "char \<Rightarrow> nat" where
  "code c \<equiv> of_char c"

definition is_space :: "char \<Rightarrow> bool" where
  "is_space c \<longleftrightarrow> code c = 32 \<or> (9 \<le> code c \<and> code c \<le> 13)"

definition is_digit :: "char \<Rightarrow> bool" where
  "is_digit c \<longleftrightarrow> 48 \<le> code c \<and> code c \<le> 57"

definition is_upper :: "char \<Rightarrow> bool" where
  "is_upper c \<longleftrightarrow> 65 \<le> code c \<and> code c \<le> 90"

definition is_lower :: "char \<Rightarrow> bool" where
  "is_lower c \<longleftrightarrow> 97 \<le> code c \<and> code c \<le> 122"

definition is_alnum :: "char \<Rightarrow> bool" where
  "is_alnum c \<longleftrightarrow> is_digit c \<or> is_upper c \<or> is_lower c"

definition to_lower :: "char \<Rightarrow> char" where
  "to_lower c = (if is_upper c then char_of (code c + 32) else c)"

definition digit_val :: "char \<Rightarrow> nat" where
  "digit_val c = code c - 48"

definition digit_char :: "nat \<Rightarrow> char" where
  "digit_char d = char_of (48 + d)"

lemma code_digit_char [simp]: "d < 10 \<Longrightarrow> code (digit_char d) = 48 + d"
  by (simp add: digit_char_def)

lemma is_digit_digit_char [simp]: "d < 10 \<Longrightarrow> is_digit (digit_char d)"
  by (simp add: is_digit_def)

lemma digit_val_digit_char [simp, codec]: "d < 10 \<Longrightarrow> digit_val (digit_char d) = d"
  by (simp add: digit_val_def)

lemma digit_not_space [simp]: "is_digit c \<Longrightarrow> \<not> is_space c"
  by (auto simp: is_digit_def is_space_def)

text \<open>For evaluating characters computed from numerals.\<close>

lemmas char_eval = char_of_def bit_Suc_0_iff digit_char_def to_lower_def is_alnum_def is_digit_def is_upper_def
  is_lower_def

subsection \<open>Scanning by index\<close>

text \<open>\<^verbatim>\<open>while (i < s.size() && P(s[i])) ++i;\<close>\<close>

function skip_while :: "('a \<Rightarrow> bool) \<Rightarrow> 'a list \<Rightarrow> nat \<Rightarrow> nat" where
  "skip_while P s i = (if i < length s \<and> P (s ! i) then skip_while P s (Suc i) else i)"
  by pat_completeness auto
termination
  by (relation "measure (\<lambda>(P, s, i). length s - i)") auto

declare skip_while.simps [simp del]

lemma skip_while_eq:
  "i \<le> length s \<Longrightarrow> skip_while P s i = i + length (takeWhile P (drop i s))"
proof (induction P s i rule: skip_while.induct)
  case (1 P s i)
  show ?case
  proof (cases "i < length s \<and> P (s ! i)")
    case True
    with 1 have "skip_while P s (Suc i) = Suc i + length (takeWhile P (drop (Suc i) s))"
      by simp
    with True show ?thesis
      by (simp add: skip_while.simps [of P s i] flip: Cons_nth_drop_Suc)
  next
    case False
    then have "takeWhile P (drop i s) = []"
      by (cases "i < length s") (auto simp flip: Cons_nth_drop_Suc)
    moreover have "skip_while P s i = i"
      using False by (simp only: skip_while.simps [of P s i] if_False)
    ultimately show ?thesis by simp
  qed
qed

lemma skip_while_bounds [bounds]:
  "i \<le> length s \<Longrightarrow> i \<le> skip_while P s i \<and> skip_while P s i \<le> length s"
  using length_takeWhile_le [of P "drop i s"] by (auto simp: skip_while_eq)

lemma skip_while_ge [bounds]: "i \<le> skip_while P s i"
proof (induction P s i rule: skip_while.induct)
  case (1 P s i)
  then show ?case
    by (cases "i < length s \<and> P (s ! i)") (auto simp: skip_while.simps [of P s i])
qed

lemma skip_while_stop:
  "skip_while P s i < length s \<Longrightarrow> \<not> P (s ! skip_while P s i)"
proof (induction P s i rule: skip_while.induct)
  case (1 P s i)
  then show ?case
    by (cases "i < length s \<and> P (s ! i)") (auto simp: skip_while.simps [of P s i])
qed

lemma skip_while_app:
  assumes "list_all P xs" and "ys = [] \<or> \<not> P (hd ys)"
  shows "skip_while P (pre @ xs @ ys) (length pre) = length pre + length xs"
proof -
  have "takeWhile P (xs @ ys) = xs"
    using assms by (cases ys) (auto simp: list_all_iff)
  then show ?thesis
    by (simp add: skip_while_eq)
qed

subsection \<open>\<^verbatim>\<open>std::string\<close> searches\<close>

text \<open>\<^verbatim>\<open>s.substr(i, j - i)\<close>.\<close>

definition slice :: "'a list \<Rightarrow> nat \<Rightarrow> nat \<Rightarrow> 'a list" where
  "slice s i j = take (j - i) (drop i s)"

lemma slice_nth0: "b \<le> length xs \<Longrightarrow> a < b \<Longrightarrow> slice xs a b ! 0 = xs ! a"
  by (simp add: slice_def)

lemma slice_Nil_iff: "b \<le> length xs \<Longrightarrow> slice xs a b = [] \<longleftrightarrow> b \<le> a"
  by (auto simp: slice_def)

lemma slice_Cons:
  "i < length xs \<Longrightarrow> i < b \<Longrightarrow> slice xs i b = xs ! i # slice xs (Suc i) b"
  by (cases b) (simp_all add: slice_def Suc_diff_le flip: Cons_nth_drop_Suc)

lemma slice_middle [simp]:
  "slice (pre @ xs @ post) (length pre) (length pre + length xs) = xs"
  by (simp add: slice_def)

fun starts_with :: "'a list \<Rightarrow> 'a list \<Rightarrow> bool" where
  "starts_with [] ys = True"
| "starts_with (x # xs) [] = False"
| "starts_with (x # xs) (y # ys) = (x = y \<and> starts_with xs ys)"

lemma starts_with_take: "starts_with xs ys \<longleftrightarrow> take (length xs) ys = xs"
  by (induction xs ys rule: starts_with.induct) auto

lemma starts_with_append [simp]: "starts_with xs (xs @ ys)"
  by (simp add: starts_with_take)

lemma starts_with_iff: "starts_with xs ys \<longleftrightarrow> (\<exists>zs. ys = xs @ zs)"
  by (metis append_take_drop_id starts_with_append starts_with_take)

text \<open>The offset of the first occurrence of a needle.\<close>

fun find_sub :: "'a list \<Rightarrow> 'a list \<Rightarrow> nat option" where
  "find_sub n [] = (if n = [] then Some 0 else None)"
| "find_sub n (x # xs) =
     (if starts_with n (x # xs) then Some 0 else map_option Suc (find_sub n xs))"

text \<open>\<^verbatim>\<open>s.find(needle, pos)\<close> (\<open>None\<close> is \<^verbatim>\<open>npos\<close>).\<close>

definition str_find :: "'a list \<Rightarrow> 'a list \<Rightarrow> nat \<Rightarrow> nat option" where
  "str_find s n pos =
     (if pos \<le> length s then map_option (\<lambda>k. pos + k) (find_sub n (drop pos s)) else None)"

text \<open>\<^verbatim>\<open>s.find_first_of(set, pos)\<close> and its complement, by predicate.\<close>

definition find_first :: "('a \<Rightarrow> bool) \<Rightarrow> 'a list \<Rightarrow> nat \<Rightarrow> nat option" where
  "find_first P s pos =
     (let i = skip_while (\<lambda>c. \<not> P c) s pos in if i < length s then Some i else None)"

lemma find_sub_Some:
  "find_sub n s = Some k \<Longrightarrow> k + length n \<le> length s \<and> take (length n) (drop k s) = n"
proof (induction s arbitrary: k)
  case Nil
  then show ?case by (auto split: if_splits)
next
  case (Cons x xs)
  show ?case
  proof (cases "starts_with n (x # xs)")
    case True
    then have "take (length n) (x # xs) = n"
      by (simp add: starts_with_take)
    moreover from this have "length n \<le> length (x # xs)"
      by (metis length_take min.cobounded1)
    ultimately show ?thesis using True Cons.prems by simp
  next
    case False
    with Cons.prems obtain j where "find_sub n xs = Some j" "k = Suc j" by auto
    with Cons.IH [of j] show ?thesis by simp
  qed
qed

lemma find_sub_None_iff: "find_sub n s = None \<longleftrightarrow> (\<forall>xs ys. s \<noteq> xs @ n @ ys)"
proof (induction s)
  case Nil
  then show ?case by auto
next
  case (Cons x xs)
  show ?case
  proof (cases "starts_with n (x # xs)")
    case True
    then obtain zs where "x # xs = [] @ n @ zs"
      by (auto simp: starts_with_iff)
    with True show ?thesis by (metis find_sub.simps(2) option.distinct(1))
  next
    case False
    then have "\<forall>ys. x # xs \<noteq> n @ ys"
      by (simp add: starts_with_iff)
    then have "(\<forall>as ys. x # xs \<noteq> as @ n @ ys) \<longleftrightarrow> (\<forall>as ys. xs \<noteq> as @ n @ ys)"
      by (metis append_Cons append_eq_Cons_conv)
    with False Cons.IH show ?thesis by simp
  qed
qed

lemma str_find_Some:
  assumes "str_find s n pos = Some k"
  shows "pos \<le> k" and "k + length n \<le> length s" and "take (length n) (drop k s) = n"
proof -
  obtain j where j: "find_sub n (drop pos s) = Some j" "k = pos + j" "pos \<le> length s"
    using assms by (auto simp: str_find_def split: if_splits)
  then show "pos \<le> k" "k + length n \<le> length s" "take (length n) (drop k s) = n"
    using find_sub_Some [OF j(1)] by (auto simp: add.commute)
qed

lemma find_first_Some:
  assumes "find_first P s pos = Some k" and "pos \<le> length s"
  shows "pos \<le> k" and "k < length s" and "P (s ! k)"
  using assms skip_while_ge [of pos "\<lambda>c. \<not> P c" s] skip_while_stop [of "\<lambda>c. \<not> P c" s pos]
  by (auto simp: find_first_def Let_def split: if_splits)

subsection \<open>Decimal numbers\<close>

text \<open>\<^verbatim>\<open>std::to_string\<close> and \<^verbatim>\<open>operator<<\<close> on integers.\<close>

fun show_nat :: "nat \<Rightarrow> string" where
  "show_nat n = (if n < 10 then [digit_char n] else show_nat (n div 10) @ [digit_char (n mod 10)])"

declare show_nat.simps [simp del]

definition show_int :: "int \<Rightarrow> string" where
  "show_int i = (if i < 0 then ''-'' @ show_nat (nat (- i)) else show_nat (nat i))"

text \<open>The value of a run of decimal digits.\<close>

definition digits_val :: "string \<Rightarrow> nat" where
  "digits_val s = foldl (\<lambda>a c. a * 10 + digit_val c) 0 s"

lemma digits_val_snoc [simp]: "digits_val (s @ [c]) = digits_val s * 10 + digit_val c"
  by (simp add: digits_val_def)

lemma digits_val_Nil [simp]: "digits_val [] = 0"
  by (simp add: digits_val_def)

lemma show_nat_digits [simp]: "list_all is_digit (show_nat n)"
proof (induction n rule: show_nat.induct)
  case (1 n)
  then show ?case by (subst show_nat.simps) auto
qed

lemma show_nat_nonempty [simp]: "show_nat n \<noteq> []"
  by (subst show_nat.simps) simp

lemma digits_val_show_nat [simp, codec]: "digits_val (show_nat n) = n"
proof (induction n rule: show_nat.induct)
  case (1 n)
  show ?case
  proof (cases "n < 10")
    case True
    then show ?thesis
      using digits_val_snoc [of "[]" "digit_char n"] by (subst show_nat.simps) simp
  next
    case False
    with 1 show ?thesis by (subst show_nat.simps) simp
  qed
qed

lemma show_nat_hd_digit [simp]: "is_digit (hd (show_nat n))"
  using show_nat_digits [of n] by (cases "show_nat n") auto

subsection \<open>Big-endian words\<close>

definition be16 :: "byte \<Rightarrow> byte \<Rightarrow> u16" where
  "be16 a b = or (push_bit 8 (ucast a)) (ucast b)"

definition be32 :: "byte \<Rightarrow> byte \<Rightarrow> byte \<Rightarrow> byte \<Rightarrow> u32" where
  "be32 a b c d =
     or (or (or (push_bit 24 (ucast a)) (push_bit 16 (ucast b))) (push_bit 8 (ucast c))) (ucast d)"

definition put16 :: "u16 \<Rightarrow> bytes" where
  "put16 v = [ucast (drop_bit 8 v), ucast (and v 0xFF)]"

definition put32 :: "u32 \<Rightarrow> bytes" where
  "put32 v = [ucast (and (drop_bit 24 v) 0xFF), ucast (and (drop_bit 16 v) 0xFF),
              ucast (and (drop_bit 8 v) 0xFF), ucast (and v 0xFF)]"

lemma length_put16 [simp]: "length (put16 v) = 2"
  by (simp add: put16_def)

lemma length_put32 [simp]: "length (put32 v) = 4"
  by (simp add: put32_def)

lemma ff_mask: "(255::'a::len word) = mask 8"
  by (simp add: mask_eq_exp_minus_1)

lemma be16_split:
  "or (push_bit 8 (ucast (ucast (drop_bit 8 v) :: byte))) (ucast (ucast (and v 0xFF) :: byte)) = (v :: u16)"
  unfolding ff_mask by (rule bit_word_eqI) (auto simp: bit_simps)

lemma be32_split:
  fixes v :: u32
  defines "octet k \<equiv> ucast (and (drop_bit k v) 0xFF) :: byte"
  shows "or (or (or (push_bit 24 (ucast (octet 24))) (push_bit 16 (ucast (octet 16))))
           (push_bit 8 (ucast (octet 8)))) (ucast (octet 0)) = v" (is "?w = v")
proof (rule bit_word_eqI)
  fix n
  assume n: "n < LENGTH(32)"
  then consider "n < 8" | "8 \<le> n" "n < 16" | "16 \<le> n" "n < 24" | "24 \<le> n" by linarith
  then show "bit ?w n = bit v n"
    using n unfolding octet_def ff_mask by cases (auto simp: bit_simps)
qed

lemma be16_put16 [simp, codec]: "be16 (put16 v ! 0) (put16 v ! 1) = v"
  by (simp add: be16_def put16_def be16_split)

lemma be32_put32 [simp, codec]:
  "be32 (put32 v ! 0) (put32 v ! 1) (put32 v ! 2) (put32 v ! 3) = v"
  using be32_split [of v] by (simp add: be32_def put32_def)

subsection \<open>Ordered maps with string keys\<close>

text \<open>
  \<^verbatim>\<open>std::map<std::string, V>\<close> is kept as an association list in key
  order (\<^verbatim>\<open>char_traits<char>\<close> compares unsigned bytes, as
  \<open>Char_ord\<close> does), because the code iterates over its maps in that order.
\<close>

type_synonym 'v smap = "(string \<times> 'v) list"

fun smap_put :: "string \<Rightarrow> 'v \<Rightarrow> 'v smap \<Rightarrow> 'v smap" where
  "smap_put k v [] = [(k, v)]"
| "smap_put k v ((a, b) # m) =
     (if k < a then (k, v) # (a, b) # m
      else if k = a then (k, v) # m
      else (a, b) # smap_put k v m)"

definition smap_sorted :: "'v smap \<Rightarrow> bool" where
  "smap_sorted m \<longleftrightarrow> sorted (map fst m) \<and> distinct (map fst m)"

lemma map_of_smap_put [simp]: "map_of (smap_put k v m) = (map_of m)(k \<mapsto> v)"
  by (induction k v m rule: smap_put.induct) (auto simp: fun_eq_iff)

lemma fst_set_smap_put [simp]: "fst ` set (smap_put k v m) = insert k (fst ` set m)"
  by (induction k v m rule: smap_put.induct) auto

lemma smap_sorted_put [preserves]: "smap_sorted m \<Longrightarrow> smap_sorted (smap_put k v m)"
proof (induction k v m rule: smap_put.induct)
  case (1 k v)
  then show ?case by (simp add: smap_sorted_def)
next
  case (2 k v a b m)
  have IH: "\<not> k < a \<Longrightarrow> k \<noteq> a \<Longrightarrow> smap_sorted (smap_put k v m)"
    using 2 by (simp add: smap_sorted_def)
  have "set (map fst (smap_put k v m)) = insert k (set (map fst m))"
    by (simp only: set_map fst_set_smap_put)
  with 2 IH show ?case
    by (auto simp: smap_sorted_def)
qed

end
