(* ===== verification/Floating.thy ===== *)
theory Floating
  imports Complex_Main Prelude
begin

text \<open>
  IEEE-754 binary64 as the C++ code uses it.  Every \<^verbatim>\<open>double\<close> that
  reaches the modelled code is finite (the parsers drop the others), so a
  \<^verbatim>\<open>double\<close> is the rational number it stands for and an operation is the
  exact operation followed by \<open>rnd\<close>, round to nearest with ties to even.
  (The sign of a zero is not kept: no modelled operation depends on it.)
  \<open>from_chars_general\<close> is \<^verbatim>\<open>std::from_chars\<close> on decimal text.
\<close>

type_synonym double = rat

definition pow2 :: "int \<Rightarrow> rat" where
  "pow2 e = (if 0 \<le> e then 2 ^ nat e else 1 / 2 ^ nat (- e))"

definition pow10 :: "int \<Rightarrow> rat" where
  "pow10 e = (if 0 \<le> e then 10 ^ nat e else 1 / 10 ^ nat (- e))"

fun nlog2 :: "nat \<Rightarrow> nat" where
  "nlog2 n = (if n < 2 then 0 else Suc (nlog2 (n div 2)))"

declare nlog2.simps [simp del]

text \<open>The exponent of the leading bit of a positive rational.\<close>

definition ilog2 :: "rat \<Rightarrow> int" where
  "ilog2 q =
     (if 1 \<le> q then int (nlog2 (nat \<lfloor>q\<rfloor>))
      else - int (Suc (nlog2 (nat (\<lceil>1 / q\<rceil> - 1)))))"

definition round_half_even :: "rat \<Rightarrow> int" where
  "round_half_even q =
     (let f = \<lfloor>q\<rfloor>; r = q - of_int f
      in if r < 1 / 2 then f else if 1 / 2 < r then f + 1 else if even f then f else f + 1)"

text \<open>The exponent of the last place of the binary64 number nearest to a rational.\<close>

definition ulp_exp :: "rat \<Rightarrow> int" where
  "ulp_exp q = max (- 1074) (ilog2 \<bar>q\<bar> - 52)"

definition rnd :: "rat \<Rightarrow> double" where
  "rnd q =
     (if q = 0 then 0
      else of_int (round_half_even (q / pow2 (ulp_exp q))) * pow2 (ulp_exp q))"

definition dbl_max :: double where
  "dbl_max = of_int (2 ^ 53 - 1) * pow2 971"

definition dbl_mul :: "double \<Rightarrow> double \<Rightarrow> double" where
  "dbl_mul a b = rnd (a * b)"

definition dbl_div :: "double \<Rightarrow> double \<Rightarrow> double" where
  "dbl_div a b = rnd (a / b)"

text \<open>\<^verbatim>\<open>static_cast<LONG>\<close> and \<^verbatim>\<open>std::trunc\<close>: towards zero;
  \<^verbatim>\<open>std::lround\<close>: to nearest, halves away from zero.\<close>

definition dbl_trunc :: "double \<Rightarrow> int" where
  "dbl_trunc q = (if 0 \<le> q then \<lfloor>q\<rfloor> else \<lceil>q\<rceil>)"

definition lround :: "double \<Rightarrow> int" where
  "lround q = (if 0 \<le> q then \<lfloor>q + 1 / 2\<rfloor> else \<lceil>q - 1 / 2\<rceil>)"

text \<open>\<^verbatim>\<open>std::clamp(v, lo, hi)\<close> for \<open>lo \<le> hi\<close>.\<close>

definition clamp :: "'a::linorder \<Rightarrow> 'a \<Rightarrow> 'a \<Rightarrow> 'a" where
  "clamp v lo hi = (if v < lo then lo else if hi < v then hi else v)"

lemma clamp_bounds [bounds]: "lo \<le> hi \<Longrightarrow> lo \<le> clamp v lo hi \<and> clamp v lo hi \<le> hi"
  by (auto simp: clamp_def)

lemma clamp_id: "lo \<le> v \<Longrightarrow> v \<le> hi \<Longrightarrow> clamp v lo hi = v"
  by (auto simp: clamp_def)

subsection \<open>Rounding\<close>

lemma pow2_pos [simp]: "0 < pow2 e"
  by (simp add: pow2_def)

lemma pow2_nonzero [simp]: "pow2 e \<noteq> 0"
  using pow2_pos [of e] by linarith

lemma nlog2_less: "n < 2 ^ Suc k \<Longrightarrow> nlog2 n \<le> k"
proof (induction k arbitrary: n)
  case 0
  then show ?case by (subst nlog2.simps) auto
next
  case (Suc k)
  then show ?case by (subst nlog2.simps) auto
qed

lemma ulp_exp_le_0:
  assumes "\<bar>q\<bar> < 2 ^ 53"
  shows "ulp_exp q \<le> 0"
proof (cases "1 \<le> \<bar>q\<bar>")
  case True
  have "\<lfloor>\<bar>q\<bar>\<rfloor> < 2 ^ 53"
    using assms by (simp add: floor_less_iff)
  then have "nat \<lfloor>\<bar>q\<bar>\<rfloor> < 2 ^ Suc 52"
    by (simp add: nat_less_iff)
  then have "nlog2 (nat \<lfloor>\<bar>q\<bar>\<rfloor>) \<le> 52"
    by (rule nlog2_less)
  with True show ?thesis
    by (simp add: ulp_exp_def ilog2_def)
next
  case False
  then show ?thesis by (simp add: ulp_exp_def ilog2_def)
qed

lemma round_half_even_int [simp]: "round_half_even (of_int n) = n"
  by (simp add: round_half_even_def)

lemma round_half_even_mono_int:
  "q \<le> of_int n \<Longrightarrow> round_half_even q \<le> n"
  "of_int n \<le> q \<Longrightarrow> n \<le> round_half_even q"
proof -
  assume q: "q \<le> of_int n"
  show "round_half_even q \<le> n"
  proof (cases "\<lfloor>q\<rfloor> < n")
    case True
    then show ?thesis by (auto simp: round_half_even_def Let_def)
  next
    case False
    then have "of_int n \<le> q" by (simp add: not_less le_floor_iff)
    with q have "q = of_int n" by simp
    then show ?thesis by simp
  qed
next
  assume "of_int n \<le> q"
  then have "n \<le> \<lfloor>q\<rfloor>" by (simp add: le_floor_iff)
  then show "n \<le> round_half_even q"
    by (auto simp: round_half_even_def Let_def)
qed

text \<open>
  Below \<open>2 ^ 53\<close> every integer is a binary64 number, so rounding never crosses one.
\<close>

lemma int_div_pow2:
  assumes "e \<le> 0"
  shows "of_int n / pow2 e = of_int (n * 2 ^ nat (- e))"
  using assms by (auto simp: pow2_def)

lemma rnd_le_int:
  assumes "q \<le> of_int n" and "\<bar>q\<bar> < 2 ^ 53"
  shows "rnd q \<le> of_int n"
proof (cases "q = 0")
  case False
  define e where "e = ulp_exp q"
  have e: "e \<le> 0" using assms(2) unfolding e_def by (rule ulp_exp_le_0)
  have "q / pow2 e \<le> of_int (n * 2 ^ nat (- e))"
    using assms(1) by (simp only: flip: int_div_pow2 [OF e]) (simp add: divide_right_mono less_imp_le)
  then have "round_half_even (q / pow2 e) \<le> n * 2 ^ nat (- e)"
    by (rule round_half_even_mono_int)
  then have "of_int (round_half_even (q / pow2 e)) * pow2 e
             \<le> of_int (n * 2 ^ nat (- e)) * pow2 e"
    by (intro mult_right_mono) (simp_all only: of_int_le_iff less_imp_le pow2_pos)
  also have "\<dots> = of_int n"
    using e by (simp only: flip: int_div_pow2) simp
  finally show ?thesis using False by (simp add: rnd_def e_def)
qed (use assms in \<open>simp add: rnd_def\<close>)

lemma rnd_ge_int:
  assumes "of_int n \<le> q" and "\<bar>q\<bar> < 2 ^ 53"
  shows "of_int n \<le> rnd q"
proof (cases "q = 0")
  case False
  define e where "e = ulp_exp q"
  have e: "e \<le> 0" using assms(2) unfolding e_def by (rule ulp_exp_le_0)
  have "of_int (n * 2 ^ nat (- e)) \<le> q / pow2 e"
    using assms(1) by (simp only: flip: int_div_pow2 [OF e]) (simp add: divide_right_mono less_imp_le)
  then have "n * 2 ^ nat (- e) \<le> round_half_even (q / pow2 e)"
    by (rule round_half_even_mono_int)
  then have "of_int (n * 2 ^ nat (- e)) * pow2 e
             \<le> of_int (round_half_even (q / pow2 e)) * pow2 e"
    by (intro mult_right_mono) (simp_all only: of_int_le_iff less_imp_le pow2_pos)
  moreover have "of_int (n * 2 ^ nat (- e)) * pow2 e = of_int n"
    using e by (simp only: flip: int_div_pow2) simp
  ultimately have "of_int n \<le> of_int (round_half_even (q / pow2 e)) * pow2 e"
    by (simp only:)
  then show ?thesis using False by (simp add: rnd_def e_def)
qed (use assms in \<open>simp add: rnd_def\<close>)

lemma rnd_of_int [simp]:
  assumes "\<bar>n\<bar> < 2 ^ 53"
  shows "rnd (of_int n) = of_int n"
proof -
  have "\<bar>rat_of_int n\<bar> < 2 ^ 53"
    using assms by (metis of_int_abs of_int_less_numeral_power_cancel_iff)
  then show ?thesis
    using rnd_le_int [of "of_int n" n] rnd_ge_int [of n "of_int n"] by simp
qed

lemma dbl_mul_unit_bounds:
  assumes "0 \<le> x" and "x \<le> 1" and "0 \<le> w" and "w < 2 ^ 53"
  shows "0 \<le> dbl_mul x (of_int w)" and "dbl_mul x (of_int w) \<le> of_int w"
proof -
  have "x * of_int w \<le> of_int w"
    using assms by (simp add: mult_left_le_one_le)
  moreover have "0 \<le> x * of_int w"
    using assms by simp
  moreover have "rat_of_int w < 2 ^ 53"
    using assms(4) by (metis of_int_less_numeral_power_cancel_iff)
  ultimately show "0 \<le> dbl_mul x (of_int w)" "dbl_mul x (of_int w) \<le> of_int w"
    using rnd_ge_int [of 0 "x * of_int w"] rnd_le_int [of "x * of_int w" w]
    by (simp_all add: dbl_mul_def)
qed

lemma dbl_trunc_bounds:
  "of_int a \<le> q \<Longrightarrow> q \<le> of_int b \<Longrightarrow> a \<le> dbl_trunc q \<and> dbl_trunc q \<le> b"
  unfolding dbl_trunc_def by (simp add: le_floor_iff floor_le_iff le_ceiling_iff ceiling_le_iff; linarith)

lemma lround_bounds:
  "of_int a \<le> q \<Longrightarrow> q \<le> of_int b \<Longrightarrow> a \<le> lround q \<and> lround q \<le> b"
  unfolding lround_def by (simp add: le_floor_iff floor_le_iff le_ceiling_iff ceiling_le_iff; linarith)

subsection \<open>\<^verbatim>\<open>std::from_chars\<close>\<close>

datatype errc = ErrOk | InvalidArgument | ResultOutOfRange

text \<open>
  The pattern of \<^verbatim>\<open>std::chars_format::general\<close>: an optional minus, digits with an
  optional point, and an exponent that counts only when it has a digit.  The result is the
  number of characters matched, the error and the value.  A nonzero text that rounds to zero
  or past the largest double is out of range, as in the library the project is built with.
  (\<^verbatim>\<open>inf\<close> and \<^verbatim>\<open>nan\<close> are not matched; the callers have excluded them.)
\<close>

definition from_chars_general :: "string \<Rightarrow> nat \<times> errc \<times> double" where
  "from_chars_general t =
     (let n = length t;
          s0 = (if 0 < n \<and> t ! 0 = CHR ''-'' then 1 else 0);
          i1 = skip_while is_digit t s0;
          i2 = (if i1 < n \<and> t ! i1 = CHR ''.'' then skip_while is_digit t (Suc i1) else i1);
          frac = (if i1 < i2 then slice t (Suc i1) i2 else []);
          ds = slice t s0 i1 @ frac;
          j = (if Suc i2 < n \<and> (t ! Suc i2 = CHR ''+'' \<or> t ! Suc i2 = CHR ''-'') then Suc (Suc i2) else Suc i2);
          k = skip_while is_digit t j;
          has_exp = (i2 < n \<and> (t ! i2 = CHR ''e'' \<or> t ! i2 = CHR ''E'') \<and> j < k);
          ex = (if has_exp then (if t ! Suc i2 = CHR ''-'' then - int (digits_val (slice t j k))
                                 else int (digits_val (slice t j k)))
                else 0);
          q = of_nat (digits_val ds) * pow10 (ex - int (length frac));
          v = rnd (if s0 = 1 then - q else q)
      in if ds = [] then (0, InvalidArgument, 0)
         else if q \<noteq> 0 \<and> (v = 0 \<or> dbl_max < \<bar>v\<bar>) then ((if has_exp then k else i2), ResultOutOfRange, 0)
         else ((if has_exp then k else i2), ErrOk, v))"

end
