(* ===== verification/JsonScan.thy ===== *)
theory JsonScan
  imports Floating
begin

text \<open>
  The field scanner of \<^verbatim>\<open>src/src/net/Protocol.cpp\<close>: the functions that find
  a member of the root JSON object of a control message and read it as a string, a number, a
  number token or a boolean.  An index is a \<open>nat\<close>, \<^verbatim>\<open>npos\<close> is \<open>None\<close>;
  every \<open>json ! i\<close> below is under the bound check that the code makes before it.
\<close>

subsection \<open>Locating a member of the root object\<close>

text \<open>The loop over the characters of a string literal: the index of the closing quote (or
  the size) and whether an escape was seen.\<close>

function scan_string :: "string \<Rightarrow> nat \<Rightarrow> bool \<Rightarrow> bool \<Rightarrow> nat \<times> bool" where
  "scan_string json i escaped kesc =
     (if i < length json then
        (if escaped then scan_string json (Suc i) False True
         else if json ! i = CHR 0x5C then scan_string json (Suc i) True kesc
         else if json ! i = CHR 0x22 then (i, kesc)
         else scan_string json (Suc i) False kesc)
      else (i, kesc))"
  by pat_completeness auto
termination
  by (relation "measure (\<lambda>(json, i, e, k). length json - i)") auto

declare scan_string.simps [simp del]

lemma scan_string_ge [bounds]: "i \<le> fst (scan_string json i e k)"
proof (induction json i e k rule: scan_string.induct)
  case (1 json i e k)
  then show ?case
    by (cases "i < length json") (auto simp: scan_string.simps [of json i e k] dest: Suc_leD)
qed

text \<open>\<^verbatim>\<open>while (previous > root && isspace(json[previous - 1])) --previous;\<close>\<close>

fun skip_back :: "string \<Rightarrow> nat \<Rightarrow> nat \<Rightarrow> nat" where
  "skip_back json rt p =
     (if rt < p \<and> is_space (json ! (p - 1)) then skip_back json rt (p - 1) else p)"

declare skip_back.simps [simp del]

definition opens :: "char \<Rightarrow> bool" where
  "opens c \<longleftrightarrow> c = CHR 0x7B \<or> c = CHR ''[''"

definition closes :: "char \<Rightarrow> bool" where
  "closes c \<longleftrightarrow> c = CHR 0x7D \<or> c = CHR '']''"

function find_loop :: "string \<Rightarrow> string \<Rightarrow> nat \<Rightarrow> nat \<Rightarrow> int \<Rightarrow> nat option" where
  "find_loop json key rt pos depth =
     (if pos < length json \<and> 0 < depth then
        (let c = json ! pos in
         if opens c then find_loop json key rt (Suc pos) (depth + 1)
         else if closes c then find_loop json key rt (Suc pos) (depth - 1)
         else if c \<noteq> CHR 0x22 then find_loop json key rt (Suc pos) depth
         else
           (let stringStart = Suc pos;
                stringEnd = fst (scan_string json stringStart False False);
                keyHasEscape = snd (scan_string json stringStart False False) in
            if length json \<le> stringEnd then None
            else
              (let previous = skip_back json rt pos;
                   memberName = (depth = 1 \<and> rt < previous \<and>
                     (json ! (previous - 1) = CHR 0x7B \<or> json ! (previous - 1) = CHR '','')) in
               if memberName \<and> \<not> keyHasEscape \<and> slice json stringStart stringEnd = key then
                 (let colon = skip_while is_space json (Suc stringEnd) in
                  if length json \<le> colon \<or> json ! colon \<noteq> CHR '':'' then None
                  else Some (skip_while is_space json (Suc colon)))
               else find_loop json key rt (Suc stringEnd) depth)))
      else None)"
  by pat_completeness auto
termination
proof (relation "measure (\<lambda>(json, key, rt, pos, depth). length json - pos)", goal_cases)
  case (5 json key rt pos depth c stringStart stringEnd keyHasEscape previous memberName)
  then show ?case
    using scan_string_ge [of "Suc pos" json False False] by auto
qed auto

declare find_loop.simps [simp del]

definition FindValueStart :: "string \<Rightarrow> string \<Rightarrow> nat option" where
  "FindValueStart json key =
     (let rt = skip_while is_space json 0 in
      if length json \<le> rt \<or> json ! rt \<noteq> CHR 0x7B then None
      else find_loop json key rt (Suc rt) 1)"

subsection \<open>Reading a field\<close>

definition FindStringField :: "string \<Rightarrow> string \<Rightarrow> string option" where
  "FindStringField json key =
     (case FindValueStart json key of
        None \<Rightarrow> None
      | Some start \<Rightarrow>
          (if length json \<le> start \<or> json ! start \<noteq> CHR 0x22 then None
           else (case find_first (\<lambda>c. c = CHR 0x22) json (Suc start) of
                   None \<Rightarrow> None
                 | Some e \<Rightarrow> Some (slice json (Suc start) e))))"

text \<open>The JSON number grammar: the end of the number that starts at \<open>start\<close>, if any.\<close>

definition number_int :: "string \<Rightarrow> nat \<Rightarrow> nat option" where
  "number_int json e =
     (if length json \<le> e then None
      else if json ! e = CHR ''0'' then
        (if Suc e < length json \<and> is_digit (json ! Suc e) then None else Some (Suc e))
      else if CHR ''1'' \<le> json ! e \<and> json ! e \<le> CHR ''9'' then
        Some (skip_while is_digit json (Suc e))
      else None)"

definition number_frac :: "string \<Rightarrow> nat \<Rightarrow> nat option" where
  "number_frac json e =
     (if e < length json \<and> json ! e = CHR ''.'' then
        (let e' = skip_while is_digit json (Suc e) in if e' = Suc e then None else Some e')
      else Some e)"

definition number_exp :: "string \<Rightarrow> nat \<Rightarrow> nat option" where
  "number_exp json e =
     (if e < length json \<and> (json ! e = CHR ''e'' \<or> json ! e = CHR ''E'') then
        (let s = (if Suc e < length json \<and> (json ! Suc e = CHR ''+'' \<or> json ! Suc e = CHR ''-'')
                  then Suc (Suc e) else Suc e);
             e' = skip_while is_digit json s
         in if e' = s then None else Some e')
      else Some e)"

definition number_end :: "string \<Rightarrow> nat \<Rightarrow> nat option" where
  "number_end json start =
     (let s = (if start < length json \<and> json ! start = CHR ''-'' then Suc start else start) in
      Option.bind (number_int json s) (\<lambda>e1.
      Option.bind (number_frac json e1) (\<lambda>e2. number_exp json e2)))"

definition FindNumberField :: "string \<Rightarrow> string \<Rightarrow> double option" where
  "FindNumberField json key =
     (case FindValueStart json key of
        None \<Rightarrow> None
      | Some start \<Rightarrow>
          (case number_end json start of
             None \<Rightarrow> None
           | Some e \<Rightarrow>
               (let delimiter = skip_while is_space json e in
                if length json \<le> delimiter \<or> (json ! delimiter \<noteq> CHR '','' \<and> json ! delimiter \<noteq> CHR 0x7D)
                then None
                else (let token = slice json start e in
                      case from_chars_general token of
                        (parsed, err, v) \<Rightarrow>
                          if err \<noteq> ErrOk \<or> parsed \<noteq> length token then None else Some v))))"

definition is_token_char :: "char \<Rightarrow> bool" where
  "is_token_char c \<longleftrightarrow> is_digit c \<or> c = CHR ''-'' \<or> c = CHR ''+'' \<or> c = CHR ''.'' \<or> c = CHR ''e'' \<or> c = CHR ''E''"

definition FindNumberToken :: "string \<Rightarrow> string \<Rightarrow> string option" where
  "FindNumberToken json key =
     (case FindValueStart json key of
        None \<Rightarrow> None
      | Some start \<Rightarrow>
          (if FindNumberField json key = None then None
           else Some (slice json start (skip_while is_token_char json start))))"

definition IsValidJsonNumber :: "string \<Rightarrow> bool" where
  "IsValidJsonNumber token =
     (let object = [CHR 0x7B, CHR 0x22, CHR ''n'', CHR 0x22, CHR '':''] @ token @ [CHR 0x7D] in
      case FindNumberToken object ''n'' of
        None \<Rightarrow> False
      | Some parsed \<Rightarrow> length parsed = length token)"

definition int32_min :: int where "int32_min = - (2 ^ 31)"
definition int32_max :: int where "int32_max = 2 ^ 31 - 1"

definition NumberToInt :: "double option \<Rightarrow> int \<Rightarrow> int" where
  "NumberToInt value fallback =
     (case value of
        None \<Rightarrow> fallback
      | Some v \<Rightarrow>
          (if v < of_int int32_min \<or> of_int int32_max < v \<or> of_int (dbl_trunc v) \<noteq> v then fallback
           else dbl_trunc v))"

definition FindBoolField :: "string \<Rightarrow> string \<Rightarrow> bool option" where
  "FindBoolField json key =
     (case FindValueStart json key of
        None \<Rightarrow> None
      | Some start \<Rightarrow>
          (let rest = drop start json in
           if starts_with ''true'' rest then Some True
           else if starts_with ''false'' rest then Some False
           else None))"

end
