(* ===== verification/Protocol.thy ===== *)
theory Protocol
  imports JsonScan
begin

text \<open>
  The control messages of the OpenDisplay wire protocol
  (\<^verbatim>\<open>src/src/net/Protocol.h\<close>, \<^verbatim>\<open>src/src/net/Protocol.cpp\<close>):
  classification of a payload, parsing of the receiver's messages and serialisation of the
  sender's.  The clock that \<^verbatim>\<open>SerializePong\<close> samples is an argument.
\<close>

subsection \<open>The message types\<close>

datatype ControlType =
  Hello | Ping | Touch | Scroll | Pencil | Proximity | Kf | Stats | Sleeping | Closing | UnknownType

datatype TouchPhase = Began | Moved | Ended | Cancelled | UnknownTouch

datatype PencilPhase = Hover | Down | Move | Up | UnknownPencil

record HelloMsg =
  pixelsWide :: int
  pixelsHigh :: int
  scale :: int
  device :: string
  hello_id :: string
  pv :: int

record TouchMsg =
  touch_phase :: TouchPhase
  touch_x :: double
  touch_y :: double

record ScrollMsg =
  scroll_dx :: double
  scroll_dy :: double

record PencilMsg =
  pencil_phase :: PencilPhase
  pencil_x :: double
  pencil_y :: double
  pressure :: double
  azimuth :: double
  altitude :: double

record ProximityMsg =
  entering :: bool
  prox_x :: double
  prox_y :: double

text \<open>\<^verbatim>\<open>kPencilAltitudeUpright\<close>, the double nearest to \<^verbatim>\<open>1.5707963267948966\<close>.\<close>

definition kPencilAltitudeUpright :: double where
  "kPencilAltitudeUpright = 884279719003555 / 562949953421312"

record ControlMessage =
  msg_type :: ControlType
  hello :: HelloMsg
  ping_t :: string
  touch :: TouchMsg
  scroll :: ScrollMsg
  pencil :: PencilMsg
  proximity :: ProximityMsg
  stats_json :: string

definition HelloMsg_default :: HelloMsg where
  "HelloMsg_default = \<lparr>pixelsWide = 0, pixelsHigh = 0, scale = 1, device = [], hello_id = [], pv = 1\<rparr>"

definition TouchMsg_default :: TouchMsg where
  "TouchMsg_default = \<lparr>touch_phase = UnknownTouch, touch_x = 0, touch_y = 0\<rparr>"

definition ScrollMsg_default :: ScrollMsg where
  "ScrollMsg_default = \<lparr>scroll_dx = 0, scroll_dy = 0\<rparr>"

definition PencilMsg_default :: PencilMsg where
  "PencilMsg_default = \<lparr>pencil_phase = UnknownPencil, pencil_x = 0, pencil_y = 0, pressure = 0,
     azimuth = 0, altitude = kPencilAltitudeUpright\<rparr>"

definition ProximityMsg_default :: ProximityMsg where
  "ProximityMsg_default = \<lparr>entering = False, prox_x = 0, prox_y = 0\<rparr>"

definition ControlMessage_default :: ControlMessage where
  "ControlMessage_default = \<lparr>msg_type = UnknownType, hello = HelloMsg_default, ping_t = [],
     touch = TouchMsg_default, scroll = ScrollMsg_default, pencil = PencilMsg_default,
     proximity = ProximityMsg_default, stats_json = []\<rparr>"

subsection \<open>Classification and parsing\<close>

definition HelloMatchesExpectedDevice :: "HelloMsg \<Rightarrow> string \<Rightarrow> bool" where
  "HelloMatchesExpectedDevice h expectedId \<longleftrightarrow>
     expectedId = [] \<or> (hello_id h \<noteq> [] \<and> hello_id h = expectedId)"

text \<open>A null pointer with a size is not representable; the empty payload is.\<close>

definition IsControlPayload :: "bytes \<Rightarrow> bool" where
  "IsControlPayload data =
     (if data = [] \<or> 32768 \<le> length data then False
      else if data ! 0 \<noteq> byte_of_char (CHR 0x7B) then False
      else list_all (\<lambda>b. b \<noteq> 0) data)"

definition AsView :: "bytes \<Rightarrow> string" where
  "AsView data = text_of data"

definition ParseTouchPhase :: "string \<Rightarrow> TouchPhase" where
  "ParseTouchPhase p =
     (if p = ''began'' then Began
      else if p = ''moved'' then Moved
      else if p = ''ended'' then Ended
      else if p = ''cancelled'' then Cancelled
      else UnknownTouch)"

definition ParsePencilPhase :: "string \<Rightarrow> PencilPhase" where
  "ParsePencilPhase p =
     (if p = ''hover'' then Hover
      else if p = ''down'' then Down
      else if p = ''move'' then Move
      else if p = ''up'' then Up
      else UnknownPencil)"

definition parse_hello :: "string \<Rightarrow> HelloMsg" where
  "parse_hello json =
     \<lparr>pixelsWide = NumberToInt (FindNumberField json ''pixelsWide'') 0,
      pixelsHigh = NumberToInt (FindNumberField json ''pixelsHigh'') 0,
      scale = NumberToInt (FindNumberField json ''scale'') 1,
      device = value_or (FindStringField json ''device'') [],
      hello_id = value_or (FindStringField json ''id'') [],
      pv = NumberToInt (FindNumberField json ''pv'') 1\<rparr>"

definition parse_touch :: "string \<Rightarrow> TouchMsg" where
  "parse_touch json =
     \<lparr>touch_phase = ParseTouchPhase (value_or (FindStringField json ''phase'') []),
      touch_x = value_or (FindNumberField json ''x'') 0,
      touch_y = value_or (FindNumberField json ''y'') 0\<rparr>"

definition parse_scroll :: "string \<Rightarrow> ScrollMsg" where
  "parse_scroll json =
     \<lparr>scroll_dx = value_or (FindNumberField json ''dx'') 0,
      scroll_dy = value_or (FindNumberField json ''dy'') 0\<rparr>"

definition parse_pencil :: "string \<Rightarrow> PencilMsg" where
  "parse_pencil json =
     \<lparr>pencil_phase = ParsePencilPhase (value_or (FindStringField json ''phase'') []),
      pencil_x = value_or (FindNumberField json ''x'') 0,
      pencil_y = value_or (FindNumberField json ''y'') 0,
      pressure = value_or (FindNumberField json ''pressure'') 0,
      azimuth = value_or (FindNumberField json ''azimuth'') 0,
      altitude = value_or (FindNumberField json ''altitude'') kPencilAltitudeUpright\<rparr>"

definition parse_proximity :: "string \<Rightarrow> ProximityMsg" where
  "parse_proximity json =
     \<lparr>entering = value_or (FindBoolField json ''entering'') False,
      prox_x = value_or (FindNumberField json ''x'') 0,
      prox_y = value_or (FindNumberField json ''y'') 0\<rparr>"

definition ParseControlMessage :: "bytes \<Rightarrow> ControlMessage option" where
  "ParseControlMessage data =
     (let json = AsView data; msg = ControlMessage_default in
      case FindStringField json ''type'' of
        None \<Rightarrow> None
      | Some type \<Rightarrow>
          Some (if type = ''hello'' then msg\<lparr>msg_type := Hello, hello := parse_hello json\<rparr>
           else if type = ''ping'' then
             (case FindNumberToken json ''t'' of
                None \<Rightarrow> msg\<lparr>msg_type := Ping\<rparr>
              | Some timestamp \<Rightarrow> msg\<lparr>msg_type := Ping, ping_t := timestamp\<rparr>)
           else if type = ''touch'' then msg\<lparr>msg_type := Touch, touch := parse_touch json\<rparr>
           else if type = ''scroll'' then msg\<lparr>msg_type := Scroll, scroll := parse_scroll json\<rparr>
           else if type = ''pencil'' then msg\<lparr>msg_type := Pencil, pencil := parse_pencil json\<rparr>
           else if type = ''proximity'' then
             msg\<lparr>msg_type := Proximity, proximity := parse_proximity json\<rparr>
           else if type = ''kf'' then msg\<lparr>msg_type := Kf\<rparr>
           else if type = ''stats'' then msg\<lparr>msg_type := Stats, stats_json := json\<rparr>
           else if type = ''sleeping'' then msg\<lparr>msg_type := Sleeping\<rparr>
           else if type = ''closing'' then msg\<lparr>msg_type := Closing\<rparr>
           else msg\<lparr>msg_type := UnknownType\<rparr>))"

subsection \<open>Serialisation\<close>

text \<open>The sender's fixed texts, with the JSON quotes (byte 34) and braces written by code.\<close>

abbreviation dq :: char where "dq \<equiv> CHR 0x22"
abbreviation lbrace :: char where "lbrace \<equiv> CHR 0x7B"
abbreviation rbrace :: char where "rbrace \<equiv> CHR 0x7D"

definition quoted :: "string \<Rightarrow> string" where
  "quoted s = [dq] @ s @ [dq]"

definition SerializeWelcome :: string where
  "SerializeWelcome =
     [lbrace] @ quoted ''type'' @ '':'' @ quoted ''welcome'' @ '','' @ quoted ''pv'' @ '':3,''
       @ quoted ''min'' @ '':1'' @ [rbrace]"

definition SerializePong :: "int \<Rightarrow> string \<Rightarrow> string option" where
  "SerializePong now echoedT =
     (if \<not> IsValidJsonNumber echoedT then None
      else Some ([lbrace] @ quoted ''type'' @ '':'' @ quoted ''pong'' @ '','' @ quoted ''t'' @ '':''
                 @ echoedT @ '','' @ quoted ''mt'' @ '':'' @ show_int now @ [rbrace]))"

end
