(* ===== verification/ControlText.thy ===== *)
theory ControlText
  imports Protocol
begin

text \<open>
  The texts a control message can be, as data, and what the scanner of
  \<^verbatim>\<open>Protocol.cpp\<close> finds in them.  An \<open>item\<close> is a character outside
  strings and brackets, a string literal or a bracketed group; a \<open>member\<close> is a
  member of the root object with its white space.  \<open>render_doc\<close> writes the text.
\<close>

datatype item = Ch char | Str string | Grp char "item list" char

fun render_item :: "item \<Rightarrow> string" where
  "render_item (Ch c) = [c]"
| "render_item (Str b) = [dq] @ b @ [dq]"
| "render_item (Grp a its b) = [a] @ concat (map render_item its) @ [b]"

definition render :: "item list \<Rightarrow> string" where
  "render its = concat (map render_item its)"

text \<open>The body of a string literal: no bare quote, no dangling backslash.\<close>

fun str_body :: "string \<Rightarrow> bool" where
  "str_body [] = True"
| "str_body (c # s) =
     (if c = CHR 0x5C then (case s of [] \<Rightarrow> False | _ # t \<Rightarrow> str_body t) else c \<noteq> dq \<and> str_body s)"

definition plain_char :: "char \<Rightarrow> bool" where
  "plain_char c \<longleftrightarrow> c \<noteq> dq \<and> \<not> opens c \<and> \<not> closes c"

fun wf_item :: "item \<Rightarrow> bool" where
  "wf_item (Ch c) = plain_char c"
| "wf_item (Str b) = str_body b"
| "wf_item (Grp a its b) = (opens a \<and> closes b \<and> list_all wf_item its)"

fun no_str :: "item \<Rightarrow> bool" where
  "no_str (Str b) = False"
| "no_str _ = True"

text \<open>A member value: one string literal, or literals and bracketed groups.\<close>

definition wf_value :: "item list \<Rightarrow> bool" where
  "wf_value v \<longleftrightarrow> list_all wf_item v \<and> v \<noteq> [] \<and> \<not> is_space (hd (render v)) \<and>
     (list_all no_str v \<or> (case v of [Str b] \<Rightarrow> True | _ \<Rightarrow> False))"

record member =
  m_ws1 :: string
  m_key :: string
  m_ws2 :: string
  m_ws3 :: string
  m_value :: "item list"
  m_ws4 :: string

definition wf_member :: "member \<Rightarrow> bool" where
  "wf_member m \<longleftrightarrow> list_all is_space (m_ws1 m) \<and> str_body (m_key m) \<and> list_all is_space (m_ws2 m) \<and>
     list_all is_space (m_ws3 m) \<and> wf_value (m_value m) \<and> list_all is_space (m_ws4 m)"

text \<open>The text of a member up to its value, and the whole.\<close>

definition member_head :: "member \<Rightarrow> string" where
  "member_head m = m_ws1 m @ [dq] @ m_key m @ [dq] @ m_ws2 m @ '':'' @ m_ws3 m"

definition render_member :: "member \<Rightarrow> string" where
  "render_member m = member_head m @ render (m_value m) @ m_ws4 m"

fun render_members :: "member list \<Rightarrow> string" where
  "render_members [] = []"
| "render_members [m] = render_member m"
| "render_members (m # n # ms) = render_member m @ '','' @ render_members (n # ms)"

definition render_doc :: "string \<Rightarrow> member list \<Rightarrow> string \<Rightarrow> string" where
  "render_doc ws ms rest = ws @ [lbrace] @ render_members ms @ [rbrace] @ rest"

text \<open>The member the scanner has to find: the first of the root with that name.\<close>

definition root_member :: "string \<Rightarrow> member list \<Rightarrow> member option" where
  "root_member key ms = find (\<lambda>m. m_key m = key) ms"

text \<open>Where its value starts, \<open>off\<close> being where the text of \<open>ms\<close> starts.\<close>

fun value_offset :: "string \<Rightarrow> nat \<Rightarrow> member list \<Rightarrow> nat option" where
  "value_offset key off [] = None"
| "value_offset key off (m # ms) =
     (if m_key m = key then Some (off + length (member_head m))
      else value_offset key (off + length (render_member m) + 1) ms)"

subsection \<open>String literals and brackets\<close>

lemma scan_string_body:
  "str_body b \<Longrightarrow> scan_string (pre @ b @ dq # post) (length pre) False k =
     (length pre + length b, k \<or> CHR 0x5C \<in> set b)"
proof (induction b arbitrary: pre k rule: str_body.induct)
  case 1
  show ?case by (simp add: scan_string.simps)
next
  case (2 c s)
  let ?j = "pre @ (c # s) @ dq # post"
  show ?case
  proof (cases "c = CHR 0x5C")
    case True
    with "2.prems" obtain d t where s: "s = d # t" "str_body t" by (cases s) auto
    have "scan_string ?j (length pre) False k = scan_string ?j (Suc (length pre)) True k"
      using True by (subst scan_string.simps) simp
    also have "\<dots> = scan_string ?j (Suc (Suc (length pre))) False True"
      using s by (subst scan_string.simps) simp
    also have "\<dots> = (length pre + length (c # s), True)"
      using "2.IH"(1) [OF True s(1,2), of "pre @ [c, d]" True] s by simp
    finally show ?thesis using True by simp
  next
    case False
    with "2.prems" have c: "c \<noteq> dq" "str_body s" by simp_all
    have "scan_string ?j (length pre) False k = scan_string ?j (Suc (length pre)) False k"
      using False c by (subst scan_string.simps) simp
    also have "\<dots> = (length pre + length (c # s), k \<or> CHR 0x5C \<in> set s)"
      using "2.IH"(2) [OF False c(2), of "pre @ [c]" k] by simp
    finally show ?thesis using False by auto
  qed
qed

lemma skip_back_stop:
  "list_all is_space ws \<Longrightarrow> \<not> is_space c \<Longrightarrow> rt \<le> length pre \<Longrightarrow>
   skip_back (pre @ [c] @ ws @ post) rt (Suc (length pre) + length ws) = Suc (length pre)"
proof (induction ws arbitrary: post rule: rev_induct)
  case Nil
  then show ?case by (simp add: skip_back.simps)
next
  case (snoc x ws)
  have "skip_back (pre @ [c] @ (ws @ [x]) @ post) rt (Suc (length pre) + length (ws @ [x])) =
        skip_back (pre @ [c] @ ws @ (x # post)) rt (Suc (length pre) + length ws)"
    using snoc.prems
    by (subst skip_back.simps) (simp add: nth_append nth_Cons')
  also have "\<dots> = Suc (length pre)"
    using snoc.prems by (intro snoc.IH) simp_all
  finally show ?case .
qed

subsection \<open>One step of the scan\<close>

lemma delimiters_distinct [simp]:
  "\<not> opens dq" "\<not> closes dq" "\<not> (opens c \<and> closes c)"
  "opens c \<Longrightarrow> \<not> closes c" "closes c \<Longrightarrow> \<not> opens c" "opens lbrace" "closes rbrace"
  "plain_char CHR '',''" "plain_char CHR '':''"
  by (auto simp: opens_def closes_def plain_char_def)

lemma opens_not_quote [simp]: "opens c \<Longrightarrow> c \<noteq> dq"
  by (auto simp: opens_def)

lemma space_plain [simp]: "is_space c \<Longrightarrow> plain_char c"
  by (auto simp: is_space_def plain_char_def opens_def closes_def)

lemma find_loop_plain:
  assumes "plain_char c" and "0 < d"
  shows "find_loop (pre @ c # post) key rt (length pre) d =
         find_loop (pre @ c # post) key rt (Suc (length pre)) d"
  using assms by (subst find_loop.simps) (simp add: plain_char_def Let_def)

lemma find_loop_open:
  assumes "opens c" and "0 < d"
  shows "find_loop (pre @ c # post) key rt (length pre) d =
         find_loop (pre @ c # post) key rt (Suc (length pre)) (d + 1)"
  using assms by (subst find_loop.simps) (simp add: Let_def)

lemma find_loop_close:
  assumes "closes c" and "0 < d"
  shows "find_loop (pre @ c # post) key rt (length pre) d =
         find_loop (pre @ c # post) key rt (Suc (length pre)) (d - 1)"
  using assms by (subst find_loop.simps) (simp add: Let_def)

lemma find_loop_stop: "d \<le> 0 \<Longrightarrow> find_loop json key rt pos d = None"
  by (subst find_loop.simps) simp

lemma find_loop_end: "length json \<le> pos \<Longrightarrow> find_loop json key rt pos d = None"
  by (subst find_loop.simps) simp

text \<open>A quote at \<open>pos\<close> opens a member name when only white space separates it from the root
  brace or a comma.\<close>

definition at_name :: "string \<Rightarrow> nat \<Rightarrow> nat \<Rightarrow> bool" where
  "at_name json rt pos \<longleftrightarrow> rt < skip_back json rt pos \<and>
     (json ! (skip_back json rt pos - 1) = lbrace \<or> json ! (skip_back json rt pos - 1) = CHR '','')"

lemma find_loop_string:
  fixes pre post :: string
  assumes "str_body b" and "0 < d"
  defines "J \<equiv> pre @ [dq] @ b @ [dq] @ post"
  shows "find_loop J key rt (length pre) d =
    (if d = 1 \<and> at_name J rt (length pre) \<and> CHR 0x5C \<notin> set b \<and> b = key then
       (let colon = skip_while is_space J (length pre + length b + 2) in
        if length J \<le> colon \<or> J ! colon \<noteq> CHR '':'' then None
        else Some (skip_while is_space J (Suc colon)))
     else find_loop J key rt (length pre + length b + 2) d)"
proof -
  have scan: "scan_string J (Suc (length pre)) False False =
      (Suc (length pre + length b), CHR 0x5C \<in> set b)"
    using scan_string_body [OF assms(1), of "pre @ [dq]" post False] by (simp add: J_def)
  have sl: "slice J (Suc (length pre)) (Suc (length pre + length b)) = b"
    using slice_middle [of "pre @ [dq]" b "[dq] @ post"] by (simp add: J_def)
  have len: "Suc (length pre + length b) < length J" "length pre < length J" "J ! length pre = dq"
    by (simp_all add: J_def)
  show ?thesis
    by (subst find_loop.simps)
       (use len assms(2) in \<open>simp add: Let_def scan sl at_name_def eval_nat_numeral cong: if_cong split del: if_split\<close>)
qed

subsection \<open>Skipping a value\<close>

lemma at_name_after:
  assumes "list_all is_space ws" and "\<not> is_space c" and "rt \<le> length pre"
  shows "at_name (pre @ [c] @ ws @ post) rt (Suc (length pre) + length ws) \<longleftrightarrow> c = lbrace \<or> c = CHR '',''"
  using skip_back_stop [OF assms] assms(3) by (simp add: at_name_def)

definition skips :: "string \<Rightarrow> int \<Rightarrow> string \<Rightarrow> nat \<Rightarrow> bool" where
  "skips key d s rt \<longleftrightarrow> (\<forall>pre post. find_loop (pre @ s @ post) key rt (length pre) d =
     find_loop (pre @ s @ post) key rt (length pre + length s) d)"

lemma skips_Nil [simp]: "skips key d [] rt"
  by (simp add: skips_def)

lemma skips_append:
  assumes "skips key d s rt" and "skips key d t rt"
  shows "skips key d (s @ t) rt"
  unfolding skips_def
proof (intro allI)
  fix pre post
  have "find_loop (pre @ s @ (t @ post)) key rt (length pre) d =
        find_loop (pre @ s @ (t @ post)) key rt (length pre + length s) d"
    using assms(1) by (simp only: skips_def)
  moreover have "find_loop ((pre @ s) @ t @ post) key rt (length (pre @ s)) d =
        find_loop ((pre @ s) @ t @ post) key rt (length (pre @ s) + length t) d"
    using assms(2) by (simp only: skips_def)
  ultimately show "find_loop (pre @ (s @ t) @ post) key rt (length pre) d =
        find_loop (pre @ (s @ t) @ post) key rt (length pre + length (s @ t)) d"
    by (simp add: add.assoc)
qed

lemma skips_plain:
  "list_all plain_char s \<Longrightarrow> 0 < d \<Longrightarrow> skips key d s rt"
proof (induction s)
  case (Cons c s)
  have "skips key d [c] rt"
    using Cons.prems by (simp add: skips_def find_loop_plain)
  with Cons skips_append [of key d "[c]" rt s] show ?case by simp
qed simp

lemma skips_group:
  assumes "opens a" and "closes b" and "skips key (d + 1) s rt" and "0 < d"
  shows "skips key d ([a] @ s @ [b]) rt"
  unfolding skips_def
proof (intro allI)
  fix pre post
  let ?J = "pre @ ([a] @ s @ [b]) @ post"
  have "find_loop ?J key rt (length pre) d = find_loop ?J key rt (Suc (length pre)) (d + 1)"
    using find_loop_open [OF assms(1,4), of pre "s @ [b] @ post"] by simp
  also have "\<dots> = find_loop ?J key rt (Suc (length pre) + length s) (d + 1)"
    using assms(3) [unfolded skips_def, rule_format, of "pre @ [a]" "[b] @ post"] by simp
  also have "\<dots> = find_loop ?J key rt (Suc (Suc (length pre) + length s)) (d + 1 - 1)"
    using find_loop_close [OF assms(2), of "d + 1" "pre @ [a] @ s" post] assms(4) by simp
  finally show "find_loop ?J key rt (length pre) d =
      find_loop ?J key rt (length pre + length ([a] @ s @ [b])) d"
    by simp
qed

lemma skips_string: "str_body b \<Longrightarrow> 1 < d \<Longrightarrow> skips key d ([dq] @ b @ [dq]) rt"
  using find_loop_string [of b d] by (simp add: skips_def)

lemma skips_concat:
  "(\<And>it. it \<in> set its \<Longrightarrow> skips key d (render_item it) rt) \<Longrightarrow> skips key d (render its) rt"
  by (induction its) (simp_all add: render_def skips_append)

lemma skips_item: "wf_item it \<Longrightarrow> 1 < d \<or> (0 < d \<and> no_str it) \<Longrightarrow> skips key d (render_item it) rt"
proof (induction it arbitrary: d)
  case (Ch c)
  then show ?case using skips_plain [of "[c]" d] by auto
next
  case (Str b)
  then show ?case using skips_string [of b d] by simp
next
  case (Grp a its b)
  have "skips key (d + 1) (render its) rt"
    using Grp by (intro skips_concat Grp.IH) (auto simp: list_all_iff)
  with Grp.prems skips_group [of a b key d "render its" rt] show ?case
    by (auto simp: render_def)
qed

subsection \<open>One member of the root\<close>

lemma find_loop_skips:
  "skips key d s rt \<Longrightarrow> find_loop (pre @ s @ post) key rt (length pre) d =
     find_loop (pre @ s @ post) key rt (length pre + length s) d"
  by (simp only: skips_def)

lemma skips_spaces: "list_all is_space ws \<Longrightarrow> 0 < d \<Longrightarrow> skips key d ws rt"
  by (intro skips_plain) (auto simp: list_all_iff)

lemma render_hd: "render v \<noteq> []" if "v \<noteq> []"
proof (cases v)
  case (Cons it its)
  then show ?thesis by (cases it) (simp_all add: render_def)
qed (use that in simp)

text \<open>The value is skipped behind the colon, with the white space around it.\<close>

lemma find_loop_value:
  fixes pre post :: string
  assumes "wf_value v" and "list_all is_space ws" and "rt \<le> length pre"
  defines "J \<equiv> (pre @ '':'' @ ws) @ render v @ post"
  shows "find_loop J key rt (length (pre @ '':'' @ ws)) 1 =
         find_loop J key rt (length (pre @ '':'' @ ws) + length (render v)) 1"
proof (cases "list_all no_str v")
  case True
  have "skips key 1 (render v) rt"
    using assms(1) True by (intro skips_concat skips_item) (auto simp: wf_value_def list_all_iff)
  then show ?thesis unfolding J_def by (rule find_loop_skips)
next
  case False
  with assms(1) obtain b where v: "v = [Str b]"
    by (auto simp: wf_value_def split: list.splits item.splits)
  have b: "str_body b" using assms(1) by (simp add: v wf_value_def)
  have J: "J = (pre @ '':'' @ ws) @ [dq] @ b @ [dq] @ post"
    by (simp add: J_def v render_def)
  have "\<not> at_name J rt (length (pre @ '':'' @ ws))"
    using at_name_after [OF assms(2), of "CHR '':''" rt pre "[dq] @ b @ [dq] @ post"] assms(3)
    by (simp add: J is_space_def)
  then show ?thesis
    using find_loop_string [OF b, of 1 "pre @ '':'' @ ws" post key rt]
    by (simp add: J v render_def)
qed

lemma find_loop_member_skip:
  fixes pre post :: string and c :: char
  assumes m: "wf_member m" and rt: "rt \<le> length pre" and key: "m_key m \<noteq> key"
  defines "J \<equiv> (pre @ [c]) @ render_member m @ post"
  shows "find_loop J key rt (Suc (length pre)) 1 =
         find_loop J key rt (Suc (length pre) + length (render_member m)) 1"
proof -
  let ?p1 = "pre @ [c] @ m_ws1 m"
  let ?p2 = "?p1 @ [dq] @ m_key m @ [dq]"
  let ?p3 = "?p2 @ m_ws2 m"
  let ?p4 = "?p3 @ '':'' @ m_ws3 m"
  let ?p5 = "?p4 @ render (m_value m)"
  let ?r4 = "render (m_value m) @ m_ws4 m @ post"
  let ?r3 = "'':'' @ m_ws3 m @ ?r4"
  let ?r2 = "m_ws2 m @ ?r3"
  note wf = m [unfolded wf_member_def]
  have J: "J = ?p5 @ m_ws4 m @ post"
    by (simp add: J_def render_member_def member_head_def)
  have "find_loop J key rt (length (pre @ [c])) 1 = find_loop J key rt (length ?p1) 1"
    using find_loop_skips [OF skips_spaces, of "m_ws1 m" 1 "pre @ [c]" "[dq] @ m_key m @ [dq] @ ?r2" key rt] wf
    by (simp add: J add.assoc)
  also have "\<dots> = find_loop J key rt (length ?p2) 1"
    using find_loop_string [of "m_key m" 1 ?p1 ?r2 key rt] wf key by (simp add: J add.assoc)
  also have "\<dots> = find_loop J key rt (length ?p3) 1"
    using find_loop_skips [OF skips_spaces, of "m_ws2 m" 1 ?p2 ?r3 key rt] wf
    by (simp add: J add.assoc)
  also have "\<dots> = find_loop J key rt (length (?p3 @ '':'')) 1"
    using find_loop_skips [OF skips_plain, of "'':''" 1 ?p3 "m_ws3 m @ ?r4" key rt]
    by (simp add: J add.assoc)
  also have "\<dots> = find_loop J key rt (length ?p4) 1"
    using find_loop_skips [OF skips_spaces, of "m_ws3 m" 1 "?p3 @ '':''" ?r4 key rt] wf
    by (simp add: J add.assoc)
  also have "\<dots> = find_loop J key rt (length ?p5) 1"
    using find_loop_value [of "m_value m" "m_ws3 m" rt ?p3 "m_ws4 m @ post" key] wf rt by (simp add: J add.assoc)
  also have "\<dots> = find_loop J key rt (length (?p5 @ m_ws4 m)) 1"
    using find_loop_skips [OF skips_spaces, of "m_ws4 m" 1 ?p5 post key rt] wf by (simp add: J add.assoc)
  finally show ?thesis by (simp add: render_member_def member_head_def algebra_simps)
qed

lemma skip_spaces_to:
  assumes "list_all is_space ws" and "\<not> is_space c"
  shows "skip_while is_space (pre @ ws @ c # post) (length pre) = length pre + length ws"
  using assms by (intro skip_while_app) auto

lemma find_loop_member_hit:
  fixes pre post :: string and c :: char
  assumes m: "wf_member m" and rt: "rt \<le> length pre" and key: "m_key m = key" "CHR 0x5C \<notin> set key"
    and c: "c = lbrace \<or> c = CHR '',''"
  defines "J \<equiv> (pre @ [c]) @ render_member m @ post"
  shows "find_loop J key rt (Suc (length pre)) 1 = Some (Suc (length pre) + length (member_head m))"
proof -
  let ?p1 = "pre @ [c] @ m_ws1 m"
  let ?p2 = "?p1 @ [dq] @ m_key m @ [dq]"
  let ?p3 = "?p2 @ m_ws2 m"
  let ?r4 = "render (m_value m) @ m_ws4 m @ post"
  let ?r3 = "'':'' @ m_ws3 m @ ?r4"
  let ?r2 = "m_ws2 m @ ?r3"
  note wf = m [unfolded wf_member_def]
  have J: "J = ?p3 @ '':'' @ m_ws3 m @ ?r4"
    by (simp add: J_def render_member_def member_head_def)
  have ns: "\<not> is_space c" using c by (auto simp: is_space_def)
  obtain h t where v: "?r4 = h # t" "\<not> is_space h"
    using wf render_hd [of "m_value m"] by (cases "render (m_value m)") (auto simp: wf_value_def)
  have "find_loop J key rt (length (pre @ [c])) 1 = find_loop J key rt (length ?p1) 1"
    using find_loop_skips [OF skips_spaces, of "m_ws1 m" 1 "pre @ [c]" "[dq] @ m_key m @ [dq] @ ?r2" key rt] wf
    by (simp add: J add.assoc)
  moreover have "at_name J rt (length ?p1)"
    using at_name_after [of "m_ws1 m" c rt pre "[dq] @ m_key m @ [dq] @ ?r2"] wf ns rt c by (simp add: J add.assoc)
  moreover have colon: "skip_while is_space J (length ?p2) = length ?p3"
    using skip_spaces_to [of "m_ws2 m" "CHR '':''" ?p2 "m_ws3 m @ ?r4"] wf by (simp add: J is_space_def)
  moreover have "skip_while is_space J (Suc (length ?p3)) = Suc (length ?p3) + length (m_ws3 m)"
    using skip_spaces_to [of "m_ws3 m" h "?p3 @ '':''" t] wf v by (simp add: J add.assoc)
  moreover have "J ! length ?p3 = CHR '':''" "length ?p3 < length J"
    by (simp_all add: J nth_append)
  ultimately show ?thesis
    using find_loop_string [of "m_key m" 1 ?p1 ?r2 key rt] wf key
    by (simp add: J member_head_def algebra_simps)
qed

subsection \<open>The root object\<close>

lemma find_loop_members:
  assumes "list_all wf_member ms" and "rt \<le> length pre" and "CHR 0x5C \<notin> set key"
    and "c = lbrace \<or> c = CHR '',''"
  shows "find_loop ((pre @ [c]) @ render_members ms @ rbrace # rest) key rt (Suc (length pre)) 1 =
         value_offset key (Suc (length pre)) ms"
  using assms
proof (induction ms arbitrary: pre c rule: render_members.induct)
  case 1
  then show ?case
    using find_loop_close [of rbrace 1 "pre @ [c]" rest key rt] by (simp add: find_loop_stop)
next
  case (2 m)
  show ?case
  proof (cases "m_key m = key")
    case True
    with 2 find_loop_member_hit [of m rt pre key c "rbrace # rest"] show ?thesis by simp
  next
    case False
    with 2 find_loop_member_skip [of m rt pre key c "rbrace # rest"]
      find_loop_close [of rbrace 1 "pre @ [c] @ render_member m" rest key rt]
    show ?thesis by (simp add: find_loop_stop)
  qed
next
  case (3 m n ms)
  let ?post = "'','' @ render_members (n # ms) @ rbrace # rest"
  show ?case
  proof (cases "m_key m = key")
    case True
    with 3 find_loop_member_hit [of m rt pre key c ?post] show ?thesis by simp
  next
    case False
    let ?J = "(pre @ [c]) @ render_member m @ ?post"
    let ?pre = "pre @ [c] @ render_member m"
    have "find_loop ?J key rt (Suc (length pre)) 1 = find_loop ?J key rt (length ?pre) 1"
      using 3 False find_loop_member_skip [of m rt pre key c ?post] by simp
    also have "\<dots> = find_loop ?J key rt (Suc (length ?pre)) 1"
      using find_loop_plain [of "CHR '',''" 1 ?pre "render_members (n # ms) @ rbrace # rest" key rt] by simp
    also have "\<dots> = value_offset key (Suc (length ?pre)) (n # ms)"
      using "3.IH" [of ?pre "CHR '',''"] 3 by simp
    finally show ?thesis using False by simp
  qed
qed

lemma FindValueStart_doc:
  assumes "list_all is_space ws" and "list_all wf_member ms" and "CHR 0x5C \<notin> set key"
  shows "FindValueStart (render_doc ws ms rest) key = value_offset key (length ws + 1) ms"
proof -
  let ?J = "render_doc ws ms rest"
  have "skip_while is_space ?J 0 = length ws"
    using skip_spaces_to [OF assms(1), of lbrace "[]" "render_members ms @ rbrace # rest"]
    by (simp add: render_doc_def is_space_def)
  moreover have "?J ! length ws = lbrace" "length ws < length ?J"
    by (simp_all add: render_doc_def)
  moreover have "find_loop ?J key (length ws) (Suc (length ws)) 1 = value_offset key (length ws + 1) ms"
    using find_loop_members [OF assms(2) _ assms(3), of "length ws" ws lbrace rest]
    by (simp add: render_doc_def)
  ultimately show ?thesis by (simp add: FindValueStart_def Let_def)
qed

text \<open>What stands at the offset, and behind the value.\<close>

lemma value_offset_None: "value_offset key off ms = None \<longleftrightarrow> root_member key ms = None"
  by (induction key off ms rule: value_offset.induct) (auto simp: root_member_def)

lemma value_offset_at:
  "root_member key ms = Some m \<Longrightarrow>
   \<exists>a d b. value_offset key (length p) ms = Some (length a) \<and> (d = CHR '','' \<or> d = rbrace) \<and>
     p @ render_members ms @ rbrace # rest = a @ render (m_value m) @ m_ws4 m @ d # b"
proof (induction ms arbitrary: p rule: render_members.induct)
  case (2 n)
  then show ?case
    by (intro exI [of _ "p @ member_head n"] exI [of _ rbrace] exI [of _ rest])
       (auto simp: root_member_def render_member_def split: if_splits)
next
  case (3 n n' ms)
  show ?case
  proof (cases "m_key n = key")
    case True
    with 3 show ?thesis
      by (intro exI [of _ "p @ member_head n"] exI [of _ "CHR '',''"] exI [of _ "render_members (n' # ms) @ rbrace # rest"])
         (auto simp: root_member_def render_member_def)
  next
    case False
    with "3.prems" have "root_member key (n' # ms) = Some m" by (simp add: root_member_def)
    from "3.IH" [OF this, of "p @ render_member n @ '',''"] False show ?thesis
      by (simp add: add.assoc)
  qed
qed (simp add: root_member_def)

lemma root_member_wf: "list_all wf_member ms \<Longrightarrow> root_member key ms = Some m \<Longrightarrow> wf_member m \<and> m_key m = key"
  by (auto simp: root_member_def find_Some_iff list_all_length)

text \<open>Every reader starts from this split of the text.\<close>

lemma FindValueStart_at:
  assumes "list_all is_space ws" and "list_all wf_member ms" and "CHR 0x5C \<notin> set key"
    and "root_member key ms = Some m"
  obtains a d b where "FindValueStart (render_doc ws ms rest) key = Some (length a)"
    and "render_doc ws ms rest = a @ render (m_value m) @ m_ws4 m @ d # b" and "d = CHR '','' \<or> d = rbrace"
proof -
  obtain a d b where *: "value_offset key (length (ws @ [lbrace])) ms = Some (length a)" "d = CHR '','' \<or> d = rbrace"
      "(ws @ [lbrace]) @ render_members ms @ rbrace # rest = a @ render (m_value m) @ m_ws4 m @ d # b"
    using value_offset_at [OF assms(4), of "ws @ [lbrace]" rest] by blast
  show ?thesis
  proof (rule that)
    show "FindValueStart (render_doc ws ms rest) key = Some (length a)"
      using FindValueStart_doc [OF assms(1-3), of rest] *(1) by simp
    show "render_doc ws ms rest = a @ render (m_value m) @ m_ws4 m @ d # b"
      using *(3) by (simp add: render_doc_def)
  qed (fact *(2))
qed

lemma FindValueStart_absent:
  assumes "list_all is_space ws" and "list_all wf_member ms" and "CHR 0x5C \<notin> set key"
    and "root_member key ms = None"
  shows "FindValueStart (render_doc ws ms rest) key = None"
  using FindValueStart_doc [OF assms(1-3), of rest] assms(4) value_offset_None by metis

subsection \<open>String members\<close>

definition string_value :: "item list \<Rightarrow> string option" where
  "string_value v = (case v of [Str b] \<Rightarrow> Some (takeWhile (\<lambda>c. c \<noteq> dq) b) | _ \<Rightarrow> None)"

lemma find_first_quote:
  "find_first (\<lambda>c. c = dq) (pre @ b @ dq # post) (length pre) = Some (length pre + length (takeWhile (\<lambda>c. c \<noteq> dq) b))"
proof -
  have "takeWhile (\<lambda>c. c \<noteq> dq) (b @ dq # post) = takeWhile (\<lambda>c. c \<noteq> dq) b"
    by (induction b) auto
  moreover have "length (takeWhile (\<lambda>c. c \<noteq> dq) b) \<le> length b" by (rule length_takeWhile_le)
  ultimately show ?thesis by (simp add: find_first_def Let_def skip_while_eq)
qed

lemma slice_prefix:
  "length t \<le> length s \<Longrightarrow> take (length t) s = t \<Longrightarrow>
   slice (pre @ s @ post) (length pre) (length pre + length t) = t"
  by (simp add: slice_def)

lemma FindStringField_doc:
  assumes "list_all is_space ws" and "list_all wf_member ms" and "CHR 0x5C \<notin> set key"
  shows "FindStringField (render_doc ws ms rest) key = Option.bind (root_member key ms) (\<lambda>m. string_value (m_value m))"
proof (cases "root_member key ms")
  case None
  then show ?thesis by (simp add: FindStringField_def FindValueStart_absent [OF assms])
next
  case (Some m)
  let ?J = "render_doc ws ms rest"
  obtain a d b where at: "FindValueStart ?J key = Some (length a)"
      "?J = a @ render (m_value m) @ m_ws4 m @ d # b"
    using FindValueStart_at [OF assms Some] by metis
  have wf: "wf_value (m_value m)" using root_member_wf [OF assms(2) Some] by (simp add: wf_member_def)
  show ?thesis
  proof (cases "\<exists>s. m_value m = [Str s]")
    case True
    then obtain s where s: "m_value m = [Str s]" ..
    have J: "?J = (a @ [dq]) @ s @ dq # m_ws4 m @ d # b" by (simp add: at(2) s render_def)
    have "slice ?J (Suc (length a)) (Suc (length a) + length (takeWhile (\<lambda>c. c \<noteq> dq) s)) = takeWhile (\<lambda>c. c \<noteq> dq) s"
      using slice_prefix [of "takeWhile (\<lambda>c. c \<noteq> dq) s" s "a @ [dq]"]
      by (simp add: J takeWhile_eq_take [symmetric] length_takeWhile_le)
    moreover have "find_first (\<lambda>c. c = dq) ?J (Suc (length a)) = Some (Suc (length a) + length (takeWhile (\<lambda>c. c \<noteq> dq) s))"
      using find_first_quote [of "a @ [dq]" s "m_ws4 m @ d # b"] by (simp add: J)
    moreover have "?J ! length a = dq" "length a < length ?J" by (simp_all add: J)
    ultimately show ?thesis using Some by (simp add: FindStringField_def at(1) s string_value_def)
  next
    case False
    with wf have "list_all no_str (m_value m)" "m_value m \<noteq> []" "list_all wf_item (m_value m)"
      by (auto simp: wf_value_def split: list.splits item.splits)
    then obtain c t where "render (m_value m) = c # t" "c \<noteq> dq"
    proof (cases "m_value m")
      case (Cons it its)
      with \<open>list_all no_str (m_value m)\<close> \<open>list_all wf_item (m_value m)\<close> that show ?thesis
        by (cases it) (auto simp: render_def plain_char_def)
    qed simp
    then have "?J ! length a \<noteq> dq" by (simp add: at(2))
    moreover have "string_value (m_value m) = None"
      using False by (auto simp: string_value_def split: list.splits item.splits)
    ultimately show ?thesis using Some by (simp add: FindStringField_def at(1))
  qed
qed

end
