(* ===== verification/NumberText.thy ===== *)
theory NumberText
  imports ControlText
begin

text \<open>
  The number grammar of the scanner as a predicate on a token, \<open>json_number\<close>, independent of
  the text around it, and the reading of number members in terms of it.
\<close>

definition json_number :: "string \<Rightarrow> bool" where
  "json_number t \<longleftrightarrow> number_end t 0 = Some (length t) \<and>
     fst (from_chars_general t) = length t \<and> fst (snd (from_chars_general t)) = ErrOk"

definition number_value :: "string \<Rightarrow> double" where
  "number_value t = snd (snd (from_chars_general t))"

subsection \<open>The grammar looks only at the token\<close>

lemma skip_while_shift:
  "skip_while P (pre @ s) (length pre + i) = length pre + skip_while P s i"
proof (induction P s i rule: skip_while.induct)
  case (1 P s i)
  show ?case
  proof (cases "i < length s \<and> P (s ! i)")
    case True
    have "skip_while P (pre @ s) (length pre + i) = skip_while P (pre @ s) (length pre + Suc i)"
      using True by (subst skip_while.simps) (simp add: nth_append)
    with 1 True show ?thesis by (simp add: skip_while.simps [of P s i])
  next
    case False
    then have "skip_while P (pre @ s) (length pre + i) = length pre + i"
      by (subst skip_while.simps) (auto simp: nth_append)
    moreover have "skip_while P s i = i"
      using False by (simp only: skip_while.simps [of P s i] if_False)
    ultimately show ?thesis by simp
  qed
qed

lemma takeWhile_stop: "\<not> P a \<Longrightarrow> takeWhile P (xs @ a # ys) = takeWhile P xs"
  by (induction xs) auto

lemma skip_while_prefix:
  assumes "i \<le> length s" and "r = [] \<or> \<not> P (hd r)"
  shows "skip_while P (s @ r) i = skip_while P s i"
proof -
  have "takeWhile P (drop i s @ r) = takeWhile P (drop i s)"
    using assms(2) by (cases r) (auto simp: takeWhile_stop)
  with assms(1) show ?thesis by (simp add: skip_while_eq)
qed

definition token_end :: "string \<Rightarrow> bool" where
  "token_end r \<longleftrightarrow> r = [] \<or> \<not> is_token_char (hd r)"

lemma token_end_digit: "token_end r \<Longrightarrow> r = [] \<or> \<not> is_digit (hd r)"
  by (auto simp: token_end_def is_token_char_def)

lemma skip_digits_prefix:
  "token_end r \<Longrightarrow> i \<le> length t \<Longrightarrow> skip_while is_digit (t @ r) i = skip_while is_digit t i"
  using token_end_digit [of r] by (intro skip_while_prefix)

lemma nth_token_end:
  "token_end r \<Longrightarrow> e \<le> length t \<Longrightarrow> is_token_char c \<Longrightarrow>
   (e < length (t @ r) \<and> (t @ r) ! e = c) = (e < length t \<and> t ! e = c)"
  by (cases "e = length t"; cases r) (auto simp: token_end_def nth_append)

lemma token_chars [simp]:
  "is_token_char CHR ''0''" "is_token_char CHR ''.''" "is_token_char CHR ''e''" "is_token_char CHR ''E''"
  "is_token_char CHR ''-''" "is_token_char CHR ''+''" "is_digit c \<Longrightarrow> is_token_char c"
  by (auto simp: is_token_char_def is_digit_def)

lemma nonzero_digit: "CHR ''1'' \<le> c \<Longrightarrow> c \<le> CHR ''9'' \<Longrightarrow> is_digit c"
  by (simp add: less_eq_char_def is_digit_def)

lemma number_int_prefix:
  assumes "token_end r" and "e \<le> length t"
  shows "number_int (t @ r) e = number_int t e"
proof (cases "e < length t")
  case True
  have "Suc e < length (t @ r) \<and> is_digit ((t @ r) ! Suc e) \<longleftrightarrow> Suc e < length t \<and> is_digit (t ! Suc e)"
    using True token_end_digit [OF assms(1)] by (cases "Suc e = length t"; cases r) (auto simp: nth_append)
  with True show ?thesis
    using skip_digits_prefix [OF assms(1), of "Suc e" t]
    by (simp add: number_int_def nth_append)
next
  case False
  with assms have e: "e = length t" by simp
  show ?thesis
  proof (cases r)
    case (Cons c r')
    then have "\<not> is_token_char c" using assms(1) by (simp add: token_end_def)
    then have "c \<noteq> CHR ''0''" "\<not> (CHR ''1'' \<le> c \<and> c \<le> CHR ''9'')"
      using nonzero_digit token_chars by blast+
    then show ?thesis by (simp add: number_int_def e Cons)
  qed (simp add: number_int_def e)
qed

lemma number_frac_prefix:
  assumes "token_end r" and "e \<le> length t"
  shows "number_frac (t @ r) e = number_frac t e"
proof (cases "e < length t \<and> t ! e = CHR ''.''")
  case True
  then show ?thesis
    using skip_digits_prefix [OF assms(1), of "Suc e" t]
    by (simp add: number_frac_def nth_append)
next
  case False
  with nth_token_end [OF assms, of "CHR ''.''"] show ?thesis by (simp only: number_frac_def if_False token_chars)
qed

lemma number_exp_prefix:
  assumes "token_end r" and "e \<le> length t"
  shows "number_exp (t @ r) e = number_exp t e"
proof (cases "e < length t \<and> (t ! e = CHR ''e'' \<or> t ! e = CHR ''E'')")
  case True
  let ?sign = "\<lambda>s. Suc e < length s \<and> (s ! Suc e = CHR ''+'' \<or> s ! Suc e = CHR ''-'')"
  have "?sign (t @ r) = ?sign t"
    using True nth_token_end [OF assms(1), of "Suc e" t "CHR ''+''"]
      nth_token_end [OF assms(1), of "Suc e" t "CHR ''-''"] by auto
  moreover have "(if ?sign t then Suc (Suc e) else Suc e) \<le> length t" using True by auto
  moreover have "e < length (t @ r) \<and> ((t @ r) ! e = CHR ''e'' \<or> (t @ r) ! e = CHR ''E'')"
    using True by (simp add: nth_append)
  ultimately show ?thesis
    using True skip_digits_prefix [OF assms(1), of "if ?sign t then Suc (Suc e) else Suc e" t]
    by (simp only: number_exp_def if_True Let_def)
next
  case False
  moreover have "\<not> (e < length (t @ r) \<and> ((t @ r) ! e = CHR ''e'' \<or> (t @ r) ! e = CHR ''E''))"
    using False nth_token_end [OF assms, of "CHR ''e''"] nth_token_end [OF assms, of "CHR ''E''"] by auto
  ultimately show ?thesis by (simp only: number_exp_def if_False)
qed

lemma number_int_bounds [bounds]: "number_int t e = Some e' \<Longrightarrow> e < e' \<and> e' \<le> length t"
  using skip_while_bounds [of "Suc e" t is_digit] by (auto simp: number_int_def split: if_splits)

lemma number_frac_bounds [bounds]: "number_frac t e = Some e' \<Longrightarrow> e \<le> length t \<Longrightarrow> e \<le> e' \<and> e' \<le> length t"
  using skip_while_bounds [of "Suc e" t is_digit] by (auto simp: number_frac_def Let_def split: if_splits)

lemma number_exp_bounds [bounds]: "number_exp t e = Some e' \<Longrightarrow> e \<le> length t \<Longrightarrow> e \<le> e' \<and> e' \<le> length t"
  using skip_while_bounds [of "Suc e" t is_digit] skip_while_bounds [of "Suc (Suc e)" t is_digit]
  by (auto simp: number_exp_def Let_def split: if_splits)

lemma number_end_prefix:
  assumes "token_end r"
  shows "number_end (t @ r) 0 = number_end t 0"
proof -
  let ?minus = "\<lambda>s. 0 < length s \<and> s ! 0 = CHR ''-''"
  have m: "?minus (t @ r) = ?minus t" using nth_token_end [OF assms, of 0 t "CHR ''-''"] by simp
  define s where "s = (if ?minus t then Suc 0 else 0)"
  have s: "s \<le> length t" by (simp add: s_def Suc_le_eq)
  have "Option.bind (number_frac (t @ r) e1) (number_exp (t @ r)) = Option.bind (number_frac t e1) (number_exp t)"
    if "number_int t s = Some e1" for e1
  proof -
    have e1: "e1 \<le> length t" using number_int_bounds [OF that] by simp
    show ?thesis
    proof (cases "number_frac t e1")
      case (Some e2)
      with e1 number_frac_bounds [OF Some e1] show ?thesis
        by (simp add: number_frac_prefix [OF assms] number_exp_prefix [OF assms])
    qed (simp add: number_frac_prefix [OF assms e1])
  qed
  then show ?thesis
    by (cases "number_int t s")
       (simp_all only: number_end_def m flip: s_def, simp_all add: Let_def number_int_prefix [OF assms s])
qed

subsection \<open>The grammar does not look at the text before\<close>

lemmas skip_while_shifts = skip_while_shift skip_while_shift [where i = "Suc i" for i, simplified]
  skip_while_shift [where i = "Suc (Suc i)" for i, simplified]

lemma number_int_shift:
  "number_int (a @ s) (length a + e) = map_option (\<lambda>k. length a + k) (number_int s e)"
  by (simp add: number_int_def nth_append skip_while_shifts Let_def)

lemma number_frac_shift:
  "number_frac (a @ s) (length a + e) = map_option (\<lambda>k. length a + k) (number_frac s e)"
  by (simp add: number_frac_def nth_append skip_while_shifts Let_def)

lemma number_exp_shift:
  "number_exp (a @ s) (length a + e) = map_option (\<lambda>k. length a + k) (number_exp s e)"
  by (auto simp: number_exp_def nth_append skip_while_shifts Let_def)

lemma number_end_shift:
  "number_end (a @ s) (length a) = map_option (\<lambda>k. length a + k) (number_end s 0)"
proof -
  have "number_end (a @ s) (length a) =
     (let e0 = length a + (if 0 < length s \<and> s ! 0 = CHR ''-'' then Suc 0 else 0) in
      Option.bind (number_int (a @ s) e0) (\<lambda>e1.
      Option.bind (number_frac (a @ s) e1) (\<lambda>e2. number_exp (a @ s) e2)))"
    by (simp add: number_end_def nth_append Let_def)
  also have "\<dots> = map_option (\<lambda>k. length a + k) (number_end s 0)"
    by (cases "number_int s (if 0 < length s \<and> s ! 0 = CHR ''-'' then Suc 0 else 0)")
       (auto simp: number_end_def Let_def number_int_shift number_frac_shift number_exp_shift
          simp flip: add_Suc_right split: bind_split)
  finally show ?thesis .
qed

subsection \<open>A number is made of token characters\<close>

lemma list_all_slice: "(\<And>i. a \<le> i \<Longrightarrow> i < b \<Longrightarrow> i < length s \<Longrightarrow> P (s ! i)) \<Longrightarrow> list_all P (slice s a b)"
  by (auto simp: list_all_length slice_def)

lemma skip_while_all: "a \<le> i \<Longrightarrow> i < skip_while P s a \<Longrightarrow> P (s ! i)"
proof (induction P s a rule: skip_while.induct)
  case (1 P s a)
  then show ?case
    by (cases "a < length s \<and> P (s ! a)"; cases "i = a") (auto simp: skip_while.simps [of P s a])
qed

lemma number_int_chars: "number_int t e = Some e' \<Longrightarrow> e \<le> i \<Longrightarrow> i < e' \<Longrightarrow> is_token_char (t ! i)"
  using skip_while_all [of "Suc e" i is_digit t] nonzero_digit
  by (cases "i = e") (auto simp: number_int_def split: if_splits)

lemma number_frac_chars: "number_frac t e = Some e' \<Longrightarrow> e \<le> i \<Longrightarrow> i < e' \<Longrightarrow> is_token_char (t ! i)"
  using skip_while_all [of "Suc e" i is_digit t]
  by (cases "i = e") (auto simp: number_frac_def Let_def split: if_splits)

lemma number_exp_chars: "number_exp t e = Some e' \<Longrightarrow> e \<le> i \<Longrightarrow> i < e' \<Longrightarrow> is_token_char (t ! i)"
  using skip_while_all [of "Suc e" i is_digit t] skip_while_all [of "Suc (Suc e)" i is_digit t]
  by (cases "i = e"; cases "i = Suc e") (auto simp: number_exp_def Let_def split: if_splits)

lemma number_end_chars:
  assumes "number_end t 0 = Some e" and "i < e"
  shows "is_token_char (t ! i)"
proof -
  define s where "s = (if 0 < length t \<and> t ! 0 = CHR ''-'' then Suc 0 else 0)"
  obtain e1 e2 where e: "number_int t s = Some e1" "number_frac t e1 = Some e2" "number_exp t e2 = Some e"
    using assms(1) by (auto simp: number_end_def Let_def s_def bind_eq_Some_conv)
  consider "i < s" | "s \<le> i" "i < e1" | "e1 \<le> i" "i < e2" | "e2 \<le> i" "i < e"
    using assms(2) by linarith
  then show ?thesis
  proof cases
    case 1
    then show ?thesis by (auto simp: s_def split: if_splits)
  qed (use e number_int_chars number_frac_chars number_exp_chars in blast)+
qed

subsection \<open>Reading a number member\<close>

definition delim_ok :: "string \<Rightarrow> bool" where
  "delim_ok r \<longleftrightarrow> (let d = skip_while is_space r 0 in d < length r \<and> (r ! d = CHR '','' \<or> r ! d = rbrace))"

lemma token_char_other:
  "is_token_char c \<Longrightarrow> \<not> is_space c" "is_token_char c \<Longrightarrow> c \<noteq> CHR '',''" "is_token_char c \<Longrightarrow> c \<noteq> rbrace"
  "is_token_char c \<Longrightarrow> plain_char c"
  by (auto simp: is_token_char_def is_digit_def is_space_def plain_char_def opens_def closes_def)

lemma number_end_le: "number_end t 0 = Some e \<Longrightarrow> e \<le> length t"
  unfolding number_end_def Let_def bind_eq_Some_conv
  by (metis number_int_bounds number_frac_bounds number_exp_bounds)

lemma FindNumberField_at:
  assumes "FindValueStart J key = Some (length a)" and "J = a @ t @ r"
    and "token_end r" and "list_all is_token_char t"
  shows "FindNumberField J key = (if json_number t \<and> delim_ok r then Some (number_value t) else None)"
proof (cases "number_end t 0")
  case None
  then have "number_end J (length a) = None"
    using number_end_shift [of a "t @ r"] number_end_prefix [OF assms(3), of t] by (simp add: assms(2))
  with None show ?thesis by (simp add: FindNumberField_def assms(1) json_number_def)
next
  case (Some e)
  have e: "e \<le> length t" by (rule number_end_le [OF Some])
  have ne: "number_end J (length a) = Some (length a + e)"
    using number_end_shift [of a "t @ r"] number_end_prefix [OF assms(3), of t] Some by (simp add: assms(2))
  show ?thesis
  proof (cases "e < length t")
    case True
    then have c: "J ! (length a + e) = t ! e" "is_token_char (t ! e)"
      using assms(4) by (simp_all add: assms(2) nth_append list_all_length)
    then have "skip_while is_space J (length a + e) = length a + e"
      using token_char_other by (subst skip_while.simps) auto
    with c ne True Some show ?thesis
      using token_char_other [OF c(2)] by (simp add: FindNumberField_def assms(1) Let_def json_number_def)
  next
    case False
    with e have e: "e = length t" by simp
    have d: "skip_while is_space J (length a + length t) = length a + length t + skip_while is_space r 0"
      using skip_while_shift [of is_space "a @ t" r 0] by (simp add: assms(2))
    have sl: "slice J (length a) (length a + length t) = t"
      by (simp add: assms(2))
    have nth: "J ! (length a + length t + k) = r ! k" for k
      using nth_append_length_plus [of "a @ t" r k] by (simp add: assms(2))
    show ?thesis
      using Some unfolding e
      by (simp add: FindNumberField_def assms(1) ne e d sl nth Let_def json_number_def delim_ok_def number_value_def
            split: prod.split)
         (auto simp: assms(2))
  qed
qed

lemma FindNumberToken_at:
  assumes "FindValueStart J key = Some (length a)" and "J = a @ t @ r"
    and "token_end r" and "list_all is_token_char t"
  shows "FindNumberToken J key = (if json_number t \<and> delim_ok r then Some t else None)"
proof -
  have "skip_while is_token_char J (length a) = length a + length t"
    using assms(3,4) unfolding assms(2) by (intro skip_while_app) (auto simp: token_end_def)
  then show ?thesis
    using FindNumberField_at [OF assms] by (simp add: FindNumberToken_def assms(1)) (simp add: assms(2))
qed

lemma json_number_chars: "json_number t \<Longrightarrow> list_all is_token_char t \<and> t \<noteq> []"
proof -
  assume j: "json_number t"
  then have "list_all is_token_char t"
    using number_end_chars [of t "length t"] by (auto simp: json_number_def list_all_length)
  moreover have "number_end [] 0 = None"
    by (simp add: number_end_def number_int_def)
  ultimately show ?thesis using j by (auto simp: json_number_def)
qed

text \<open>Any text splits at the end of the token that starts at an index.\<close>

lemma token_split:
  assumes "FindValueStart J key = Some i"
  obtains a t r where "J = a @ t @ r" "length a = i \<or> (length J < i \<and> t = [] \<and> r = [])" "token_end r" "list_all is_token_char t"
proof -
  have "token_end (dropWhile is_token_char (drop i J))"
    unfolding token_end_def using hd_dropWhile [of is_token_char "drop i J"] by blast
  moreover have "list_all is_token_char (takeWhile is_token_char (drop i J))"
    by (auto simp: list_all_iff dest: set_takeWhileD)
  moreover have "J = take i J @ takeWhile is_token_char (drop i J) @ dropWhile is_token_char (drop i J)"
    by simp
  ultimately show ?thesis
    using that [of "take i J" "takeWhile is_token_char (drop i J)" "dropWhile is_token_char (drop i J)"]
    by (cases "i \<le> length J") auto
qed

lemma FindNumberToken_json_number: "FindNumberToken J key = Some t \<Longrightarrow> json_number t"
proof -
  assume a: "FindNumberToken J key = Some t"
  then obtain i where i: "FindValueStart J key = Some i"
    by (auto simp: FindNumberToken_def split: option.splits)
  obtain p u r where s: "J = p @ u @ r" "length p = i \<or> (length J < i \<and> u = [] \<and> r = [])" "token_end r" "list_all is_token_char u"
    by (rule token_split [OF i])
  from s(2) show ?thesis
  proof
    assume "length p = i"
    with a FindNumberToken_at [of J key p u r] i s show ?thesis by (auto split: if_splits)
  next
    assume "length J < i \<and> u = [] \<and> r = []"
    then have "number_end J i = None" by (simp add: number_end_def number_int_def)
    with a i show ?thesis by (simp add: FindNumberToken_def FindNumberField_def split: if_splits)
  qed
qed

lemma delim_ok_after:
  "list_all is_space ws \<Longrightarrow> d = CHR '','' \<or> d = rbrace \<Longrightarrow> delim_ok (ws @ d # r) \<and> token_end (ws @ d # r)"
  using skip_spaces_to [of ws d "[]" r]
  by (cases ws) (auto simp: delim_ok_def token_end_def is_space_def is_token_char_def is_digit_def)

text \<open>The number members of a document.\<close>

lemma render_Ch [simp]: "render (map Ch t) = t"
  by (induction t) (simp_all add: render_def)

lemma number_member_doc:
  assumes "list_all is_space ws" and "list_all wf_member ms" and "CHR 0x5C \<notin> set key"
    and "root_member key ms = Some m" and "render (m_value m) = t" and "list_all is_token_char t"
  shows "FindNumberToken (render_doc ws ms rest) key = (if json_number t then Some t else None)"
    and "FindNumberField (render_doc ws ms rest) key = (if json_number t then Some (number_value t) else None)"
proof -
  obtain a d b where at: "FindValueStart (render_doc ws ms rest) key = Some (length a)"
      "render_doc ws ms rest = a @ t @ (m_ws4 m @ d # b)" "d = CHR '','' \<or> d = rbrace"
    using FindValueStart_at [OF assms(1-4)] assms(5) by metis
  have "list_all is_space (m_ws4 m)"
    using root_member_wf [OF assms(2,4)] by (simp add: wf_member_def)
  note d = delim_ok_after [OF this at(3), of b]
  show "FindNumberToken (render_doc ws ms rest) key = (if json_number t then Some t else None)"
    using FindNumberToken_at [OF at(1,2)] d assms(6) by simp
  show "FindNumberField (render_doc ws ms rest) key = (if json_number t then Some (number_value t) else None)"
    using FindNumberField_at [OF at(1,2)] d assms(6) by simp
qed

subsection \<open>Decimal integers are numbers\<close>

lemma show_nat_leading: "0 < n \<Longrightarrow> hd (show_nat n) \<noteq> CHR ''0''"
proof (induction n rule: show_nat.induct)
  case (1 n)
  show ?case
  proof (cases "n < 10")
    case True
    then have "code (hd (show_nat n)) \<noteq> 48" using "1.prems" by (subst show_nat.simps) simp
    then show ?thesis by auto
  next
    case False
    then have "hd (show_nat n) = hd (show_nat (n div 10))" by (subst show_nat.simps) simp
    with 1 False show ?thesis by simp
  qed
qed

lemma show_nat_0: "show_nat 0 = ''0''"
  by (subst show_nat.simps) (simp add: digit_char_def, code_simp)

lemma digit_range: "is_digit c \<Longrightarrow> c \<noteq> CHR ''0'' \<Longrightarrow> CHR ''1'' \<le> c \<and> c \<le> CHR ''9''"
proof -
  assume "is_digit c" "c \<noteq> CHR ''0''"
  moreover from this have "code c \<noteq> 48" using of_char_eq_iff [where 'a = nat, of c "CHR ''0''"] by simp
  ultimately show ?thesis by (simp add: less_eq_char_def is_digit_def)
qed

lemma skip_digits_all: "list_all is_digit t \<Longrightarrow> i \<le> length t \<Longrightarrow> skip_while is_digit t i = length t"
proof -
  assume a: "list_all is_digit t" "i \<le> length t"
  then have "\<forall>x \<in> set (drop i t). is_digit x"
    by (auto simp: list_all_iff dest: in_set_dropD)
  with a show ?thesis by (simp add: skip_while_eq takeWhile_eq_all_conv [THEN iffD2])
qed

lemma number_end_show_nat: "number_end (show_nat n) 0 = Some (length (show_nat n))"
proof (cases "n = 0")
  case True
  then show ?thesis
    by (simp add: show_nat_0 number_end_def number_int_def number_frac_def number_exp_def)
next
  case False
  let ?t = "show_nat n"
  have hd: "is_digit (?t ! 0)" "?t ! 0 \<noteq> CHR ''0''"
    using show_nat_hd_digit [of n] show_nat_leading [of n] False by (simp_all flip: hd_conv_nth)
  then have "number_int ?t 0 = Some (length ?t)"
    using digit_range [OF hd] skip_digits_all [OF show_nat_digits, of 1 n]
    by (cases "show_nat n") (simp_all add: number_int_def)
  moreover have "?t ! 0 \<noteq> CHR ''-''" using hd(1) by (auto simp: is_digit_def)
  ultimately show ?thesis
    by (simp add: number_end_def number_frac_def number_exp_def)
qed

lemma dbl_max_big: "2 ^ 53 \<le> dbl_max"
  by (simp add: dbl_max_def pow2_def)

lemma from_chars_show_nat:
  assumes "n < 2 ^ 53"
  shows "from_chars_general (show_nat n) = (length (show_nat n), ErrOk, of_nat n)"
proof -
  let ?t = "show_nat n"
  have s0: "?t ! 0 \<noteq> CHR ''-''"
    using show_nat_hd_digit [of n] by (auto simp: is_digit_def simp flip: hd_conv_nth)
  have i1: "skip_while is_digit ?t 0 = length ?t" by (simp add: skip_digits_all)
  have r: "rnd (of_nat n) = of_nat n"
    using rnd_of_int [of "int n"] assms by simp
  have "rat_of_nat n < 2 ^ 53"
    using assms by (metis of_nat_less_numeral_power_cancel_iff)
  then have "\<not> dbl_max < rat_of_nat n" using dbl_max_big by linarith
  then show ?thesis
    by (simp add: from_chars_general_def Let_def s0 i1 slice_def r pow10_def) linarith
qed

lemma json_number_show_nat: "n < 2 ^ 53 \<Longrightarrow> json_number (show_nat n)"
  by (simp add: json_number_def number_end_show_nat from_chars_show_nat)

end
