(* ===== verification/ProtocolProps.thy ===== *)
theory ProtocolProps
  imports NumberText
begin

text \<open>
  What the control-message parser and serialiser guarantee: which member of a message decides its
  type, what a ping and its pong carry, and which texts may be embedded as numbers.
\<close>

subsection \<open>Numbers as fields\<close>

definition number_object :: "string \<Rightarrow> string" where
  "number_object t = [lbrace, dq, CHR ''n'', dq, CHR '':''] @ t @ [rbrace]"

lemma FindValueStart_number_object:
  "FindValueStart (number_object t) ''n'' = Some (5 + skip_while is_space (t @ [rbrace]) 0)"
proof -
  define J where "J = number_object t"
  have J: "J = [lbrace] @ [dq] @ ''n'' @ [dq] @ '':'' @ t @ [rbrace]"
    by (simp add: J_def number_object_def)
  have "skip_while is_space J 0 = 0" "J ! 0 = lbrace" "0 < length J"
    by (simp_all add: skip_while.simps J is_space_def)
  then have "FindValueStart J ''n'' = find_loop J ''n'' 0 (length [lbrace]) 1"
    by (simp add: FindValueStart_def)
  also have "at_name J 0 (length [lbrace])"
    using at_name_after [of "[]" lbrace 0 "[]" "drop 1 J"] by (simp add: J is_space_def)
  then have "find_loop J ''n'' 0 (length [lbrace]) 1 =
     (let colon = skip_while is_space J (length [lbrace] + length ''n'' + 2) in
      if length J \<le> colon \<or> J ! colon \<noteq> CHR '':'' then None else Some (skip_while is_space J (Suc colon)))"
    using find_loop_string [of "''n''" 1 "[lbrace]" "'':'' @ t @ [rbrace]" "''n''" 0, folded J] by simp
  also have "skip_while is_space J (length [lbrace] + length ''n'' + 2) = 4"
    by (subst skip_while.simps) (simp add: J is_space_def)
  also have "(let colon = 4 in if length J \<le> colon \<or> J ! colon \<noteq> CHR '':'' then None
      else Some (skip_while is_space J (Suc colon))) = Some (skip_while is_space J 5)"
    by (simp add: J)
  also have "skip_while is_space J 5 = 5 + skip_while is_space (t @ [rbrace]) 0"
    using skip_while_shift [of is_space "[lbrace, dq, CHR ''n'', dq, CHR '':'']" "t @ [rbrace]" 0]
    by (simp add: J eval_nat_numeral)
  finally show ?thesis by (simp add: J_def)
qed

lemma IsValidJsonNumber_object:
  "IsValidJsonNumber t \<longleftrightarrow>
     (case FindNumberToken (number_object t) ''n'' of None \<Rightarrow> False | Some p \<Rightarrow> length p = length t)"
  by (simp add: IsValidJsonNumber_def number_object_def)

lemma IsValidJsonNumber_iff: "IsValidJsonNumber t \<longleftrightarrow> json_number t"
proof
  assume "IsValidJsonNumber t"
  then obtain p where p: "FindNumberToken (number_object t) ''n'' = Some p" "length p = length t"
    by (auto simp: IsValidJsonNumber_object split: option.splits)
  obtain a u r where s: "number_object t = a @ u @ r" "token_end r" "list_all is_token_char u"
      "length a = 5 + skip_while is_space (t @ [rbrace]) 0 \<or>
       (length (number_object t) < 5 + skip_while is_space (t @ [rbrace]) 0 \<and> u = [] \<and> r = [])"
    by (rule token_split [OF FindValueStart_number_object [of t]])
  moreover have "skip_while is_space (t @ [rbrace]) 0 \<le> length t + 1"
    using skip_while_bounds [of 0 "t @ [rbrace]" is_space] by simp
  moreover have len: "length (number_object t) = 6 + length t"
    by (simp add: number_object_def)
  ultimately have a: "length a = 5 + skip_while is_space (t @ [rbrace]) 0" by auto
  then have "FindValueStart (number_object t) ''n'' = Some (length a)"
    by (simp add: FindValueStart_number_object)
  from FindNumberToken_at [OF this s(1-3)] p have u: "u = p" "json_number u" "delim_ok r"
    by (auto split: if_splits)
  have "r \<noteq> []" using u(3) by (auto simp: delim_ok_def)
  with len s(1) a u p(2) have "length a = 5" "length r = 1"
    by (cases r; simp add: number_object_def)+
  then have "[lbrace, dq, CHR ''n'', dq, CHR '':''] = a \<and> t @ [rbrace] = u @ r"
    using s(1) by (subst append_eq_append_conv [symmetric]) (simp_all add: number_object_def)
  then have "u = t" using u(1) p(2) by (metis append_eq_append_conv)
  with u show "json_number t" by simp
next
  assume t: "json_number t"
  then have c: "list_all is_token_char t" "t \<noteq> []" by (simp_all add: json_number_chars)
  then have "\<not> is_space (hd t)" by (cases t) (auto dest: token_char_other)
  then have "skip_while is_space (t @ [rbrace]) 0 = 0"
    using c(2) by (subst skip_while.simps) (cases t; simp)
  then have "FindValueStart (number_object t) ''n'' = Some (length [lbrace, dq, CHR ''n'', dq, CHR '':''])"
    by (simp add: FindValueStart_number_object)
  moreover have "delim_ok [rbrace] \<and> token_end [rbrace]"
    using delim_ok_after [of "[]" rbrace "[]"] by simp
  ultimately have "FindNumberToken (number_object t) ''n'' = Some t"
    using FindNumberToken_at [of "number_object t" "''n''" "[lbrace, dq, CHR ''n'', dq, CHR '':'']" t "[rbrace]"] c(1) t
    by (simp add: number_object_def)
  then show "IsValidJsonNumber t" by (simp add: IsValidJsonNumber_object)
qed

subsection \<open>The type of a message\<close>

definition control_types :: "(string \<times> ControlType) list" where
  "control_types = [(''hello'', Hello), (''ping'', Ping), (''touch'', Touch), (''scroll'', Scroll),
     (''pencil'', Pencil), (''proximity'', Proximity), (''kf'', Kf), (''stats'', Stats),
     (''sleeping'', Sleeping), (''closing'', Closing)]"

definition type_of_name :: "string \<Rightarrow> ControlType" where
  "type_of_name n = (case map_of control_types n of None \<Rightarrow> UnknownType | Some t \<Rightarrow> t)"

lemma msg_type_default [simp]: "msg_type ControlMessage_default = UnknownType"
  by (simp add: ControlMessage_default_def)

lemma msg_type_parse:
  "map_option msg_type (ParseControlMessage data) = map_option type_of_name (FindStringField (text_of data) ''type'')"
proof (cases "FindStringField (text_of data) ''type''")
  case (Some t)
  consider "t = ''hello''" | "t = ''ping''" | "t = ''touch''" | "t = ''scroll''" | "t = ''pencil''"
    | "t = ''proximity''" | "t = ''kf''" | "t = ''stats''" | "t = ''sleeping''" | "t = ''closing''"
    | "map_of control_types t = None" "t \<noteq> ''hello''" "t \<noteq> ''ping''" "t \<noteq> ''touch''" "t \<noteq> ''scroll''" "t \<noteq> ''pencil''"
       "t \<noteq> ''proximity''" "t \<noteq> ''kf''" "t \<noteq> ''stats''" "t \<noteq> ''sleeping''" "t \<noteq> ''closing''"
    by (auto simp: control_types_def)
  then show ?thesis
    by cases (simp_all add: ParseControlMessage_def Let_def AsView_def Some type_of_name_def control_types_def
        split: option.split)
qed (simp add: ParseControlMessage_def AsView_def Let_def)

lemma ping_t_parse:
  "ParseControlMessage data = Some m \<Longrightarrow> ping_t m \<noteq> [] \<Longrightarrow> FindNumberToken (text_of data) ''t'' = Some (ping_t m)"
  by (auto simp: ParseControlMessage_def AsView_def Let_def ControlMessage_default_def
      split: option.splits if_splits)

subsection \<open>The pong\<close>

definition pong_members :: "string \<Rightarrow> string \<Rightarrow> member list" where
  "pong_members t mt =
     [\<lparr>m_ws1 = [], m_key = ''type'', m_ws2 = [], m_ws3 = [], m_value = [Str ''pong''], m_ws4 = []\<rparr>,
      \<lparr>m_ws1 = [], m_key = ''t'', m_ws2 = [], m_ws3 = [], m_value = map Ch t, m_ws4 = []\<rparr>,
      \<lparr>m_ws1 = [], m_key = ''mt'', m_ws2 = [], m_ws3 = [], m_value = map Ch mt, m_ws4 = []\<rparr>]"

lemma SerializePong_doc:
  "IsValidJsonNumber t \<Longrightarrow> SerializePong now t = Some (render_doc [] (pong_members t (show_int now)) [])"
  by (simp add: SerializePong_def render_doc_def pong_members_def render_member_def member_head_def
      quoted_def render_def [of "[Str _]"])

lemma wf_token_value:
  assumes "json_number t"
  shows "wf_value (map Ch t)"
proof -
  obtain c s where t: "t = c # s" "\<not> is_space c" "list_all plain_char t"
    using json_number_chars [OF assms] by (cases t) (auto simp: list_all_iff dest: token_char_other)
  have "list_all wf_item (map Ch t)" "list_all no_str (map Ch t)"
    using t(3) by (simp_all add: list_all_iff)
  then show ?thesis using t(1,2) by (simp add: wf_value_def) (simp add: render_def)
qed

lemma wf_pong_members: "json_number t \<Longrightarrow> json_number mt \<Longrightarrow> list_all wf_member (pong_members t mt)"
  by (simp add: pong_members_def wf_member_def wf_token_value)
     (simp add: wf_value_def render_def is_space_def)

lemma show_int_nat: "0 \<le> i \<Longrightarrow> show_int i = show_nat (nat i)"
  by (simp add: show_int_def)

lemma length_show_nat: "n < 10 ^ Suc k \<Longrightarrow> length (show_nat n) \<le> Suc k"
proof (induction k arbitrary: n)
  case 0
  then show ?case by (subst show_nat.simps) simp
next
  case (Suc k)
  show ?case
  proof (cases "n < 10")
    case True
    then show ?thesis by (subst show_nat.simps) simp
  next
    case False
    have "n div 10 < 10 ^ Suc k" using Suc.prems by (simp add: div_less_iff_less_mult)
    from Suc.IH [OF this] False show ?thesis by (subst show_nat.simps) simp
  qed
qed

lemma byte_of_char_nonzero: "0 < code c \<Longrightarrow> byte_of_char c \<noteq> 0"
proof
  assume c: "0 < code c" "byte_of_char c = 0"
  have "code c = code (char_of_byte (byte_of_char c))" by (simp only: char_of_byte_of_char)
  also have "\<dots> = 0" by (simp only: c(2)) (simp add: char_of_byte_def)
  finally show False using c(1) by simp
qed

lemma token_char_code: "is_token_char c \<Longrightarrow> 0 < code c"
  by (auto simp: is_token_char_def is_digit_def)

lemma pong_control_payload:
  assumes "json_number t" and "length t \<le> 32000" and "0 \<le> now" and "now < 2 ^ 53"
  shows "IsControlPayload (bytes_of (render_doc [] (pong_members t (show_int now)) []))"
proof -
  have "length (show_nat (nat now)) \<le> Suc 15"
    using assms(3,4) by (intro length_show_nat) simp
  moreover have "list_all (\<lambda>c. 0 < code c) t" "list_all (\<lambda>c. 0 < code c) (show_nat (nat now))"
    using json_number_chars [OF assms(1)] show_nat_digits [of "nat now"] token_char_code
    by (auto simp: list_all_iff)
  then have "list_all (\<lambda>c. byte_of_char c \<noteq> 0) t" "list_all (\<lambda>c. byte_of_char c \<noteq> 0) (show_nat (nat now))"
    using byte_of_char_nonzero by (auto simp: list_all_iff)
  ultimately show ?thesis
    using assms(2)
    by (simp add: IsControlPayload_def render_doc_def pong_members_def render_member_def member_head_def
        render_def [of "[Str _]"] show_int_nat [OF assms(3)] list.pred_map comp_def byte_of_char_nonzero)
qed

subsection \<open>Properties\<close>

text \<open>C1. The type of a control message is decided by the first member named \<open>type\<close> of the root
  object and by nothing else: for every document whose members are literals, strings or arbitrarily
  nested brackets (free-form \<open>stats\<close> included), whatever names and values are nested in it, the
  parser yields the type its text names, and no message when the root has no such string member.\<close>

theorem dispatch_on_root_type:
  assumes "list_all is_space ws" and "list_all wf_member ms"
  shows "map_option msg_type (ParseControlMessage (bytes_of (render_doc ws ms rest))) =
         map_option type_of_name (Option.bind (root_member ''type'' ms) (\<lambda>m. string_value (m_value m)))"
  using FindStringField_doc [OF assms, of "''type''" rest] by (simp add: msg_type_parse comp_def)

theorem dispatch_on_root_type_witness:
  "map_option msg_type (ParseControlMessage (bytes_of (render_doc []
     [\<lparr>m_ws1 = '' '', m_key = ''a'', m_ws2 = [], m_ws3 = [],
        m_value = [Grp lbrace [Str ''type'', Ch CHR '':'', Str ''closing''] rbrace], m_ws4 = []\<rparr>,
      \<lparr>m_ws1 = [], m_key = ''type'', m_ws2 = [], m_ws3 = [], m_value = [Str ''stats''], m_ws4 = []\<rparr>] []))) =
   Some Stats"
proof -
  let ?ms = "[\<lparr>m_ws1 = '' '', m_key = ''a'', m_ws2 = [], m_ws3 = [],
        m_value = [Grp lbrace [Str ''type'', Ch CHR '':'', Str ''closing''] rbrace], m_ws4 = []\<rparr>,
      \<lparr>m_ws1 = [], m_key = ''type'', m_ws2 = [], m_ws3 = [], m_value = [Str ''stats''], m_ws4 = []\<rparr>]"
  have "list_all wf_member ?ms" by code_simp
  moreover have "map_option type_of_name (Option.bind (root_member ''type'' ?ms) (\<lambda>m. string_value (m_value m))) = Some Stats"
    by code_simp
  ultimately show ?thesis
    using dispatch_on_root_type [of "[]" ?ms "[]"] by (simp only: list.pred_inject)
qed



lemma parse_ping:
  assumes "FindStringField (text_of data) ''type'' = Some ''ping''" and "FindNumberToken (text_of data) ''t'' = Some t"
  shows "ParseControlMessage data = Some (ControlMessage_default\<lparr>msg_type := Ping, ping_t := t\<rparr>)"
  using assms by (simp add: ParseControlMessage_def AsView_def Let_def)


end
