(* ===== verification/AnnexB.thy ===== *)
theory AnnexB
  imports Prelude
begin

text \<open>
  Annex-B byte streams (\<^verbatim>\<open>src/src/encode/AnnexB.h\<close>,
  \<^verbatim>\<open>src/src/encode/AnnexB.cpp\<close>): the start-code scanner, the access-unit
  builder and the parameter-set cache.  \<open>split_codes\<close> is the reference: the
  text between start codes, by structural recursion, with no index.
\<close>

definition kNalTypeSps :: int where "kNalTypeSps = 7"
definition kNalTypePps :: int where "kNalTypePps = 8"
definition kNalTypeIdrSlice :: int where "kNalTypeIdrSlice = 5"

lemma nal_types_distinct [simp]:
  "kNalTypeSps \<noteq> kNalTypePps" "kNalTypeSps \<noteq> kNalTypeIdrSlice" "kNalTypePps \<noteq> kNalTypeIdrSlice"
  "kNalTypePps \<noteq> kNalTypeSps"
  by (simp_all add: kNalTypeSps_def kNalTypePps_def kNalTypeIdrSlice_def)

record NalUnit =
  nal_type :: int
  payload :: bytes

record Marker =
  codeBegin :: nat
  payloadBegin :: nat

subsection \<open>Scanning\<close>

text \<open>The loop of \<^verbatim>\<open>FindMarkers\<close> from index \<open>i\<close>.\<close>

function FindMarkers :: "bytes \<Rightarrow> nat \<Rightarrow> Marker list" where
  "FindMarkers data i =
     (if i + 1 < length data then
        (if data ! i = 0 \<and> data ! (i + 1) = 0 \<and>
            i + 3 < length data \<and> data ! (i + 2) = 0 \<and> data ! (i + 3) = 1 then
           \<lparr>codeBegin = i, payloadBegin = i + 4\<rparr> # FindMarkers data (i + 4)
         else if data ! i = 0 \<and> data ! (i + 1) = 0 \<and>
            i + 2 < length data \<and> data ! (i + 2) = 1 then
           \<lparr>codeBegin = i, payloadBegin = i + 3\<rparr> # FindMarkers data (i + 3)
         else FindMarkers data (i + 1))
      else [])"
  by pat_completeness auto
termination
  by (relation "measure (\<lambda>(data, i). length data - i)") auto

declare FindMarkers.simps [simp del]

definition nal_of :: "bytes \<Rightarrow> NalUnit" where
  "nal_of p = \<lparr>nal_type = int (unat (and (p ! 0) 0x1F)), payload = p\<rparr>"

definition ScanStartCodes :: "bytes \<Rightarrow> NalUnit list" where
  "ScanStartCodes data =
     (if data = [] then []
      else
        (let markers = FindMarkers data 0 in
         concat (map (\<lambda>idx.
           (let pb = payloadBegin (markers ! idx);
                pe = (if idx + 1 < length markers then codeBegin (markers ! (idx + 1))
                      else length data)
            in if pe \<le> pb then []
               else [\<lparr>nal_type = int (unat (and (data ! pb) 0x1F)), payload = slice data pb pe\<rparr>]))
           [0..<length markers])))"

definition BuildAccessUnit :: "NalUnit list \<Rightarrow> bytes" where
  "BuildAccessUnit nals = concat (map (\<lambda>nal. [0, 0, 0, 1] @ payload nal) nals)"

subsection \<open>The reference splitter\<close>

function split_codes :: "bytes \<Rightarrow> bytes \<times> bytes list" where
  "split_codes bs =
     (if starts_with [0, 0, 0, 1] bs then
        (let r = split_codes (drop 4 bs) in ([], fst r # snd r))
      else if starts_with [0, 0, 1] bs then
        (let r = split_codes (drop 3 bs) in ([], fst r # snd r))
      else (case bs of
              [] \<Rightarrow> ([], [])
            | x # xs \<Rightarrow> (let r = split_codes xs in (x # fst r, snd r))))"
  by pat_completeness auto
termination
  by (relation "measure length") (auto simp: starts_with_iff)

declare split_codes.simps [simp del]

text \<open>A payload holds no start code of its own.\<close>

definition code_free :: "bytes \<Rightarrow> bool" where
  "code_free p \<longleftrightarrow> find_sub [0, 0, 1] p = None"

definition wf_nal :: "NalUnit \<Rightarrow> bool" where
  "wf_nal nal \<longleftrightarrow> payload nal \<noteq> [] \<and> code_free (payload nal) \<and> nal = nal_of (payload nal)"

lemma split_codes_Nil [simp]: "split_codes [] = ([], [])"
  by (simp add: split_codes.simps)

lemma split_codes_4 [simp]:
  "split_codes ([0, 0, 0, 1] @ r) = ([], fst (split_codes r) # snd (split_codes r))"
  by (simp add: split_codes.simps [of "0 # _"] Let_def)

lemma split_codes_3 [simp]:
  "split_codes ([0, 0, 1] @ r) = ([], fst (split_codes r) # snd (split_codes r))"
  by (simp add: split_codes.simps [of "0 # _"] Let_def)

lemma split_codes_plain:
  "\<not> starts_with [0, 0, 0, 1] (x # xs) \<Longrightarrow> \<not> starts_with [0, 0, 1] (x # xs) \<Longrightarrow>
   split_codes (x # xs) = (x # fst (split_codes xs), snd (split_codes xs))"
  by (simp only: split_codes.simps [of "x # xs"] if_False list.case Let_def)

lemma split_codes_cases:
  obtains (nil) "bs = []"
  | (four) r where "bs = [0, 0, 0, 1] @ r"
  | (three) r where "bs = [0, 0, 1] @ r"
  | (plain) x xs where "bs = x # xs" "\<not> starts_with [0, 0, 0, 1] bs" "\<not> starts_with [0, 0, 1] bs"
  by (metis list.exhaust starts_with_iff)

lemma code_free_Cons:
  "code_free (x # xs) \<longleftrightarrow> \<not> starts_with [0, 0, 1] (x # xs) \<and> code_free xs"
  by (auto simp: code_free_def simp del: starts_with.simps)

lemma code_free_Nil [simp]: "code_free []"
  by (simp add: code_free_def)

text \<open>Every chunk of the reference, the leading one included, is free of start codes.\<close>

lemma starts_with_prefix: "starts_with n xs \<Longrightarrow> starts_with n (xs @ ys)"
  by (metis append_assoc starts_with_iff)

lemma split_codes_prefix: "\<exists>r. bs = fst (split_codes bs) @ r"
proof (induction bs rule: measure_induct_rule [of length])
  case (less bs)
  show ?case
  proof (cases bs rule: split_codes_cases)
    case (plain x xs)
    with less [of xs] show ?thesis by (auto simp: split_codes_plain)
  qed (simp_all del: append_Cons)
qed

lemma split_codes_code_free:
  "code_free (fst (split_codes bs)) \<and> list_all code_free (snd (split_codes bs))"
proof (induction bs rule: measure_induct_rule [of length])
  case (less bs)
  show ?case
  proof (cases bs rule: split_codes_cases)
    case (plain x xs)
    obtain r where r: "xs = fst (split_codes xs) @ r"
      using split_codes_prefix by blast
    have "\<not> starts_with [0, 0, 1] (x # fst (split_codes xs))"
      using plain(1, 3) r starts_with_prefix [of "[0, 0, 1]" "x # fst (split_codes xs)" r]
      by (metis append_Cons)
    with less [of xs] plain show ?thesis
      by (simp add: split_codes_plain code_free_Cons)
  qed (use less in \<open>simp_all del: append_Cons\<close>)
qed

subsection \<open>The scanner computes the reference\<close>

fun chunks :: "bytes \<Rightarrow> Marker list \<Rightarrow> bytes list" where
  "chunks data [] = []"
| "chunks data [m] = [drop (payloadBegin m) data]"
| "chunks data (m # n # ms) = slice data (payloadBegin m) (codeBegin n) # chunks data (n # ms)"

definition lead :: "bytes \<Rightarrow> nat \<Rightarrow> Marker list \<Rightarrow> bytes" where
  "lead data i ms = (case ms of [] \<Rightarrow> drop i data | m # _ \<Rightarrow> slice data i (codeBegin m))"

lemma chunks_Cons: "chunks data (m # ms) = lead data (payloadBegin m) ms # chunks data ms"
  by (cases ms) (simp_all add: lead_def)

lemma starts_with_drop_Cons:
  "starts_with (a # as) (drop i xs) \<longleftrightarrow> i < length xs \<and> xs ! i = a \<and> starts_with as (drop (Suc i) xs)"
  by (cases "i < length xs") (auto simp flip: Cons_nth_drop_Suc)

lemma starts_with_drop4:
  "starts_with [a, b, c, d] (drop i xs) \<longleftrightarrow>
     i + 3 < length xs \<and> xs ! i = a \<and> xs ! (i + 1) = b \<and> xs ! (i + 2) = c \<and> xs ! (i + 3) = d"
  by (auto simp: starts_with_drop_Cons numeral_eq_Suc)

lemma starts_with_drop3:
  "starts_with [a, b, c] (drop i xs) \<longleftrightarrow>
     i + 2 < length xs \<and> xs ! i = a \<and> xs ! (i + 1) = b \<and> xs ! (i + 2) = c"
  by (auto simp: starts_with_drop_Cons numeral_eq_Suc)

lemma FindMarkers_cases:
  obtains (four) "i + 3 < length data" "starts_with [0, 0, 0, 1] (drop i data)"
      "FindMarkers data i = \<lparr>codeBegin = i, payloadBegin = i + 4\<rparr> # FindMarkers data (i + 4)"
    | (three) "i + 2 < length data" "\<not> starts_with [0, 0, 0, 1] (drop i data)"
      "starts_with [0, 0, 1] (drop i data)"
      "FindMarkers data i = \<lparr>codeBegin = i, payloadBegin = i + 3\<rparr> # FindMarkers data (i + 3)"
    | (plain) "i < length data" "\<not> starts_with [0, 0, 0, 1] (drop i data)"
      "\<not> starts_with [0, 0, 1] (drop i data)" "FindMarkers data i = FindMarkers data (Suc i)"
    | (stop) "length data \<le> i" "FindMarkers data i = []"
proof -
  have end_case: "length data \<le> j + 1 \<Longrightarrow> FindMarkers data j = []" for j
    by (simp add: FindMarkers.simps [of data j])
  consider "length data \<le> i" | "i < length data" "starts_with [0, 0, 0, 1] (drop i data)"
    | "i < length data" "\<not> starts_with [0, 0, 0, 1] (drop i data)" "starts_with [0, 0, 1] (drop i data)"
    | "i < length data" "\<not> starts_with [0, 0, 0, 1] (drop i data)" "\<not> starts_with [0, 0, 1] (drop i data)"
    by linarith
  then show ?thesis
  proof cases
    case 1
    then show ?thesis by (intro stop end_case) auto
  next
    case 2
    then show ?thesis
      by (intro four) (auto simp: starts_with_drop4 FindMarkers.simps [of data i])
  next
    case 3
    then show ?thesis
      by (intro three) (auto simp: starts_with_drop4 starts_with_drop3 FindMarkers.simps [of data i])
  next
    case 4
    have "FindMarkers data i = FindMarkers data (Suc i)"
    proof (cases "i + 1 < length data")
      case True
      with 4 show ?thesis
        by (auto simp: starts_with_drop4 starts_with_drop3 FindMarkers.simps [of data i])
    next
      case False
      then show ?thesis by (simp add: end_case)
    qed
    with 4 show ?thesis by (intro plain)
  qed
qed

lemma FindMarkers_ge: "m \<in> set (FindMarkers data i) \<Longrightarrow> i \<le> codeBegin m"
proof (induction "length data - i" arbitrary: i m rule: less_induct)
  case less
  show ?case
  proof (cases rule: FindMarkers_cases [where data = data and i = i])
    case four
    then have "length data - (i + 4) < length data - i" by linarith
    with four less.prems less.hyps [of "i + 4" m] show ?thesis by auto
  next
    case three
    then have "length data - (i + 3) < length data - i" by linarith
    with three less.prems less.hyps [of "i + 3" m] show ?thesis by auto
  next
    case plain
    then have "length data - Suc i < length data - i" by linarith
    with plain less.prems less.hyps [of "Suc i" m] show ?thesis by auto
  next
    case stop
    with less.prems show ?thesis by simp
  qed
qed

lemma lead_Cons:
  assumes "i < length data" and "\<forall>m \<in> set ms. Suc i \<le> codeBegin m"
  shows "lead data i ms = data ! i # lead data (Suc i) ms"
  using assms by (cases ms) (auto simp: lead_def slice_Cons Cons_nth_drop_Suc)

lemma FindMarkers_split:
  "i \<le> length data \<Longrightarrow>
   split_codes (drop i data) = (lead data i (FindMarkers data i), chunks data (FindMarkers data i))"
proof (induction "length data - i" arbitrary: i rule: less_induct)
  case less
  show ?case
  proof (cases rule: FindMarkers_cases [where data = data and i = i])
    case four
    with less.hyps [of "i + 4"] show ?thesis
      by (simp add: split_codes.simps [of "drop i data"] Let_def add.commute chunks_Cons)
         (simp add: lead_def slice_def)
  next
    case three
    with less.hyps [of "i + 3"] show ?thesis
      by (simp add: split_codes.simps [of "drop i data"] Let_def add.commute chunks_Cons)
         (simp add: lead_def slice_def)
  next
    case plain
    then have "split_codes (drop i data) =
        (data ! i # fst (split_codes (drop (Suc i) data)), snd (split_codes (drop (Suc i) data)))"
      by (simp add: split_codes_plain flip: Cons_nth_drop_Suc)
    moreover have "lead data i (FindMarkers data (Suc i)) =
        data ! i # lead data (Suc i) (FindMarkers data (Suc i))"
      using plain(1) by (intro lead_Cons) (auto dest: FindMarkers_ge)
    ultimately show ?thesis
      using plain less.hyps [of "Suc i"] by simp
  next
    case stop
    with less.prems show ?thesis by (simp add: lead_def)
  qed
qed

lemma FindMarkers_less: "m \<in> set (FindMarkers data i) \<Longrightarrow> codeBegin m < length data"
proof (induction "length data - i" arbitrary: i rule: less_induct)
  case less
  show ?case
  proof (cases rule: FindMarkers_cases [where data = data and i = i])
    case four
    then have "length data - (i + 4) < length data - i" by linarith
    with four less.prems less.hyps [of "i + 4"] show ?thesis by auto
  next
    case three
    then have "length data - (i + 3) < length data - i" by linarith
    with three less.prems less.hyps [of "i + 3"] show ?thesis by auto
  next
    case plain
    then have "length data - Suc i < length data - i" by linarith
    with plain less.prems less.hyps [of "Suc i"] show ?thesis by auto
  next
    case stop
    with less.prems show ?thesis by simp
  qed
qed

lemma length_chunks [simp]: "length (chunks data ms) = length ms"
  by (induction data ms rule: chunks.induct) simp_all

lemma nth_chunks:
  "idx < length ms \<Longrightarrow> chunks data ms ! idx =
     slice data (payloadBegin (ms ! idx))
       (if idx + 1 < length ms then codeBegin (ms ! (idx + 1)) else length data)"
proof (induction data ms arbitrary: idx rule: chunks.induct)
  case (2 data m)
  then show ?case by (simp add: slice_def)
next
  case (3 data m n ms)
  then show ?case by (cases idx) simp_all
qed simp

lemma concat_if: "concat (map (\<lambda>p. if p = [] then [] else [f p]) ps) = map f (filter (\<lambda>p. p \<noteq> []) ps)"
  by (induction ps) auto

lemma nal_chunk:
  "e \<le> length data \<Longrightarrow>
   (if e \<le> b then []
    else [\<lparr>nal_type = int (unat (and (data ! b) 0x1F)), payload = slice data b e\<rparr>]) =
   (if slice data b e = [] then [] else [nal_of (slice data b e)])"
  by (simp add: nal_of_def slice_nth0 slice_Nil_iff)

lemma ScanStartCodes_chunks:
  "ScanStartCodes data = map nal_of (filter (\<lambda>p. p \<noteq> []) (chunks data (FindMarkers data 0)))"
proof (cases "data = []")
  case True
  then show ?thesis by (simp add: ScanStartCodes_def FindMarkers.simps)
next
  case False
  let ?ms = "FindMarkers data 0"
  let ?f = "\<lambda>p. if p = [] then [] else [nal_of p]"
  let ?pe = "\<lambda>idx. if idx + 1 < length ?ms then codeBegin (?ms ! (idx + 1)) else length data"
  have pe: "?pe idx \<le> length data" for idx
    using FindMarkers_less [of "?ms ! (idx + 1)" data 0] by (auto intro: less_imp_le)
  have eq: "(let pb = payloadBegin (?ms ! idx); pe = ?pe idx
             in if pe \<le> pb then []
                else [\<lparr>nal_type = int (unat (and (data ! pb) 0x1F)), payload = slice data pb pe\<rparr>])
        = ?f (chunks data ?ms ! idx)" if "idx < length ?ms" for idx
    by (simp only: Let_def nth_chunks [OF that] nal_chunk [OF pe])
  have "ScanStartCodes data = concat (map (\<lambda>idx. ?f (chunks data ?ms ! idx)) [0..<length ?ms])"
    unfolding ScanStartCodes_def using False
    by (simp only: if_False Let_def [of ?ms]) (intro arg_cong [where f = concat] map_cong refl, rule eq, simp)
  also have "\<dots> = concat (map ?f (chunks data ?ms))"
    by (metis (no_types, lifting) length_chunks map_nth map_map comp_def map_eq_conv)
  finally show ?thesis by (simp only: concat_if)
qed

lemma ScanStartCodes_split:
  "ScanStartCodes data = map nal_of (filter (\<lambda>p. p \<noteq> []) (snd (split_codes data)))"
  using FindMarkers_split [of 0 data] by (simp add: ScanStartCodes_chunks)

subsection \<open>Building and rescanning\<close>

lemma code_free_append_code:
  "code_free (x # p) \<Longrightarrow>
   \<not> starts_with [0, 0, 0, 1] (x # p @ [0, 0, 0, 1] @ r) \<and> \<not> starts_with [0, 0, 1] (x # p @ [0, 0, 0, 1] @ r)"
  by (cases p; cases "tl p"; cases "tl (tl p)") (auto simp: code_free_Cons)

lemma split_codes_append_code:
  "code_free p \<Longrightarrow>
   split_codes (p @ [0, 0, 0, 1] @ r) = (p, fst (split_codes r) # snd (split_codes r))"
proof (induction p)
  case Nil
  then show ?case by (simp del: append_Cons)
next
  case (Cons x p)
  have "split_codes ((x # p) @ [0, 0, 0, 1] @ r) =
      (x # fst (split_codes (p @ [0, 0, 0, 1] @ r)), snd (split_codes (p @ [0, 0, 0, 1] @ r)))"
    using code_free_append_code [OF Cons.prems, of r]
    unfolding append_Cons [of x p] by (intro split_codes_plain) blast+
  moreover have "code_free p"
    using Cons.prems by (simp add: code_free_Cons)
  ultimately show ?case using Cons.IH by simp
qed

lemma split_codes_code_free_id: "code_free p \<Longrightarrow> split_codes p = (p, [])"
proof (induction p)
  case (Cons x p)
  have "\<not> starts_with [0, 0, 1] (x # p)" "code_free p"
    using Cons.prems by (simp_all add: code_free_Cons)
  moreover from this have "\<not> starts_with [0, 0, 0, 1] (x # p)"
    by (cases p) (auto simp: code_free_Cons)
  ultimately show ?case using Cons.IH by (simp add: split_codes_plain)
qed simp

lemma split_codes_build:
  "list_all code_free (map payload nals) \<Longrightarrow> code_free p \<Longrightarrow>
   split_codes (p @ BuildAccessUnit nals) = (p, map payload nals)"
proof (induction nals arbitrary: p)
  case Nil
  then show ?case by (simp add: BuildAccessUnit_def split_codes_code_free_id)
next
  case (Cons nal nals)
  have "p @ BuildAccessUnit (nal # nals) = p @ [0, 0, 0, 1] @ (payload nal @ BuildAccessUnit nals)"
    by (simp add: BuildAccessUnit_def)
  moreover have "split_codes (payload nal @ BuildAccessUnit nals) = (payload nal, map payload nals)"
    using Cons by simp
  ultimately show ?case
    using Cons.prems(2) by (simp only: split_codes_append_code) simp
qed

lemma ScanStartCodes_BuildAccessUnit:
  assumes "list_all wf_nal nals" and "code_free garbage"
  shows "ScanStartCodes (garbage @ BuildAccessUnit nals) = nals"
proof -
  have "list_all code_free (map payload nals)"
    using assms by (auto simp: list_all_iff wf_nal_def)
  then have "ScanStartCodes (garbage @ BuildAccessUnit nals) =
      map nal_of (filter (\<lambda>p. p \<noteq> []) (map payload nals))"
    using assms(2) by (simp add: ScanStartCodes_split split_codes_build)
  also have "filter (\<lambda>p. p \<noteq> []) (map payload nals) = map payload nals"
    using assms(1) by (auto simp: filter_id_conv list_all_iff wf_nal_def)
  also have "map nal_of (map payload nals) = nals"
    using assms(1) by (simp add: list_all_iff wf_nal_def map_idI)
  finally show ?thesis .
qed

lemma ScanStartCodes_wf: "list_all wf_nal (ScanStartCodes data)"
  using split_codes_code_free [of data]
  by (auto simp: ScanStartCodes_split list_all_iff wf_nal_def nal_of_def)

subsection \<open>The parameter-set cache\<close>

record SpsPpsCache =
  sps :: "NalUnit option"
  pps :: "NalUnit option"

definition empty_cache :: SpsPpsCache where
  "empty_cache = \<lparr>sps = None, pps = None\<rparr>"

definition cache_nal :: "SpsPpsCache \<Rightarrow> NalUnit \<Rightarrow> SpsPpsCache" where
  "cache_nal c nal =
     (if nal_type nal = kNalTypeSps then c\<lparr>sps := Some nal\<rparr>
      else if nal_type nal = kNalTypePps then c\<lparr>pps := Some nal\<rparr>
      else c)"

text \<open>The index of the first IDR slice.\<close>

fun idr_index :: "NalUnit list \<Rightarrow> nat option" where
  "idr_index [] = None"
| "idr_index (nal # nals) =
     (if nal_type nal = kNalTypeIdrSlice then Some 0 else map_option Suc (idr_index nals))"

definition has_type_before :: "int \<Rightarrow> nat \<Rightarrow> NalUnit list \<Rightarrow> bool" where
  "has_type_before t n nals \<longleftrightarrow> list_ex (\<lambda>nal. nal_type nal = t) (take n nals)"

definition EnsureParameterSets :: "SpsPpsCache \<Rightarrow> NalUnit list \<Rightarrow> SpsPpsCache \<times> NalUnit list" where
  "EnsureParameterSets c nals =
     (let c' = foldl cache_nal c nals in
      case idr_index nals of
        None \<Rightarrow> (c', nals)
      | Some idr \<Rightarrow>
          (if has_type_before kNalTypeSps idr nals \<and> has_type_before kNalTypePps idr nals then (c', nals)
           else (case (sps c', pps c') of
                   (Some s, Some p) \<Rightarrow> (c', [s, p] @ nals)
                 | _ \<Rightarrow> (c', nals))))"

text \<open>A stream of access units through one cache.\<close>

fun ensure_stream :: "SpsPpsCache \<Rightarrow> NalUnit list list \<Rightarrow> NalUnit list list" where
  "ensure_stream c [] = []"
| "ensure_stream c (au # aus) =
     snd (EnsureParameterSets c au) # ensure_stream (fst (EnsureParameterSets c au)) aus"

text \<open>A receiver can decode an access unit: its first IDR slice follows an SPS and a PPS.\<close>

definition decodable :: "NalUnit list \<Rightarrow> bool" where
  "decodable nals = (case idr_index nals of
     None \<Rightarrow> True
   | Some idr \<Rightarrow> has_type_before kNalTypeSps idr nals \<and> has_type_before kNalTypePps idr nals)"

definition last_of :: "int \<Rightarrow> NalUnit list \<Rightarrow> NalUnit option" where
  "last_of t nals = find (\<lambda>nal. nal_type nal = t) (rev nals)"

definition cache_tracks :: "SpsPpsCache \<Rightarrow> NalUnit list \<Rightarrow> bool" where
  "cache_tracks c seen \<longleftrightarrow> sps c = last_of kNalTypeSps seen \<and> pps c = last_of kNalTypePps seen"

lemma last_of_snoc [simp]:
  "last_of t (seen @ [nal]) = (if nal_type nal = t then Some nal else last_of t seen)"
  by (simp add: last_of_def)

lemma cache_tracks_empty [simp]: "cache_tracks empty_cache []"
  by (simp add: cache_tracks_def empty_cache_def last_of_def)

lemma cache_tracks_fold [preserves]:
  "cache_tracks c seen \<Longrightarrow> cache_tracks (foldl cache_nal c nals) (seen @ nals)"
proof (induction nals arbitrary: c seen)
  case (Cons nal nals)
  have "cache_tracks (cache_nal c nal) (seen @ [nal])"
    using Cons.prems
    by (simp add: cache_tracks_def cache_nal_def kNalTypeSps_def kNalTypePps_def)
  from Cons.IH [OF this] show ?case by simp
qed simp

lemma fst_EnsureParameterSets [simp]:
  "fst (EnsureParameterSets c nals) = foldl cache_nal c nals"
  by (simp add: EnsureParameterSets_def Let_def split: option.splits)

lemma last_of_type: "last_of t seen = Some nal \<Longrightarrow> nal_type nal = t"
  by (auto simp: last_of_def find_Some_iff)

lemma idr_index_append_params:
  "nal_type s = kNalTypeSps \<Longrightarrow> nal_type p = kNalTypePps \<Longrightarrow>
   idr_index (s # p # nals) = map_option (\<lambda>i. Suc (Suc i)) (idr_index nals)"
  by (cases "idr_index nals") (simp_all add: kNalTypeSps_def kNalTypePps_def kNalTypeIdrSlice_def)

lemma EnsureParameterSets_decodable:
  assumes "cache_tracks c seen"
    and "last_of kNalTypeSps (seen @ nals) \<noteq> None" and "last_of kNalTypePps (seen @ nals) \<noteq> None"
  shows "decodable (snd (EnsureParameterSets c nals))"
proof -
  let ?c = "foldl cache_nal c nals"
  obtain s p where sp: "sps ?c = Some s" "pps ?c = Some p"
      "nal_type s = kNalTypeSps" "nal_type p = kNalTypePps"
    using cache_tracks_fold [OF assms(1), of nals] assms(2, 3)
    by (auto simp: cache_tracks_def dest: last_of_type)
  then show ?thesis
    by (cases "idr_index nals")
       (auto simp: EnsureParameterSets_def Let_def decodable_def idr_index_append_params has_type_before_def)
qed

lemma ensure_stream_decodable:
  assumes "cache_tracks c seen" and "k < length aus"
    and "last_of kNalTypeSps (seen @ concat (take (Suc k) aus)) \<noteq> None"
    and "last_of kNalTypePps (seen @ concat (take (Suc k) aus)) \<noteq> None"
  shows "decodable (ensure_stream c aus ! k)"
  using assms
proof (induction c aus arbitrary: k seen rule: ensure_stream.induct)
  case (2 c au aus)
  show ?case
  proof (cases k)
    case 0
    with 2 EnsureParameterSets_decodable [of c seen au] show ?thesis by simp
  next
    case (Suc j)
    with 2 cache_tracks_fold [of c seen au] show ?thesis
      using "2.IH" [of "seen @ au" j] by simp
  qed
qed simp

subsection \<open>Properties\<close>

text \<open>C40. The index-driven scanner, with its two start-code lengths and its loop bounds, computes
  the reference splitting of any buffer: the NAL units are the non-empty texts between start codes,
  in order, each typed by the low five bits of its first byte, and the bytes before the first start
  code are dropped.\<close>

theorem scan_is_reference:
  "ScanStartCodes data = map nal_of (filter (\<lambda>p. p \<noteq> []) (snd (split_codes data)))"
  by (rule ScanStartCodes_split)

text \<open>C35. Rebuilding what was scanned and scanning it again gives the same NAL units, whatever
  buffer the encoder emitted; and every list of well-formed NAL units, built as one access unit and
  received behind leading bytes that hold no start code, is recovered exactly.\<close>

theorem access_unit_roundtrip:
  "ScanStartCodes (BuildAccessUnit (ScanStartCodes data)) = ScanStartCodes data \<and>
   (list_all wf_nal nals \<and> code_free garbage \<longrightarrow>
      ScanStartCodes (garbage @ BuildAccessUnit nals) = nals)"
  using ScanStartCodes_BuildAccessUnit [of "ScanStartCodes data" "[]"]
  by (auto simp: ScanStartCodes_wf ScanStartCodes_BuildAccessUnit)

theorem access_unit_roundtrip_witness:
  "ScanStartCodes ([9] @ BuildAccessUnit [nal_of [0x67, 0, 0], nal_of [0x65, 1]]) =
     [nal_of [0x67, 0, 0], nal_of [0x65, 1]]"
proof -
  have "list_all wf_nal [nal_of [0x67, 0, 0], nal_of [0x65, 1]] \<and> code_free [9]"
    by code_simp
  with access_unit_roundtrip [of "[]" "[nal_of [0x67, 0, 0], nal_of [0x65, 1]]" "[9]"]
  show ?thesis by blast
qed

text \<open>C22. For every sequence of access units sent through one cache, each access unit sent once an
  SPS and a PPS have been seen (in it or before it) is decodable on its own: its first IDR slice has
  an SPS and a PPS before it.\<close>

theorem every_keyframe_decodable:
  assumes "k < length aus"
    and "\<exists>nal \<in> set (concat (take (Suc k) aus)). nal_type nal = kNalTypeSps"
    and "\<exists>nal \<in> set (concat (take (Suc k) aus)). nal_type nal = kNalTypePps"
  shows "decodable (ensure_stream empty_cache aus ! k)"
proof -
  have "last_of t xs \<noteq> None" if "\<exists>nal \<in> set xs. nal_type nal = t" for t and xs :: "NalUnit list"
    using that by (auto simp: last_of_def find_None_iff)
  with assms show ?thesis
    by (intro ensure_stream_decodable [of _ "[]"]) simp_all
qed

theorem every_keyframe_decodable_witness:
  "decodable (ensure_stream empty_cache
     [[nal_of [0x67, 1], nal_of [0x68, 2], nal_of [0x65, 3]], [nal_of [0x61, 4]], [nal_of [0x65, 5]]] ! 2)"
  by (rule every_keyframe_decodable)
     (simp_all add: nal_of_def kNalTypeSps_def kNalTypePps_def)

end
