(* ===== verification/JsonParser.thy ===== *)
theory JsonParser
  imports Prelude
begin

text \<open>
  The JSON reader and string escaper of the settings file
  (\<^verbatim>\<open>src/src/app/Config.cpp\<close>).  The cursor of \<^verbatim>\<open>JsonParser\<close>
  is kept as the text from \<^verbatim>\<open>pos_\<close> on; each method returns its value with the
  text that is left, or \<open>None\<close>.
\<close>

abbreviation dq :: char where "dq \<equiv> CHR 0x22"
abbreviation bsl :: char where "bsl \<equiv> CHR 0x5C"
abbreviation lbrace :: char where "lbrace \<equiv> CHR 0x7B"
abbreviation rbrace :: char where "rbrace \<equiv> CHR 0x7D"

datatype Json =
  JNull | JBool bool | JInt int | JString string | JObject "(string \<times> Json) list" | JArray "Json list"

subsection \<open>Code points\<close>

definition AppendUtf8 :: "u32 \<Rightarrow> string" where
  "AppendUtf8 codepoint =
     (if codepoint \<le> 0x7F then [char_of (unat codepoint)]
      else if codepoint \<le> 0x7FF then
        [char_of (unat (or 0xC0 (drop_bit 6 codepoint))),
         char_of (unat (or 0x80 (and codepoint 0x3F)))]
      else
        [char_of (unat (or 0xE0 (drop_bit 12 codepoint))),
         char_of (unat (or 0x80 (and (drop_bit 6 codepoint) 0x3F))),
         char_of (unat (or 0x80 (and codepoint 0x3F)))])"

definition hex_value :: "char \<Rightarrow> u32 option" where
  "hex_value h =
     (if is_digit h then Some (of_nat (code h - 48))
      else if 97 \<le> code h \<and> code h \<le> 102 then Some (of_nat (code h - 97 + 10))
      else if 65 \<le> code h \<and> code h \<le> 70 then Some (of_nat (code h - 65 + 10))
      else None)"

text \<open>The four hexadecimal digits of an escape.\<close>

fun hex_digits :: "nat \<Rightarrow> u32 \<Rightarrow> string \<Rightarrow> (u32 \<times> string) option" where
  "hex_digits 0 cp s = Some (cp, s)"
| "hex_digits (Suc n) cp [] = None"
| "hex_digits (Suc n) cp (h # s) =
     (case hex_value h of
        None \<Rightarrow> None
      | Some v \<Rightarrow> hex_digits n (or (push_bit 4 cp) v) s)"

subsection \<open>The cursor\<close>

definition Skip :: "string \<Rightarrow> string" where
  "Skip s = dropWhile is_space s"

definition Consume :: "char \<Rightarrow> string \<Rightarrow> string option" where
  "Consume c s = (case Skip s of [] \<Rightarrow> None | x # r \<Rightarrow> if x = c then Some r else None)"

lemma length_Skip [bounds]: "length (Skip s) \<le> length s"
  by (simp add: Skip_def length_dropWhile_le)

lemma Consume_shorter [bounds]: "Consume c s = Some r \<Longrightarrow> length r < length s"
  using length_Skip [of s] by (auto simp: Consume_def split: list.splits if_splits)

subsection \<open>Strings\<close>

text \<open>An escape behind the backslash: the text it stands for and what is left.\<close>

definition parse_escape :: "string \<Rightarrow> (string \<times> string) option" where
  "parse_escape s =
     (case s of
        [] \<Rightarrow> None
      | e # r \<Rightarrow>
          (if e = dq \<or> e = bsl \<or> e = CHR ''/'' then Some ([e], r)
           else if e = CHR ''b'' then Some ([CHR 0x08], r)
           else if e = CHR ''f'' then Some ([CHR 0x0C], r)
           else if e = CHR ''n'' then Some ([CHR 0x0A], r)
           else if e = CHR ''r'' then Some ([CHR 0x0D], r)
           else if e = CHR ''t'' then Some ([CHR 0x09], r)
           else if e = CHR ''u'' then
             (if length r < 4 then None
              else map_option (\<lambda>(cp, r'). (AppendUtf8 cp, r')) (hex_digits 4 0 r))
           else None))"

lemma hex_digits_le: "hex_digits n cp s = Some (cp', r) \<Longrightarrow> length r \<le> length s"
proof (induction n cp s rule: hex_digits.induct)
  case (3 n cp h s)
  then show ?case by (fastforce split: option.splits)
qed simp_all

lemma parse_escape_shorter [bounds]: "parse_escape s = Some (t, r) \<Longrightarrow> length r < length s"
  by (auto simp: parse_escape_def split: list.splits if_splits dest: hex_digits_le)

text \<open>The loop of \<^verbatim>\<open>ParseString\<close>, \<open>out\<close> being what is decoded so far.\<close>

function string_loop :: "string \<Rightarrow> string \<Rightarrow> (string \<times> string) option" where
  "string_loop out [] = None"
| "string_loop out (c # s) =
     (if c = dq then Some (out, s)
      else if code c < 0x20 then None
      else if c \<noteq> bsl then string_loop (out @ [c]) s
      else (case parse_escape s of
              None \<Rightarrow> None
            | Some (t, r) \<Rightarrow> string_loop (out @ t) r))"
  by pat_completeness auto
termination
  by (relation "measure (\<lambda>(out, s). length s)") (auto dest: parse_escape_shorter)

definition ParseString :: "string \<Rightarrow> (string \<times> string) option" where
  "ParseString s = (case Consume dq s of None \<Rightarrow> None | Some r \<Rightarrow> string_loop [] r)"

lemma string_loop_shorter [bounds]: "string_loop out s = Some (t, r) \<Longrightarrow> length r < length s"
proof (induction out s rule: string_loop.induct)
  case (2 out c s)
  show ?case
  proof (cases "c = dq \<or> code c < 0x20 \<or> c \<noteq> bsl")
    case True
    with 2 show ?thesis by (auto split: if_splits intro: less_SucI)
  next
    case False
    with "2.prems" obtain u q where "parse_escape s = Some (u, q)" "string_loop (out @ u) q = Some (t, r)"
      by (auto split: option.splits)
    with False "2.IH"(2) show ?thesis by (fastforce dest: parse_escape_shorter)
  qed
qed simp

lemma ParseString_shorter [bounds]: "ParseString s = Some (t, r) \<Longrightarrow> length r < length s"
  by (auto simp: ParseString_def split: option.splits dest!: string_loop_shorter Consume_shorter)

subsection \<open>Numbers\<close>

definition int64_min :: int where "int64_min = - (2 ^ 63)"
definition int64_max :: int where "int64_max = 2 ^ 63 - 1"

definition parse_int64 :: "string \<Rightarrow> (Json \<times> string) option" where
  "parse_int64 s =
     (let neg = (case s of [] \<Rightarrow> False | c # _ \<Rightarrow> c = CHR ''-'');
          body = (if neg then tl s else s);
          ds = takeWhile is_digit body;
          number = (if neg then - int (digits_val ds) else int (digits_val ds))
      in if ds = [] then None
         else if number < int64_min \<or> int64_max < number then None
         else Some (JInt number, dropWhile is_digit body))"

lemma parse_int64_shorter [bounds]: "parse_int64 s = Some (j, r) \<Longrightarrow> length r < length s"
proof -
  have "takeWhile is_digit b \<noteq> [] \<Longrightarrow> length (dropWhile is_digit b) < length b" for b
    by (cases b) (auto simp: length_dropWhile_le le_imp_less_Suc split: if_splits)
  moreover assume "parse_int64 s = Some (j, r)"
  ultimately show ?thesis
    by (cases s) (auto simp: parse_int64_def Let_def length_dropWhile_le le_imp_less_Suc
        split: if_splits intro: less_SucI)
qed

subsection \<open>Values\<close>

text \<open>The values that are not containers: strings, the three literals and numbers.\<close>

definition parse_scalar :: "string \<Rightarrow> (Json \<times> string) option" where
  "parse_scalar s =
     (if starts_with [dq] s then map_option (\<lambda>(v, r). (JString v, r)) (ParseString s)
      else if starts_with ''true'' s then Some (JBool True, drop 4 s)
      else if starts_with ''false'' s then Some (JBool False, drop 5 s)
      else if starts_with ''null'' s then Some (JNull, drop 4 s)
      else parse_int64 s)"

lemma parse_scalar_shorter [bounds]: "parse_scalar s = Some (j, r) \<Longrightarrow> length r < length s"
  unfolding parse_scalar_def
  by (auto simp: starts_with_iff split: if_splits dest: ParseString_shorter parse_int64_shorter)

function ParseValue :: "string \<Rightarrow> (Json \<times> string) option"
  and ParseObject :: "string \<Rightarrow> (Json \<times> string) option"
  and object_loop :: "(string \<times> Json) list \<Rightarrow> string \<Rightarrow> (Json \<times> string) option"
  and ParseArray :: "string \<Rightarrow> (Json \<times> string) option"
  and array_loop :: "Json list \<Rightarrow> string \<Rightarrow> (Json \<times> string) option"
where
  "ParseValue t =
     (case Skip t of
        [] \<Rightarrow> None
      | c # s \<Rightarrow>
          (if c = lbrace then ParseObject (c # s)
           else if c = CHR ''['' then ParseArray (c # s)
           else parse_scalar (c # s)))"
| "ParseObject s =
     (case Consume lbrace s of
        None \<Rightarrow> None
      | Some s1 \<Rightarrow>
          (case Consume rbrace s1 of
             Some r \<Rightarrow> Some (JObject [], r)
           | None \<Rightarrow> object_loop [] (Skip s1)))"
| "object_loop object s =
     (case ParseString s of
        None \<Rightarrow> None
      | Some (key, s1) \<Rightarrow>
          (case Consume CHR '':'' s1 of
             None \<Rightarrow> None
           | Some s2 \<Rightarrow>
               (case ParseValue s2 of
                  None \<Rightarrow> None
                | Some (value, s3) \<Rightarrow>
                    (case Consume rbrace s3 of
                       Some r \<Rightarrow> Some (JObject (smap_put key value object), r)
                     | None \<Rightarrow>
                         (case Consume CHR '','' s3 of
                            None \<Rightarrow> None
                          | Some s4 \<Rightarrow> object_loop (smap_put key value object) s4)))))"
| "ParseArray s =
     (case Consume CHR ''['' s of
        None \<Rightarrow> None
      | Some s1 \<Rightarrow>
          (case Consume CHR '']'' s1 of
             Some r \<Rightarrow> Some (JArray [], r)
           | None \<Rightarrow> array_loop [] (Skip s1)))"
| "array_loop array s =
     (case ParseValue s of
        None \<Rightarrow> None
      | Some (value, s1) \<Rightarrow>
          (case Consume CHR '']'' s1 of
             Some r \<Rightarrow> Some (JArray (array @ [value]), r)
           | None \<Rightarrow>
               (case Consume CHR '','' s1 of
                  None \<Rightarrow> None
                | Some s2 \<Rightarrow> array_loop (array @ [value]) s2)))"
  by pat_completeness auto

abbreviation parse_dom where
  "parse_dom \<equiv> ParseValue_ParseObject_object_loop_ParseArray_array_loop_dom"

lemma parse_shorter_dom:
  "parse_dom (Inl (Inl t)) \<Longrightarrow> (\<forall>v r. ParseValue t = Some (v, r) \<longrightarrow> length r < length t)"
  "parse_dom (Inl (Inr s)) \<Longrightarrow> (\<forall>v r. ParseObject s = Some (v, r) \<longrightarrow> length r < length s)"
  "parse_dom (Inr (Inl (ob, s'))) \<Longrightarrow> (\<forall>v r. object_loop ob s' = Some (v, r) \<longrightarrow> length r < length s')"
  "parse_dom (Inr (Inr (Inl s))) \<Longrightarrow> (\<forall>v r. ParseArray s = Some (v, r) \<longrightarrow> length r < length s)"
  "parse_dom (Inr (Inr (Inr (ar, s')))) \<Longrightarrow> (\<forall>v r. array_loop ar s' = Some (v, r) \<longrightarrow> length r < length s')"
proof (induction t and s and ob s' and s and ar s' rule: ParseValue_ParseObject_object_loop_ParseArray_array_loop.pinduct)
  case (1 t)
  then show ?case
    using length_Skip [of t]
    by (fastforce simp: ParseValue.psimps split: list.splits if_splits dest: parse_scalar_shorter)
next
  case (2 s)
  show ?case
  proof (intro allI impI)
    fix v r assume p: "ParseObject s = Some (v, r)"
    with 2(1) obtain s1 where s1: "Consume lbrace s = Some s1"
      by (auto simp: ParseObject.psimps split: option.splits)
    show "length r < length s"
    proof (cases "Consume rbrace s1")
      case None
      with p 2(1) s1 2(2) [OF s1 None] length_Skip [of s1] Consume_shorter [OF s1] show ?thesis
        by (auto simp: ParseObject.psimps)
    next
      case (Some r')
      with p 2(1) s1 Consume_shorter [OF s1] Consume_shorter [OF Some] show ?thesis
        by (auto simp: ParseObject.psimps)
    qed
  qed
next
  case (3 ob s)
  show ?case
  proof (intro allI impI)
    fix v r assume "object_loop ob s = Some (v, r)"
    with 3 show "length r < length s"
      by (fastforce simp: object_loop.psimps split: option.splits dest!: Consume_shorter ParseString_shorter)
  qed
next
  case (4 s)
  show ?case
  proof (intro allI impI)
    fix v r assume p: "ParseArray s = Some (v, r)"
    with 4(1) obtain s1 where s1: "Consume CHR ''['' s = Some s1"
      by (auto simp: ParseArray.psimps split: option.splits)
    show "length r < length s"
    proof (cases "Consume CHR '']'' s1")
      case None
      with p 4(1) s1 4(2) [OF s1 None] length_Skip [of s1] Consume_shorter [OF s1] show ?thesis
        by (auto simp: ParseArray.psimps)
    next
      case (Some r')
      with p 4(1) s1 Consume_shorter [OF s1] Consume_shorter [OF Some] show ?thesis
        by (auto simp: ParseArray.psimps)
    qed
  qed
next
  case (5 ar s)
  show ?case
  proof (intro allI impI)
    fix v r assume "array_loop ar s = Some (v, r)"
    with 5 show "length r < length s"
      by (fastforce simp: array_loop.psimps split: option.splits dest!: Consume_shorter)
  qed
qed

termination ParseValue
proof (relation "measure (\<lambda>x. case x of
    Inl (Inl t) \<Rightarrow> 3 * length t + 2 | Inl (Inr s) \<Rightarrow> 3 * length s + 1
  | Inr (Inl (ob, s)) \<Rightarrow> 3 * length s + 3
  | Inr (Inr (Inl s)) \<Rightarrow> 3 * length s + 1 | Inr (Inr (Inr (ar, s))) \<Rightarrow> 3 * length s + 3)", goal_cases)
  case (2 t c s)
  then show ?case using length_Skip [of t] by simp
next
  case (3 t c s)
  then show ?case using length_Skip [of t] by simp
next
  case (4 s s1)
  then show ?case using length_Skip [of s1] by (auto dest!: Consume_shorter)
next
  case (5 ob s p key s1 s2)
  then show ?case by (auto dest!: ParseString_shorter Consume_shorter)
next
  case (6 ob s p key s1 s2 q v s3 s4)
  then have "length s3 < length s2" using parse_shorter_dom(1) [of s2] by auto
  with 6 show ?case by (auto dest!: ParseString_shorter Consume_shorter)
next
  case (7 s s1)
  then show ?case using length_Skip [of s1] by (auto dest!: Consume_shorter)
next
  case (9 ar s p v s1 s2)
  then have "length s1 < length s" using parse_shorter_dom(1) [of s] by auto
  with 9 show ?case by (auto dest!: Consume_shorter)
qed auto

declare ParseValue.simps [simp del] ParseObject.simps [simp del] object_loop.simps [simp del]
  ParseArray.simps [simp del] array_loop.simps [simp del]

definition Parse :: "string \<Rightarrow> Json option" where
  "Parse text =
     (case ParseValue text of
        None \<Rightarrow> None
      | Some (value, r) \<Rightarrow> if Skip r \<noteq> [] then None else Some value)"

subsection \<open>Escaping\<close>

definition hex :: string where
  "hex = ''0123456789abcdef''"

definition escape_char :: "char \<Rightarrow> string" where
  "escape_char c =
     (if c = dq then [bsl, dq]
      else if c = bsl then [bsl, bsl]
      else if c = CHR 0x08 then [bsl, CHR ''b'']
      else if c = CHR 0x0C then [bsl, CHR ''f'']
      else if c = CHR 0x0A then [bsl, CHR ''n'']
      else if c = CHR 0x0D then [bsl, CHR ''r'']
      else if c = CHR 0x09 then [bsl, CHR ''t'']
      else if code c < 0x20 then [bsl] @ ''u00'' @ [hex ! (code c div 16), hex ! (code c mod 16)]
      else [c])"

definition EscapeJson :: "string \<Rightarrow> string" where
  "EscapeJson value = concat (map escape_char value)"

lemma EscapeJson_Nil [simp]: "EscapeJson [] = []"
  by (simp add: EscapeJson_def)

lemma EscapeJson_Cons [simp]: "EscapeJson (c # s) = escape_char c @ EscapeJson s"
  by (simp add: EscapeJson_def)

lemma hex_nth: "\<forall>n < 16. hex_value (hex ! n) = Some (of_nat n)"
  by code_simp

lemma below_2_or_16:
  "n < 2 \<Longrightarrow> n \<in> {0, 1 :: nat}"
  "n < 16 \<Longrightarrow> n \<in> {15, 14, 13, 12, 11, 10, 9, 8, 7, 6, 5, 4, 3, 2, 1, 0 :: nat}"
  by (simp; presburger)+

lemma hex_pair_utf8:
  "a < 2 \<Longrightarrow> b < 16 \<Longrightarrow>
   AppendUtf8 (or (push_bit 4 (of_nat a)) (of_nat b)) = [char_of (16 * a + b :: nat)]"
  by (drule below_2_or_16(1), drule below_2_or_16(2))
     (elim insertE emptyE; simp add: AppendUtf8_def push_bit_eq_mult)

lemma hex_digits_escape:
  assumes "hex_value h = Some x" and "hex_value l = Some y"
  shows "hex_digits 4 0 (''00'' @ [h, l] @ r) = Some (or (push_bit 4 x) y, r)"
proof -
  have "(4::nat) = Suc (Suc (Suc (Suc 0)))" "hex_value CHR ''0'' = Some 0"
    by (simp_all add: hex_value_def is_digit_def)
  then show ?thesis using assms by (simp only: append.simps hex_digits.simps option.case) simp
qed

lemma parse_hex_escape:
  assumes "code c < 0x20"
  shows "parse_escape (''u00'' @ [hex ! (code c div 16), hex ! (code c mod 16)] @ r) = Some ([c], r)"
proof -
  let ?h = "hex ! (code c div 16)" and ?l = "hex ! (code c mod 16)"
  have "hex_value ?h = Some (of_nat (code c div 16))" "hex_value ?l = Some (of_nat (code c mod 16))"
    using hex_nth assms by simp_all
  note d = hex_digits_escape [OF this, of r]
  have "AppendUtf8 (or (push_bit 4 (of_nat (code c div 16))) (of_nat (code c mod 16))) =
      [char_of (16 * (code c div 16) + code c mod 16 :: nat)]"
    using assms by (intro hex_pair_utf8) auto
  also have "\<dots> = [c]" by simp
  finally show ?thesis
    using d by (simp add: parse_escape_def)
qed

lemma escape_char_cases:
  obtains (short) e where "escape_char c = [bsl, e]" "\<And>r. parse_escape (e # r) = Some ([c], r)"
    | (long) "escape_char c = [bsl] @ ''u00'' @ [hex ! (code c div 16), hex ! (code c mod 16)]" "code c < 0x20"
    | (same) "escape_char c = [c]" "c \<noteq> dq" "c \<noteq> bsl" "\<not> code c < 0x20"
proof (cases "c \<in> {dq, bsl, CHR 0x08, CHR 0x0C, CHR 0x0A, CHR 0x0D, CHR 0x09}")
  case True
  then have "\<exists>e. escape_char c = [bsl, e] \<and> (\<forall>r. parse_escape (e # r) = Some ([c], r))"
    by (elim insertE emptyE) (simp_all add: escape_char_def parse_escape_def)
  with short show ?thesis by blast
next
  case False
  then have "escape_char c = (if code c < 0x20 then [bsl] @ ''u00'' @ [hex ! (code c div 16), hex ! (code c mod 16)] else [c])"
    by (simp add: escape_char_def)
  with False long same show ?thesis by (cases "code c < 0x20") simp_all
qed

lemma string_loop_escape_char:
  "string_loop out (escape_char c @ r) = string_loop (out @ [c]) r"
proof (cases c rule: escape_char_cases)
  case long
  then show ?thesis using parse_hex_escape [OF long(2), of r] by simp
qed simp_all

lemma string_loop_EscapeJson [codec]:
  "string_loop out (EscapeJson v @ dq # r) = Some (out @ v, r)"
  by (induction v arbitrary: out) (simp_all add: string_loop_escape_char)

lemma Consume_hd [simp]: "\<not> is_space c \<Longrightarrow> Consume c (c # s) = Some s"
  by (simp add: Consume_def Skip_def)

lemma Consume_other [simp]: "\<not> is_space d \<Longrightarrow> d \<noteq> c \<Longrightarrow> Consume c (d # s) = None"
  by (simp add: Consume_def Skip_def)

lemma Skip_spaces: "list_all is_space ws \<Longrightarrow> Skip (ws @ s) = Skip s"
  by (simp add: Skip_def list_all_iff dropWhile_append2)

lemma Consume_spaces: "list_all is_space ws \<Longrightarrow> Consume c (ws @ s) = Consume c s"
  by (simp add: Consume_def Skip_spaces)

lemma Skip_hd [simp]: "\<not> is_space c \<Longrightarrow> Skip (c # s) = c # s"
  by (simp add: Skip_def)

lemma delims_not_space [simp]:
  "\<not> is_space dq" "\<not> is_space lbrace" "\<not> is_space rbrace" "\<not> is_space CHR '':''" "\<not> is_space CHR '',''"
  "\<not> is_space CHR ''[''" "\<not> is_space CHR '']''" "\<not> is_space CHR ''-''" "is_space CHR '' ''" "is_space CHR 0x0A"
  by (simp_all add: is_space_def)

text \<open>Every text of bytes, whatever it holds, survives being written and read.\<close>

lemma ParseString_EscapeJson [codec]:
  "ParseString (dq # EscapeJson v @ dq # r) = Some (v, r)"
  by (simp add: ParseString_def string_loop_EscapeJson)

subsection \<open>Texts that read as a value\<close>

definition value_end :: "string \<Rightarrow> bool" where
  "value_end r \<longleftrightarrow> r = [] \<or> \<not> is_digit (hd r)"

definition reads :: "string \<Rightarrow> Json \<Rightarrow> bool" where
  "reads t v \<longleftrightarrow> (\<forall>r. value_end r \<longrightarrow> ParseValue (t @ r) = Some (v, r))"

lemma readsD: "reads t v \<Longrightarrow> value_end r \<Longrightarrow> ParseValue (t @ r) = Some (v, r)"
  by (simp add: reads_def)

lemma ParseValue_spaces: "list_all is_space ws \<Longrightarrow> ParseValue (ws @ s) = ParseValue s"
  by (simp add: ParseValue.simps Skip_spaces)

lemma reads_spaces: "list_all is_space ws \<Longrightarrow> reads t v \<Longrightarrow> reads (ws @ t) v"
  by (simp add: reads_def ParseValue_spaces)

lemma reads_string: "reads ([dq] @ EscapeJson s @ [dq]) (JString s)"
  by (simp add: reads_def ParseValue.simps parse_scalar_def ParseString_EscapeJson)

lemma reads_bool: "reads (if b then ''true'' else ''false'') (JBool b)"
  by (simp add: reads_def ParseValue.simps parse_scalar_def is_space_def)

lemma takeWhile_digits:
  assumes "list_all is_digit ds" and "value_end r"
  shows "takeWhile is_digit (ds @ r) = ds" and "dropWhile is_digit (ds @ r) = r"
  using assms by (cases r; simp add: value_end_def list_all_iff takeWhile_append dropWhile_append)+

lemma digit_starts: "is_digit c \<Longrightarrow> c \<noteq> CHR ''-'' \<and> c \<noteq> dq \<and> c \<noteq> lbrace \<and> c \<noteq> CHR ''['' \<and>
    c \<noteq> CHR ''t'' \<and> c \<noteq> CHR ''f'' \<and> c \<noteq> CHR ''n''"
  by (auto simp: is_digit_def)

lemma reads_int:
  assumes "int64_min \<le> i" and "i \<le> int64_max"
  shows "reads (show_int i) (JInt i)"
  unfolding reads_def
proof (intro allI impI)
  fix r assume r: "value_end r"
  define ds where "ds = show_nat (nat \<bar>i\<bar>)"
  have ds: "list_all is_digit ds" "ds \<noteq> []" "digits_val ds = nat \<bar>i\<bar>"
    by (simp_all add: ds_def)
  then obtain d ds' where d: "ds = d # ds'" "is_digit d" by (cases ds) auto
  have p: "parse_int64 (show_int i @ r) = Some (JInt i, r)"
  proof (cases "i < 0")
    case True
    then have "show_int i = CHR ''-'' # ds" by (simp add: show_int_def ds_def)
    with True ds assms takeWhile_digits [OF ds(1) r] show ?thesis by (simp add: parse_int64_def)
  next
    case False
    then have "show_int i = ds" by (simp add: show_int_def ds_def)
    with False ds assms takeWhile_digits [OF ds(1) r] digit_starts [OF d(2)] show ?thesis
      by (simp add: parse_int64_def d(1) Let_def)
  qed
  have "show_int i = CHR ''-'' # ds \<or> show_int i = d # ds'"
    by (auto simp: show_int_def ds_def simp flip: d(1))
  with p digit_starts [OF d(2)] d(2) show "ParseValue (show_int i @ r) = Some (JInt i, r)"
    by (auto simp: ParseValue.simps parse_scalar_def)
qed

subsection \<open>Texts of containers\<close>

fun join :: "string \<Rightarrow> string list \<Rightarrow> string" where
  "join sep [] = []"
| "join sep [x] = x"
| "join sep (x # y # xs) = x @ sep @ join sep (y # xs)"

definition jkey :: "string \<Rightarrow> string" where
  "jkey k = [dq] @ k @ [dq, CHR '':'']"

definition put_all :: "(string \<times> Json) list \<Rightarrow> (string \<times> Json) list \<Rightarrow> (string \<times> Json) list" where
  "put_all m kvs = foldl (\<lambda>m (k, v). smap_put k v m) m kvs"

lemma put_all_simps [simp]:
  "put_all m [] = m" "put_all m ((k, v) # kvs) = put_all (smap_put k v m) kvs"
  by (simp_all add: put_all_def)

definition field_ok :: "string \<times> string \<Rightarrow> string \<times> Json \<Rightarrow> bool" where
  "field_ok f kv \<longleftrightarrow> fst f = fst kv \<and> EscapeJson (fst f) = fst f \<and> reads (snd f) (snd kv)"

lemma Skip_Skip [simp]: "Skip (Skip s) = Skip s"
  by (simp add: Skip_def dropWhile_idem)

lemma Consume_Skip [simp]: "Consume c (Skip s) = Consume c s"
  by (simp add: Consume_def)

lemma object_loop_Skip [simp]: "object_loop ob (Skip s) = object_loop ob s"
  by (simp add: object_loop.simps ParseString_def)

lemma array_loop_Skip [simp]: "array_loop ar (Skip s) = array_loop ar s"
  by (simp add: array_loop.simps ParseValue.simps)

lemma value_end_spaces: "list_all is_space ws \<Longrightarrow> \<not> is_digit c \<Longrightarrow> value_end (ws @ c # r)"
  by (cases ws) (auto simp: value_end_def is_space_def is_digit_def)

lemma ParseString_key:
  assumes "EscapeJson k = k" and "list_all is_space ws"
  shows "ParseString (ws @ jkey k @ r) = Some (k, CHR '':'' # r)"
  using string_loop_EscapeJson [of "[]" k "CHR '':'' # r"] assms
  by (simp add: ParseString_def Consume_spaces jkey_def)

lemma object_loop_last:
  assumes "field_ok (k, t) (k', v)" and "list_all is_space ws" and "list_all is_space ws'"
  shows "object_loop ob (ws @ jkey k @ t @ ws' @ rbrace # r) = Some (JObject (smap_put k' v ob), r)"
proof -
  have f: "k' = k" "EscapeJson k = k" "reads t v" using assms(1) by (auto simp: field_ok_def)
  have "ParseValue (t @ ws' @ rbrace # r) = Some (v, ws' @ rbrace # r)"
    using f assms by (intro readsD value_end_spaces) (simp_all add: is_digit_def)
  with f assms show ?thesis
    by (simp add: object_loop.simps ParseString_key Consume_spaces)
qed

lemma object_loop_more:
  assumes "field_ok (k, t) (k', v)" and "list_all is_space ws"
  shows "object_loop ob (ws @ jkey k @ t @ CHR '','' # r) = object_loop (smap_put k' v ob) r"
proof -
  have f: "k' = k" "EscapeJson k = k" "reads t v" using assms(1) by (auto simp: field_ok_def)
  have "ParseValue (t @ CHR '','' # r) = Some (v, CHR '','' # r)"
    using f by (intro readsD) (simp_all add: value_end_def is_digit_def)
  with f assms(2) show ?thesis
    by (subst object_loop.simps) (simp add: ParseString_key)
qed

lemma object_loop_spaces: "list_all is_space ws \<Longrightarrow> object_loop ob (ws @ s) = object_loop ob s"
  by (metis Skip_spaces object_loop_Skip)

lemma object_loop_join:
  assumes "list_all2 field_ok fs kvs" and "fs \<noteq> []"
    and "list_all is_space ind" and "list_all is_space nl" and "list_all is_space ws"
  shows "object_loop ob (join (CHR '','' # nl) (map (\<lambda>(k, t). ind @ jkey k @ t) fs) @ ws @ rbrace # r) =
         Some (JObject (put_all ob kvs), r)"
  using assms(1,2)
proof (induction fs kvs arbitrary: ob rule: list_all2_induct)
  case (Cons f fs kv kvs)
  obtain k t k' v where [simp]: "f = (k, t)" "kv = (k', v)" by fastforce
  show ?case
  proof (cases fs)
    case Nil
    with Cons object_loop_last [of k t k' v ind ws ob r] assms show ?thesis by simp
  next
    case (Cons g gs)
    let ?rest = "join (CHR '','' # nl) (map (\<lambda>(k, t). ind @ jkey k @ t) fs) @ ws @ rbrace # r"
    have "object_loop ob (ind @ jkey k @ t @ CHR '','' # nl @ ?rest) = object_loop (smap_put k' v ob) ?rest"
      using object_loop_more [of k t k' v ind ob "nl @ ?rest"] Cons.hyps(1) assms(3,4)
      by (simp add: object_loop_spaces)
    also have "\<dots> = Some (JObject (put_all (smap_put k' v ob) kvs), r)"
      using Cons.IH [of "smap_put k' v ob"] Cons by simp
    finally show ?thesis using Cons by (cases g) simp
  qed
qed simp

lemma join_starts: "ts \<noteq> [] \<Longrightarrow> \<exists>s. join sep ts = hd ts @ s"
  by (cases "(sep, ts)" rule: join.cases) auto

lemma reads_object:
  assumes "list_all2 field_ok fs kvs" and "fs \<noteq> []"
    and "list_all is_space ind" and "list_all is_space nl" and "list_all is_space nl'" and "list_all is_space ws"
  shows "reads ([lbrace] @ nl' @ join (CHR '','' # nl) (map (\<lambda>(k, t). ind @ jkey k @ t) fs) @ ws @ [rbrace])
           (JObject (put_all [] kvs))"
  unfolding reads_def
proof (intro allI impI)
  fix r
  let ?body = "join (CHR '','' # nl) (map (\<lambda>(k, t). ind @ jkey k @ t) fs) @ ws @ rbrace # r"
  obtain k t gs where fs: "fs = (k, t) # gs" using assms(2) by (cases fs) auto
  obtain s where "join (CHR '','' # nl) (map (\<lambda>(k, t). ind @ jkey k @ t) fs) = ind @ dq # s"
    using join_starts [of "map (\<lambda>(k, t). ind @ jkey k @ t) fs" "CHR '','' # nl"] by (auto simp: fs jkey_def)
  then have "Consume rbrace (nl' @ ?body) = None"
    using assms(3,5) by (simp add: Consume_spaces)
  then have "ParseObject ([lbrace] @ nl' @ ?body) = Some (JObject (put_all [] kvs), r)"
    using object_loop_join [OF assms(1-4,6), of "[]" r] assms(5)
    by (simp add: ParseObject.simps object_loop_spaces)
  then show "ParseValue (([lbrace] @ nl' @ join (CHR '','' # nl) (map (\<lambda>(k, t). ind @ jkey k @ t) fs) @ ws @ [rbrace]) @ r) =
      Some (JObject (put_all [] kvs), r)"
    by (simp add: ParseValue.simps)
qed

lemma array_loop_spaces: "list_all is_space ws \<Longrightarrow> array_loop ar (ws @ s) = array_loop ar s"
  by (metis Skip_spaces array_loop_Skip)

lemma array_loop_join:
  assumes "list_all2 reads ts vs" and "ts \<noteq> []" and "list_all is_space nl" and "list_all is_space ws"
  shows "array_loop ar (join (CHR '','' # nl) ts @ ws @ CHR '']'' # r) = Some (JArray (ar @ vs), r)"
  using assms(1,2)
proof (induction ts vs arbitrary: ar rule: list_all2_induct)
  case (Cons t ts v vs)
  show ?case
  proof (cases ts)
    case Nil
    have "ParseValue (t @ ws @ CHR '']'' # r) = Some (v, ws @ CHR '']'' # r)"
      using Cons.hyps assms(4) by (intro readsD value_end_spaces) (simp_all add: is_digit_def)
    with Nil Cons.hyps assms(4) show ?thesis
      by (simp add: array_loop.simps Consume_spaces)
  next
    case (Cons u us)
    let ?rest = "join (CHR '','' # nl) ts @ ws @ CHR '']'' # r"
    have "ParseValue (t @ CHR '','' # nl @ ?rest) = Some (v, CHR '','' # nl @ ?rest)"
      using Cons.hyps by (intro readsD) (simp_all add: value_end_def is_digit_def)
    then have "array_loop ar (t @ CHR '','' # nl @ ?rest) = array_loop (ar @ [v]) ?rest"
      using assms(3) by (subst array_loop.simps) (simp add: array_loop_spaces)
    with Cons.IH [of "ar @ [v]"] Cons show ?thesis by simp
  qed
qed simp

lemma reads_array:
  assumes "list_all2 reads ts vs" and "ts \<noteq> []" and "list_all is_space nl" and "list_all is_space nl'" and "list_all is_space ws"
    and "Skip (hd ts) \<noteq> []" and "hd (Skip (hd ts)) \<noteq> CHR '']''"
  shows "reads ([CHR ''[''] @ nl' @ join (CHR '','' # nl) ts @ ws @ [CHR '']'']) (JArray vs)"
  unfolding reads_def
proof (intro allI impI)
  fix r
  let ?body = "join (CHR '','' # nl) ts @ ws @ CHR '']'' # r"
  obtain s where s: "join (CHR '','' # nl) ts = hd ts @ s"
    using join_starts [OF assms(2)] by blast
  have "Skip (hd ts @ s') = Skip (hd ts) @ s'" for s'
    using assms(6) by (auto simp: Skip_def dropWhile_append)
  then have "Consume CHR '']'' (nl' @ ?body) = None"
    using assms(4,6,7) by (cases "Skip (hd ts)") (simp_all add: Consume_def Skip_spaces s)
  then have "ParseArray ([CHR ''[''] @ nl' @ ?body) = Some (JArray vs, r)"
    using array_loop_join [OF assms(1-3,5), of "[]" r] assms(4)
    by (simp add: ParseArray.simps array_loop_spaces)
  then show "ParseValue (([CHR ''[''] @ nl' @ join (CHR '','' # nl) ts @ ws @ [CHR '']'']) @ r) = Some (JArray vs, r)"
    by (simp add: ParseValue.simps)
qed

lemma reads_empty_array: "list_all is_space ws \<Longrightarrow> reads ([CHR ''[''] @ ws @ [CHR '']'']) (JArray [])"
  by (simp add: reads_def ParseValue.simps ParseArray.simps Consume_spaces)

lemma Parse_reads: "reads t v \<Longrightarrow> list_all is_space ws \<Longrightarrow> Parse (t @ ws) = Some v"
proof -
  assume "reads t v" "list_all is_space ws"
  moreover from this have "value_end ws"
    by (cases ws) (auto simp: value_end_def is_space_def is_digit_def)
  moreover have "Skip ws = []" using \<open>list_all is_space ws\<close> by (auto simp: Skip_def list_all_iff)
  ultimately show ?thesis by (simp add: Parse_def readsD)
qed

subsection \<open>Properties\<close>

text \<open>A text of arbitrary bytes, written as an escaped JSON string and read by the string parser,
  comes back unchanged, and the parser stops exactly behind the closing quote.\<close>

lemma string_roundtrip:
  "ParseString (dq # EscapeJson v @ dq # r) = Some (v, r)"
  by (rule ParseString_EscapeJson)

end
