(* ===== verification/Config.thy ===== *)
theory Config
  imports JsonParser
begin

text \<open>
  The settings (\<^verbatim>\<open>src/src/app/Config.h\<close>,
  \<^verbatim>\<open>src/src/app/Config.cpp\<close>): the records, the tolerant reader with its
  migrations, the writer, and the saving of a file through a temporary and a backup.
\<close>

subsection \<open>The records\<close>

datatype LauncherMode = Hidden | Fullscreen | Region

datatype StreamProfile = Balanced | LowBandwidth | Sharp | Custom

record DeviceConfig =
  dev_id :: string
  dev_name :: string
  lastIpv4 :: string
  bonjourHost :: string
  dev_port :: int
  preferredTransport :: string
  priority :: int
  autoConnect :: bool
  lastSeen :: int
  macHint :: string

definition DeviceConfig_default :: DeviceConfig where
  "DeviceConfig_default = \<lparr>dev_id = [], dev_name = [], lastIpv4 = [], bonjourHost = [], dev_port = 9000,
     preferredTransport = [], priority = 0, autoConnect = True, lastSeen = 0, macHint = []\<rparr>"

record Config =
  version :: int
  devices :: "DeviceConfig list"
  port :: int
  autoReconnect :: bool
  fps :: int
  bitrateMbps :: int
  streamProfile :: StreamProfile
  requirePrivateNetwork :: bool
  showLauncher :: bool
  launcherMode :: LauncherMode
  darkTheme :: bool
  taskbarRouting :: bool
  preferredDeviceId :: string
  lastConnectionTransport :: string
  lastWifiAddress :: string
  lastUsbTarget :: string

definition CurrentVersion :: int where "CurrentVersion = 2"

definition Config_default :: Config where
  "Config_default = \<lparr>version = CurrentVersion, devices = [], port = 9000, autoReconnect = True, fps = 60,
     bitrateMbps = 30, streamProfile = Balanced, requirePrivateNetwork = True, showLauncher = True,
     launcherMode = Fullscreen, darkTheme = False, taskbarRouting = False, preferredDeviceId = [],
     lastConnectionTransport = [], lastWifiAddress = [], lastUsbTarget = []\<rparr>"

text \<open>The enumerations by number, as \<^verbatim>\<open>static_cast\<close> reads and writes them.\<close>

fun launcher_number :: "LauncherMode \<Rightarrow> int" where
  "launcher_number Hidden = 0"
| "launcher_number Fullscreen = 1"
| "launcher_number Region = 2"

definition launcher_of :: "int \<Rightarrow> LauncherMode" where
  "launcher_of n = (if n = 0 then Hidden else if n = 1 then Fullscreen else Region)"

fun profile_number :: "StreamProfile \<Rightarrow> int" where
  "profile_number Balanced = 0"
| "profile_number LowBandwidth = 1"
| "profile_number Sharp = 2"
| "profile_number Custom = 3"

definition profile_of :: "int \<Rightarrow> StreamProfile" where
  "profile_of n = (if n = 0 then Balanced else if n = 1 then LowBandwidth else if n = 2 then Sharp else Custom)"

subsection \<open>Fields of an object\<close>

definition Field :: "(string \<times> Json) list \<Rightarrow> string \<Rightarrow> Json option" where
  "Field object key = map_of object key"

definition StringField :: "(string \<times> Json) list \<Rightarrow> string \<Rightarrow> string" where
  "StringField object key = (case Field object key of Some (JString t) \<Rightarrow> t | _ \<Rightarrow> [])"

definition BoolField :: "(string \<times> Json) list \<Rightarrow> string \<Rightarrow> bool option" where
  "BoolField object key = (case Field object key of Some (JBool b) \<Rightarrow> Some b | _ \<Rightarrow> None)"

definition IntField :: "(string \<times> Json) list \<Rightarrow> string \<Rightarrow> int option" where
  "IntField object key = (case Field object key of Some (JInt n) \<Rightarrow> Some n | _ \<Rightarrow> None)"

text \<open>An integer field kept only within a range.\<close>

definition int_in :: "(string \<times> Json) list \<Rightarrow> string \<Rightarrow> int \<Rightarrow> int \<Rightarrow> int option" where
  "int_in object key lo hi =
     (case IntField object key of
        Some n \<Rightarrow> if lo \<le> n \<and> n \<le> hi then Some n else None
      | None \<Rightarrow> None)"

definition uint32_max :: int where "uint32_max = 2 ^ 32 - 1"

subsection \<open>Devices\<close>

definition is_blank :: "char \<Rightarrow> bool" where
  "is_blank c \<longleftrightarrow> c = CHR '' '' \<or> c = CHR 0x09"

definition LegacyDevice :: "string \<Rightarrow> int \<Rightarrow> int \<Rightarrow> DeviceConfig" where
  "LegacyDevice value defaultPort prio =
     (let address = (case find_first is_blank value 0 of None \<Rightarrow> value | Some sep \<Rightarrow> take sep value);
          label = (case find_first is_blank value 0 of
             None \<Rightarrow> []
           | Some sep \<Rightarrow> (case find_first (\<lambda>c. \<not> is_blank c) value sep of None \<Rightarrow> [] | Some first \<Rightarrow> drop first value))
      in DeviceConfig_default\<lparr>dev_port := defaultPort, priority := prio, lastIpv4 := address,
           dev_name := (if label = [] then address else label)\<rparr>)"

definition parse_device :: "int \<Rightarrow> int \<Rightarrow> (string \<times> Json) list \<Rightarrow> DeviceConfig" where
  "parse_device defaultPort index ob =
     \<lparr>dev_id = StringField ob ''id'', dev_name = StringField ob ''name'',
      lastIpv4 = StringField ob ''lastIpv4'', bonjourHost = StringField ob ''bonjourHost'',
      dev_port = value_or (int_in ob ''port'' 1 65535) defaultPort,
      preferredTransport = StringField ob ''preferredTransport'',
      priority = value_or (int_in ob ''priority'' 0 uint32_max) index,
      autoConnect = value_or (BoolField ob ''autoConnect'') True,
      lastSeen = value_or (IntField ob ''lastSeen'') 0,
      macHint = StringField ob ''macHint''\<rparr>"

definition add_device :: "int \<Rightarrow> DeviceConfig list \<Rightarrow> Json \<Rightarrow> DeviceConfig list" where
  "add_device defaultPort ds item =
     (case item of
        JString legacy \<Rightarrow>
          (if legacy = [] then ds else ds @ [LegacyDevice legacy defaultPort (int (length ds))])
      | JObject ob \<Rightarrow>
          (let d = parse_device defaultPort (int (length ds)) ob in
           if dev_id d \<noteq> [] \<or> lastIpv4 d \<noteq> [] \<or> bonjourHost d \<noteq> [] then ds @ [d] else ds)
      | _ \<Rightarrow> ds)"

definition same_device :: "DeviceConfig \<Rightarrow> DeviceConfig \<Rightarrow> bool" where
  "same_device d e \<longleftrightarrow>
     (dev_id d \<noteq> [] \<and> dev_id d = dev_id e) \<or>
     (dev_id d = [] \<and> dev_id e = [] \<and> lastIpv4 d \<noteq> [] \<and> lastIpv4 d = lastIpv4 e \<and> dev_port d = dev_port e)"

fun unique_devices :: "DeviceConfig list \<Rightarrow> DeviceConfig list \<Rightarrow> DeviceConfig list" where
  "unique_devices acc [] = acc"
| "unique_devices acc (d # ds) =
     unique_devices (if list_ex (same_device d) acc then acc else acc @ [d]) ds"

definition number_devices :: "DeviceConfig list \<Rightarrow> DeviceConfig list" where
  "number_devices ds = map (\<lambda>i. (ds ! i)\<lparr>priority := int i\<rparr>) [0..<length ds]"

definition parse_devices :: "int \<Rightarrow> (string \<times> Json) list \<Rightarrow> DeviceConfig list" where
  "parse_devices defaultPort ob =
     (let listed = (case Field ob ''devices'' of Some (JArray items) \<Rightarrow> foldl (add_device defaultPort) [] items | _ \<Rightarrow> []);
          ip = StringField ob ''ip'';
          found = (if listed = [] then (if ip = [] then [] else [LegacyDevice ip defaultPort 0]) else listed)
      in number_devices (unique_devices [] (sort_key priority found)))"

subsection \<open>Reading\<close>

definition parse_config_object :: "(string \<times> Json) list \<Rightarrow> Config" where
  "parse_config_object ob =
     (let p = value_or (int_in ob ''port'' 1 65535) 9000;
          f = value_or (int_in ob ''fps'' 30 120) 60;
          b = value_or (int_in ob ''bitrateMbps'' 5 100) 30;
          shown = value_or (BoolField ob ''showLauncher'') True;
          mode = (case int_in ob ''launcherMode'' 0 2 of
                    Some n \<Rightarrow> launcher_of n
                  | None \<Rightarrow> if shown then Fullscreen else Hidden)
      in \<lparr>version = CurrentVersion,
          devices = parse_devices p ob,
          port = p,
          autoReconnect = value_or (BoolField ob ''autoReconnect'') True,
          fps = f,
          bitrateMbps = b,
          streamProfile = (case int_in ob ''streamProfile'' 0 3 of
              Some n \<Rightarrow> profile_of n
            | None \<Rightarrow> if f \<noteq> 60 \<or> b \<noteq> 30 then Custom else Balanced),
          requirePrivateNetwork = value_or (BoolField ob ''requirePrivateNetwork'') True,
          showLauncher = (mode \<noteq> Hidden),
          launcherMode = mode,
          darkTheme = value_or (BoolField ob ''darkTheme'') False,
          taskbarRouting = (case BoolField ob ''taskbarRouting'' of
              Some r \<Rightarrow> r
            | None \<Rightarrow> IntField ob ''version'' = None),
          preferredDeviceId = StringField ob ''preferredDeviceId'',
          lastConnectionTransport = StringField ob ''lastConnectionTransport'',
          lastWifiAddress = StringField ob ''lastWifiAddress'',
          lastUsbTarget = StringField ob ''lastUsbTarget''\<rparr>)"

definition TryParseConfig :: "string \<Rightarrow> Config option" where
  "TryParseConfig json =
     (case Parse json of
        Some (JObject ob) \<Rightarrow> Some (parse_config_object ob)
      | _ \<Rightarrow> None)"

definition Config_Parse :: "string \<Rightarrow> Config" where
  "Config_Parse json = value_or (TryParseConfig json) Config_default"

subsection \<open>Writing\<close>

definition show_bool :: "bool \<Rightarrow> string" where
  "show_bool b = (if b then ''true'' else ''false'')"

definition jtext :: "string \<Rightarrow> string" where
  "jtext s = [dq] @ EscapeJson s @ [dq]"

text \<open>The members of a device, in the order they are written, \<open>i\<close> being its index.\<close>

definition device_fields :: "nat \<Rightarrow> DeviceConfig \<Rightarrow> (string \<times> string) list" where
  "device_fields i d =
     [(''id'', jtext (dev_id d)), (''name'', jtext (dev_name d)), (''lastIpv4'', jtext (lastIpv4 d)),
      (''bonjourHost'', jtext (bonjourHost d)), (''port'', show_int (dev_port d)),
      (''preferredTransport'', jtext (preferredTransport d)), (''priority'', show_int (int i)),
      (''autoConnect'', show_bool (autoConnect d)), (''lastSeen'', show_int (lastSeen d)),
      (''macHint'', jtext (macHint d))]"

definition device_text :: "nat \<Rightarrow> DeviceConfig \<Rightarrow> string" where
  "device_text i d =
     ''    '' @ [lbrace] @ join '','' (map (\<lambda>(k, t). jkey k @ t) (device_fields i d)) @ [rbrace]"

abbreviation nl :: string where "nl \<equiv> [CHR 0x0A]"

definition devices_text :: "DeviceConfig list \<Rightarrow> string" where
  "devices_text ds =
     ''['' @ (if ds = [] then [] else nl)
       @ join ('','' @ nl) (map (\<lambda>i. device_text i (ds ! i)) [0..<length ds])
       @ (if ds = [] then [] else nl) @ ''  ]''"

definition config_fields :: "Config \<Rightarrow> (string \<times> string) list" where
  "config_fields c =
     [(''version'', show_int CurrentVersion), (''devices'', devices_text (devices c)),
      (''port'', show_int (port c)), (''autoReconnect'', show_bool (autoReconnect c)),
      (''fps'', show_int (fps c)), (''bitrateMbps'', show_int (bitrateMbps c)),
      (''streamProfile'', show_int (profile_number (streamProfile c))),
      (''requirePrivateNetwork'', show_bool (requirePrivateNetwork c)),
      (''showLauncher'', show_bool (showLauncher c)),
      (''launcherMode'', show_int (launcher_number (launcherMode c))),
      (''darkTheme'', show_bool (darkTheme c)), (''taskbarRouting'', show_bool (taskbarRouting c)),
      (''preferredDeviceId'', jtext (preferredDeviceId c)),
      (''lastConnectionTransport'', jtext (lastConnectionTransport c)),
      (''lastWifiAddress'', jtext (lastWifiAddress c)), (''lastUsbTarget'', jtext (lastUsbTarget c))]"

definition Serialize :: "Config \<Rightarrow> string" where
  "Serialize c =
     [lbrace] @ nl @ join ('','' @ nl) (map (\<lambda>(k, t). ''  '' @ jkey k @ '' '' @ t) (config_fields c))
       @ nl @ [rbrace] @ nl"

end
