(* ===== verification/ConfigProps.thy ===== *)
theory ConfigProps
  imports Config
begin

text \<open>
  What the settings reader and writer guarantee: every accepted text gives a configuration within
  its ranges, and every such configuration is read back from what is written.
\<close>

subsection \<open>Well-formed configurations\<close>

definition wf_device :: "DeviceConfig \<Rightarrow> bool" where
  "wf_device d \<longleftrightarrow> 1 \<le> dev_port d \<and> dev_port d \<le> 65535 \<and> int64_min \<le> lastSeen d \<and> lastSeen d \<le> int64_max"

text \<open>A device that an object entry keeps.\<close>

definition identified :: "DeviceConfig \<Rightarrow> bool" where
  "identified d \<longleftrightarrow> dev_id d \<noteq> [] \<or> lastIpv4 d \<noteq> [] \<or> bonjourHost d \<noteq> []"

fun no_duplicates :: "DeviceConfig list \<Rightarrow> bool" where
  "no_duplicates [] = True"
| "no_duplicates (d # ds) = (list_all (\<lambda>e. \<not> same_device d e) ds \<and> no_duplicates ds)"

definition wf_config :: "Config \<Rightarrow> bool" where
  "wf_config c \<longleftrightarrow> version c = CurrentVersion \<and> 1 \<le> port c \<and> port c \<le> 65535 \<and>
     30 \<le> fps c \<and> fps c \<le> 120 \<and> 5 \<le> bitrateMbps c \<and> bitrateMbps c \<le> 100 \<and>
     (showLauncher c \<longleftrightarrow> launcherMode c \<noteq> Hidden) \<and>
     list_all wf_device (devices c) \<and> no_duplicates (devices c) \<and>
     map priority (devices c) = map int [0..<length (devices c)]"

subsection \<open>Integers of a parsed text\<close>

fun ints_ok :: "Json \<Rightarrow> bool" where
  "ints_ok (JInt n) = (int64_min \<le> n \<and> n \<le> int64_max)"
| "ints_ok (JObject ob) = list_all (\<lambda>kv. ints_ok (snd kv)) ob"
| "ints_ok (JArray js) = list_all ints_ok js"
| "ints_ok _ = True"

lemma ints_ok_put:
  "ints_ok v \<Longrightarrow> list_all (\<lambda>kv. ints_ok (snd kv)) ob \<Longrightarrow> list_all (\<lambda>kv. ints_ok (snd kv)) (smap_put k v ob)"
  by (induction k v ob rule: smap_put.induct) auto

lemma parse_scalar_ints: "parse_scalar s = Some (j, r) \<Longrightarrow> ints_ok j"
  unfolding parse_scalar_def
  by (auto simp: parse_int64_def Let_def split: if_splits)

lemma parse_ints_ok:
  "\<forall>v r. ParseValue t = Some (v, r) \<longrightarrow> ints_ok v"
  "\<forall>v r. ParseObject s = Some (v, r) \<longrightarrow> ints_ok v"
  "list_all (\<lambda>kv. ints_ok (snd kv)) ob \<Longrightarrow> \<forall>v r. object_loop ob s' = Some (v, r) \<longrightarrow> ints_ok v"
  "\<forall>v r. ParseArray s = Some (v, r) \<longrightarrow> ints_ok v"
  "list_all ints_ok ar \<Longrightarrow> \<forall>v r. array_loop ar s' = Some (v, r) \<longrightarrow> ints_ok v"
proof (induction t and s and ob s' and s and ar s' rule: ParseValue_ParseObject_object_loop_ParseArray_array_loop.induct)
  case (1 t)
  then show ?case
    by (fastforce simp: ParseValue.simps split: list.splits if_splits dest: parse_scalar_ints)
next
  case (2 s)
  then show ?case by (auto simp: ParseObject.simps split: option.splits)
next
  case (3 ob s)
  show ?case
  proof (intro allI impI)
    fix v r assume "object_loop ob s = Some (v, r)"
    with 3 show "ints_ok v"
      by (subst (asm) (2) object_loop.simps) (fastforce split: option.splits dest: ints_ok_put)
  qed
next
  case (4 s)
  then show ?case by (auto simp: ParseArray.simps split: option.splits)
next
  case (5 ar s)
  show ?case
  proof (intro allI impI)
    fix v r assume "array_loop ar s = Some (v, r)"
    with 5 show "ints_ok v"
      by (subst (asm) (2) array_loop.simps) (fastforce split: option.splits)
  qed
qed

lemma Parse_ints_ok: "Parse s = Some v \<Longrightarrow> ints_ok v"
  using parse_ints_ok(1) [of s] by (auto simp: Parse_def split: option.splits if_splits)

lemma Field_ints_ok: "list_all (\<lambda>kv. ints_ok (snd kv)) ob \<Longrightarrow> Field ob k = Some v \<Longrightarrow> ints_ok v"
  by (fastforce simp: Field_def list_all_iff dest: map_of_SomeD)

lemma int_in_range [bounds]: "int_in ob k lo hi = Some n \<Longrightarrow> lo \<le> n \<and> n \<le> hi"
  by (auto simp: int_in_def split: option.splits if_splits)

lemma value_or_int_in [bounds]:
  "lo \<le> d \<Longrightarrow> d \<le> hi \<Longrightarrow> lo \<le> value_or (int_in ob k lo hi) d \<and> value_or (int_in ob k lo hi) d \<le> hi"
  by (cases "int_in ob k lo hi") (auto dest: int_in_range)

lemma IntField_int64: "list_all (\<lambda>kv. ints_ok (snd kv)) ob \<Longrightarrow> IntField ob k = Some n \<Longrightarrow> int64_min \<le> n \<and> n \<le> int64_max"
  by (auto simp: IntField_def split: option.splits Json.splits dest: Field_ints_ok)

subsection \<open>The devices of a parsed text\<close>

lemma wf_device_Legacy: "1 \<le> p \<Longrightarrow> p \<le> 65535 \<Longrightarrow> wf_device (LegacyDevice v p i)"
  by (simp add: LegacyDevice_def Let_def wf_device_def DeviceConfig_default_def int64_min_def int64_max_def)

lemma wf_device_parse:
  assumes "1 \<le> p" and "p \<le> 65535" and "list_all (\<lambda>kv. ints_ok (snd kv)) ob"
  shows "wf_device (parse_device p i ob)"
  using value_or_int_in [OF assms(1,2), of ob "''port''"] IntField_int64 [OF assms(3), of "''lastSeen''"]
  by (cases "IntField ob ''lastSeen''") (auto simp: wf_device_def parse_device_def int64_min_def int64_max_def)

lemma wf_device_add:
  "1 \<le> p \<Longrightarrow> p \<le> 65535 \<Longrightarrow> ints_ok item \<Longrightarrow> list_all wf_device ds \<Longrightarrow> list_all wf_device (add_device p ds item)"
  by (auto simp: add_device_def Let_def wf_device_Legacy wf_device_parse split: Json.splits)

lemma wf_device_fold:
  "1 \<le> p \<Longrightarrow> p \<le> 65535 \<Longrightarrow> list_all ints_ok items \<Longrightarrow> list_all wf_device ds \<Longrightarrow>
   list_all wf_device (foldl (add_device p) ds items)"
  by (induction items arbitrary: ds) (simp_all add: wf_device_add)

lemma same_device_sym: "same_device d e = same_device e d"
  by (auto simp: same_device_def)

lemma no_duplicates_snoc:
  "no_duplicates (ds @ [d]) \<longleftrightarrow> no_duplicates ds \<and> \<not> list_ex (same_device d) ds"
  by (induction ds) (auto simp: same_device_sym [of d])

lemma no_duplicates_unique [preserves]: "no_duplicates acc \<Longrightarrow> no_duplicates (unique_devices acc ds)"
  by (induction acc ds rule: unique_devices.induct) (simp_all add: no_duplicates_snoc)

lemma list_all_unique [preserves]:
  "list_all P acc \<Longrightarrow> list_all P ds \<Longrightarrow> list_all P (unique_devices acc ds)"
  by (induction acc ds rule: unique_devices.induct) simp_all

lemma length_number_devices [simp]: "length (number_devices ds) = length ds"
  by (simp add: number_devices_def)

lemma same_device_priority [simp]:
  "same_device (d\<lparr>priority := i\<rparr>) e = same_device d e" "same_device d (e\<lparr>priority := i\<rparr>) = same_device d e"
  by (simp_all add: same_device_def)

lemma no_duplicates_nth:
  "no_duplicates ds \<longleftrightarrow> (\<forall>j < length ds. \<forall>i < j. \<not> same_device (ds ! i) (ds ! j))"
proof (induction ds rule: rev_induct)
  case (snoc d ds)
  then show ?case
    by (simp add: no_duplicates_snoc nth_append less_Suc_eq list_ex_length same_device_sym [of d]) blast
qed simp

lemma no_duplicates_number: "no_duplicates (number_devices ds) = no_duplicates ds"
  by (simp add: no_duplicates_nth number_devices_def)

lemma list_all_wf_number: "list_all wf_device ds \<Longrightarrow> list_all wf_device (number_devices ds)"
  by (simp add: list_all_length number_devices_def wf_device_def)

lemma priorities_number: "map priority (number_devices ds) = map int [0..<length ds]"
  by (simp add: number_devices_def)

lemma wf_parse_devices:
  assumes "1 \<le> p" and "p \<le> 65535" and "list_all (\<lambda>kv. ints_ok (snd kv)) ob"
  shows "list_all wf_device (parse_devices p ob)" and "no_duplicates (parse_devices p ob)"
    and "map priority (parse_devices p ob) = map int [0..<length (parse_devices p ob)]"
proof -
  have items: "list_all ints_ok items" if "Field ob ''devices'' = Some (JArray items)" for items
    using Field_ints_ok [OF assms(3) that] by simp
  have "list_all wf_device (case Field ob ''devices'' of Some (JArray items) \<Rightarrow> foldl (add_device p) [] items | _ \<Rightarrow> [])"
    by (auto split: option.splits Json.splits intro!: wf_device_fold assms(1,2) items)
  then show "list_all wf_device (parse_devices p ob)"
    unfolding parse_devices_def Let_def
    by (intro list_all_wf_number list_all_unique) (auto simp: wf_device_Legacy assms list_all_iff)
  show "no_duplicates (parse_devices p ob)"
    by (simp add: parse_devices_def Let_def no_duplicates_number no_duplicates_unique)
  show "map priority (parse_devices p ob) = map int [0..<length (parse_devices p ob)]"
    by (simp add: parse_devices_def Let_def priorities_number)
qed

lemma wf_parse_config_object:
  assumes "list_all (\<lambda>kv. ints_ok (snd kv)) ob"
  shows "wf_config (parse_config_object ob)"
proof -
  let ?p = "value_or (int_in ob ''port'' 1 65535) 9000"
  have "1 \<le> ?p \<and> ?p \<le> 65535" by (rule value_or_int_in) simp_all
  moreover have "30 \<le> value_or (int_in ob ''fps'' 30 120) 60 \<and> value_or (int_in ob ''fps'' 30 120) 60 \<le> 120"
    by (rule value_or_int_in) simp_all
  moreover have "5 \<le> value_or (int_in ob ''bitrateMbps'' 5 100) 30 \<and> value_or (int_in ob ''bitrateMbps'' 5 100) 30 \<le> 100"
    by (rule value_or_int_in) simp_all
  ultimately show ?thesis
    using wf_parse_devices [of ?p ob] assms by (simp add: wf_config_def parse_config_object_def Let_def)
qed

subsection \<open>Writing and reading back\<close>

definition device_json :: "nat \<Rightarrow> DeviceConfig \<Rightarrow> (string \<times> Json) list" where
  "device_json i d =
     [(''id'', JString (dev_id d)), (''name'', JString (dev_name d)), (''lastIpv4'', JString (lastIpv4 d)),
      (''bonjourHost'', JString (bonjourHost d)), (''port'', JInt (dev_port d)),
      (''preferredTransport'', JString (preferredTransport d)), (''priority'', JInt (int i)),
      (''autoConnect'', JBool (autoConnect d)), (''lastSeen'', JInt (lastSeen d)),
      (''macHint'', JString (macHint d))]"

definition devices_json :: "DeviceConfig list \<Rightarrow> Json list" where
  "devices_json ds = map (\<lambda>i. JObject (put_all [] (device_json i (ds ! i)))) [0..<length ds]"

definition config_json :: "Config \<Rightarrow> (string \<times> Json) list" where
  "config_json c =
     [(''version'', JInt CurrentVersion), (''devices'', JArray (devices_json (devices c))),
      (''port'', JInt (port c)), (''autoReconnect'', JBool (autoReconnect c)),
      (''fps'', JInt (fps c)), (''bitrateMbps'', JInt (bitrateMbps c)),
      (''streamProfile'', JInt (profile_number (streamProfile c))),
      (''requirePrivateNetwork'', JBool (requirePrivateNetwork c)),
      (''showLauncher'', JBool (showLauncher c)),
      (''launcherMode'', JInt (launcher_number (launcherMode c))),
      (''darkTheme'', JBool (darkTheme c)), (''taskbarRouting'', JBool (taskbarRouting c)),
      (''preferredDeviceId'', JString (preferredDeviceId c)),
      (''lastConnectionTransport'', JString (lastConnectionTransport c)),
      (''lastWifiAddress'', JString (lastWifiAddress c)), (''lastUsbTarget'', JString (lastUsbTarget c))]"

lemma reads_jtext: "reads (jtext s) (JString s)"
  using reads_string by (simp add: jtext_def)

lemma reads_show_bool: "reads (show_bool b) (JBool b)"
  using reads_bool by (simp add: show_bool_def)

lemma EscapeJson_plain: "list_all (\<lambda>c. escape_char c = [c]) s \<Longrightarrow> EscapeJson s = s"
  by (induction s) auto

lemma reads_space: "reads t v \<Longrightarrow> reads (CHR '' '' # t) v"
  using reads_spaces [of "'' ''" t v] by simp

lemma reads_device:
  assumes "wf_device d" and "int i \<le> int64_max"
  shows "reads (device_text i d) (JObject (put_all [] (device_json i d)))"
proof -
  have "list_all2 field_ok (device_fields i d) (device_json i d)"
    using assms unfolding device_fields_def device_json_def list_all2_Cons list_all2_Nil
    by (auto simp: field_ok_def reads_jtext reads_show_bool wf_device_def int64_min_def int64_max_def
        intro!: reads_int EscapeJson_plain) (simp_all add: escape_char_def)
  from reads_object [OF this, of "[]" "[]" "[]" "[]"] show ?thesis
    by (simp add: device_text_def device_fields_def reads_space)
qed

lemma reads_devices:
  assumes "list_all wf_device ds" and "int (length ds) \<le> int64_max"
  shows "reads (devices_text ds) (JArray (devices_json ds))"
proof (cases "ds = []")
  case True
  then show ?thesis
    using reads_empty_array [of "''  ''"] by (simp add: devices_text_def devices_json_def)
next
  case False
  let ?ts = "map (\<lambda>i. device_text i (ds ! i)) [0..<length ds]"
  have "list_all2 reads ?ts (devices_json ds)"
    using assms by (auto simp: list_all2_conv_all_nth devices_json_def list_all_length intro!: reads_device)
  moreover have "?ts \<noteq> []" "hd ?ts = device_text 0 (ds ! 0)"
    using False by (simp_all add: upt_conv_Cons)
  moreover have "Skip (device_text 0 (ds ! 0)) \<noteq> []" "hd (Skip (device_text 0 (ds ! 0))) = lbrace"
    by (simp_all add: device_text_def Skip_def)
  ultimately show ?thesis
    using reads_array [of ?ts "devices_json ds" nl nl "nl @ ''  ''"] False by (simp add: devices_text_def)
qed

lemma reads_config:
  assumes "wf_config c" and "int (length (devices c)) \<le> int64_max"
  shows "Parse (Serialize c) = Some (JObject (put_all [] (config_json c)))"
proof -
  let ?fs = "map (\<lambda>(k, t). (k, '' '' @ t)) (config_fields c)"
  have p: "0 \<le> profile_number (streamProfile c)" "profile_number (streamProfile c) \<le> 3"
    by (cases "streamProfile c"; simp)+
  have m: "0 \<le> launcher_number (launcherMode c)" "launcher_number (launcherMode c) \<le> 2"
    by (cases "launcherMode c"; simp)+
  have dev: "reads (devices_text (devices c)) (JArray (devices_json (devices c)))"
    using assms by (intro reads_devices) (simp_all add: wf_config_def)
  have "list_all2 field_ok ?fs (config_json c)"
    using assms(1) p m unfolding config_fields_def config_json_def list.map list_all2_Cons list_all2_Nil prod.case
    by (auto simp: field_ok_def reads_jtext reads_show_bool wf_config_def int64_min_def int64_max_def CurrentVersion_def
        intro!: reads_space dev reads_int EscapeJson_plain) (simp_all add: escape_char_def)
  then have "reads ([lbrace] @ nl @ join ('','' @ nl) (map (\<lambda>(k, t). ''  '' @ jkey k @ t) ?fs) @ nl @ [rbrace])
      (JObject (put_all [] (config_json c)))"
    using reads_object [of ?fs "config_json c" "''  ''" nl nl nl] by (simp add: config_fields_def)
  then have "Parse (([lbrace] @ nl @ join ('','' @ nl) (map (\<lambda>(k, t). ''  '' @ jkey k @ t) ?fs) @ nl @ [rbrace]) @ nl) =
      Some (JObject (put_all [] (config_json c)))"
    by (rule Parse_reads) simp
  moreover have "map (\<lambda>(k, t). ''  '' @ jkey k @ t) ?fs = map (\<lambda>(k, t). ''  '' @ jkey k @ '' '' @ t) (config_fields c)"
    by (simp add: split_beta)
  ultimately show ?thesis by (simp only: Serialize_def append_assoc)
qed

lemma map_of_put_all: "map_of (put_all m kvs) = map_of m ++ map_of (rev kvs)"
  by (induction kvs arbitrary: m) (auto simp: put_all_def)

lemma Field_put_all: "Field (put_all [] kvs) k = map_of (rev kvs) k"
  by (simp add: Field_def map_of_put_all)

lemma parse_device_json:
  assumes "wf_device d" and "int i \<le> uint32_max"
  shows "parse_device p j (put_all [] (device_json i d)) = d\<lparr>priority := int i\<rparr>"
  using assms
  by (simp add: parse_device_def StringField_def BoolField_def IntField_def int_in_def Field_put_all device_json_def
      wf_device_def del: put_all_simps)

lemma nth_priority:
  "map priority ds = map int [0..<length ds] \<Longrightarrow> i < length ds \<Longrightarrow> (ds ! i)\<lparr>priority := int i\<rparr> = ds ! i"
proof -
  assume "map priority ds = map int [0..<length ds]" "i < length ds"
  then have "priority (ds ! i) = int i"
    using nth_map [of i ds priority] by simp
  then have "(ds ! i)\<lparr>priority := int i\<rparr> = (ds ! i)\<lparr>priority := priority (ds ! i)\<rparr>" by (simp only:)
  then show ?thesis by simp
qed

lemma add_devices_json:
  assumes "list_all wf_device ds" and "list_all identified ds" and "map priority ds = map int [0..<length ds]"
    and "int (length ds) \<le> uint32_max" and "n \<le> length ds"
  shows "foldl (add_device p) [] (map (\<lambda>i. JObject (put_all [] (device_json i (ds ! i)))) [0..<n]) = take n ds"
  using assms(5)
proof (induction n)
  case (Suc n)
  let ?f = "\<lambda>i. JObject (put_all [] (device_json i (ds ! i)))"
  have "parse_device p (int n) (put_all [] (device_json n (ds ! n))) = ds ! n"
    using assms Suc.prems by (simp add: parse_device_json nth_priority list_all_length)
  moreover have "identified (ds ! n)" using assms(2) Suc.prems by (simp add: list_all_length)
  ultimately have "add_device p (take n ds) (?f n) = take n ds @ [ds ! n]"
    using Suc.prems by (simp add: add_device_def Let_def identified_def min_def)
  with Suc show ?case by (simp add: take_Suc_conv_app_nth)
qed simp

lemma unique_devices_id: "no_duplicates (acc @ ds) \<Longrightarrow> unique_devices acc ds = acc @ ds"
proof (induction acc ds rule: unique_devices.induct)
  case (2 acc d ds)
  have "no_duplicates (acc @ [d])"
    using "2.prems" by (induction acc) auto
  with 2 show ?case by (simp add: no_duplicates_snoc)
qed simp

lemma number_devices_id: "map priority ds = map int [0..<length ds] \<Longrightarrow> number_devices ds = ds"
proof -
  assume a: "map priority ds = map int [0..<length ds]"
  have "number_devices ds = map (\<lambda>i. ds ! i) [0..<length ds]"
    unfolding number_devices_def using nth_priority [OF a] by (intro map_cong) simp_all
  then show ?thesis by (simp only: map_nth)
qed

lemma parse_devices_json:
  assumes "list_all wf_device ds" and "list_all identified ds" and "map priority ds = map int [0..<length ds]"
    and "int (length ds) \<le> uint32_max" and "no_duplicates ds"
    and "Field ob ''devices'' = Some (JArray (devices_json ds))" and "StringField ob ''ip'' = []"
  shows "parse_devices p ob = ds"
proof -
  have fold: "foldl (add_device p) [] (devices_json ds) = ds"
    using add_devices_json [OF assms(1-4) order_refl, of p] by (simp add: devices_json_def)
  have "sorted (map priority ds)"
    unfolding assms(3) by (simp add: sorted_iff_nth_mono)
  then have "sort_key priority ds = ds" by (rule sort_key_id_if_sorted)
  then show ?thesis
    using assms(3,5-7) fold unique_devices_id [of "[]" ds]
    by (auto simp: parse_devices_def Let_def number_devices_id)
qed

lemma profile_of_number [simp]: "profile_of (profile_number s) = s"
  by (cases s) (simp_all add: profile_of_def)

lemma launcher_of_number [simp]: "launcher_of (launcher_number s) = s"
  by (cases s) (simp_all add: launcher_of_def)

lemma enum_ranges [simp]:
  "0 \<le> profile_number s" "profile_number s \<le> 3" "0 \<le> launcher_number m" "launcher_number m \<le> 2"
  by (cases s; simp)+ (cases m; simp)+

lemma parse_config_json:
  assumes "wf_config c" and "list_all identified (devices c)" and "int (length (devices c)) \<le> uint32_max"
  shows "parse_config_object (put_all [] (config_json c)) = c"
proof -
  let ?ob = "put_all [] (config_json c)"
  note wf = assms(1) [unfolded wf_config_def]
  have "parse_devices (port c) ?ob = devices c"
    using wf assms(2,3)
    by (intro parse_devices_json) (simp_all add: Field_put_all StringField_def config_json_def del: put_all_simps)
  then show ?thesis
    using wf
    by (simp add: parse_config_object_def Let_def StringField_def BoolField_def IntField_def int_in_def Field_put_all
        config_json_def CurrentVersion_def del: put_all_simps)
qed

end
