(* ===== verification/ConfigFile.thy ===== *)
theory ConfigFile
  imports ConfigProps
begin

text \<open>
  Loading and saving the settings file (\<^verbatim>\<open>src/src/app/Config.cpp\<close>).  A disk
  is a map from paths to contents.  The outcome of each system call is a field of
  \<open>SaveEnv\<close>; saving returns its result and every state the disk goes through, so that a
  crash between two calls is a state of that list.
\<close>

type_synonym disk = "wstring \<rightharpoonup> string"

subsection \<open>Paths\<close>

definition AppDataBase :: "wstring option \<Rightarrow> wstring" where
  "AppDataBase appData = (case appData of None \<Rightarrow> wide ''.'' | Some base \<Rightarrow> if base = [] then wide ''.'' else base)"

definition AppDataDir :: "wstring option \<Rightarrow> wstring" where
  "AppDataDir appData = AppDataBase appData @ wide ([bsl] @ ''MouseLink'')"

definition LegacyConfigPath :: "wstring option \<Rightarrow> wstring" where
  "LegacyConfigPath appData = AppDataBase appData @ wide ([bsl] @ ''opendisplay-win'' @ [bsl] @ ''config.json'')"

definition FilePath :: "wstring option \<Rightarrow> wstring" where
  "FilePath appData = AppDataDir appData @ wide ([bsl] @ ''config.json'')"

definition tmp_of :: "wstring \<Rightarrow> wstring" where
  "tmp_of path = path @ wide ''.tmp''"

definition bak_of :: "wstring \<Rightarrow> wstring" where
  "bak_of path = path @ wide ''.bak''"

subsection \<open>Loading\<close>

definition ReadFile :: "disk \<Rightarrow> wstring \<Rightarrow> string option" where
  "ReadFile fs path = fs path"

definition try_file :: "disk \<Rightarrow> wstring \<Rightarrow> Config option" where
  "try_file fs path = Option.bind (ReadFile fs path) TryParseConfig"

definition LoadFromFile :: "disk \<Rightarrow> wstring \<Rightarrow> Config" where
  "LoadFromFile fs path =
     (case try_file fs path of
        Some cfg \<Rightarrow> cfg
      | None \<Rightarrow> (case try_file fs (bak_of path) of Some cfg \<Rightarrow> cfg | None \<Rightarrow> Config_default))"

subsection \<open>Saving\<close>

datatype ReplaceResult =
  Replaced \<comment> \<open>the new file is in place and the old one is the backup\<close>
| NotReplaced \<comment> \<open>nothing changed\<close>
| MovedToBackup \<comment> \<open>the old file became the backup but the new one was not moved\<close>

record SaveEnv =
  create_ok :: bool
  written :: nat
  write_ok :: bool
  flush_ok :: bool
  backup_deleted :: bool
  replace_result :: ReplaceResult
  move_ok :: bool

definition SaveToFile :: "SaveEnv \<Rightarrow> Config \<Rightarrow> wstring \<Rightarrow> disk \<Rightarrow> bool \<times> disk list" where
  "SaveToFile env cfg path fs =
     (let temporary = tmp_of path; backup = bak_of path; json = Serialize cfg in
      if \<not> create_ok env then (False, [fs])
      else
        (let fs1 = fs(temporary \<mapsto> []);
             fs2 = fs1(temporary \<mapsto> take (written env) json);
             wrote = (write_ok env \<and> written env = length json);
             flushed = (wrote \<and> flush_ok env)
         in if \<not> flushed then (False, [fs, fs1, fs2, fs2(temporary := None)])
            else if fs2 path \<noteq> None then
              (let fs3 = (if backup_deleted env then fs2(backup := None) else fs2) in
               case replace_result env of
                 Replaced \<Rightarrow> (True, [fs, fs1, fs2, fs3, fs3(path := fs3 temporary, backup := fs3 path, temporary := None)])
               | NotReplaced \<Rightarrow> (False, [fs, fs1, fs2, fs3, fs3(temporary := None)])
               | MovedToBackup \<Rightarrow>
                   (let fs4 = fs3(path := None, backup := fs3 path) in
                    (False, [fs, fs1, fs2, fs3, fs4, fs4(temporary := None)])))
            else if move_ok env then (True, [fs, fs1, fs2, fs2(path := fs2 temporary, temporary := None)])
            else (False, [fs, fs1, fs2, fs2(temporary := None)])))"

definition Save :: "bool \<Rightarrow> SaveEnv \<Rightarrow> wstring option \<Rightarrow> Config \<Rightarrow> disk \<Rightarrow> bool \<times> disk list" where
  "Save dir_ok env appData cfg fs =
     (if \<not> dir_ok then (False, [fs]) else SaveToFile env cfg (FilePath appData) fs)"

definition Load :: "bool \<Rightarrow> SaveEnv \<Rightarrow> wstring option \<Rightarrow> disk \<Rightarrow> Config \<times> disk" where
  "Load dir_ok env appData fs =
     (if fs (FilePath appData) \<noteq> None then (LoadFromFile fs (FilePath appData), fs)
      else if fs (LegacyConfigPath appData) = None then (Config_default, fs)
      else (let cfg = LoadFromFile fs (LegacyConfigPath appData) in
            (cfg, last (snd (Save dir_ok env appData cfg fs)))))"

subsection \<open>What a load finds\<close>

lemma paths_distinct [simp]:
  "tmp_of p \<noteq> p" "bak_of p \<noteq> p" "tmp_of p \<noteq> bak_of p" "p \<noteq> tmp_of p" "p \<noteq> bak_of p" "bak_of p \<noteq> tmp_of p"
  by (simp_all add: tmp_of_def bak_of_def wide_def)

lemma try_file_upd [simp]:
  "p \<noteq> q \<Longrightarrow> try_file (fs(q := v)) p = try_file fs p"
  "try_file (fs(p \<mapsto> t)) p = TryParseConfig t" "try_file (fs(p := None)) p = None"
  by (simp_all add: try_file_def ReadFile_def)

text \<open>A configuration that is read back from what it is written as.\<close>

definition storable :: "Config \<Rightarrow> bool" where
  "storable c \<longleftrightarrow> wf_config c \<and> list_all identified (devices c) \<and> int (length (devices c)) \<le> uint32_max"

lemma TryParseConfig_Serialize: "storable c \<Longrightarrow> TryParseConfig (Serialize c) = Some c"
  using reads_config [of c] parse_config_json [of c]
  by (simp add: storable_def TryParseConfig_def uint32_max_def int64_max_def)

lemma TryParseConfig_wf: "TryParseConfig s = Some c \<Longrightarrow> wf_config c"
  using Parse_ints_ok [of s]
  by (auto simp: TryParseConfig_def wf_parse_config_object split: option.splits Json.splits)

text \<open>The load of a path depends only on it and on its backup.\<close>

lemma LoadFromFile_cong:
  "fs path = fs' path \<Longrightarrow> fs (bak_of path) = fs' (bak_of path) \<Longrightarrow> LoadFromFile fs path = LoadFromFile fs' path"
proof -
  assume "fs path = fs' path" "fs (bak_of path) = fs' (bak_of path)"
  then have "try_file fs path = try_file fs' path" "try_file fs (bak_of path) = try_file fs' (bak_of path)"
    by (simp_all add: try_file_def ReadFile_def)
  then show ?thesis by (simp add: LoadFromFile_def split: option.split)
qed

lemma LoadFromFile_here: "TryParseConfig t = Some c \<Longrightarrow> fs path = Some t \<Longrightarrow> LoadFromFile fs path = c"
  by (simp add: LoadFromFile_def try_file_def ReadFile_def)

lemma LoadFromFile_backup:
  "fs path = None \<Longrightarrow> fs (bak_of path) = Some t \<Longrightarrow> TryParseConfig t = Some c \<Longrightarrow> LoadFromFile fs path = c"
  by (simp add: LoadFromFile_def try_file_def ReadFile_def)

lemma save_states:
  assumes "storable c" and "fs path = None \<or> (\<exists>t old. fs path = Some t \<and> TryParseConfig t = Some old)"
    and "fs' \<in> set (snd (SaveToFile env c path fs))"
  shows "LoadFromFile fs' path = LoadFromFile fs path \<or> LoadFromFile fs' path = c"
proof (cases "fs path")
  case None
  then have "(fs' path = None \<and> fs' (bak_of path) = fs (bak_of path)) \<or> fs' path = Some (Serialize c)"
    using assms(3) by (auto simp: SaveToFile_def Let_def split: if_splits)
  with None LoadFromFile_cong [of fs' path fs] LoadFromFile_here [OF TryParseConfig_Serialize [OF assms(1)], of fs' path]
  show ?thesis by auto
next
  case (Some t)
  with assms(2) obtain old where old: "TryParseConfig t = Some old" by auto
  have "fs' path = Some t \<or> (fs' path = None \<and> fs' (bak_of path) = Some t) \<or> fs' path = Some (Serialize c)"
    using assms(3) Some by (auto simp: SaveToFile_def Let_def split: if_splits ReplaceResult.splits)
  with old LoadFromFile_here [of t old] LoadFromFile_backup [of fs' path t old] Some
    LoadFromFile_here [OF TryParseConfig_Serialize [OF assms(1)], of fs' path]
  show ?thesis by metis
qed

lemma save_succeeds:
  assumes "storable c" and "fst (SaveToFile env c path fs)"
  shows "LoadFromFile (last (snd (SaveToFile env c path fs))) path = c"
    and "fs path \<noteq> None \<Longrightarrow> last (snd (SaveToFile env c path fs)) (bak_of path) = fs path"
proof -
  have "last (snd (SaveToFile env c path fs)) path = Some (Serialize c)"
    using assms(2) by (auto simp: SaveToFile_def Let_def split: if_splits ReplaceResult.splits)
  then show "LoadFromFile (last (snd (SaveToFile env c path fs))) path = c"
    using LoadFromFile_here [OF TryParseConfig_Serialize [OF assms(1)]] by blast
  show "fs path \<noteq> None \<Longrightarrow> last (snd (SaveToFile env c path fs)) (bak_of path) = fs path"
    using assms(2) by (auto simp: SaveToFile_def Let_def split: if_splits ReplaceResult.splits)
qed

subsection \<open>Properties\<close>

text \<open>Whatever text is accepted as settings, the configuration it gives is within every range:
  the current version, port and device ports 1 to 65535, 30 to 120 frames, 5 to 100 Mbps, no device
  twice, priorities numbered in order, and the launcher flag in step with its mode.\<close>

lemma parsed_config_in_range:
  assumes "TryParseConfig s = Some c"
  shows "wf_config c"
  using assms by (rule TryParseConfig_wf)

definition sample_config :: Config where
  "sample_config = Config_default\<lparr>fps := 120, streamProfile := Custom, darkTheme := True, devices :=
     [DeviceConfig_default\<lparr>dev_id := ''a'', dev_name := [dq, bsl, CHR 0x01], lastSeen := - 5\<rparr>,
      DeviceConfig_default\<lparr>lastIpv4 := ''10.0.0.2'', priority := 1, autoConnect := False\<rparr>]\<rparr>"

lemma storable_sample: "storable sample_config"
  by code_simp

lemma parsed_config_in_range_witness: "wf_config sample_config"
  by (rule parsed_config_in_range [OF TryParseConfig_Serialize [OF storable_sample]])





end
