(* ===== verification/DeviceCoordinator.thy ===== *)
theory DeviceCoordinator
  imports Config
begin

text \<open>
  The device-level connection state machine
  (\<^verbatim>\<open>src/src/app/DeviceCoordinator.h\<close>,
  \<^verbatim>\<open>src/src/app/DeviceCoordinator.cpp\<close>), its reachable states, and the walk
  over the candidates that the tray makes with it.
\<close>

datatype AutoConnectState = Idle | Trying | WaitingNext | Streaming | UserSwitching | Exhausted | Blocked

datatype DeviceFailureClass = Device | Global

record DeviceCoordinator =
  coord_state :: AutoConnectState
  dev_order :: "nat list"
  order_pos :: nat
  switchTarget :: "nat option"
  streamingDeviceId :: string

subsection \<open>Operations\<close>

definition Reset :: DeviceCoordinator where
  "Reset = \<lparr>coord_state = Idle, dev_order = [], order_pos = 0, switchTarget = None, streamingDeviceId = []\<rparr>"

text \<open>The two loops of \<^verbatim>\<open>Begin\<close> that fill the order.\<close>

definition preferred_order :: "DeviceConfig list \<Rightarrow> string \<Rightarrow> nat list" where
  "preferred_order devs preferredId =
     (if preferredId = [] then []
      else filter (\<lambda>i. autoConnect (devs ! i) \<and> dev_id (devs ! i) = preferredId) [0..<length devs])"

definition connect_order :: "DeviceConfig list \<Rightarrow> string \<Rightarrow> nat list" where
  "connect_order devs preferredId =
     foldl (\<lambda>acc i. if autoConnect (devs ! i) \<and> i \<notin> set acc then acc @ [i] else acc)
       (preferred_order devs preferredId) [0..<length devs]"

definition Begin :: "DeviceConfig list \<Rightarrow> string \<Rightarrow> DeviceCoordinator \<times> nat option" where
  "Begin devs preferredId =
     (let c = Reset\<lparr>dev_order := connect_order devs preferredId\<rparr> in
      if dev_order c = [] then (c\<lparr>coord_state := Exhausted\<rparr>, None)
      else (c\<lparr>coord_state := Trying\<rparr>, Some (hd (dev_order c))))"

definition ReportFailure :: "DeviceFailureClass \<Rightarrow> DeviceCoordinator \<Rightarrow> DeviceCoordinator \<times> nat option" where
  "ReportFailure cls c =
     (if cls = Global then (c\<lparr>coord_state := Blocked\<rparr>, None)
      else if length (dev_order c) \<le> order_pos c + 1 then (c\<lparr>coord_state := Exhausted\<rparr>, None)
      else (c\<lparr>order_pos := order_pos c + 1, coord_state := WaitingNext\<rparr>, Some (dev_order c ! (order_pos c + 1))))"

definition ReportStreaming :: "string \<Rightarrow> DeviceCoordinator \<Rightarrow> DeviceCoordinator" where
  "ReportStreaming i c = c\<lparr>coord_state := Streaming, streamingDeviceId := i\<rparr>"

definition RequestSwitch :: "nat \<Rightarrow> DeviceCoordinator \<Rightarrow> DeviceCoordinator \<times> bool" where
  "RequestSwitch index c =
     (if coord_state c = UserSwitching \<and> switchTarget c = Some index then (c, False)
      else (c\<lparr>switchTarget := Some index, coord_state := UserSwitching\<rparr>, True))"

definition CompleteSwitch :: "bool \<Rightarrow> DeviceCoordinator \<Rightarrow> DeviceCoordinator" where
  "CompleteSwitch streaming c = c\<lparr>coord_state := (if streaming then Streaming else Trying), switchTarget := None\<rparr>"

definition Current :: "DeviceCoordinator \<Rightarrow> nat option" where
  "Current c =
     (if coord_state c = UserSwitching then switchTarget c
      else if order_pos c < length (dev_order c) then Some (dev_order c ! order_pos c) else None)"

definition NextCandidate :: "DeviceCoordinator \<Rightarrow> nat option" where
  "NextCandidate c =
     (if order_pos c + 1 < length (dev_order c) then Some (dev_order c ! (order_pos c + 1)) else None)"

subsection \<open>The order\<close>

lemma fold_order:
  assumes "distinct acc" and "distinct js"
  shows "\<exists>rest. foldl (\<lambda>acc i. if P i \<and> i \<notin> set acc then acc @ [i] else acc) acc js = acc @ rest \<and>
     distinct (acc @ rest) \<and> set rest = {i \<in> set js. P i \<and> i \<notin> set acc}"
  using assms
proof (induction js arbitrary: acc)
  case (Cons j js)
  show ?case
  proof (cases "P j \<and> j \<notin> set acc")
    case True
    with Cons.prems Cons.IH [of "acc @ [j]"] obtain rest where
      "foldl (\<lambda>acc i. if P i \<and> i \<notin> set acc then acc @ [i] else acc) (acc @ [j]) js = (acc @ [j]) @ rest"
      "distinct ((acc @ [j]) @ rest)" "set rest = {i \<in> set js. P i \<and> i \<notin> set (acc @ [j])}"
      by auto
    with True Cons.prems show ?thesis by (intro exI [of _ "j # rest"]) auto
  next
    case False
    with Cons.prems Cons.IH [of acc] show ?thesis by fastforce
  qed
qed simp

lemma connect_order_props:
  obtains rest where "connect_order devs p = preferred_order devs p @ rest"
    and "distinct (connect_order devs p)"
    and "set (connect_order devs p) = {i. i < length devs \<and> autoConnect (devs ! i)}"
proof -
  have "distinct (preferred_order devs p)" "set (preferred_order devs p) \<subseteq> {i. i < length devs \<and> autoConnect (devs ! i)}"
    by (auto simp: preferred_order_def)
  with fold_order [of "preferred_order devs p" "[0..<length devs]" "\<lambda>i. autoConnect (devs ! i)"] that
  show ?thesis by (fastforce simp: connect_order_def)
qed

subsection \<open>Reachable states\<close>

inductive reachable :: "DeviceCoordinator \<Rightarrow> bool" where
  init: "reachable Reset"
| start: "reachable (fst (Begin devs p))"
| failure: "reachable c \<Longrightarrow> reachable (fst (ReportFailure cls c))"
| streaming: "reachable c \<Longrightarrow> reachable (ReportStreaming i c)"
| switching: "reachable c \<Longrightarrow> reachable (fst (RequestSwitch index c))"
| completed: "reachable c \<Longrightarrow> reachable (CompleteSwitch ok c)"

definition coordinator_inv :: "DeviceCoordinator \<Rightarrow> bool" where
  "coordinator_inv c \<longleftrightarrow> distinct (dev_order c) \<and> (dev_order c = [] \<or> order_pos c < length (dev_order c)) \<and>
     (dev_order c = [] \<longrightarrow> order_pos c = 0) \<and> (coord_state c = UserSwitching \<longrightarrow> switchTarget c \<noteq> None) \<and>
     (coord_state c = WaitingNext \<longrightarrow> dev_order c \<noteq> [])"

lemma reachable_inv: "reachable c \<Longrightarrow> coordinator_inv c"
proof (induction rule: reachable.induct)
  case init
  show ?case by (simp add: coordinator_inv_def Reset_def)
next
  case (start devs p)
  obtain rest where "distinct (connect_order devs p)" by (rule connect_order_props)
  then show ?case by (auto simp: coordinator_inv_def Begin_def Reset_def Let_def)
next
  case (failure c cls)
  then show ?case by (auto simp: coordinator_inv_def ReportFailure_def)
next
  case (streaming c i)
  then show ?case by (auto simp: coordinator_inv_def ReportStreaming_def)
next
  case (switching c index)
  then show ?case by (auto simp: coordinator_inv_def RequestSwitch_def)
next
  case (completed c ok)
  then show ?case by (auto simp: coordinator_inv_def CompleteSwitch_def)
qed

subsection \<open>The candidate walk\<close>

text \<open>What the tray does with a coordinator: report a failure, take the candidate it gives, until
  there is none.  \<open>n\<close> bounds the number of reports.\<close>

fun tries :: "nat \<Rightarrow> ('s \<Rightarrow> 's \<times> 'c option) \<Rightarrow> 's \<Rightarrow> 'c list \<times> 's" where
  "tries 0 fail s = ([], s)"
| "tries (Suc n) fail s =
     (case fail s of
        (s', None) \<Rightarrow> ([], s')
      | (s', Some c) \<Rightarrow> (let r = tries n fail s' in (c # fst r, snd r)))"

locale candidate_walk =
  fixes candidates :: "'s \<Rightarrow> 'c list"
    and fail :: "'s \<Rightarrow> 's \<times> 'c option"
    and ended :: "'s \<Rightarrow> bool"
  assumes fail_more: "candidates s = c # d # rest \<Longrightarrow> snd (fail s) = Some d \<and> candidates (fst (fail s)) = d # rest"
    and fail_end: "length (candidates s) \<le> 1 \<Longrightarrow> snd (fail s) = None \<and> ended (fst (fail s))"
begin

lemma walk_all:
  assumes "length (candidates s) \<le> n"
  shows "fst (tries (Suc n) fail s) = tl (candidates s) \<and> ended (snd (tries (Suc n) fail s))"
  using assms
proof (induction n arbitrary: s)
  case 0
  then show ?case using fail_end [of s] by (cases "fail s") auto
next
  case (Suc n)
  show ?case
  proof (cases "length (candidates s) \<le> 1")
    case True
    then have "tl (candidates s) = []" by (cases "candidates s") auto
    with True show ?thesis using fail_end [of s] by (cases "fail s") auto
  next
    case False
    then obtain c d rest where cs: "candidates s = c # d # rest"
      by (cases "candidates s"; cases "tl (candidates s)") auto
    obtain s' where "fail s = (s', Some d)" "candidates s' = d # rest"
      using fail_more [OF cs] by (cases "fail s") auto
    with Suc.IH [of s'] Suc.prems cs show ?thesis
      by (subst tries.simps) (simp add: Let_def)
  qed
qed

end

interpretation dc: candidate_walk
  "\<lambda>c :: DeviceCoordinator. drop (order_pos c) (dev_order c)" "ReportFailure Device"
  "\<lambda>c :: DeviceCoordinator. coord_state c = Exhausted"
proof
  fix s :: DeviceCoordinator and c d :: nat and rest :: "nat list"
  assume a: "drop (order_pos s) (dev_order s) = c # d # rest"
  then have "length (drop (order_pos s) (dev_order s)) = Suc (Suc (length rest))" by simp
  then have less: "Suc (order_pos s) < length (dev_order s)" unfolding length_drop by linarith
  moreover have dr: "drop (Suc (order_pos s)) (dev_order s) = d # rest"
    using arg_cong [OF a, of tl] by (simp add: drop_Suc tl_drop)
  moreover have "dev_order s ! Suc (order_pos s) = d"
    using Cons_nth_drop_Suc [OF less] dr by simp
  ultimately show "snd (ReportFailure Device s) = Some d \<and>
      drop (order_pos (fst (ReportFailure Device s))) (dev_order (fst (ReportFailure Device s))) = d # rest"
    by (simp add: ReportFailure_def)
qed (auto simp: ReportFailure_def)

lemma Begin_cases:
  "Begin devs p = (c, r) \<Longrightarrow> dev_order c = connect_order devs p \<and> order_pos c = 0 \<and>
     r = (if dev_order c = [] then None else Some (hd (dev_order c)))"
  by (auto simp: Begin_def Reset_def Let_def split: if_splits)

subsection \<open>Properties\<close>

text \<open>C17. From a fresh start with only device failures, the walk tries every device that is set to
  connect automatically, each exactly once, the preferred ones first, and then the coordinator is
  exhausted.\<close>

theorem every_candidate_tried_once:
  assumes "Begin devs p = (c, Some i)"
  shows "distinct (i # fst (tries (Suc (length devs)) (ReportFailure Device) c)) \<and>
     set (i # fst (tries (Suc (length devs)) (ReportFailure Device) c)) = {k. k < length devs \<and> autoConnect (devs ! k)} \<and>
     starts_with (preferred_order devs p) (i # fst (tries (Suc (length devs)) (ReportFailure Device) c)) \<and>
     coord_state (snd (tries (Suc (length devs)) (ReportFailure Device) c)) = Exhausted"
proof -
  obtain rest where o: "connect_order devs p = preferred_order devs p @ rest" "distinct (connect_order devs p)"
      "set (connect_order devs p) = {k. k < length devs \<and> autoConnect (devs ! k)}"
    by (rule connect_order_props)
  have c: "dev_order c = connect_order devs p" "order_pos c = 0" "dev_order c \<noteq> []" "i = hd (dev_order c)"
    using Begin_cases [OF assms] by (auto split: if_splits)
  have "length (connect_order devs p) = card {k. k < length devs \<and> autoConnect (devs ! k)}"
    using o(2,3) by (metis distinct_card)
  also have "\<dots> \<le> card {..<length devs}" by (intro card_mono) auto
  finally have "fst (tries (Suc (length devs)) (ReportFailure Device) c) = tl (dev_order c) \<and>
      coord_state (snd (tries (Suc (length devs)) (ReportFailure Device) c)) = Exhausted"
    using dc.walk_all [of c "length devs"] c by simp
  moreover have "i # tl (dev_order c) = connect_order devs p" using c by simp
  ultimately show ?thesis using o by (metis starts_with_append)
qed

theorem every_candidate_tried_once_witness:
  "coord_state (snd (tries 3 (ReportFailure Device) (fst (Begin
     [DeviceConfig_default\<lparr>dev_id := ''a''\<rparr>, DeviceConfig_default\<lparr>dev_id := ''b''\<rparr>] ''b'')))) = Exhausted"
proof -
  let ?ds = "[DeviceConfig_default\<lparr>dev_id := ''a''\<rparr>, DeviceConfig_default\<lparr>dev_id := ''b''\<rparr>]"
  have "Begin ?ds ''b'' = (fst (Begin ?ds ''b''), Some 1)" by code_simp
  from every_candidate_tried_once [OF this] show ?thesis by (simp add: numeral_eq_Suc del: tries.simps)
qed

text \<open>In every state the coordinator can reach, by any sequence of its operations, the order has
  no repetition, the position is inside it, and a pending user switch has a target, so that
  \<open>Current\<close> names a device whenever there is one to name.\<close>

lemma coordinator_reachable_inv:
  assumes "reachable c"
  shows "coordinator_inv c \<and> (dev_order c \<noteq> [] \<or> coord_state c = UserSwitching \<longrightarrow> Current c \<noteq> None)"
  using reachable_inv [OF assms] by (auto simp: Current_def coordinator_inv_def)

lemma coordinator_reachable_inv_witness:
  "coordinator_inv (CompleteSwitch False (fst (RequestSwitch 7 Reset))) \<and>
   Current (fst (RequestSwitch 7 Reset)) \<noteq> None"
proof -
  have s: "reachable (fst (RequestSwitch 7 Reset))" by (intro reachable.intros)
  then have "reachable (CompleteSwitch False (fst (RequestSwitch 7 Reset)))" by (intro reachable.intros)
  from coordinator_reachable_inv [OF this] coordinator_reachable_inv [OF s] show ?thesis
    by (simp add: RequestSwitch_def Reset_def)
qed

end
