(* ===== verification/Socket.thy ===== *)
theory Socket
  imports Prelude
begin

text \<open>
  A stream socket as its client sees it.  \<open>inbox\<close> is what the peer has sent and the client has not
  read, \<open>outbox\<close> is what the client has put on the wire.  How much a \<^verbatim>\<open>recv\<close> or a
  \<^verbatim>\<open>send\<close> moves, and whether it fails, is decided by the answers, one per call; the
  clock and \<^verbatim>\<open>setsockopt\<close> are answered in the same way.  A socket that was shut down
  moves nothing.
\<close>

record Socket =
  inbox :: bytes
  outbox :: bytes
  recv_answer :: "nat \<Rightarrow> int"
  recv_calls :: nat
  send_answer :: "nat \<Rightarrow> int"
  send_calls :: nat
  clock_answer :: "nat \<Rightarrow> int"
  clock_calls :: nat
  option_answer :: "nat \<Rightarrow> bool"
  option_calls :: nat
  shut :: bool

definition recv :: "nat \<Rightarrow> Socket \<Rightarrow> bytes \<times> Socket" where
  "recv n s =
     (let a = recv_answer s (recv_calls s); s1 = s\<lparr>recv_calls := recv_calls s + 1\<rparr> in
      if shut s \<or> a \<le> 0 then ([], s1)
      else (let m = min n (nat a) in (take m (inbox s), s1\<lparr>inbox := drop m (inbox s)\<rparr>)))"

definition send :: "bytes \<Rightarrow> Socket \<Rightarrow> int \<times> Socket" where
  "send data s =
     (let a = send_answer s (send_calls s); s1 = s\<lparr>send_calls := send_calls s + 1\<rparr> in
      if shut s \<or> a \<le> 0 then (0, s1)
      else (let k = min (length data) (nat a) in (int k, s1\<lparr>outbox := outbox s @ take k data\<rparr>)))"

definition clock_now :: "Socket \<Rightarrow> int \<times> Socket" where
  "clock_now s = (clock_answer s (clock_calls s), s\<lparr>clock_calls := clock_calls s + 1\<rparr>)"

definition set_option :: "Socket \<Rightarrow> bool \<times> Socket" where
  "set_option s = (option_answer s (option_calls s), s\<lparr>option_calls := option_calls s + 1\<rparr>)"

definition shutdown :: "Socket \<Rightarrow> Socket" where
  "shutdown s = s\<lparr>shut := True\<rparr>"

text \<open>A socket whose every call moves at least one byte.\<close>

definition receiving :: "Socket \<Rightarrow> bool" where
  "receiving s \<longleftrightarrow> \<not> shut s \<and> (\<forall>k. 0 < recv_answer s k)"

lemma recv_split: "recv n s = (got, s') \<Longrightarrow> inbox s = got @ inbox s' \<and> length got \<le> n"
  by (auto simp: recv_def Let_def split: if_splits)

lemma recv_receiving:
  "recv n s = (got, s') \<Longrightarrow> receiving s' = receiving s \<and> outbox s' = outbox s \<and> shut s' = shut s"
  by (auto simp: recv_def Let_def receiving_def split: if_splits)

lemma recv_some: "receiving s \<Longrightarrow> 0 < n \<Longrightarrow> inbox s \<noteq> [] \<Longrightarrow> recv n s = (got, s') \<Longrightarrow> got \<noteq> []"
  by (auto simp: recv_def Let_def receiving_def not_le split: if_splits dest: spec [where x = "recv_calls s"])

lemma send_outbox:
  "send data s = (k, s') \<Longrightarrow> 0 \<le> k \<and> nat k \<le> length data \<and> outbox s' = outbox s @ take (nat k) data \<and>
     inbox s' = inbox s \<and> shut s' = shut s \<and> (shut s \<longrightarrow> k = 0)"
  by (auto simp: send_def Let_def split: if_splits)

lemma clock_option_same [simp]:
  "outbox (snd (clock_now s)) = outbox s" "shut (snd (clock_now s)) = shut s" "inbox (snd (clock_now s)) = inbox s"
  "outbox (snd (set_option s)) = outbox s" "shut (snd (set_option s)) = shut s" "inbox (snd (set_option s)) = inbox s"
  "outbox (shutdown s) = outbox s" "shut (shutdown s) = True" "inbox (shutdown s) = inbox s"
  by (simp_all add: clock_now_def set_option_def shutdown_def)

subsection \<open>Receiving exactly and sending exactly\<close>

text \<open>The contract of a loop that fills a buffer: with a peer that sends enough it returns exactly the
  next bytes, however they arrive in pieces, and whatever happens it only consumes.\<close>

locale exact_receiver =
  fixes receive :: "nat \<Rightarrow> Socket \<Rightarrow> bool \<times> bytes \<times> Socket"
  assumes receive_enough: "receiving s \<Longrightarrow> n \<le> length (inbox s) \<Longrightarrow> receive n s = (ok, buf, s') \<Longrightarrow>
      ok \<and> buf = take n (inbox s) \<and> inbox s' = drop n (inbox s) \<and> receiving s'"
    and receive_ok: "receive n s = (True, buf, s') \<Longrightarrow> inbox s = buf @ inbox s' \<and> length buf = n"
    and receive_outbox: "receive n s = (ok, buf, s') \<Longrightarrow> outbox s' = outbox s \<and> shut s' = shut s"
begin

lemma receive_two:
  assumes "receiving s" and "inbox s = h @ b @ rest"
    and "receive (length h) s = (ok1, buf1, s1)" and "receive (length b) s1 = (ok2, buf2, s2)"
  shows "ok1 \<and> ok2 \<and> buf1 = h \<and> buf2 = b \<and> inbox s2 = rest \<and> receiving s2 \<and> outbox s2 = outbox s"
proof -
  have 1: "ok1 \<and> buf1 = h \<and> inbox s1 = b @ rest \<and> receiving s1"
    using receive_enough [OF assms(1) _ assms(3)] assms(2) by simp
  then have "ok2 \<and> buf2 = b \<and> inbox s2 = rest \<and> receiving s2"
    using receive_enough [of s1 "length b" ok2 buf2 s2] assms(4) by simp
  with 1 show ?thesis using receive_outbox [OF assms(3)] receive_outbox [OF assms(4)] by simp
qed

end

text \<open>Every loop that asks for part of what is missing, until nothing is, meets the contract.\<close>

locale recv_loop =
  fixes receive :: "nat \<Rightarrow> Socket \<Rightarrow> bool \<times> bytes \<times> Socket" and request :: "nat \<Rightarrow> nat"
  assumes step: "receive n s =
      (if n = 0 then (True, [], s)
       else (case recv (request n) s of
               (got, s1) \<Rightarrow>
                 if got = [] then (False, [], s1)
                 else (case receive (n - length got) s1 of (ok, rest, s2) \<Rightarrow> (ok, got @ rest, s2))))"
    and request: "0 < n \<Longrightarrow> 0 < request n \<and> request n \<le> n"
begin

lemma loop_0: "receive 0 s = (True, [], s)"
  by (subst step) simp

lemma loop_step:
  assumes "0 < n" and "recv (request n) s = (got, s1)"
  shows "receive n s =
     (if got = [] then (False, [], s1)
      else (case receive (n - length got) s1 of (ok, rest, s2) \<Rightarrow> (ok, got @ rest, s2)))"
  using assms by (subst step) simp

lemma loop_induct:
  assumes zero: "\<And>s. P 0 s (True, [], s)"
    and empty: "\<And>n s s1. 0 < n \<Longrightarrow> recv (request n) s = ([], s1) \<Longrightarrow> P n s (False, [], s1)"
    and more: "\<And>n s got s1 ok rest s2. 0 < n \<Longrightarrow> recv (request n) s = (got, s1) \<Longrightarrow> got \<noteq> [] \<Longrightarrow>
       length got \<le> n \<Longrightarrow> P (n - length got) s1 (ok, rest, s2) \<Longrightarrow> P n s (ok, got @ rest, s2)"
  shows "P n s (receive n s)"
proof (induction n arbitrary: s rule: less_induct)
  case (less n)
  show ?case
  proof (cases "n = 0")
    case False
    obtain got s1 where r: "recv (request n) s = (got, s1)" by (cases "recv (request n) s")
    have le: "length got \<le> n" using recv_split [OF r] request [of n] False by auto
    show ?thesis
    proof (cases "got = []")
      case True
      with False r empty loop_step [OF _ r] show ?thesis by simp
    next
      case g: False
      obtain ok rest s2 where rest: "receive (n - length got) s1 = (ok, rest, s2)"
        by (cases "receive (n - length got) s1") auto
      have "n - length got < n" using g False by simp
      from less [OF this, of s1] have "P (n - length got) s1 (ok, rest, s2)" by (simp add: rest)
      from more [OF _ r g le this] False g loop_step [OF _ r] rest show ?thesis by simp
    qed
  qed (simp add: zero loop_0)
qed

lemma loop_enough:
  "receiving s \<longrightarrow> n \<le> length (inbox s) \<longrightarrow>
     (case receive n s of (ok, buf, s') \<Rightarrow>
        ok \<and> buf = take n (inbox s) \<and> inbox s' = drop n (inbox s) \<and> receiving s')"
proof (induction rule: loop_induct)
  case (2 n s s1)
  have "receiving s \<Longrightarrow> inbox s \<noteq> [] \<Longrightarrow> False" using recv_some [OF _ _ _ 2(2)] request [OF 2(1)] by simp
  moreover have "n \<le> length (inbox s) \<Longrightarrow> inbox s \<noteq> []" using 2(1) by auto
  ultimately show ?case by blast
next
  case (3 n s got s1 ok rest s2)
  with recv_split [OF 3(2)] recv_receiving [OF 3(2)] show ?case by auto
qed simp

lemma loop_ok: "case receive n s of (ok, buf, s') \<Rightarrow> ok \<longrightarrow> inbox s = buf @ inbox s' \<and> length buf = n"
proof (induction rule: loop_induct)
  case (3 n s got s1 ok rest s2)
  with recv_split [OF 3(2)] show ?case by auto
qed simp_all

lemma loop_outbox: "case receive n s of (ok, buf, s') \<Rightarrow> outbox s' = outbox s \<and> shut s' = shut s"
proof (induction rule: loop_induct)
  case (2 n s s1)
  with recv_receiving [OF 2(2)] show ?case by simp
next
  case (3 n s got s1 ok rest s2)
  with recv_receiving [OF 3(2)] show ?case by simp
qed simp

end

sublocale recv_loop \<subseteq> exact_receiver receive
proof
  fix n s ok buf s'
  assume r: "receive n s = (ok, buf, s')"
  show "ok \<and> buf = take n (inbox s) \<and> inbox s' = drop n (inbox s) \<and> receiving s'"
    if "receiving s" "n \<le> length (inbox s)"
    using loop_enough [where n = n and s = s] r that by simp
  show "outbox s' = outbox s \<and> shut s' = shut s" using loop_outbox [where n = n and s = s] r by simp
next
  fix n s buf s'
  assume "receive n s = (True, buf, s')"
  then show "inbox s = buf @ inbox s' \<and> length buf = n" using loop_ok [where n = n and s = s] by simp
qed

text \<open>The contract of a loop that writes a buffer: what it puts on the wire is a prefix of the buffer,
  all of it exactly when it succeeds; and nothing on a socket that is shut down.\<close>

locale exact_sender =
  fixes transmit :: "bytes \<Rightarrow> Socket \<Rightarrow> bool \<times> Socket"
  assumes transmit_prefix: "transmit data s = (ok, s') \<Longrightarrow>
      (\<exists>k \<le> length data. outbox s' = outbox s @ take k data \<and> (ok \<longleftrightarrow> k = length data)) \<and> shut s' = shut s"
    and transmit_shut: "shut s \<Longrightarrow> transmit data s = (ok, s') \<Longrightarrow> outbox s' = outbox s"
begin

lemma transmit_ok: "transmit data s = (True, s') \<Longrightarrow> outbox s' = outbox s @ data \<and> shut s' = shut s"
  using transmit_prefix [of data s True s'] by auto

lemma transmit_failed:
  "transmit data s = (False, s') \<Longrightarrow> \<exists>k < length data. outbox s' = outbox s @ take k data \<and> shut s' = shut s"
  using transmit_prefix [of data s False s'] by (auto simp: le_less)

text \<open>A header and a body behind it.\<close>

lemma transmit_two:
  assumes "transmit h s = (True, s1)" and "transmit b s1 = (ok, s2)"
  shows "\<exists>k \<le> length b. outbox s2 = outbox s @ h @ take k b \<and> (ok \<longleftrightarrow> k = length b) \<and> shut s2 = shut s"
  using transmit_ok [OF assms(1)] transmit_prefix [OF assms(2)] by auto

end

end
