(* ===== verification/UsbMux.thy ===== *)
theory UsbMux
  imports Socket
begin

text \<open>
  The USB tunnel through Apple's usbmuxd service (\<^verbatim>\<open>src/src/net/UsbMux.h\<close>,
  \<^verbatim>\<open>src/src/net/UsbMux.cpp\<close>): framed property-list requests, the text search in the
  replies, the device list and the connection to a device port.  Opening the service is an argument
  (the socket obtained, if any); the header is in the memory order of the little-endian targets.
\<close>

definition kUsbMuxPort :: nat where "kUsbMuxPort = 27015"
definition kPlistVersion :: u32 where "kPlistVersion = 1"
definition kPlistMessage :: u32 where "kPlistMessage = 8"
definition kMaxPlistBytes :: nat where "kMaxPlistBytes = 2 ^ 20"
definition sizeof_Header :: nat where "sizeof_Header = 16"

record Header =
  h_length :: u32
  h_version :: u32
  h_message :: u32
  h_tag :: u32

record UsbMuxDevice =
  deviceId :: u32
  udid :: string

subsection \<open>Exact transfers\<close>

function SendAll :: "bytes \<Rightarrow> Socket \<Rightarrow> bool \<times> Socket" where
  "SendAll data s =
     (if data = [] then (True, s)
      else (case send (take (min (length data) 2147483647) data) s of
              (sent, s1) \<Rightarrow> if sent \<le> 0 then (False, s1) else SendAll (drop (nat sent) data) s1))"
  by pat_completeness auto
termination
  by (relation "measure (\<lambda>(data, s). length data)") (auto dest: send_outbox)

function ReceiveAll :: "nat \<Rightarrow> Socket \<Rightarrow> bool \<times> bytes \<times> Socket" where
  "ReceiveAll n s =
     (if n = 0 then (True, [], s)
      else (case recv (min n 2147483647) s of
              (received, s1) \<Rightarrow>
                if received = [] then (False, [], s1)
                else (case ReceiveAll (n - length received) s1 of
                        (ok, rest, s2) \<Rightarrow> (ok, received @ rest, s2))))"
  by pat_completeness auto
termination
  by (relation "measure (\<lambda>(n, s). n)") (auto dest: recv_split)

declare SendAll.simps [simp del] ReceiveAll.simps [simp del]

subsection \<open>Requests\<close>

definition le32 :: "u32 \<Rightarrow> bytes" where
  "le32 v = rev (put32 v)"

definition from_le32 :: "bytes \<Rightarrow> u32" where
  "from_le32 b = be32 (b ! 3) (b ! 2) (b ! 1) (b ! 0)"

definition put_header :: "Header \<Rightarrow> bytes" where
  "put_header h = le32 (h_length h) @ le32 (h_version h) @ le32 (h_message h) @ le32 (h_tag h)"

definition get_header :: "bytes \<Rightarrow> Header" where
  "get_header b = \<lparr>h_length = from_le32 (take 4 b), h_version = from_le32 (take 4 (drop 4 b)),
     h_message = from_le32 (take 4 (drop 8 b)), h_tag = from_le32 (take 4 (drop 12 b))\<rparr>"

abbreviation qt :: string where "qt \<equiv> [CHR 0x22]"

definition XmlRequest :: "string \<Rightarrow> string \<Rightarrow> string" where
  "XmlRequest messageType extra =
     ''<?xml version='' @ qt @ ''1.0'' @ qt @ '' encoding='' @ qt @ ''UTF-8'' @ qt @ ''?><!DOCTYPE plist PUBLIC '' @ qt
     @ ''-//Apple//DTD PLIST 1.0//EN'' @ qt @ '' '' @ qt
     @ ''http://www.apple.com/DTDs/PropertyList-1.0.dtd'' @ qt @ ''><plist version='' @ qt @ ''1.0'' @ qt @ ''><dict>''
     @ ''<key>BundleID</key><string>com.mouselink.usbmux</string>''
     @ ''<key>ClientVersionString</key><string>MouseLink</string>''
     @ ''<key>MessageType</key><string>'' @ messageType
     @ ''</string><key>ProgName</key><string>MouseLink</string>'' @ extra
     @ ''<key>kLibUSBMuxVersion</key><integer>3</integer></dict></plist>''"

definition Request :: "Socket \<Rightarrow> string \<Rightarrow> u32 \<Rightarrow> string option \<times> Socket" where
  "Request s xml tag =
     (if kMaxPlistBytes - sizeof_Header < length xml then (None, s)
      else
        (let header = \<lparr>h_length = of_nat (sizeof_Header + length xml), h_version = kPlistVersion,
                       h_message = kPlistMessage, h_tag = tag\<rparr>;
             (ok1, s1) = SendAll (put_header header) s;
             (ok2, s2) = (if ok1 then SendAll (bytes_of xml) s1 else (False, s1))
         in if \<not> ok2 then (None, s2)
            else (case ReceiveAll sizeof_Header s2 of
                    (ok3, hb, s3) \<Rightarrow>
                      (let response = get_header hb; len = unat (h_length response) in
                       if \<not> ok3 \<or> len < sizeof_Header \<or> kMaxPlistBytes < len \<or>
                          h_version response \<noteq> kPlistVersion \<or> h_message response \<noteq> kPlistMessage
                       then (None, s3)
                       else if len = sizeof_Header then (Some [], s3)
                       else (case ReceiveAll (len - sizeof_Header) s3 of
                               (ok4, body, s4) \<Rightarrow>
                                 if \<not> ok4 then (None, s4) else (Some (text_of body), s4))))))"

subsection \<open>Searching a property list\<close>

definition key_tag :: "string \<Rightarrow> string" where
  "key_tag key = ''<key>'' @ key @ ''</key>''"

text \<open>\<^verbatim>\<open>while (valueEnd > valueStart && isspace(plist[valueEnd - 1])) --valueEnd;\<close>\<close>

fun trim_end :: "string \<Rightarrow> nat \<Rightarrow> nat \<Rightarrow> nat" where
  "trim_end s from e = (if from < e \<and> is_space (s ! (e - 1)) then trim_end s from (e - 1) else e)"

function trim_start :: "string \<Rightarrow> nat \<Rightarrow> nat \<Rightarrow> nat" where
  "trim_start s i e = (if i < e \<and> is_space (s ! i) then trim_start s (Suc i) e else i)"
  by pat_completeness auto
termination
  by (relation "measure (\<lambda>(s, i, e). e - i)") auto

declare trim_end.simps [simp del] trim_start.simps [simp del]

definition ValueForKey :: "string \<Rightarrow> string \<Rightarrow> nat \<Rightarrow> string option" where
  "ValueForKey plist key start =
     (let needle = key_tag key in
      case str_find plist needle start of
        None \<Rightarrow> None
      | Some pos \<Rightarrow>
          (case str_find plist ''>'' (pos + length needle) of
             None \<Rightarrow> None
           | Some open_end \<Rightarrow>
               (case str_find plist ''<'' (open_end + 1) of
                  None \<Rightarrow> None
                | Some close \<Rightarrow>
                    (let valueStart = trim_start plist (open_end + 1) close;
                         valueEnd = trim_end plist valueStart close
                     in Some (slice plist valueStart valueEnd)))))"

text \<open>\<^verbatim>\<open>strtoul\<close> in base ten on the C string: how many characters it takes (0 when it
  converts nothing) and the value, with the 32-bit \<^verbatim>\<open>unsigned long\<close> of the platform.\<close>

definition ULONG_MAX :: nat where "ULONG_MAX = 2 ^ 32 - 1"

definition strtoul :: "string \<Rightarrow> nat \<times> nat" where
  "strtoul cstr =
     (let i = skip_while is_space cstr 0;
          signed = (i < length cstr \<and> (cstr ! i = CHR ''-'' \<or> cstr ! i = CHR ''+''));
          neg = (i < length cstr \<and> cstr ! i = CHR ''-'');
          j = (if signed then Suc i else i);
          k = skip_while is_digit cstr j;
          n = digits_val (slice cstr j k)
      in if k = j then (0, 0)
         else if ULONG_MAX < n then (k, ULONG_MAX)
         else (k, if neg then (2 ^ 32 - n) mod 2 ^ 32 else n))"

definition NumberForKey :: "string \<Rightarrow> string \<Rightarrow> nat \<Rightarrow> u32 option" where
  "NumberForKey plist key start =
     (case ValueForKey plist key start of
        None \<Rightarrow> None
      | Some text \<Rightarrow>
          (if text = [] then None
           else (let cstr = takeWhile (\<lambda>c. c \<noteq> CHR 0x00) text; (e, value) = strtoul cstr in
                 if e = 0 \<or> e < length cstr \<or> 2 ^ 32 - 1 < value then None else Some (of_nat value))))"

function EqualsUdid_from :: "string \<Rightarrow> string \<Rightarrow> nat \<Rightarrow> nat \<Rightarrow> bool" where
  "EqualsUdid_from a b ai bi =
     (let i = skip_while (\<lambda>c. \<not> is_alnum c) a ai; j = skip_while (\<lambda>c. \<not> is_alnum c) b bi in
      if length a \<le> i \<or> length b \<le> j then length a \<le> i \<and> length b \<le> j
      else if to_lower (a ! i) \<noteq> to_lower (b ! j) then False
      else EqualsUdid_from a b (Suc i) (Suc j))"
  by pat_completeness auto
termination
proof (relation "measure (\<lambda>(a, b, ai, bi). length a - ai)", goal_cases)
  case (2 a b ai bi i j)
  then have "ai < Suc i" "ai < length a"
    using skip_while_ge [of ai "\<lambda>c. \<not> is_alnum c" a] by auto
  then show ?case by (simp add: diff_less_mono2)
qed simp

declare EqualsUdid_from.simps [simp del]

definition EqualsUdid :: "string \<Rightarrow> string \<Rightarrow> bool" where
  "EqualsUdid a b = EqualsUdid_from a b 0 0"

definition IsSuccess :: "string \<Rightarrow> bool" where
  "IsSuccess response = (NumberForKey response ''Number'' 0 = Some 0)"

definition UsbMuxPortNumber :: "u16 \<Rightarrow> u16" where
  "UsbMuxPortNumber port = or (push_bit 8 port) (drop_bit 8 port)"

definition IsUsbMuxTarget :: "string \<Rightarrow> bool" where
  "IsUsbMuxTarget target \<longleftrightarrow> 4 < length target \<and> take 4 target = ''usb:''"

definition MakeUsbMuxTarget :: "string \<Rightarrow> string" where
  "MakeUsbMuxTarget u = ''usb:'' @ u"

subsection \<open>The device list\<close>

text \<open>\<^verbatim>\<open>s.rfind(needle, pos)\<close>.\<close>

definition str_rfind :: "string \<Rightarrow> string \<Rightarrow> nat \<Rightarrow> nat option" where
  "str_rfind s n pos =
     (if length s < length n then None
      else find (\<lambda>k. starts_with n (drop k s)) (rev [0..<Suc (min pos (length s - length n))]))"

definition attached_message :: string where
  "attached_message = ''<key>MessageType</key><string>Attached</string>''"

text \<open>One \<^verbatim>\<open>SerialNumber\<close> key of the reply.\<close>

definition list_entry :: "string \<Rightarrow> nat \<Rightarrow> UsbMuxDevice list \<Rightarrow> UsbMuxDevice list" where
  "list_entry response serialKey found =
     (let entry = (case str_rfind response attached_message serialKey of
                     None \<Rightarrow> 0
                   | Some attached \<Rightarrow> value_or (str_rfind response ''<dict>'' attached) 0)
      in case (NumberForKey response ''DeviceID'' entry, ValueForKey response ''SerialNumber'' serialKey,
               ValueForKey response ''ConnectionType'' entry) of
           (Some i, Some u, Some ty) \<Rightarrow>
             (if ty = ''USB'' \<and> \<not> list_ex (\<lambda>current. deviceId current = i \<or> EqualsUdid (udid current) u) found
              then found @ [\<lparr>deviceId = i, udid = u\<rparr>] else found)
         | _ \<Rightarrow> found)"

function list_devices :: "string \<Rightarrow> nat \<Rightarrow> UsbMuxDevice list \<Rightarrow> UsbMuxDevice list" where
  "list_devices response cursor found =
     (case str_find response (key_tag ''SerialNumber'') cursor of
        None \<Rightarrow> found
      | Some serialKey \<Rightarrow> list_devices response (serialKey + 1) (list_entry response serialKey found))"
  by pat_completeness auto
termination
proof (relation "measure (\<lambda>(r, c, f). Suc (length r) - c)", goal_cases)
  case (2 response cursor found serialKey)
  have "length (key_tag ''SerialNumber'') = 23" by (simp add: key_tag_def)
  with str_find_Some [OF 2] show ?case by simp
qed simp

declare list_devices.simps [simp del]

text \<open>\<open>service\<close> is the socket of the opened service, if it could be opened.\<close>

definition ListUsbMuxDevices :: "Socket option \<Rightarrow> UsbMuxDevice list" where
  "ListUsbMuxDevices service =
     (case service of
        None \<Rightarrow> []
      | Some s \<Rightarrow>
          (case fst (Request s (XmlRequest ''ListDevices'' []) 1) of
             None \<Rightarrow> []
           | Some response \<Rightarrow> list_devices response 0 []))"

subsection \<open>Connecting to a device port\<close>

text \<open>The error texts, or the socket that now carries the device's byte stream.\<close>

datatype UsbError =
  InvalidTarget | DeviceNotAvailable | ServiceUnavailable | Rejected u32 | NoConnectResult

definition show_u32 :: "u32 \<Rightarrow> string" where
  "show_u32 n = show_nat (unat n)"

definition error_text :: "UsbError option \<Rightarrow> string" where
  "error_text e =
     (case e of
        None \<Rightarrow> ''unknown USBMux error''
      | Some InvalidTarget \<Rightarrow> ''invalid USB target''
      | Some DeviceNotAvailable \<Rightarrow> ''the selected cable-connected iPad is not available''
      | Some ServiceUnavailable \<Rightarrow> ''Apple Mobile Device Service is unavailable''
      | Some (Rejected n) \<Rightarrow> ''usbmuxd rejected the iPad port (result '' @ show_u32 n @ '')''
      | Some NoConnectResult \<Rightarrow> ''usbmuxd did not return a valid connect result'')"

definition connect_fields :: "UsbMuxDevice \<Rightarrow> u16 \<Rightarrow> string" where
  "connect_fields d devicePort =
     ''<key>DeviceID</key><integer>'' @ show_u32 (deviceId d) @ ''</integer><key>PortNumber</key><integer>''
       @ show_nat (unat (UsbMuxPortNumber devicePort)) @ ''</integer>''"

definition ConnectUsbMuxTarget :: "Socket option \<Rightarrow> Socket option \<Rightarrow> string \<Rightarrow> u16 \<Rightarrow> UsbError + Socket" where
  "ConnectUsbMuxTarget list_service connect_service target devicePort =
     (if \<not> IsUsbMuxTarget target then Inl InvalidTarget
      else
        (case find (\<lambda>candidate. EqualsUdid (udid candidate) (drop 4 target)) (ListUsbMuxDevices list_service) of
           None \<Rightarrow> Inl DeviceNotAvailable
         | Some d \<Rightarrow>
             (case connect_service of
                None \<Rightarrow> Inl ServiceUnavailable
              | Some s \<Rightarrow>
                  (case Request s (XmlRequest ''Connect'' (connect_fields d devicePort)) 2 of
                     (None, s1) \<Rightarrow> Inl NoConnectResult
                   | (Some response, s1) \<Rightarrow>
                       (if IsSuccess response then Inr s1
                        else (case NumberForKey response ''Number'' 0 of
                                Some n \<Rightarrow> Inl (Rejected n)
                              | None \<Rightarrow> Inl NoConnectResult))))))"

definition UsbMuxLastError :: "(UsbError + Socket) option \<Rightarrow> string" where
  "UsbMuxLastError last_result =
     (case last_result of Some (Inl e) \<Rightarrow> error_text (Some e) | _ \<Rightarrow> error_text None)"

subsection \<open>The loops meet their contracts\<close>

interpretation usb_reader: recv_loop ReceiveAll "\<lambda>n. min n 2147483647"
  by unfold_locales (simp_all add: ReceiveAll.simps)

lemma SendAll_Nil [simp]: "SendAll [] s = (True, s)"
  by (subst SendAll.simps) simp

lemma SendAll_contract:
  "SendAll data s = (ok, s') \<Longrightarrow>
     (\<exists>k \<le> length data. outbox s' = outbox s @ take k data \<and> (ok \<longleftrightarrow> k = length data)) \<and> shut s' = shut s \<and>
     (shut s \<longrightarrow> outbox s' = outbox s) \<and> inbox s' = inbox s"
proof (induction "length data" arbitrary: data s rule: less_induct)
  case less
  obtain n s1 where snd: "send (take (min (length data) 2147483647) data) s = (n, s1)"
    by (cases "send (take (min (length data) 2147483647) data) s")
  have n: "nat n \<le> length data" "outbox s1 = outbox s @ take (nat n) data" "shut s1 = shut s" "shut s \<longrightarrow> n = 0"
      "inbox s1 = inbox s"
    using send_outbox [OF snd] by (auto simp: min_def split: if_splits)
  consider "data = []" | "data \<noteq> []" "n \<le> 0" "ok = False" "s' = s1"
    | "data \<noteq> []" "0 < n" "SendAll (drop (nat n) data) s1 = (ok, s')"
    using less.prems snd by (subst (asm) SendAll.simps) (auto split: if_splits)
  then show ?case
  proof cases
    case 1
    with less.prems show ?thesis by auto
  next
    case 2
    with n show ?thesis by (intro conjI exI [of _ 0]) auto
  next
    case 3
    then have "length (drop (nat n) data) < length data" using n(1) by (cases data) auto
    from less.hyps [OF this 3(3)] obtain k where
      k: "k \<le> length data - nat n" "outbox s' = outbox s1 @ take k (drop (nat n) data)"
        "ok \<longleftrightarrow> k = length data - nat n" "shut s' = shut s1" "inbox s' = inbox s1"
      by auto
    have "outbox s' = outbox s @ take (nat n + k) data" using k(2) n(2) by (simp add: take_add)
    moreover have "ok \<longleftrightarrow> nat n + k = length data" using k(1,3) n(1) by auto
    moreover have "\<not> shut s" using 3(2) n(4) by auto
    ultimately show ?thesis using k n by (intro conjI exI [of _ "nat n + k"]) auto
  qed
qed

interpretation usb_writer: exact_sender SendAll
  by unfold_locales (use SendAll_contract in blast)+

lemma SendAll_inbox: "SendAll data s = (ok, s') \<Longrightarrow> inbox s' = inbox s"
  using SendAll_contract by blast

subsection \<open>Serial numbers\<close>

definition udid_norm :: "string \<Rightarrow> string" where
  "udid_norm s = map to_lower (filter is_alnum s)"

lemma drop_skip:
  "i \<le> length s \<Longrightarrow> udid_norm (drop i s) = udid_norm (drop (skip_while (\<lambda>c. \<not> is_alnum c) s i) s)"
proof (induction "\<lambda>c. \<not> is_alnum c" s i rule: skip_while.induct)
  case (1 s i)
  then show ?case
    by (subst skip_while.simps) (auto simp: udid_norm_def simp flip: Cons_nth_drop_Suc)
qed

lemma EqualsUdid_from_norm:
  "ai \<le> length a \<Longrightarrow> bi \<le> length b \<Longrightarrow>
   EqualsUdid_from a b ai bi \<longleftrightarrow> udid_norm (drop ai a) = udid_norm (drop bi b)"
proof (induction a b ai bi rule: EqualsUdid_from.induct)
  case (1 a b ai bi)
  let ?P = "\<lambda>c. \<not> is_alnum c"
  define i where "i = skip_while ?P a ai"
  define j where "j = skip_while ?P b bi"
  have b: "i \<le> length a" "j \<le> length b"
    using skip_while_bounds "1.prems" by (auto simp: i_def j_def)
  have n: "udid_norm (drop ai a) = udid_norm (drop i a)" "udid_norm (drop bi b) = udid_norm (drop j b)"
    using drop_skip "1.prems" by (simp_all add: i_def j_def)
  have ia: "i < length a \<Longrightarrow> udid_norm (drop i a) = to_lower (a ! i) # udid_norm (drop (Suc i) a)"
    using skip_while_stop [of ?P a ai] by (simp add: i_def udid_norm_def flip: Cons_nth_drop_Suc)
  have jb: "j < length b \<Longrightarrow> udid_norm (drop j b) = to_lower (b ! j) # udid_norm (drop (Suc j) b)"
    using skip_while_stop [of ?P b bi] by (simp add: j_def udid_norm_def flip: Cons_nth_drop_Suc)
  show ?case
  proof (cases "length a \<le> i \<or> length b \<le> j")
    case True
    then have "EqualsUdid_from a b ai bi \<longleftrightarrow> length a \<le> i \<and> length b \<le> j"
      by (subst EqualsUdid_from.simps) (simp add: Let_def i_def j_def)
    moreover have "udid_norm (drop i a) = udid_norm (drop j b) \<longleftrightarrow> length a \<le> i \<and> length b \<le> j"
      using True ia jb b by (cases "i = length a"; cases "j = length b") (auto simp: udid_norm_def)
    ultimately show ?thesis by (simp add: n)
  next
    case False
    then have "EqualsUdid_from a b ai bi \<longleftrightarrow>
        to_lower (a ! i) = to_lower (b ! j) \<and> EqualsUdid_from a b (Suc i) (Suc j)"
      by (subst EqualsUdid_from.simps) (simp add: Let_def i_def j_def)
    also have "\<dots> \<longleftrightarrow> udid_norm (drop i a) = udid_norm (drop j b)"
      using False ia jb "1.IH" [of i j] by (auto simp: i_def j_def)
    finally show ?thesis by (simp add: n)
  qed
qed

lemma EqualsUdid_norm: "EqualsUdid a b \<longleftrightarrow> udid_norm a = udid_norm b"
  using EqualsUdid_from_norm [of 0 a 0 b] by (simp add: EqualsUdid_def)

subsection \<open>The list has no device twice\<close>

fun separate :: "UsbMuxDevice list \<Rightarrow> bool" where
  "separate [] = True"
| "separate (d # ds) =
     (list_all (\<lambda>e. deviceId d \<noteq> deviceId e \<and> udid_norm (udid d) \<noteq> udid_norm (udid e)) ds \<and> separate ds)"

lemma separate_snoc:
  "separate (ds @ [d]) \<longleftrightarrow> separate ds \<and>
     list_all (\<lambda>e. deviceId e \<noteq> deviceId d \<and> udid_norm (udid e) \<noteq> udid_norm (udid d)) ds"
  by (induction ds) auto

lemma separate_entry [preserves]: "separate found \<Longrightarrow> separate (list_entry response k found)"
  by (auto simp: list_entry_def Let_def separate_snoc EqualsUdid_norm list_all_iff list_ex_iff
      split: option.splits)

lemma separate_list [preserves]: "separate found \<Longrightarrow> separate (list_devices response cursor found)"
proof (induction response cursor found rule: list_devices.induct)
  case (1 response cursor found)
  then show ?case
    by (subst list_devices.simps) (auto simp: separate_entry split: option.split)
qed

lemma separate_ListUsbMuxDevices: "separate (ListUsbMuxDevices service)"
  by (auto simp: ListUsbMuxDevices_def separate_list split: option.split)

lemma separate_unique:
  "separate ds \<Longrightarrow> d \<in> set ds \<Longrightarrow> e \<in> set ds \<Longrightarrow> udid_norm (udid d) = udid_norm (udid e) \<Longrightarrow> d = e"
  by (induction ds) (auto simp: list_all_iff)

subsection \<open>Requests and replies\<close>

definition request_header :: "string \<Rightarrow> u32 \<Rightarrow> Header" where
  "request_header xml tag = \<lparr>h_length = of_nat (sizeof_Header + length xml), h_version = kPlistVersion,
     h_message = kPlistMessage, h_tag = tag\<rparr>"

definition request_bytes :: "string \<Rightarrow> u32 \<Rightarrow> bytes" where
  "request_bytes xml tag = put_header (request_header xml tag) @ bytes_of xml"

lemma length_le32 [simp]: "length (le32 v) = 4"
  by (simp add: le32_def)

lemma from_le32_le32 [simp, codec]: "from_le32 (le32 v) = v"
  using be32_put32 [of v] by (simp add: from_le32_def le32_def put32_def)

lemma get_header_put_header [simp, codec]: "get_header (put_header h) = h"
  by (simp add: get_header_def put_header_def)

lemma length_put_header [simp]: "length (put_header h) = 16"
  by (simp add: put_header_def)

lemma Request_reply_sent:
  assumes "Request s xml tag = (Some body, s')"
  shows "outbox s' = outbox s @ request_bytes xml tag"
proof -
  obtain ok1 s1 where w1: "SendAll (put_header (request_header xml tag)) s = (ok1, s1)"
    by (cases "SendAll (put_header (request_header xml tag)) s")
  obtain ok2 s2 where w2: "SendAll (bytes_of xml) s1 = (ok2, s2)" by (cases "SendAll (bytes_of xml) s1")
  obtain ok3 hb s3 where r3: "ReceiveAll sizeof_Header s2 = (ok3, hb, s3)" by (metis prod_cases3)
  let ?n = "unat (h_length (get_header hb)) - sizeof_Header"
  obtain ok4 b s4 where r4: "ReceiveAll ?n s3 = (ok4, b, s4)" by (metis prod_cases3)
  have "ok1" "ok2" "s' = s3 \<or> s' = s4"
    using assms w1 w2 r3 r4 by (auto simp: Request_def request_header_def Let_def split: if_splits)
  moreover have "outbox s3 = outbox s2" "outbox s4 = outbox s3"
    using usb_reader.receive_outbox [OF r3] usb_reader.receive_outbox [OF r4] by simp_all
  ultimately show ?thesis
    using usb_writer.transmit_ok [of _ s s1] usb_writer.transmit_ok [of _ s1 s2] w1 w2
    by (auto simp: request_bytes_def)
qed

lemma SendAll_willing:
  "\<not> shut s \<Longrightarrow> \<forall>k. 0 < send_answer s k \<Longrightarrow> fst (SendAll data s) \<and> \<not> shut (snd (SendAll data s)) \<and>
     (\<forall>k. 0 < send_answer (snd (SendAll data s)) k) \<and> recv_answer (snd (SendAll data s)) = recv_answer s"
proof (induction "length data" arbitrary: data s rule: less_induct)
  case less
  show ?case
  proof (cases "data = []")
    case False
    obtain n s1 where snd: "send (take (min (length data) 2147483647) data) s = (n, s1)"
      by (cases "send (take (min (length data) 2147483647) data) s")
    have n: "0 < n" "\<not> shut s1" "\<forall>k. 0 < send_answer s1 k" "recv_answer s1 = recv_answer s"
      using snd less.prems False
      by (auto simp: send_def Let_def not_le split: if_splits dest: spec [where x = "send_calls s"])
    then have "length (drop (nat n) data) < length data" using False by (cases data) auto
    from less.hyps [OF this n(2,3)] n False snd show ?thesis by (subst (1 2 3 4) SendAll.simps) simp
  qed (use less in simp)
qed

lemma Request_reply:
  assumes "receiving s" and "\<forall>k. 0 < send_answer s k" and "length xml + 16 \<le> kMaxPlistBytes"
    and "inbox s = put_header h @ bytes_of body @ rest" and "h_length h = of_nat (16 + length body)"
    and "16 + length body \<le> kMaxPlistBytes" and "h_version h = kPlistVersion" and "h_message h = kPlistMessage"
  shows "fst (Request s xml tag) = Some body \<and> inbox (snd (Request s xml tag)) = rest \<and>
     outbox (snd (Request s xml tag)) = outbox s @ request_bytes xml tag"
proof -
  have sh: "\<not> shut s" using assms(1) by (simp add: receiving_def)
  let ?h = "put_header (request_header xml tag)"
  define s1 where "s1 = snd (SendAll ?h s)"
  define s2 where "s2 = snd (SendAll (bytes_of xml) s1)"
  note 1 = SendAll_willing [OF sh assms(2), of ?h, folded s1_def]
  note 2 = SendAll_willing [of s1 "bytes_of xml", folded s2_def]
  have w1: "SendAll ?h s = (True, s1)" using 1 by (simp add: s1_def prod_eq_iff)
  have w2: "SendAll (bytes_of xml) s1 = (True, s2)" using 1 2 by (simp add: s2_def prod_eq_iff)
  have in2: "inbox s2 = put_header h @ bytes_of body @ rest" "receiving s2"
    using SendAll_inbox [OF w1] SendAll_inbox [OF w2] assms(1,4) 1 2 by (simp_all add: receiving_def)
  obtain ok3 hb s3 where r3: "ReceiveAll (length (put_header h)) s2 = (ok3, hb, s3)" by (metis prod_cases3)
  obtain ok4 b s4 where r4: "ReceiveAll (length (bytes_of body)) s3 = (ok4, b, s4)" by (metis prod_cases3)
  note two = usb_reader.receive_two [OF in2(2,1) r3 r4]
  have len: "unat (h_length h) = 16 + length body"
    unfolding assms(5) unat_of_nat using assms(6) by (simp add: kMaxPlistBytes_def)
  have "fst (Request s xml tag) = Some body \<and> inbox (snd (Request s xml tag)) = rest"
  proof (cases "body = []")
    case True
    then have "s4 = s3" using r4 usb_reader.loop_0 [of s3] by simp
    with True two w1 w2 r3 len assms(3,6-8) show ?thesis
      by (simp add: Request_def request_header_def Let_def sizeof_Header_def kMaxPlistBytes_def)
  next
    case False
    with two w1 w2 r3 r4 len assms(3,6-8) show ?thesis
      by (simp add: Request_def request_header_def Let_def sizeof_Header_def kMaxPlistBytes_def)
  qed
  with Request_reply_sent [of s xml tag body] show ?thesis by (cases "Request s xml tag") auto
qed

subsection \<open>Properties\<close>

text \<open>A request to a service that answers is complete on the wire, header and body, and its result
  is the body of the reply, however the two streams are cut into pieces.\<close>

lemma request_gets_reply:
  assumes "receiving s" and "\<forall>k. 0 < send_answer s k" and "length xml + 16 \<le> kMaxPlistBytes"
    and "inbox s = put_header h @ bytes_of body @ rest" and "h_length h = of_nat (16 + length body)"
    and "16 + length body \<le> kMaxPlistBytes" and "h_version h = kPlistVersion" and "h_message h = kPlistMessage"
  shows "fst (Request s xml tag) = Some body \<and> inbox (snd (Request s xml tag)) = rest \<and>
     outbox (snd (Request s xml tag)) = outbox s @ request_bytes xml tag"
  using assms by (rule Request_reply)

definition sample_socket :: "bytes \<Rightarrow> Socket" where
  "sample_socket bs = \<lparr>inbox = bs, outbox = [], recv_answer = (\<lambda>k. 3), recv_calls = 0,
     send_answer = (\<lambda>k. 5), send_calls = 0, clock_answer = (\<lambda>k. 0), clock_calls = 0,
     option_answer = (\<lambda>k. True), option_calls = 0, shut = False\<rparr>"

definition sample_reply :: "string \<Rightarrow> bytes" where
  "sample_reply body = put_header \<lparr>h_length = of_nat (16 + length body), h_version = kPlistVersion,
     h_message = kPlistMessage, h_tag = 7\<rparr> @ bytes_of body"

lemma request_gets_reply_witness:
  "fst (Request (sample_socket (sample_reply ''ok'')) ''hi'' 7) = Some ''ok''"
  using request_gets_reply [of "sample_socket (sample_reply ''ok'')" "''hi''"
      "\<lparr>h_length = 18, h_version = kPlistVersion, h_message = kPlistMessage, h_tag = 7\<rparr>" "''ok''" "[]" 7]
  by (simp add: sample_socket_def sample_reply_def receiving_def kMaxPlistBytes_def)

text \<open>The comparison of serial numbers, with its two cursors, is equality of their letters and
  digits in lower case: punctuation and case never matter, and nothing else is ignored.\<close>

lemma equals_udid_is_normal_equality:
  "EqualsUdid a b \<longleftrightarrow> map to_lower (filter is_alnum a) = map to_lower (filter is_alnum b)"
  using EqualsUdid_norm by (simp add: udid_norm_def)

text \<open>A tunnel is opened only to the device asked for: when connecting succeeds, exactly one listed
  device has the serial number of the target, and what was written to the service is one complete
  connect request that names that device's handle and the port in network order.\<close>

lemma tunnel_reaches_the_device:
  assumes "ConnectUsbMuxTarget list_service (Some s) target p = Inr s'"
  shows "\<exists>d. {e \<in> set (ListUsbMuxDevices list_service). EqualsUdid (udid e) (drop 4 target)} = {d} \<and>
     outbox s' = outbox s @ request_bytes (XmlRequest ''Connect'' (connect_fields d p)) 2"
proof -
  obtain d where d: "find (\<lambda>candidate. EqualsUdid (udid candidate) (drop 4 target)) (ListUsbMuxDevices list_service) = Some d"
    using assms by (auto simp: ConnectUsbMuxTarget_def split: if_splits option.splits)
  then have dm: "d \<in> set (ListUsbMuxDevices list_service)" "EqualsUdid (udid d) (drop 4 target)"
    by (auto simp: find_Some_iff)
  obtain r s1 where r: "Request s (XmlRequest ''Connect'' (connect_fields d p)) 2 = (r, s1)"
    by (cases "Request s (XmlRequest ''Connect'' (connect_fields d p)) 2")
  have "IsUsbMuxTarget target" using assms by (cases "IsUsbMuxTarget target") (simp_all add: ConnectUsbMuxTarget_def)
  then have eq: "ConnectUsbMuxTarget list_service (Some s) target p =
      (case r of
         None \<Rightarrow> Inl NoConnectResult
       | Some response \<Rightarrow>
           (if IsSuccess response then Inr s1
            else (case NumberForKey response ''Number'' 0 of Some n \<Rightarrow> Inl (Rejected n) | None \<Rightarrow> Inl NoConnectResult)))"
    using d r by (cases r) (simp_all only: ConnectUsbMuxTarget_def if_True if_False not_True_eq_False option.case prod.case)
  have "r \<noteq> None \<and> s1 = s'"
  proof (cases r)
    case None
    with assms eq show ?thesis by simp
  next
    case (Some response)
    with assms eq show ?thesis
      by (cases "IsSuccess response"; cases "NumberForKey response ''Number'' 0") simp_all
  qed
  with r obtain response where "Request s (XmlRequest ''Connect'' (connect_fields d p)) 2 = (Some response, s')"
    by auto
  then have "outbox s' = outbox s @ request_bytes (XmlRequest ''Connect'' (connect_fields d p)) 2"
    by (rule Request_reply_sent)
  moreover have "e = d" if "e \<in> set (ListUsbMuxDevices list_service)" "EqualsUdid (udid e) (drop 4 target)" for e
    using separate_unique [OF separate_ListUsbMuxDevices that(1) dm(1)] that(2) dm(2) by (simp only: EqualsUdid_norm)
  ultimately show ?thesis using dm by blast
qed

definition sample_list :: string where
  "sample_list = ''<key>DeviceID</key><i>5<<key>ConnectionType</key><i>USB<<key>SerialNumber</key><i>A<''"

definition sample_result :: string where
  "sample_result = ''<key>Number</key><i>0<''"

lemmas scan_eval = NumberForKey_def ValueForKey_def key_tag_def str_find_def Let_def slice_def trim_start.simps trim_end.simps
  strtoul_def skip_while.simps is_space_def is_digit_def digits_val_def digit_val_def

lemma sample_evaluates:
  "IsSuccess sample_result" "list_devices sample_list 0 [] = [\<lparr>deviceId = 5, udid = ''A''\<rparr>]"
   apply (simp add: sample_result_def IsSuccess_def scan_eval ULONG_MAX_def)
  apply (simp add: sample_list_def list_devices.simps list_entry_def str_rfind_def attached_message_def scan_eval ULONG_MAX_def)
  done

lemma tunnel_reaches_the_device_witness:
  "\<exists>s'. outbox s' = request_bytes (XmlRequest ''Connect'' (connect_fields \<lparr>deviceId = 5, udid = ''A''\<rparr> 9000)) 2 \<and>
     ConnectUsbMuxTarget (Some (sample_socket (sample_reply sample_list))) (Some (sample_socket (sample_reply sample_result)))
       ''usb:a'' 9000 = Inr s'"
proof -
  let ?l = "Some (sample_socket (sample_reply sample_list))" and ?s = "sample_socket (sample_reply sample_result)"
  have reply: "fst (Request (sample_socket (sample_reply body)) xml tag) = Some body"
    if "length xml \<le> 5000" "length body \<le> 5000" for xml body tag
    using that
    by (intro conjunct1 [OF Request_reply [where rest = "[]" and h = "\<lparr>h_length = of_nat (16 + length body),
          h_version = kPlistVersion, h_message = kPlistMessage, h_tag = 7\<rparr>"]])
       (simp_all add: sample_socket_def sample_reply_def receiving_def kMaxPlistBytes_def)
  have "fst (Request (sample_socket (sample_reply sample_list)) (XmlRequest ''ListDevices'' []) 1) = Some sample_list"
    by (rule reply) (simp_all add: XmlRequest_def sample_list_def)
  then have list: "ListUsbMuxDevices ?l = [\<lparr>deviceId = 5, udid = ''A''\<rparr>]"
    by (simp add: ListUsbMuxDevices_def sample_evaluates)
  let ?d = "\<lparr>deviceId = 5, udid = ''A''\<rparr>"
  have eq: "EqualsUdid ''A'' ''a''"
    by (simp add: EqualsUdid_norm udid_norm_def char_eval)
  have "show_nat 5 = ''5''" "show_nat 10275 = ''10275''" by (simp_all add: show_nat.simps char_eval)
  moreover have "UsbMuxPortNumber 9000 = 10275" by (simp add: UsbMuxPortNumber_def push_bit_eq_mult)
  ultimately have fields: "connect_fields ?d 9000 =
      ''<key>DeviceID</key><integer>5</integer><key>PortNumber</key><integer>10275</integer>''"
    by (simp add: connect_fields_def show_u32_def)
  obtain s' where "Request ?s (XmlRequest ''Connect'' (connect_fields ?d 9000)) 2 = (Some sample_result, s')"
    using reply [of "XmlRequest ''Connect'' (connect_fields ?d 9000)" sample_result 2]
    unfolding fields by (cases "Request ?s (XmlRequest ''Connect'' (connect_fields ?d 9000)) 2") (auto simp: XmlRequest_def sample_result_def fields)
  then have c: "ConnectUsbMuxTarget ?l (Some ?s) ''usb:a'' 9000 = Inr s'"
    using eq by (simp add: ConnectUsbMuxTarget_def IsUsbMuxTarget_def list sample_evaluates)
  from tunnel_reaches_the_device [OF c] obtain d where
    "{e \<in> set (ListUsbMuxDevices ?l). EqualsUdid (udid e) (drop 4 ''usb:a'')} = {d}"
    "outbox s' = outbox ?s @ request_bytes (XmlRequest ''Connect'' (connect_fields d 9000)) 2" by blast
  moreover from this(1) have "d = ?d" using list by auto
  ultimately show ?thesis using c by (intro exI [of _ s']) (simp add: sample_socket_def)
qed

end
