(* ===== verification/Connection.thy ===== *)
theory Connection
  imports UsbMux
begin

text \<open>
  The framed connection (\<^verbatim>\<open>src/src/net/Connection.h\<close>,
  \<^verbatim>\<open>src/src/net/Connection.cpp\<close>): connecting, reading and writing
  length-prefixed frames, and poisoning the stream after a failed write.  Times are milliseconds.
\<close>

record Connection =
  handle_valid :: bool
  stream :: Socket

definition INT_MAX :: nat where "INT_MAX = 2147483647"
definition DWORD_MAX :: int where "DWORD_MAX = 4294967295"

definition IsValid :: "Connection \<Rightarrow> bool" where
  "IsValid c \<longleftrightarrow> handle_valid c"

definition Interrupt :: "Connection \<Rightarrow> Connection" where
  "Interrupt c = (if handle_valid c then c\<lparr>stream := shutdown (stream c)\<rparr> else c)"

definition Close :: "Connection \<Rightarrow> Connection" where
  "Close c = (if handle_valid c then c\<lparr>handle_valid := False, stream := shutdown (stream c)\<rparr> else c)"

subsection \<open>Exact reads and writes\<close>

text \<open>The loop of \<^verbatim>\<open>ReadExact\<close> with \<open>n\<close> bytes still to read; the handle stays valid
  during it because only the owner closes it.\<close>

function ReadExact :: "nat \<Rightarrow> Socket \<Rightarrow> bool \<times> bytes \<times> Socket" where
  "ReadExact n s =
     (if n = 0 then (True, [], s)
      else (case recv n s of
              (got, s1) \<Rightarrow>
                if got = [] then (False, [], s1)
                else (case ReadExact (n - length got) s1 of (ok, rest, s2) \<Rightarrow> (ok, got @ rest, s2))))"
  by pat_completeness auto
termination
  by (relation "measure (\<lambda>(n, s). n)") (auto dest: recv_split)

declare ReadExact.simps [simp del]

text \<open>The loop of \<^verbatim>\<open>WriteExactUntil\<close> on the bytes still to write.\<close>

function WriteExactUntil :: "int \<Rightarrow> bytes \<Rightarrow> Socket \<Rightarrow> bool \<times> Socket" where
  "WriteExactUntil deadline data s =
     (if data = [] then (True, s)
      else (let (now, s1) = clock_now s in
            if deadline \<le> now then (False, s1)
            else (let timeout = max 1 (min (deadline - now) DWORD_MAX); (set, s2) = set_option s1 in
                  if \<not> set then (False, s2)
                  else (case send (take (min (length data) INT_MAX) data) s2 of
                          (n, s3) \<Rightarrow>
                            if n \<le> 0 then (False, s3)
                            else WriteExactUntil deadline (drop (nat n) data) s3))))"
  by pat_completeness auto
termination
  by (relation "measure (\<lambda>(d, data, s). length data)") (auto dest: send_outbox)

declare WriteExactUntil.simps [simp del]

subsection \<open>Frames\<close>

definition kMaxInboundFrame :: nat where "kMaxInboundFrame = 2 ^ 20"

definition ReadFrame :: "Connection \<Rightarrow> bytes option \<times> Connection" where
  "ReadFrame c =
     (if \<not> IsValid c then (None, c)
      else (case ReadExact 4 (stream c) of
              (ok1, h, s1) \<Rightarrow>
                if \<not> ok1 then (None, c\<lparr>stream := s1\<rparr>)
                else (let len = unat (be32 (h ! 0) (h ! 1) (h ! 2) (h ! 3)) in
                      if kMaxInboundFrame < len then (None, c\<lparr>stream := s1\<rparr>)
                      else if len = 0 then (Some [], c\<lparr>stream := s1\<rparr>)
                      else (case ReadExact len s1 of
                              (ok2, payload, s2) \<Rightarrow>
                                if \<not> ok2 then (None, c\<lparr>stream := s2\<rparr>)
                                else (Some payload, c\<lparr>stream := s2\<rparr>)))))"

definition SendFrame :: "int \<Rightarrow> bytes \<Rightarrow> Connection \<Rightarrow> bool \<times> Connection" where
  "SendFrame timeoutMs data c =
     (if \<not> IsValid c then (False, c)
      else if timeoutMs \<le> 0 then (False, c)
      else
        (let (now, s0) = clock_now (stream c);
             deadline = now + timeoutMs;
             header = put32 (of_nat (length data)) in
         case WriteExactUntil deadline header s0 of
           (ok1, s1) \<Rightarrow>
             if \<not> ok1 then (False, Interrupt (c\<lparr>stream := s1\<rparr>))
             else if data = [] then (True, c\<lparr>stream := s1\<rparr>)
             else (case WriteExactUntil deadline data s1 of
                     (ok2, s2) \<Rightarrow>
                       if \<not> ok2 then (False, Interrupt (c\<lparr>stream := s2\<rparr>))
                       else (True, c\<lparr>stream := s2\<rparr>))))"

subsection \<open>Connecting\<close>

text \<open>What the system answers to one attempt: the result of \<^verbatim>\<open>connect\<close>, whether it would
  block, whether the poll reports the socket writable, and the error left on it.\<close>

record ConnectAnswer =
  socket_created :: bool
  connected_at_once :: bool
  would_block :: bool
  poll_writable :: bool
  so_error_clear :: bool

definition ConnectWithTimeout :: "ConnectAnswer \<Rightarrow> bool" where
  "ConnectWithTimeout a =
     (if connected_at_once a then True
      else if would_block a then poll_writable a \<and> so_error_clear a
      else False)"

text \<open>The loop over the resolved addresses: the index of the one that is connected.\<close>

fun connect_first :: "nat \<Rightarrow> ConnectAnswer list \<Rightarrow> nat option" where
  "connect_first i [] = None"
| "connect_first i (a # as) =
     (if \<not> socket_created a then connect_first (i + 1) as
      else if ConnectWithTimeout a then Some i
      else connect_first (i + 1) as)"

text \<open>\<open>resolved\<close> is the answer of \<^verbatim>\<open>getaddrinfo\<close> with what happens at each address, and
  \<open>sockets\<close> the socket at each.\<close>

definition Connect ::
    "Socket option \<Rightarrow> Socket option \<Rightarrow> ConnectAnswer list option \<Rightarrow> (nat \<Rightarrow> Socket) \<Rightarrow> string \<Rightarrow> u16 \<Rightarrow> Connection option" where
  "Connect list_service connect_service resolved sockets ip port =
     (if IsUsbMuxTarget ip then
        (case ConnectUsbMuxTarget list_service connect_service ip port of
           Inl e \<Rightarrow> None
         | Inr s \<Rightarrow> Some \<lparr>handle_valid = True, stream = snd (set_option s)\<rparr>)
      else (case resolved of
              None \<Rightarrow> None
            | Some answers \<Rightarrow>
                (case connect_first 0 answers of
                   None \<Rightarrow> None
                 | Some i \<Rightarrow> Some \<lparr>handle_valid = True, stream = snd (set_option (sockets i))\<rparr>)))"

definition WaitWritable :: "bool \<Rightarrow> Connection \<Rightarrow> bool" where
  "WaitWritable writable c = (if \<not> handle_valid c then False else writable)"

subsection \<open>The loops meet their contracts\<close>

interpretation reader: recv_loop ReadExact "\<lambda>n. n"
  by unfold_locales (simp_all add: ReadExact.simps)

lemma ReadExact_0 [simp]: "ReadExact 0 s = (True, [], s)"
  by (rule reader.loop_0)

lemma WriteExactUntil_Nil [simp]: "WriteExactUntil d [] s = (True, s)"
  by (subst WriteExactUntil.simps) simp

lemma WriteExactUntil_contract:
  "WriteExactUntil d data s = (ok, s') \<Longrightarrow>
     (\<exists>k \<le> length data. outbox s' = outbox s @ take k data \<and> (ok \<longleftrightarrow> k = length data)) \<and> shut s' = shut s \<and>
     (shut s \<longrightarrow> outbox s' = outbox s)"
proof (induction "length data" arbitrary: data s rule: less_induct)
  case less
  define s1 where "s1 = snd (clock_now s)"
  define s2 where "s2 = snd (set_option s1)"
  have same: "outbox s2 = outbox s" "shut s2 = shut s" "outbox s1 = outbox s" "shut s1 = shut s"
    by (simp_all add: s1_def s2_def)
  obtain n s3 where snd: "send (take (min (length data) INT_MAX) data) s2 = (n, s3)"
    by (cases "send (take (min (length data) INT_MAX) data) s2")
  have n: "nat n \<le> length data" "outbox s3 = outbox s @ take (nat n) data" "shut s3 = shut s" "shut s \<longrightarrow> n = 0"
    using send_outbox [OF snd] same by (auto simp: min_def split: if_splits)
  consider "data = []" "ok" "s' = s" | "data \<noteq> []" "\<not> ok" "s' = s1 \<or> s' = s2 \<or> (s' = s3 \<and> n \<le> 0)"
    | "data \<noteq> []" "0 < n" "WriteExactUntil d (drop (nat n) data) s3 = (ok, s')"
    using less.prems snd
    by (subst (asm) WriteExactUntil.simps) (auto simp: Let_def s1_def s2_def split_beta split: if_splits)
  then show ?case
  proof cases
    case 1
    then show ?thesis by simp
  next
    case 2
    then have "outbox s' = outbox s" "shut s' = shut s" using same n by auto
    with 2 show ?thesis by (intro conjI exI [of _ 0]) auto
  next
    case 3
    then have "length (drop (nat n) data) < length data" using n(1) by (cases data) auto
    from less.hyps [OF this 3(3)] obtain k where
      k: "k \<le> length data - nat n" "outbox s' = outbox s3 @ take k (drop (nat n) data)"
        "ok \<longleftrightarrow> k = length data - nat n" "shut s' = shut s3"
      by auto
    have "outbox s' = outbox s @ take (nat n + k) data"
      using k(2) n(2) by (simp add: take_add)
    moreover have "ok \<longleftrightarrow> nat n + k = length data" using k(1,3) n(1) by auto
    moreover have "shut s \<longrightarrow> False" using 3(2) n(4) by auto
    ultimately show ?thesis using k(1,4) n(1,3) by (intro conjI exI [of _ "nat n + k"]) auto
  qed
qed

interpretation writer: exact_sender "WriteExactUntil d" for d
  by unfold_locales (use WriteExactUntil_contract in blast)+

subsection \<open>Frames on the wire\<close>

definition frame :: "bytes \<Rightarrow> bytes" where
  "frame p = put32 (of_nat (length p)) @ p"

definition ready :: "Connection \<Rightarrow> bool" where
  "ready c \<longleftrightarrow> handle_valid c \<and> receiving (stream c)"

fun read_frames :: "nat \<Rightarrow> Connection \<Rightarrow> bytes option list \<times> Connection" where
  "read_frames 0 c = ([], c)"
| "read_frames (Suc n) c = (let (p, c1) = ReadFrame c; (ps, c2) = read_frames n c1 in (p # ps, c2))"

fun send_frames :: "int \<Rightarrow> bytes list \<Rightarrow> Connection \<Rightarrow> bool list \<times> Connection" where
  "send_frames t [] c = ([], c)"
| "send_frames t (p # ps) c = (let (ok, c1) = SendFrame t p c; (oks, c2) = send_frames t ps c1 in (ok # oks, c2))"

lemma put32_length: "n < 2 ^ 32 \<Longrightarrow> unat (be32 (put32 (of_nat n) ! 0) (put32 (of_nat n) ! 1)
    (put32 (of_nat n) ! 2) (put32 (of_nat n) ! 3)) = n"
  unfolding be32_put32 by (simp add: unat_of_nat)

lemma ReadFrame_frame:
  assumes "ready c" and "inbox (stream c) = frame p @ rest" and "length p \<le> kMaxInboundFrame"
  shows "fst (ReadFrame c) = Some p \<and> ready (snd (ReadFrame c)) \<and> inbox (stream (snd (ReadFrame c))) = rest"
proof -
  let ?h = "put32 (of_nat (length p))"
  have v: "handle_valid c" "receiving (stream c)" using assms(1) by (simp_all add: ready_def)
  have len: "length ?h = 4" "length p < 2 ^ 32" using assms(3) by (simp_all add: kMaxInboundFrame_def)
  obtain ok1 h s1 where r1: "ReadExact (length ?h) (stream c) = (ok1, h, s1)" by (metis prod_cases3)
  obtain ok2 b s2 where r2: "ReadExact (length p) s1 = (ok2, b, s2)" by (metis prod_cases3)
  have "inbox (stream c) = ?h @ p @ rest" using assms(2) by (simp add: frame_def)
  note two = reader.receive_two [OF v(2) this r1 r2]
  have r1': "ReadExact 4 (stream c) = (True, ?h, s1)" and r2': "ReadExact (length p) s1 = (True, p, s2)"
    using r1 r2 two len(1) by simp_all
  show ?thesis
  proof (cases "p = []")
    case True
    then have "s2 = s1" using r2' by simp
    with True two v r1' put32_length [OF len(2)] show ?thesis
      by (simp add: ReadFrame_def IsValid_def ready_def Let_def del: be32_put32)
  next
    case False
    with two v r1' r2' put32_length [OF len(2)] assms(3) show ?thesis
      by (simp add: ReadFrame_def IsValid_def ready_def Let_def del: be32_put32)
  qed
qed

lemma read_frames_all:
  "ready c \<Longrightarrow> inbox (stream c) = concat (map frame ps) @ rest \<Longrightarrow> list_all (\<lambda>p. length p \<le> kMaxInboundFrame) ps \<Longrightarrow>
   fst (read_frames (length ps) c) = map Some ps \<and> inbox (stream (snd (read_frames (length ps) c))) = rest"
proof (induction ps arbitrary: c)
  case (Cons p ps)
  from ReadFrame_frame [of c p "concat (map frame ps) @ rest"] Cons.prems
  have "fst (ReadFrame c) = Some p" "ready (snd (ReadFrame c))" "inbox (stream (snd (ReadFrame c))) = concat (map frame ps) @ rest"
    by simp_all
  with Cons.IH [of "snd (ReadFrame c)"] Cons.prems show ?case by (simp add: split_beta Let_def)
qed simp

lemma SendFrame_cases:
  assumes "SendFrame t p c = (ok, c')" and "handle_valid c" and "0 < t"
  shows "handle_valid c' \<and> (\<exists>k \<le> length (frame p). outbox (stream c') = outbox (stream c) @ take k (frame p) \<and>
      (ok \<longleftrightarrow> k = length (frame p)) \<and> (shut (stream c) \<longrightarrow> k = 0)) \<and>
     (shut (stream c') \<longleftrightarrow> shut (stream c) \<or> \<not> ok)"
proof -
  define s0 where "s0 = snd (clock_now (stream c))"
  define d where "d = fst (clock_now (stream c)) + t"
  define h where "h = put32 (of_nat (length p))"
  have s0: "outbox s0 = outbox (stream c)" "shut s0 = shut (stream c)" by (simp_all add: s0_def)
  have fr: "frame p = h @ p" "length h = 4" "h \<noteq> []" by (auto simp: frame_def h_def put32_def)
  obtain ok1 s1 where w1: "WriteExactUntil d h s0 = (ok1, s1)" by (cases "WriteExactUntil d h s0")
  show ?thesis
  proof (cases ok1)
    case False
    then have r: "ok = False" "c' = Interrupt (c\<lparr>stream := s1\<rparr>)"
      using assms w1 by (auto simp: SendFrame_def IsValid_def Let_def split_beta s0_def d_def h_def)
    obtain k where k: "k < length h" "outbox s1 = outbox s0 @ take k h" "shut s1 = shut s0"
      using writer.transmit_failed [of d h s0 s1] w1 False by auto
    have "shut (stream c) \<longrightarrow> outbox s1 = outbox s0" using writer.transmit_shut [OF _ w1] s0 by auto
    then have "shut (stream c) \<longrightarrow> k = 0" using k fr(3) by auto
    with k r fr s0 assms(2) show ?thesis by (intro conjI exI [of _ k]) (auto simp: Interrupt_def)
  next
    case True
    obtain ok2 s2 where w2: "WriteExactUntil d p s1 = (ok2, s2)" by (cases "WriteExactUntil d p s1")
    have r: "ok = ok2" "c' = (if ok2 then c\<lparr>stream := s2\<rparr> else Interrupt (c\<lparr>stream := s2\<rparr>))"
      using assms w1 w2 True by (auto simp: SendFrame_def IsValid_def Let_def split_beta s0_def d_def h_def split: if_splits)
    obtain k where k: "k \<le> length p" "outbox s2 = outbox s0 @ h @ take k p" "ok2 \<longleftrightarrow> k = length p" "shut s2 = shut s0"
      using writer.transmit_two [of d h s0 s1 p ok2 s2] w1 w2 True by auto
    have ns: "\<not> shut (stream c)"
    proof
      assume "shut (stream c)"
      then have "outbox s1 = outbox s0" using writer.transmit_shut [OF _ w1] s0 by simp
      with writer.transmit_ok [of d h s0 s1] w1 True fr(3) show False by simp
    qed
    have "outbox s2 = outbox s0 @ take (length h + k) (frame p)" using k(2) fr by simp
    with k r fr s0 assms(2) ns show ?thesis
      by (intro conjI exI [of _ "length h + k"]) (auto simp: Interrupt_def)
  qed
qed

lemma send_frames_shut:
  "handle_valid c \<Longrightarrow> 0 < t \<Longrightarrow> shut (stream c) \<Longrightarrow>
   fst (send_frames t ps c) = replicate (length ps) False \<and> outbox (stream (snd (send_frames t ps c))) = outbox (stream c)"
proof (induction ps arbitrary: c)
  case (Cons p ps)
  obtain ok c1 where s: "SendFrame t p c = (ok, c1)" by (cases "SendFrame t p c")
  from SendFrame_cases [OF s Cons.prems(1,2)] Cons.prems(3)
  have "handle_valid c1" "shut (stream c1)" "\<not> ok" "outbox (stream c1) = outbox (stream c)"
    by (auto simp: frame_def put32_def)
  with Cons.IH [of c1] Cons.prems s show ?case by (simp add: split_beta Let_def)
qed simp

lemma send_frames_wire:
  "handle_valid c \<Longrightarrow> 0 < t \<Longrightarrow>
   \<exists>k part. k \<le> length ps \<and> fst (send_frames t ps c) = replicate k True @ replicate (length ps - k) False \<and>
     outbox (stream (snd (send_frames t ps c))) = outbox (stream c) @ concat (map frame (take k ps)) @ part \<and>
     (if k < length ps then length part < length (frame (ps ! k)) \<and> part = take (length part) (frame (ps ! k)) else part = [])"
proof (induction ps arbitrary: c)
  case (Cons p ps)
  obtain ok c1 where s: "SendFrame t p c = (ok, c1)" by (cases "SendFrame t p c")
  from SendFrame_cases [OF s Cons.prems] obtain m where
    m: "handle_valid c1" "m \<le> length (frame p)" "outbox (stream c1) = outbox (stream c) @ take m (frame p)"
      "ok \<longleftrightarrow> m = length (frame p)" "shut (stream c1) \<longleftrightarrow> shut (stream c) \<or> \<not> ok"
    by blast
  show ?case
  proof (cases ok)
    case True
    from Cons.IH [OF m(1) Cons.prems(2)] obtain k part where
      "k \<le> length ps" "fst (send_frames t ps c1) = replicate k True @ replicate (length ps - k) False"
      "outbox (stream (snd (send_frames t ps c1))) = outbox (stream c1) @ concat (map frame (take k ps)) @ part"
      "if k < length ps then length part < length (frame (ps ! k)) \<and> part = take (length part) (frame (ps ! k)) else part = []"
      by blast
    with True m s show ?thesis
      by (intro exI [of _ "Suc k"] exI [of _ part]) (simp add: split_beta Let_def)
  next
    case False
    with send_frames_shut [OF m(1) Cons.prems(2), of ps] m s show ?thesis
      by (intro exI [of _ 0] exI [of _ "take m (frame p)"]) (auto simp: split_beta Let_def le_less)
  qed
qed simp

lemma ReadExact_short: "length (inbox s) < n \<Longrightarrow> \<not> fst (ReadExact n s)"
  using reader.receive_ok [of n s] by (cases "ReadExact n s") fastforce

lemma ReadFrame_partial:
  assumes "ready c" and "inbox (stream c) = take m (frame p)" and "m < length (frame p)" and "length p \<le> kMaxInboundFrame"
  shows "fst (ReadFrame c) = None"
proof -
  let ?h = "put32 (of_nat (length p))"
  have v: "handle_valid c" "receiving (stream c)" using assms(1) by (simp_all add: ready_def)
  have len: "length p < 2 ^ 32" using assms(4) by (simp add: kMaxInboundFrame_def)
  show ?thesis
  proof (cases "m < 4")
    case True
    then have "\<not> fst (ReadExact 4 (stream c))"
      using assms(2) by (intro ReadExact_short) simp
    with v show ?thesis by (simp add: ReadFrame_def IsValid_def split_beta)
  next
    case False
    obtain ok h s1 where r: "ReadExact 4 (stream c) = (ok, h, s1)" by (metis prod_cases3)
    have "inbox (stream c) = ?h @ take (m - 4) p"
      using assms(2) False by (simp add: frame_def)
    with reader.receive_enough [OF v(2) _ r] have 1: "ok" "h = ?h" "inbox s1 = take (m - 4) p" by auto
    moreover have "m - 4 < length p" using assms(3) False by (simp add: frame_def)
    then have "\<not> fst (ReadExact (length p) s1)" "p \<noteq> []"
      using 1 by (auto intro!: ReadExact_short)
    ultimately show ?thesis
      using v r put32_length [OF len] by (simp add: ReadFrame_def IsValid_def Let_def split_beta del: be32_put32)
  qed
qed

lemma read_frames_snoc:
  "fst (read_frames (Suc n) c) = fst (read_frames n c) @ [fst (ReadFrame (snd (read_frames n c)))]"
proof (induction n arbitrary: c)
  case (Suc n)
  have "fst (read_frames (Suc (Suc n)) c) = fst (ReadFrame c) # fst (read_frames (Suc n) (snd (ReadFrame c)))"
    by (subst read_frames.simps) (simp add: split_beta Let_def)
  then show ?case using Suc.IH [of "snd (ReadFrame c)"] by (simp add: split_beta Let_def)
qed (simp add: split_beta Let_def)

lemma ready_read_frames:
  "ready c \<Longrightarrow> inbox (stream c) = concat (map frame ps) @ rest \<Longrightarrow> list_all (\<lambda>p. length p \<le> kMaxInboundFrame) ps \<Longrightarrow>
   ready (snd (read_frames (length ps) c))"
proof (induction ps arbitrary: c)
  case (Cons p ps)
  from ReadFrame_frame [of c p "concat (map frame ps) @ rest"] Cons.prems
  have "ready (snd (ReadFrame c))" "inbox (stream (snd (ReadFrame c))) = concat (map frame ps) @ rest"
    by simp_all
  with Cons.IH [of "snd (ReadFrame c)"] Cons.prems show ?case by (simp add: split_beta Let_def)
qed simp

subsection \<open>Properties\<close>


definition sample_stream :: "bytes \<Rightarrow> Connection" where
  "sample_stream bs = \<lparr>handle_valid = True, stream = \<lparr>inbox = bs, outbox = [], recv_answer = (\<lambda>k. 1), recv_calls = 0,
     send_answer = (\<lambda>k. if k < 8 then 1 else 0), send_calls = 0, clock_answer = (\<lambda>k. 0), clock_calls = 0,
     option_answer = (\<lambda>k. True), option_calls = 0, shut = False\<rparr>\<rparr>"


end
