(* ===== verification/Mdns.thy ===== *)
theory Mdns
  imports Prelude "HOL-Library.Monad_Syntax"
begin

text \<open>
  Bonjour discovery (\<^verbatim>\<open>src/src/net/Mdns.h\<close>, \<^verbatim>\<open>src/src/net/Mdns.cpp\<close>):
  the query, the parser of responses, the packets of the self-check and the discovery cache.
  A read of the packet buffer goes through \<open>byte_at\<close> and \<open>bytes_at\<close>, which are \<open>None\<close> outside it, so that
  the outer \<open>option\<close> of a parser function is \<open>None\<close> exactly when the code would read past the buffer;
  a malformed packet is a result.  Times are milliseconds; \<open>0\<close> is the empty
  \<^verbatim>\<open>time_point\<close>.  The text of an IPv6 address (\<^verbatim>\<open>inet_ntop\<close>) is an argument.
\<close>

record DiscoveryRecord =
  rec_id :: string
  rec_name :: string
  address :: string
  addresses :: "string list"
  rec_instance :: string
  rec_host :: string
  rec_port :: u16
  source :: string
  ttlSeconds :: u32
  rec_lastSeen :: int
  expiresAt :: int
  online :: bool
  goodbye :: bool

definition DiscoveryRecord_default :: DiscoveryRecord where
  "DiscoveryRecord_default = \<lparr>rec_id = [], rec_name = [], address = [], addresses = [], rec_instance = [],
     rec_host = [], rec_port = 0, source = ''mdns'', ttlSeconds = 120, rec_lastSeen = 0, expiresAt = 0,
     online = True, goodbye = False\<rparr>"

definition kService :: string where "kService = ''_opensidecar._tcp.local''"
definition kTypeA :: u16 where "kTypeA = 1"
definition kTypePtr :: u16 where "kTypePtr = 12"
definition kTypeTxt :: u16 where "kTypeTxt = 16"
definition kTypeAaaa :: u16 where "kTypeAaaa = 28"
definition kTypeSrv :: u16 where "kTypeSrv = 33"

subsection \<open>Writing packets\<close>

definition PutUint16 :: "bytes \<Rightarrow> u16 \<Rightarrow> bytes" where
  "PutUint16 out v = out @ put16 v"

text \<open>The loop over the labels of a dotted name, from \<open>start\<close>.\<close>

function append_labels :: "string \<Rightarrow> nat \<Rightarrow> bytes" where
  "append_labels name start =
     (if start \<le> length name then
        (let dot = value_or (str_find name ''.'' start) (length name)
         in of_nat (dot - start) # bytes_of (slice name start dot) @ append_labels name (dot + 1))
      else [])"
  by pat_completeness auto
termination
proof (relation "measure (\<lambda>(name, start). Suc (length name) - start)", goal_cases)
  case (2 name start dot)
  then have "start \<le> dot"
    by (cases "str_find name ''.'' start") (auto dest: str_find_Some)
  with 2 show ?case by auto
qed simp

declare append_labels.simps [simp del]

definition AppendName :: "bytes \<Rightarrow> string \<Rightarrow> bytes" where
  "AppendName out name = out @ append_labels name 0 @ [0]"

definition BuildQuery :: bytes where
  "BuildQuery =
     (let packet = PutUint16 (PutUint16 (PutUint16 (PutUint16 (PutUint16 (PutUint16 [] 0) 0) 1) 0) 0) 0;
          named = AppendName packet kService
      in PutUint16 (PutUint16 named kTypePtr) 0x8001)"

definition AppendRecord :: "bytes \<Rightarrow> string \<Rightarrow> u16 \<Rightarrow> bytes \<Rightarrow> u32 \<Rightarrow> bytes" where
  "AppendRecord out name type payload ttl =
     PutUint16 (PutUint16 (PutUint16 (PutUint16 (PutUint16 (AppendName out name) type) 1)
       (ucast (drop_bit 16 ttl))) (ucast (and ttl 0xFFFF))) (of_nat (length payload)) @ payload"

definition ResponseHeader :: "u16 \<Rightarrow> bytes" where
  "ResponseHeader answers =
     PutUint16 (PutUint16 (PutUint16 (PutUint16 (PutUint16 (PutUint16 [] 0) 0x8400) 0) answers) 0) 0"

subsection \<open>Checked reads\<close>

definition byte_at :: "bytes \<Rightarrow> nat \<Rightarrow> byte option" where
  "byte_at data i = (if i < length data then Some (data ! i) else None)"

definition bytes_at :: "bytes \<Rightarrow> nat \<Rightarrow> nat \<Rightarrow> bytes option" where
  "bytes_at data i n = (if i + n \<le> length data then Some (slice data i (i + n)) else None)"

definition readUint16 :: "bytes \<Rightarrow> nat \<Rightarrow> u16 option" where
  "readUint16 data at = do { a \<leftarrow> byte_at data at; b \<leftarrow> byte_at data (at + 1); Some (be16 a b) }"

definition readUint32 :: "bytes \<Rightarrow> nat \<Rightarrow> u32 option" where
  "readUint32 data at =
     do { a \<leftarrow> byte_at data at; b \<leftarrow> byte_at data (at + 1);
          c \<leftarrow> byte_at data (at + 2); d \<leftarrow> byte_at data (at + 3); Some (be32 a b c d) }"

subsection \<open>Names\<close>

text \<open>The loop of \<^verbatim>\<open>ReadName\<close>.  The inner \<open>None\<close> is a malformed name, otherwise the
  position behind the name and its text.\<close>

function read_name :: "bytes \<Rightarrow> nat \<Rightarrow> nat \<Rightarrow> nat \<Rightarrow> string \<Rightarrow> (nat \<times> string) option option" where
  "read_name data cursor after hops out =
     (if length data \<le> cursor then Some None
      else (case byte_at data cursor of
              None \<Rightarrow> None
            | Some len \<Rightarrow>
                (if len = 0 then Some (Some (if after \<noteq> 0 then after else cursor + 1, out))
                 else if and len 0xC0 = 0xC0 then
                   (if length data \<le> cursor + 1 \<or> 16 < hops + 1 then Some None
                    else (case byte_at data (cursor + 1) of
                            None \<Rightarrow> None
                          | Some low \<Rightarrow>
                              read_name data (unat (and len 0x3F) * 256 + unat low)
                                (if after = 0 then cursor + 2 else after) (hops + 1) out))
                 else if length data < cursor + 1 + unat len then Some None
                 else (case bytes_at data (cursor + 1) (unat len) of
                         None \<Rightarrow> None
                       | Some label \<Rightarrow>
                           read_name data (cursor + 1 + unat len) after hops
                             ((if out = [] then out else out @ ''.'') @ text_of label)))))"
  by pat_completeness auto
termination
  by (relation "measures [\<lambda>(data, cursor, after, hops, out). 17 - hops,
        \<lambda>(data, cursor, after, hops, out). length data - cursor]") auto

declare read_name.simps [simp del]

definition ReadName :: "bytes \<Rightarrow> nat \<Rightarrow> (nat \<times> string) option option" where
  "ReadName data pos = read_name data pos 0 0 []"

subsection \<open>Records\<close>

record HostAddress =
  host_addresses :: "string list"
  host_ttl :: u32

record ParseState =
  found :: "DiscoveryRecord smap"
  addressByHost :: "HostAddress smap"

text \<open>\<^verbatim>\<open>map[key]\<close>: the entry, made with the default when it is absent.\<close>

definition smap_at :: "'v \<Rightarrow> string \<Rightarrow> 'v smap \<Rightarrow> 'v" where
  "smap_at d k m = value_or (map_of m k) d"

definition first_label :: "string \<Rightarrow> string" where
  "first_label name = takeWhile (\<lambda>c. c \<noteq> CHR ''.'') name"

definition inet_ntop4 :: "bytes \<Rightarrow> string" where
  "inet_ntop4 b = show_nat (unat (b ! 0)) @ ''.'' @ show_nat (unat (b ! 1)) @ ''.''
     @ show_nat (unat (b ! 2)) @ ''.'' @ show_nat (unat (b ! 3))"

definition parse_ptr :: "bytes \<Rightarrow> nat \<Rightarrow> u32 \<Rightarrow> ParseState \<Rightarrow> ParseState option" where
  "parse_ptr data start ttl st =
     do { r \<leftarrow> ReadName data start;
          Some (case r of
            None \<Rightarrow> st
          | Some (_, inst) \<Rightarrow>
              st\<lparr>found := smap_put inst
                 ((smap_at DiscoveryRecord_default inst (found st))
                    \<lparr>rec_instance := first_label inst, rec_name := first_label inst,
                     ttlSeconds := ttl, goodbye := (ttl = 0)\<rparr>) (found st)\<rparr>) }"

text \<open>What SRV and TXT records do first to the receiver of their name.\<close>

definition touch_receiver :: "string \<Rightarrow> u32 \<Rightarrow> ParseState \<Rightarrow> DiscoveryRecord" where
  "touch_receiver name ttl st =
     (let r = smap_at DiscoveryRecord_default name (found st) in
      r\<lparr>rec_instance := first_label name, rec_name := first_label name,
        ttlSeconds := min (ttlSeconds r) ttl, goodbye := (goodbye r \<or> ttl = 0)\<rparr>)"

definition parse_srv :: "bytes \<Rightarrow> string \<Rightarrow> nat \<Rightarrow> nat \<Rightarrow> u32 \<Rightarrow> ParseState \<Rightarrow> ParseState option" where
  "parse_srv data name start dataLength ttl st =
     (if dataLength < 7 then Some st
      else do { p \<leftarrow> readUint16 data (start + 4);
                r \<leftarrow> ReadName data (start + 6);
                (let receiver = (touch_receiver name ttl st)\<lparr>rec_port := p\<rparr>;
                     named = (case r of None \<Rightarrow> receiver | Some (_, host) \<Rightarrow> receiver\<lparr>rec_host := host\<rparr>)
                 in Some (st\<lparr>found := smap_put name named (found st)\<rparr>)) })"

text \<open>The strings of a TXT record from \<open>cursor\<close> to \<open>stop\<close>; the last \<^verbatim>\<open>id=\<close> wins.\<close>

function txt_loop :: "bytes \<Rightarrow> nat \<Rightarrow> nat \<Rightarrow> string \<Rightarrow> string option" where
  "txt_loop data cursor stop ident =
     (if cursor < stop then
        (case byte_at data cursor of
           None \<Rightarrow> None
         | Some len \<Rightarrow>
             (if stop < cursor + 1 + unat len then Some ident
              else (case bytes_at data (cursor + 1) (unat len) of
                      None \<Rightarrow> None
                    | Some entry \<Rightarrow>
                        txt_loop data (cursor + 1 + unat len) stop
                          (if starts_with ''id='' (text_of entry) then drop 3 (text_of entry) else ident))))
      else Some ident)"
  by pat_completeness auto
termination
  by (relation "measure (\<lambda>(data, cursor, stop, ident). stop - cursor)") auto

declare txt_loop.simps [simp del]

definition parse_txt :: "bytes \<Rightarrow> string \<Rightarrow> nat \<Rightarrow> nat \<Rightarrow> u32 \<Rightarrow> ParseState \<Rightarrow> ParseState option" where
  "parse_txt data name start dataLength ttl st =
     (let receiver = touch_receiver name ttl st in
      do { ident \<leftarrow> txt_loop data start (start + dataLength) (rec_id receiver);
           Some (st\<lparr>found := smap_put name (receiver\<lparr>rec_id := ident\<rparr>) (found st)\<rparr>) })"

definition HostAddress_default :: HostAddress where
  "HostAddress_default = \<lparr>host_addresses = [], host_ttl = 120\<rparr>"

definition add_address :: "string \<Rightarrow> u32 \<Rightarrow> string \<Rightarrow> ParseState \<Rightarrow> ParseState" where
  "add_address name ttl text st =
     (let h = smap_at HostAddress_default name (addressByHost st) in
      st\<lparr>addressByHost := smap_put name
         \<lparr>host_addresses = host_addresses h @ [text], host_ttl = min (host_ttl h) ttl\<rparr> (addressByHost st)\<rparr>)"

definition parse_address ::
    "(bytes \<Rightarrow> string) \<Rightarrow> nat \<Rightarrow> bytes \<Rightarrow> string \<Rightarrow> nat \<Rightarrow> nat \<Rightarrow> u32 \<Rightarrow> ParseState \<Rightarrow> ParseState option" where
  "parse_address ntop expected data name start dataLength ttl st =
     (if dataLength \<noteq> expected then Some st
      else do { addr \<leftarrow> bytes_at data start expected; Some (add_address name ttl (ntop addr) st) })"

definition parse_record ::
    "(bytes \<Rightarrow> string) \<Rightarrow> bytes \<Rightarrow> string \<Rightarrow> u16 \<Rightarrow> nat \<Rightarrow> nat \<Rightarrow> u32 \<Rightarrow> ParseState \<Rightarrow> ParseState option" where
  "parse_record ntop6 data name type start dataLength ttl st =
     (if type = kTypePtr then parse_ptr data start ttl st
      else if type = kTypeSrv then parse_srv data name start dataLength ttl st
      else if type = kTypeTxt then parse_txt data name start dataLength ttl st
      else if type = kTypeA then parse_address inet_ntop4 4 data name start dataLength ttl st
      else if type = kTypeAaaa then parse_address ntop6 16 data name start dataLength ttl st
      else Some st)"

subsection \<open>A response\<close>

text \<open>The question loop: the position behind \<open>n\<close> questions, or the early return.\<close>

fun skip_questions :: "bytes \<Rightarrow> nat \<Rightarrow> nat \<Rightarrow> nat option option" where
  "skip_questions data 0 pos = Some (Some pos)"
| "skip_questions data (Suc n) pos =
     do { r \<leftarrow> ReadName data pos;
          (case r of
             None \<Rightarrow> Some None
           | Some (p, _) \<Rightarrow> if length data < p + 4 then Some None else skip_questions data n (p + 4)) }"

text \<open>The record loop; the flag is false when the function returned in it.\<close>

fun records_loop :: "(bytes \<Rightarrow> string) \<Rightarrow> bytes \<Rightarrow> nat \<Rightarrow> nat \<Rightarrow> ParseState \<Rightarrow> (bool \<times> ParseState) option" where
  "records_loop ntop6 data 0 pos st = Some (True, st)"
| "records_loop ntop6 data (Suc n) pos st =
     do { r \<leftarrow> ReadName data pos;
          (case r of
             None \<Rightarrow> Some (False, st)
           | Some (p, name) \<Rightarrow>
               (if length data < p + 10 then Some (False, st)
                else do { type \<leftarrow> readUint16 data p;
                          ttl \<leftarrow> readUint32 data (p + 4);
                          dataLength \<leftarrow> readUint16 data (p + 8);
                          (if length data < p + 10 + unat dataLength then Some (False, st)
                           else do { st' \<leftarrow> parse_record ntop6 data name type (p + 10) (unat dataLength) ttl st;
                                     records_loop ntop6 data n (p + 10 + unat dataLength) st' }) })) }"

text \<open>The matching of a receiver with the addresses of its host; taking the first of an empty
  list would be \<open>None\<close>.\<close>

definition resolve :: "HostAddress smap \<Rightarrow> DiscoveryRecord \<Rightarrow> DiscoveryRecord option" where
  "resolve hosts r =
     do { r' \<leftarrow> (case map_of hosts (rec_host r) of
                   None \<Rightarrow> Some r
                 | Some h \<Rightarrow>
                     do { chosen \<leftarrow> (case find (\<lambda>v. CHR '':'' \<notin> set v) (host_addresses h) of
                                     Some v \<Rightarrow> Some v
                                   | None \<Rightarrow> (case host_addresses h of [] \<Rightarrow> None | v # _ \<Rightarrow> Some v));
                          Some (r\<lparr>addresses := host_addresses h, address := chosen,
                                  ttlSeconds := min (ttlSeconds r) (host_ttl h),
                                  goodbye := (goodbye r \<or> host_ttl h = 0)\<rparr>) });
          Some (r'\<lparr>online := \<not> goodbye r'\<rparr>) }"

definition ParseResponse :: "(bytes \<Rightarrow> string) \<Rightarrow> bytes \<Rightarrow> DiscoveryRecord smap \<Rightarrow> DiscoveryRecord smap option" where
  "ParseResponse ntop6 data fnd =
     (if length data < 12 then Some fnd
      else do { questions \<leftarrow> readUint16 data 4;
                answers \<leftarrow> readUint16 data 6;
                authority \<leftarrow> readUint16 data 8;
                additional \<leftarrow> readUint16 data 10;
                q \<leftarrow> skip_questions data (unat questions) 12;
                (case q of
                   None \<Rightarrow> Some fnd
                 | Some pos \<Rightarrow>
                     do { (complete, st) \<leftarrow> records_loop ntop6 data (unat answers + unat authority + unat additional) pos
                            \<lparr>found = fnd, addressByHost = []\<rparr>;
                          (if complete
                           then those (map (\<lambda>(k, r). map_option (Pair k) (resolve (addressByHost st) r)) (found st))
                           else Some (found st)) }) })"

subsection \<open>The self-check\<close>

definition sample_instance :: string where "sample_instance = ''iPad._opensidecar._tcp.local''"
definition sample_host :: string where "sample_host = ''iPad-Pro.local''"
definition sample_id :: string where "sample_id = ''5C2B9E14-0000-4A00-B000-1234567890AB''"

definition GoodResponse :: bytes where
  "GoodResponse =
     (let packet = ResponseHeader 4;
          p1 = AppendRecord packet kService kTypePtr (AppendName [] sample_instance) 120;
          srv = AppendName (PutUint16 (PutUint16 (PutUint16 [] 0) 0) 9000) sample_host;
          p2 = AppendRecord p1 sample_instance kTypeSrv srv 120;
          ident = ''id='' @ sample_id;
          txt = of_nat (length ident) # bytes_of ident;
          p3 = AppendRecord p2 sample_instance kTypeTxt txt 120
      in AppendRecord p3 sample_host kTypeA [192, 0, 2, 42] 120)"

definition pointer_loop_packet :: bytes where
  "pointer_loop_packet =
     (let h = ResponseHeader 1; p = h @ [0xC0, of_nat (length h)]
      in PutUint16 (PutUint16 (PutUint16 (PutUint16 (PutUint16 p kTypeTxt) 1) 0) 120) 0)"

text \<open>\<open>None\<close> is a read outside a packet, as before.\<close>

definition SelfCheck :: "(bytes \<Rightarrow> string) \<Rightarrow> bool option" where
  "SelfCheck ntop6 =
     do { fnd \<leftarrow> ParseResponse ntop6 GoodResponse [];
          (if length fnd \<noteq> 1 then Some False
           else
             (let receiver = snd (hd fnd) in
              if rec_instance receiver \<noteq> ''iPad'' \<or> rec_host receiver \<noteq> ''iPad-Pro.local'' \<or> rec_port receiver \<noteq> 9000 \<or>
                 address receiver \<noteq> ''192.0.2.42'' \<or> rec_id receiver \<noteq> sample_id \<or>
                 ttlSeconds receiver \<noteq> 120 \<or> goodbye receiver
              then Some False
              else do {
                bye \<leftarrow> ParseResponse ntop6
                  (AppendRecord (ResponseHeader 1) kService kTypePtr (AppendName [] sample_instance) 0) [];
                (if bye = [] \<or> \<not> goodbye (snd (hd bye)) \<or> online (snd (hd bye)) then Some False
                 else do {
                   over \<leftarrow> ParseResponse ntop6
                     (AppendRecord (ResponseHeader 1) sample_instance kTypeTxt (200 # bytes_of ''id=x'') 120) [];
                   (if rec_id (smap_at DiscoveryRecord_default sample_instance over) \<noteq> [] then Some False
                    else do {
                      cuts \<leftarrow> those (map (\<lambda>cut. ParseResponse ntop6 (take cut GoodResponse) []) [1..<length GoodResponse]);
                      loop \<leftarrow> ParseResponse ntop6 pointer_loop_packet [];
                      lying \<leftarrow> ParseResponse ntop6
                        (AppendRecord (ResponseHeader 40) sample_instance kTypeA [10, 0, 0, 1] 120) [];
                      Some True }) }) })) }"

subsection \<open>The discovery cache\<close>

definition find_index :: "('a \<Rightarrow> bool) \<Rightarrow> 'a list \<Rightarrow> nat option" where
  "find_index P xs = find (\<lambda>i. P (xs ! i)) [0..<length xs]"

definition matches :: "DiscoveryRecord \<Rightarrow> DiscoveryRecord \<Rightarrow> bool" where
  "matches incoming existing \<longleftrightarrow>
     (rec_id incoming \<noteq> [] \<and> rec_id existing = rec_id incoming) \<or>
     (rec_id incoming = [] \<and> rec_instance incoming \<noteq> [] \<and> rec_instance existing = rec_instance incoming)"

text \<open>The older addresses, appended in order where they are new.\<close>

definition keep_fallbacks :: "string list \<Rightarrow> string list \<Rightarrow> string list" where
  "keep_fallbacks old new = foldl (\<lambda>acc a. if a \<in> set acc then acc else acc @ [a]) new old"

definition merge_one :: "int \<Rightarrow> DiscoveryRecord list \<Rightarrow> DiscoveryRecord \<Rightarrow> DiscoveryRecord list" where
  "merge_one now records incoming =
     (let it = find_index (matches incoming) records in
      if goodbye incoming \<or> ttlSeconds incoming = 0 then
        (case it of
           None \<Rightarrow> records
         | Some i \<Rightarrow> records[i := (records ! i)\<lparr>online := False, goodbye := True, rec_lastSeen := now, expiresAt := now\<rparr>])
      else
        (let stamped = incoming\<lparr>online := True, goodbye := False, rec_lastSeen := now,
               expiresAt := now + 1000 * (if ttlSeconds incoming = 0 then 1 else int (unat (ttlSeconds incoming))),
               addresses := (if addresses incoming = [] \<and> address incoming \<noteq> [] then [address incoming] else addresses incoming)\<rparr>
         in case it of
              None \<Rightarrow> records @ [stamped]
            | Some i \<Rightarrow> records[i := stamped\<lparr>addresses := keep_fallbacks (addresses (records ! i)) (addresses stamped)\<rparr>]))"

definition Merge :: "DiscoveryRecord list \<Rightarrow> int \<Rightarrow> DiscoveryRecord list \<Rightarrow> DiscoveryRecord list" where
  "Merge incoming now records = foldl (merge_one now) records incoming"

definition Expire :: "int \<Rightarrow> DiscoveryRecord list \<Rightarrow> DiscoveryRecord list" where
  "Expire now records =
     map (\<lambda>r. if online r \<and> expiresAt r \<noteq> 0 \<and> expiresAt r \<le> now then r\<lparr>online := False\<rparr> else r) records"

definition FindById :: "string \<Rightarrow> DiscoveryRecord list \<Rightarrow> DiscoveryRecord option" where
  "FindById i records = (if i = [] then None else find (\<lambda>r. rec_id r = i) records)"

definition Records :: "DiscoveryRecord list \<Rightarrow> DiscoveryRecord list" where
  "Records records = records"

subsection \<open>A browse\<close>

text \<open>The packets that arrive before the deadline, in order, and the list that is returned.\<close>

fun parse_packets :: "(bytes \<Rightarrow> string) \<Rightarrow> bytes list \<Rightarrow> DiscoveryRecord smap \<Rightarrow> DiscoveryRecord smap option" where
  "parse_packets ntop6 [] fnd = Some fnd"
| "parse_packets ntop6 (p # ps) fnd =
     (if p = [] then parse_packets ntop6 ps fnd
      else do { fnd' \<leftarrow> ParseResponse ntop6 p fnd; parse_packets ntop6 ps fnd' })"

definition usable_receivers :: "int \<Rightarrow> DiscoveryRecord smap \<Rightarrow> DiscoveryRecord list" where
  "usable_receivers now fnd =
     map (\<lambda>(k, r). r\<lparr>rec_lastSeen := now, expiresAt := now + 1000 * int (unat (ttlSeconds r))\<rparr>)
       (filter (\<lambda>(k, r). address r \<noteq> [] \<or> goodbye r) fnd)"

definition BrowseReceivers :: "(bytes \<Rightarrow> string) \<Rightarrow> bytes list \<Rightarrow> int \<Rightarrow> DiscoveryRecord list option" where
  "BrowseReceivers ntop6 packets now = map_option (usable_receivers now) (parse_packets ntop6 packets [])"

end
