(* ===== verification/MdnsProps.thy ===== *)
theory MdnsProps
  imports Mdns
begin

text \<open>
  What the discovery promises: the parser of responses never reads outside a packet, it reads back
  what a receiver sends, and the cache keeps one record per stable id.
\<close>

subsection \<open>No read outside the packet\<close>

lemma byte_at_Some [simp]: "i < length data \<Longrightarrow> byte_at data i = Some (data ! i)"
  by (simp add: byte_at_def)

lemma bytes_at_Some [simp]: "i + n \<le> length data \<Longrightarrow> bytes_at data i n = Some (slice data i (i + n))"
  by (simp add: bytes_at_def)

lemma readUint16_Some [simp]:
  "i + 2 \<le> length data \<Longrightarrow> readUint16 data i = Some (be16 (data ! i) (data ! (i + 1)))"
  by (simp add: readUint16_def)

lemma readUint32_Some [simp]:
  "i + 4 \<le> length data \<Longrightarrow>
   readUint32 data i = Some (be32 (data ! i) (data ! (i + 1)) (data ! (i + 2)) (data ! (i + 3)))"
  by (simp add: readUint32_def)

lemma read_name_total: "\<exists>r. read_name data c a h nm = Some r"
proof (induction data c a h nm rule: read_name.induct)
  case (1 data c a h nm)
  show ?case
    using 1 by (subst read_name.simps) (auto simp: Let_def)
qed

lemma read_name_end:
  "read_name data c a h nm = Some (Some (p, s)) \<Longrightarrow> a \<le> length data \<Longrightarrow> p \<le> length data"
proof (induction data c a h nm rule: read_name.induct)
  case (1 data c a h nm)
  from "1.prems"(1) show ?case
    by (subst (asm) read_name.simps)
      (use "1.IH" "1.prems"(2) in \<open>auto split: if_splits\<close>)
qed

lemma ReadName_cases:
  obtains (bad) "ReadName data pos = Some None"
    | (good) p s where "ReadName data pos = Some (Some (p, s))" "p \<le> length data"
  using read_name_total [of data pos 0 0 "[]"] read_name_end [of data pos 0 0 "[]"]
  unfolding ReadName_def by (metis le0 not_None_eq old.prod.exhaust)

lemma txt_loop_total: "stop \<le> length data \<Longrightarrow> \<exists>s. txt_loop data c stop i = Some s"
proof (induction data c stop i rule: txt_loop.induct)
  case (1 data c stop i)
  then show ?case by (subst txt_loop.simps) auto
qed

definition hosts_named :: "HostAddress smap \<Rightarrow> bool" where
  "hosts_named hosts \<longleftrightarrow> (\<forall>h \<in> ran (map_of hosts). host_addresses h \<noteq> [])"

lemma hosts_named_Nil [simp]: "hosts_named []"
  by (simp add: hosts_named_def)

lemma hosts_named_add [preserves]:
  "hosts_named (addressByHost st) \<Longrightarrow> hosts_named (addressByHost (add_address name ttl t st))"
  by (auto simp: hosts_named_def add_address_def Let_def ran_def)

lemma parse_record_total:
  assumes "start + len \<le> length data" and "hosts_named (addressByHost st)"
  obtains st' where "parse_record ntop6 data name type start len ttl st = Some st'"
    and "hosts_named (addressByHost st')"
proof -
  have ptr: "\<exists>st'. parse_ptr data start ttl st = Some st' \<and> hosts_named (addressByHost st')"
    using assms by (cases rule: ReadName_cases [of data start]) (auto simp: parse_ptr_def)
  have srv: "\<exists>st'. parse_srv data name start len ttl st = Some st' \<and> hosts_named (addressByHost st')"
    using assms by (cases rule: ReadName_cases [of data "start + 6"]) (auto simp: parse_srv_def Let_def)
  have txts: "\<exists>st'. parse_txt data name start len ttl st = Some st' \<and> hosts_named (addressByHost st')"
    using assms txt_loop_total [of "start + len" data start "rec_id (touch_receiver name ttl st)"]
    by (auto simp: parse_txt_def Let_def)
  have adr: "\<exists>st'. parse_address f n data name start len ttl st = Some st' \<and> hosts_named (addressByHost st')" for f n
    using assms by (auto simp: parse_address_def hosts_named_add)
  have "\<exists>st'. parse_record ntop6 data name type start len ttl st = Some st' \<and> hosts_named (addressByHost st')"
    unfolding parse_record_def using ptr srv txts adr assms by simp
  then show thesis using that by blast
qed

lemma records_loop_total:
  assumes "hosts_named (addressByHost st)"
  shows "\<exists>c st'. records_loop ntop6 data n pos st = Some (c, st') \<and> hosts_named (addressByHost st')"
  using assms
proof (induction n arbitrary: pos st)
  case 0
  then show ?case by auto
next
  case (Suc n)
  show ?case
  proof (cases rule: ReadName_cases [of data pos])
    case bad
    with Suc show ?thesis by auto
  next
    case (good p s)
    show ?thesis
    proof (cases "length data < p + 10")
      case True
      with good Suc show ?thesis by auto
    next
      case False
      then obtain ty ttl len where rd: "readUint16 data p = Some ty" "readUint32 data (p + 4) = Some ttl"
          "readUint16 data (p + 8) = Some len"
        by simp
      show ?thesis
      proof (cases "length data < p + 10 + unat len")
        case True
        with False good rd Suc show ?thesis by auto
      next
        case fits: False
        obtain st' where "parse_record ntop6 data s ty (p + 10) (unat len) ttl st = Some st'"
            "hosts_named (addressByHost st')"
          using parse_record_total [of "p + 10" "unat len" data st] fits Suc.prems by (metis not_less)
        with False fits good rd Suc.IH show ?thesis by simp
      qed
    qed
  qed
qed

lemma skip_questions_total: "\<exists>r. skip_questions data n pos = Some r"
proof (induction n arbitrary: pos)
  case (Suc n)
  then show ?case
    by (cases rule: ReadName_cases [of data pos]) auto
qed simp

lemma those_total: "list_all (\<lambda>x. f x \<noteq> None) xs \<Longrightarrow> \<exists>ys. those (map f xs) = Some ys"
  by (induction xs) auto

lemma resolve_total:
  assumes "hosts_named hosts"
  shows "resolve hosts r \<noteq> None"
proof (cases "map_of hosts (rec_host r)")
  case (Some h)
  with assms have "host_addresses h \<noteq> []" by (auto simp: hosts_named_def ran_def)
  with Some show ?thesis
    by (cases "host_addresses h") (auto simp: resolve_def split: option.splits)
qed (simp add: resolve_def)

lemma ParseResponse_total: "\<exists>fnd'. ParseResponse ntop6 data fnd = Some fnd'"
proof (cases "length data < 12")
  case False
  obtain q where q: "skip_questions data (unat (be16 (data ! 4) (data ! 5))) 12 = Some q"
    using skip_questions_total by blast
  show ?thesis
  proof (cases q)
    case None
    with False q show ?thesis by (simp add: ParseResponse_def)
  next
    case (Some pos)
    obtain c st where loop: "records_loop ntop6 data (unat (be16 (data ! 6) (data ! 7)) + unat (be16 (data ! 8) (data ! 9)) +
         unat (be16 (data ! 10) (data ! 11))) pos \<lparr>found = fnd, addressByHost = []\<rparr> = Some (c, st)"
        "hosts_named (addressByHost st)"
      using records_loop_total [of "\<lparr>found = fnd, addressByHost = []\<rparr>"] by force
    have "\<exists>ys. those (map (\<lambda>(k, r). map_option (Pair k) (resolve (addressByHost st) r)) (found st)) = Some ys"
      using resolve_total [OF loop(2)] by (intro those_total) (auto simp: list_all_iff)
    with False q Some loop show ?thesis by (cases c) (auto simp: ParseResponse_def)
  qed
qed (simp add: ParseResponse_def)

text \<open>C14. The parser of responses never reads outside the packet and always returns: whatever bytes
  arrive from the network, and whatever was found before.\<close>

theorem parser_stays_in_the_packet: "\<exists>fnd'. ParseResponse ntop6 data fnd = Some fnd'"
  by (rule ParseResponse_total)

subsection \<open>Names that a receiver sends\<close>

text \<open>A dotted name by its labels.\<close>

fun dotted :: "string list \<Rightarrow> string" where
  "dotted [] = []"
| "dotted [l] = l"
| "dotted (l # m # ls) = l @ ''.'' @ dotted (m # ls)"

definition wf_labels :: "string list \<Rightarrow> bool" where
  "wf_labels ls \<longleftrightarrow> ls \<noteq> [] \<and> list_all (\<lambda>l. l \<noteq> [] \<and> length l < 64 \<and> CHR ''.'' \<notin> set l) ls"

definition label_bytes :: "string \<Rightarrow> bytes" where
  "label_bytes l = of_nat (length l) # bytes_of l"

lemma find_sub_dot: "CHR ''.'' \<notin> set l \<Longrightarrow> find_sub ''.'' (l @ CHR ''.'' # r) = Some (length l)"
  by (induction l) auto

lemma find_sub_no_dot: "CHR ''.'' \<notin> set l \<Longrightarrow> find_sub ''.'' l = None"
  by (induction l) auto

lemma append_labels_dotted:
  "wf_labels ls \<Longrightarrow> append_labels (pre @ dotted ls) (length pre) = concat (map label_bytes ls)"
proof (induction ls arbitrary: pre rule: dotted.induct)
  case (2 l)
  then have "CHR ''.'' \<notin> set l" by (simp add: wf_labels_def)
  then have f: "str_find (pre @ l) ''.'' (length pre) = None"
    by (simp add: str_find_def find_sub_no_dot)
  show ?case
    using f append_labels.simps [of "pre @ l" "Suc (length (pre @ l))"]
    by (simp add: append_labels.simps [of "pre @ l" "length pre"] Let_def label_bytes_def slice_def)
next
  case (3 l m ls)
  define rest where "rest = dotted (m # ls)"
  have l: "CHR ''.'' \<notin> set l" and wf: "wf_labels (m # ls)"
    using 3 by (auto simp: wf_labels_def)
  then have f: "str_find (pre @ l @ ''.'' @ rest) ''.'' (length pre) = Some (length pre + length l)"
    by (simp add: str_find_def find_sub_dot)
  have "append_labels ((pre @ l @ ''.'') @ rest) (length (pre @ l @ ''.'')) = concat (map label_bytes (m # ls))"
    unfolding rest_def by (rule 3(1) [OF wf])
  with f show ?case
    by (simp add: append_labels.simps [of "pre @ l @ CHR ''.'' # rest" "length pre"] Let_def label_bytes_def [of l] slice_def
        flip: rest_def)
qed (simp add: wf_labels_def)

definition name_bytes :: "string list \<Rightarrow> bytes" where
  "name_bytes ls = concat (map label_bytes ls) @ [0]"

lemma AppendName_dotted: "wf_labels ls \<Longrightarrow> AppendName pkt (dotted ls) = pkt @ name_bytes ls"
  using append_labels_dotted [of ls "[]"] by (simp add: AppendName_def name_bytes_def)

lemma small_label_byte:
  assumes "0 < n" and "n < 64"
  shows "(of_nat n :: byte) \<noteq> 0" and "and (of_nat n :: byte) 0xC0 \<noteq> 0xC0" and "unat (of_nat n :: byte) = n"
proof -
  show u: "unat (of_nat n :: byte) = n" using assms by (simp add: unat_of_nat)
  with assms show "(of_nat n :: byte) \<noteq> 0" by auto
  have "\<not> bit (of_nat n :: byte) 7"
    using assms by (simp add: bit_of_nat_iff bit_iff_odd [of n])
  moreover have "bit (0xC0 :: byte) 7" by simp
  ultimately show "and (of_nat n :: byte) 0xC0 \<noteq> 0xC0" by (metis bit_and_iff)
qed

definition join_step :: "string \<Rightarrow> string \<Rightarrow> string" where
  "join_step acc l = (if acc = [] then acc else acc @ ''.'') @ l"

lemma dotted_Cons: "ls \<noteq> [] \<Longrightarrow> dotted (l # ls) = l @ ''.'' @ dotted ls"
  by (cases ls) auto

lemma join_dotted_from:
  "acc \<noteq> [] \<Longrightarrow> ls \<noteq> [] \<Longrightarrow> foldl join_step acc ls = acc @ ''.'' @ dotted ls"
proof (induction ls arbitrary: acc)
  case (Cons l ls)
  then show ?case by (cases "ls = []") (auto simp: join_step_def dotted_Cons)
qed simp

lemma join_dotted: "wf_labels ls \<Longrightarrow> foldl join_step [] ls = dotted ls"
  by (cases ls; cases "tl ls = []") (auto simp: wf_labels_def join_dotted_from join_step_def dotted_Cons)

lemma read_name_labels:
  "list_all (\<lambda>l. l \<noteq> [] \<and> length l < 64 \<and> CHR ''.'' \<notin> set l) ls \<Longrightarrow>
   read_name (pre @ concat (map label_bytes ls) @ 0 # post) (length pre) 0 0 acc =
     Some (Some (length pre + length (concat (map label_bytes ls)) + 1, foldl join_step acc ls))"
proof (induction ls arbitrary: pre acc)
  case Nil
  show ?case by (subst read_name.simps) simp
next
  case (Cons l ls)
  define data where "data = pre @ concat (map label_bytes (l # ls)) @ 0 # post"
  have len: "0 < length l" "length l < 64" using Cons.prems by auto
  note byte = small_label_byte [OF len]
  have at: "data ! length pre = of_nat (length l)" "length pre + 1 + length l < length data"
    by (simp_all add: data_def label_bytes_def)
  have lab: "slice data (length pre + 1) (length pre + 1 + length l) = bytes_of l"
    by (simp add: data_def label_bytes_def slice_def)
  have "read_name data (length pre) 0 0 acc = read_name data (length (pre @ label_bytes l)) 0 0 (join_step acc l)"
    using at lab byte by (subst read_name.simps) (simp add: label_bytes_def join_step_def)
  also have "data = (pre @ label_bytes l) @ concat (map label_bytes ls) @ 0 # post"
    by (simp add: data_def)
  also have "read_name \<dots> (length (pre @ label_bytes l)) 0 0 (join_step acc l) =
      Some (Some (length (pre @ label_bytes l) + length (concat (map label_bytes ls)) + 1,
        foldl join_step (join_step acc l) ls))"
    using Cons.prems by (intro Cons.IH) simp
  finally show ?case by (simp add: data_def)
qed

lemma ReadName_name_bytes [codec]:
  "wf_labels ls \<Longrightarrow> ReadName (pre @ name_bytes ls @ post) (length pre) =
     Some (Some (length pre + length (name_bytes ls), dotted ls))"
  using read_name_labels [of ls pre post "[]"] join_dotted [of ls]
  by (simp add: ReadName_def name_bytes_def wf_labels_def)

subsection \<open>Records that a receiver sends\<close>

lemma be32_halves:
  fixes v :: u32
  defines "hi \<equiv> put16 (ucast (drop_bit 16 v))" and "lo \<equiv> put16 (ucast (and v 0xFFFF))"
  shows "be32 (hi ! 0) (hi ! 1) (lo ! 0) (lo ! 1) = v" (is "?w = v")
proof (rule bit_word_eqI)
  have m: "(65535::u32) = mask 16" by (simp add: mask_eq_exp_minus_1)
  fix n
  assume n: "n < LENGTH(32)"
  then consider "n < 8" | "8 \<le> n" "n < 16" | "16 \<le> n" "n < 24" | "24 \<le> n" by linarith
  then show "bit ?w n = bit v n"
    using n unfolding hi_def lo_def m be32_def put16_def ff_mask by cases (auto simp: bit_simps)
qed

definition record_head :: "string list \<Rightarrow> u16 \<Rightarrow> u32 \<Rightarrow> nat \<Rightarrow> bytes" where
  "record_head ls type ttl n = name_bytes ls @ put16 type @ put16 1 @ put16 (ucast (drop_bit 16 ttl)) @
     put16 (ucast (and ttl 0xFFFF)) @ put16 (of_nat n)"

lemma AppendRecord_dotted:
  "wf_labels ls \<Longrightarrow> AppendRecord pkt (dotted ls) type payload ttl = pkt @ record_head ls type ttl (length payload) @ payload"
  by (simp add: AppendRecord_def AppendName_dotted record_head_def PutUint16_def)

lemma read_parts:
  "readUint16 (pre @ put16 v @ post) (length pre) = Some v"
  by (simp add: put16_def be16_def nth_append be16_split)

lemma read_parts32:
  "readUint32 (pre @ put16 (ucast (drop_bit 16 v)) @ put16 (ucast (and v 0xFFFF)) @ post) (length pre) = Some v"
  using be32_halves [of v] by (simp add: put16_def nth_append)

lemma records_loop_step:
  assumes wf: "wf_labels ls" and small: "length payload < 65536"
    and data: "data = pre @ record_head ls type ttl (length payload) @ payload @ post"
  defines "start \<equiv> length (pre @ record_head ls type ttl (length payload))"
  shows "records_loop ntop6 data (Suc n) (length pre) st =
    do { st' \<leftarrow> parse_record ntop6 data (dotted ls) type start (length payload) ttl st;
         records_loop ntop6 data n (start + length payload) st' }"
proof -
  let ?p = "length (pre @ name_bytes ls)"
  have start: "start = ?p + 10" by (simp add: start_def record_head_def)
  have name: "ReadName data (length pre) = Some (Some (?p, dotted ls))"
    using ReadName_name_bytes [OF wf, of pre] by (simp add: data record_head_def)
  have "readUint16 data ?p = Some type"
    using read_parts [of "pre @ name_bytes ls" type] by (simp add: data record_head_def del: readUint16_Some)
  moreover have "readUint32 data (?p + 4) = Some ttl"
    using read_parts32 [of "pre @ name_bytes ls @ put16 type @ put16 1" ttl]
    by (simp add: data record_head_def add_ac del: readUint32_Some)
  moreover have "readUint16 data (?p + 8) = Some (of_nat (length payload))"
    using read_parts [of "pre @ name_bytes ls @ put16 type @ put16 1 @ put16 (ucast (drop_bit 16 ttl)) @
      put16 (ucast (and ttl 0xFFFF))" "of_nat (length payload)"]
    by (simp add: data record_head_def add_ac del: readUint16_Some)
  moreover have "unat (of_nat (length payload) :: u16) = length payload"
    using small by (simp add: unat_of_nat)
  moreover have "\<not> length data < ?p + 10 + length payload"
    by (simp add: data record_head_def)
  ultimately show ?thesis
    using name by (simp add: start)
qed

lemma parse_ptr_dotted:
  "wf_labels ls \<Longrightarrow> data = pre @ name_bytes ls @ post \<Longrightarrow> start = length pre \<Longrightarrow>
   parse_ptr data start ttl st = Some (st\<lparr>found := smap_put (dotted ls)
     ((smap_at DiscoveryRecord_default (dotted ls) (found st))
        \<lparr>rec_instance := first_label (dotted ls), rec_name := first_label (dotted ls),
         ttlSeconds := ttl, goodbye := (ttl = 0)\<rparr>) (found st)\<rparr>)"
  by (simp add: parse_ptr_def ReadName_name_bytes)

lemma parse_srv_dotted:
  assumes "wf_labels ls" and data: "data = pre @ put16 a @ put16 b @ put16 p @ name_bytes ls @ post"
    and "start = length pre" and "7 \<le> len"
  shows "parse_srv data name start len ttl st =
    Some (st\<lparr>found := smap_put name ((touch_receiver name ttl st)\<lparr>rec_port := p, rec_host := dotted ls\<rparr>) (found st)\<rparr>)"
proof -
  have "readUint16 data (start + 4) = Some p"
    using read_parts [of "pre @ put16 a @ put16 b" p] assms by (simp add: add_ac del: readUint16_Some)
  moreover have "ReadName data (start + 6) = Some (Some (start + 6 + length (name_bytes ls), dotted ls))"
    using ReadName_name_bytes [OF assms(1), of "pre @ put16 a @ put16 b @ put16 p" post] assms
    by (simp add: add_ac)
  ultimately show ?thesis
    using assms by (simp add: parse_srv_def Let_def)
qed

lemma parse_txt_one:
  assumes "length e < 256" and data: "data = pre @ of_nat (length e) # bytes_of e @ post"
    and "start = length pre" and "len = Suc (length e)"
  shows "parse_txt data name start len ttl st =
    Some (st\<lparr>found := smap_put name ((touch_receiver name ttl st)
      \<lparr>rec_id := (if starts_with ''id='' e then drop 3 e else rec_id (touch_receiver name ttl st))\<rparr>) (found st)\<rparr>)"
proof -
  have "unat (data ! start) = length e" "slice data (Suc start) (Suc (start + length e)) = bytes_of e"
    using assms by (simp_all add: slice_def unat_of_nat)
  then have "txt_loop data start (start + len) i = Some (if starts_with ''id='' e then drop 3 e else i)" for i
    using assms by (subst txt_loop.simps) (simp add: txt_loop.simps [of _ "Suc (length pre + length e)"])
  then show ?thesis by (simp add: parse_txt_def Let_def)
qed

lemma parse_address_exact:
  "data = pre @ ip @ post \<Longrightarrow> start = length pre \<Longrightarrow> length ip = n \<Longrightarrow>
   parse_address f n data name start n ttl st = Some (add_address name ttl (f ip) st)"
  by (simp add: parse_address_def slice_def)

subsection \<open>A response is read back\<close>

lemma first_label_dotted: "wf_labels ls \<Longrightarrow> first_label (dotted ls) = hd ls"
proof (cases ls rule: dotted.cases)
  case (3 l m ms)
  assume "wf_labels ls"
  with 3 show ?thesis by (auto simp: first_label_def wf_labels_def takeWhile_append takeWhile_eq_all_conv)
qed (auto simp: first_label_def wf_labels_def takeWhile_eq_all_conv)

text \<open>The answer of a receiver, the packet of \<^verbatim>\<open>GoodResponse\<close> with its values as arguments.\<close>

definition answer_packet ::
    "string \<Rightarrow> string \<Rightarrow> u16 \<Rightarrow> string \<Rightarrow> bytes \<Rightarrow> u32 \<Rightarrow> bytes" where
  "answer_packet inst host p ident ip ttl =
     (let p1 = AppendRecord (ResponseHeader 4) kService kTypePtr (AppendName [] inst) ttl;
          srv = AppendName (PutUint16 (PutUint16 (PutUint16 [] 0) 0) p) host;
          p2 = AppendRecord p1 inst kTypeSrv srv ttl;
          entry = ''id='' @ ident;
          p3 = AppendRecord p2 inst kTypeTxt (of_nat (length entry) # bytes_of entry) ttl
      in AppendRecord p3 host kTypeA ip ttl)"

definition service_labels :: "string list" where
  "service_labels = [''_opensidecar'', ''_tcp'', ''local'']"

lemma wf_service: "wf_labels service_labels" and dotted_service: "dotted service_labels = kService"
  by (simp_all add: wf_labels_def service_labels_def kService_def)

lemma name_bytes_pos: "wf_labels ls \<Longrightarrow> 2 \<le> length (name_bytes ls)"
  by (cases ls) (auto simp: name_bytes_def wf_labels_def label_bytes_def)

lemma smap_put_same [simp]: "smap_put k v [(k, w)] = [(k, v)]"
  by simp

lemma records_loop_0: "records_loop ntop6 data 0 pos = (\<lambda>st. Some (True, st))"
  by (simp add: fun_eq_iff)

lemma answer_read_back:
  assumes wf: "wf_labels is" "wf_labels hs" and len: "length (name_bytes is) < 65536" "length (name_bytes hs) < 65530"
      "length ident < 253" "length ip = 4" and ttl: "ttl \<noteq> 0"
  shows "ParseResponse ntop6 (answer_packet (dotted is) (dotted hs) p ident ip ttl) [] =
    Some [(dotted is, \<lparr>rec_id = ident, rec_name = hd is, address = inet_ntop4 ip, addresses = [inet_ntop4 ip],
      rec_instance = hd is, rec_host = dotted hs, rec_port = p, source = ''mdns'', ttlSeconds = min 120 ttl,
      rec_lastSeen = 0, expiresAt = 0, online = True, goodbye = False\<rparr>)]"
proof -
  let ?e = "''id='' @ ident"
  let ?ptr = "name_bytes is" and ?srv = "put16 0 @ put16 0 @ put16 p @ name_bytes hs"
  let ?txt = "of_nat (length ?e) # bytes_of ?e"
  let ?h = "ResponseHeader 4"
  let ?b1 = "record_head service_labels kTypePtr ttl (length ?ptr)"
  let ?b2 = "record_head is kTypeSrv ttl (length ?srv)"
  let ?b3 = "record_head is kTypeTxt ttl (length ?txt)"
  let ?b4 = "record_head hs kTypeA ttl (length ip)"
  define data where "data = ?h @ ?b1 @ ?ptr @ ?b2 @ ?srv @ ?b3 @ ?txt @ ?b4 @ ip"
  have packet: "answer_packet (dotted is) (dotted hs) p ident ip ttl = data"
    using wf by (simp add: answer_packet_def data_def Let_def AppendName_dotted AppendRecord_dotted
        AppendRecord_dotted [OF wf_service, unfolded dotted_service] PutUint16_def)
  have small: "length ?ptr < 65536" "length ?srv < 65536" "length ?txt < 65536" "length ip < 65536"
    using len by simp_all
  define s1 where "s1 = length (?h @ ?b1)"
  define s2 where "s2 = length (?h @ ?b1 @ ?ptr @ ?b2)"
  define s3 where "s3 = length (?h @ ?b1 @ ?ptr @ ?b2 @ ?srv @ ?b3)"
  define s4 where "s4 = length (?h @ ?b1 @ ?ptr @ ?b2 @ ?srv @ ?b3 @ ?txt @ ?b4)"
  have eqs: "data = ?h @ ?b1 @ ?ptr @ ?b2 @ ?srv @ ?b3 @ ?txt @ ?b4 @ ip"
      "data = (?h @ ?b1 @ ?ptr) @ ?b2 @ ?srv @ ?b3 @ ?txt @ ?b4 @ ip"
      "data = (?h @ ?b1 @ ?ptr @ ?b2 @ ?srv) @ ?b3 @ ?txt @ ?b4 @ ip"
      "data = (?h @ ?b1 @ ?ptr @ ?b2 @ ?srv @ ?b3 @ ?txt) @ ?b4 @ ip @ []"
    by (simp_all add: data_def)
  have ends: "length ?h = 12" "length (?h @ ?b1 @ ?ptr) = s1 + length ?ptr"
      "length (?h @ ?b1 @ ?ptr @ ?b2 @ ?srv) = s2 + length ?srv"
      "length (?h @ ?b1 @ ?ptr @ ?b2 @ ?srv @ ?b3 @ ?txt) = s3 + length ?txt"
    and starts: "length (?h @ ?b1) = s1" "length ((?h @ ?b1 @ ?ptr) @ ?b2) = s2"
      "length ((?h @ ?b1 @ ?ptr @ ?b2 @ ?srv) @ ?b3) = s3"
      "length ((?h @ ?b1 @ ?ptr @ ?b2 @ ?srv @ ?b3 @ ?txt) @ ?b4) = s4"
    by (simp_all add: s1_def s2_def s3_def s4_def ResponseHeader_def PutUint16_def)
  note steps =
    records_loop_step [OF wf_service small(1) eqs(1), of ntop6 "Suc (Suc (Suc 0))", unfolded ends starts]
    records_loop_step [OF wf(1) small(2) eqs(2), of ntop6 "Suc (Suc 0)", unfolded ends starts]
    records_loop_step [OF wf(1) small(3) eqs(3), of ntop6 "Suc 0", unfolded ends starts]
    records_loop_step [OF wf(2) small(4) eqs(4), of ntop6 0, unfolded ends starts]
  have types: "parse_record ntop6 data n kTypePtr = (\<lambda>i k. parse_ptr data i)"
      "parse_record ntop6 data n kTypeSrv = parse_srv data n"
      "parse_record ntop6 data n kTypeTxt = parse_txt data n"
      "parse_record ntop6 data n kTypeA = parse_address inet_ntop4 4 data n" for n
    by (auto simp: parse_record_def fun_eq_iff kTypePtr_def kTypeSrv_def kTypeTxt_def kTypeA_def)
  have four: "records_loop ntop6 data 4 = records_loop ntop6 data (Suc (Suc (Suc (Suc 0))))" by (simp add: eval_nat_numeral)
  have loop: "records_loop ntop6 data 4 12 st =
      do { st1 \<leftarrow> parse_ptr data s1 ttl st;
           st2 \<leftarrow> parse_srv data (dotted is) s2 (length ?srv) ttl st1;
           st3 \<leftarrow> parse_txt data (dotted is) s3 (length ?txt) ttl st2;
           st4 \<leftarrow> parse_address inet_ntop4 4 data (dotted hs) s4 4 ttl st3;
           Some (True, st4) }" for st
    unfolding four steps types records_loop_0 by (simp add: len)
  have p1: "parse_ptr data s1 ttl st = Some (st\<lparr>found := smap_put (dotted is)
     ((smap_at DiscoveryRecord_default (dotted is) (found st))
        \<lparr>rec_instance := hd is, rec_name := hd is, ttlSeconds := ttl, goodbye := False\<rparr>) (found st)\<rparr>)" for st
    using parse_ptr_dotted [OF wf(1), of data "?h @ ?b1" "?b2 @ ?srv @ ?b3 @ ?txt @ ?b4 @ ip" s1 ttl st] ttl
    by (simp add: data_def s1_def first_label_dotted [OF wf(1)])
  have p2: "parse_srv data (dotted is) s2 (length ?srv) ttl st =
      Some (st\<lparr>found := smap_put (dotted is)
        ((touch_receiver (dotted is) ttl st)\<lparr>rec_port := p, rec_host := dotted hs\<rparr>) (found st)\<rparr>)" for st
    using parse_srv_dotted [OF wf(2), of data "?h @ ?b1 @ ?ptr @ ?b2" 0 0 p "?b3 @ ?txt @ ?b4 @ ip" s2 "length ?srv" "dotted is" ttl st]
      name_bytes_pos [OF wf(2)] by (simp add: data_def s2_def)
  have p3: "parse_txt data (dotted is) s3 (length ?txt) ttl st =
      Some (st\<lparr>found := smap_put (dotted is) ((touch_receiver (dotted is) ttl st)\<lparr>rec_id := ident\<rparr>) (found st)\<rparr>)" for st
    using parse_txt_one [of ?e data "?h @ ?b1 @ ?ptr @ ?b2 @ ?srv @ ?b3" "?b4 @ ip" s3 "length ?txt" "dotted is" ttl st] len
    by (simp add: data_def s3_def)
  have p4: "parse_address inet_ntop4 4 data (dotted hs) s4 4 ttl st = Some (add_address (dotted hs) ttl (inet_ntop4 ip) st)" for st
    using parse_address_exact [of data "?h @ ?b1 @ ?ptr @ ?b2 @ ?srv @ ?b3 @ ?txt @ ?b4" ip "[]" s4 4] len
    by (simp add: data_def s4_def)
  have head: "readUint16 data 4 = Some 0" "readUint16 data 6 = Some 4" "readUint16 data 8 = Some 0"
      "readUint16 data 10 = Some 0" "\<not> length data < 12"
    by (simp_all add: data_def ResponseHeader_def PutUint16_def put16_def be16_def)
  note loop' = loop [unfolded p1 Option.bind.simps(2) p2 p3 p4]
  have "min 120 ttl \<noteq> 0" using ttl by (auto simp: min_def)
  then show ?thesis
    using head ttl
    by (simp add: packet ParseResponse_def loop' smap_at_def touch_receiver_def add_address_def
        HostAddress_default_def DiscoveryRecord_default_def resolve_def first_label_dotted [OF wf(1)])
qed

text \<open>C19. The packet a receiver sends - its PTR, SRV, TXT and A records, for any well-formed instance and
  host name, id, port, address and non-zero TTL - is parsed back to exactly that receiver, online, with the TTL
  capped by the 120 seconds the host record starts from.\<close>

theorem response_is_read_back:
  assumes "wf_labels is" and "wf_labels hs" and "length (name_bytes is) < 65536" and "length (name_bytes hs) < 65530"
    and "length ident < 253" and "length ip = 4" and "ttl \<noteq> 0"
  shows "ParseResponse ntop6 (answer_packet (dotted is) (dotted hs) p ident ip ttl) [] =
    Some [(dotted is, \<lparr>rec_id = ident, rec_name = hd is, address = inet_ntop4 ip, addresses = [inet_ntop4 ip],
      rec_instance = hd is, rec_host = dotted hs, rec_port = p, source = ''mdns'', ttlSeconds = min 120 ttl,
      rec_lastSeen = 0, expiresAt = 0, online = True, goodbye = False\<rparr>)]"
  by (rule answer_read_back [OF assms])

lemma response_is_read_back_witness:
  "ParseResponse (\<lambda>_. []) (answer_packet ''iPad.local'' ''h.local'' 9000 ''7'' [10, 0, 0, 1] 60) [] =
    Some [(''iPad.local'', \<lparr>rec_id = ''7'', rec_name = ''iPad'', address = inet_ntop4 [10, 0, 0, 1],
      addresses = [inet_ntop4 [10, 0, 0, 1]], rec_instance = ''iPad'', rec_host = ''h.local'', rec_port = 9000,
      source = ''mdns'', ttlSeconds = 60, rec_lastSeen = 0, expiresAt = 0, online = True, goodbye = False\<rparr>)]"
  using response_is_read_back [of "[''iPad'', ''local'']" "[''h'', ''local'']" "''7''" "[10, 0, 0, 1]" 60 "\<lambda>_. []" 9000]
  by (simp add: wf_labels_def name_bytes_def label_bytes_def)

subsection \<open>The self-check passes\<close>

definition sample_labels :: "string list" where
  "sample_labels = [''iPad'', ''_opensidecar'', ''_tcp'', ''local'']"

lemma sample_names: "wf_labels sample_labels" "sample_instance = dotted sample_labels"
    "wf_labels [''iPad-Pro'', ''local'']" "sample_host = dotted [''iPad-Pro'', ''local'']"
  by (simp_all add: wf_labels_def sample_labels_def sample_instance_def sample_host_def)

lemma ParseResponse_one_record:
  fixes type :: u16 and ttl :: u32
  assumes wf: "wf_labels ls" and small: "length payload < 65536" and h: "n < 256"
  defines "start \<equiv> 12 + length (record_head ls type ttl (length payload))"
    and "data \<equiv> AppendRecord (ResponseHeader (of_nat (Suc n))) (dotted ls) type payload ttl"
  shows "ParseResponse ntop6 data [] =
    do { st \<leftarrow> parse_record ntop6 data (dotted ls) type start (length payload) ttl \<lparr>found = [], addressByHost = []\<rparr>;
         (c, st) \<leftarrow> records_loop ntop6 data n (start + length payload) st;
         (if c then those (map (\<lambda>(k, r). map_option (Pair k) (resolve (addressByHost st) r)) (found st))
          else Some (found st)) }"
proof -
  have data: "data = ResponseHeader (of_nat (Suc n)) @ record_head ls type ttl (length payload) @ payload @ []"
    using wf by (simp add: data_def AppendRecord_dotted)
  have len: "length (ResponseHeader w) = 12" for w
    by (simp add: ResponseHeader_def PutUint16_def)
  have "unat (of_nat (Suc n) :: u16) = Suc n" using h by (simp add: unat_of_nat del: of_nat_Suc)
  then have head: "readUint16 data 4 = Some 0" "readUint16 data 6 = Some (of_nat (Suc n))" "readUint16 data 8 = Some 0"
      "readUint16 data 10 = Some 0" "\<not> length data < 12" "unat (of_nat (Suc n) :: u16) = Suc n"
    by (simp_all add: data ResponseHeader_def PutUint16_def put16_def be16_def be16_split del: of_nat_Suc)
  show ?thesis
    using records_loop_step [OF wf small data, of ntop6 n] head
    by (simp add: ParseResponse_def len start_def add_ac del: of_nat_Suc records_loop.simps split: prod.splits)
qed

lemma self_check_passes: "SelfCheck ntop6 = Some True"
proof -
  have good: "GoodResponse = answer_packet sample_instance sample_host 9000 sample_id [192, 0, 2, 42] 120"
    by (simp add: GoodResponse_def answer_packet_def Let_def)
  have parsed: "ParseResponse ntop6 GoodResponse [] = Some [(sample_instance,
      \<lparr>rec_id = sample_id, rec_name = ''iPad'', address = ''192.0.2.42'', addresses = [''192.0.2.42''],
       rec_instance = ''iPad'', rec_host = ''iPad-Pro.local'', rec_port = 9000, source = ''mdns'', ttlSeconds = 120,
       rec_lastSeen = 0, expiresAt = 0, online = True, goodbye = False\<rparr>)]"
    using answer_read_back [OF sample_names(1,3), of sample_id "[192, 0, 2, 42]" 120 ntop6 9000]
    by (simp add: good sample_names sample_labels_def name_bytes_def label_bytes_def sample_id_def inet_ntop4_def
        show_nat.simps char_eval)
  have bye: "ParseResponse ntop6 (AppendRecord (ResponseHeader 1) kService kTypePtr (AppendName [] sample_instance) 0) [] =
      Some [(sample_instance, DiscoveryRecord_default\<lparr>rec_instance := ''iPad'', rec_name := ''iPad'',
        ttlSeconds := 0, goodbye := True, online := False\<rparr>)]"
    (is "ParseResponse _ ?bye [] = _")
  proof -
    let ?n = "name_bytes sample_labels" and ?b = "record_head service_labels kTypePtr 0 (length (name_bytes sample_labels))"
    have eq: "?bye = AppendRecord (ResponseHeader (of_nat (Suc 0))) (dotted service_labels) kTypePtr ?n 0"
      by (simp add: sample_names AppendName_dotted dotted_service)
    have data: "AppendRecord (ResponseHeader 1) (dotted service_labels) kTypePtr ?n 0 = (ResponseHeader 1 @ ?b) @ ?n @ []"
      by (simp add: AppendRecord_dotted wf_service)
    have len: "12 + length ?b = length (ResponseHeader 1 @ ?b)" "length ?n < 65536"
      by (simp_all add: ResponseHeader_def PutUint16_def name_bytes_def sample_labels_def label_bytes_def)
    show ?thesis
      unfolding eq using len(2)
      by (subst ParseResponse_one_record [OF wf_service])
        (simp_all add: parse_record_def parse_ptr_dotted [OF sample_names(1) data len(1)] smap_at_def sample_names
          first_label_dotted resolve_def DiscoveryRecord_default_def, simp add: sample_labels_def)
  qed
  have over: "\<exists>r. ParseResponse ntop6 (AppendRecord (ResponseHeader 1) sample_instance kTypeTxt (200 # bytes_of ''id=x'') 120) [] =
      Some [(sample_instance, r)] \<and> rec_id r = []"
    (is "\<exists>r. ParseResponse _ ?over [] = _ \<and> _")
  proof -
    define pl where "pl = 200 # bytes_of ''id=x''"
    then have pl: "length pl = 5" "pl ! 0 = 200" "pl \<noteq> []" by simp_all
    define packet where "packet = ?over"
    have eq: "packet = AppendRecord (ResponseHeader (of_nat (Suc 0))) (dotted sample_labels) kTypeTxt pl 120"
      by (simp add: sample_names pl_def packet_def)
    define start where "start = 12 + length (record_head sample_labels kTypeTxt 120 (length pl))"
    have data: "packet = (ResponseHeader 1 @ record_head sample_labels kTypeTxt 120 (length pl)) @ pl"
      by (simp add: eq AppendRecord_dotted sample_names)
    have "start = length (ResponseHeader 1 @ record_head sample_labels kTypeTxt 120 (length pl))"
      by (simp add: start_def ResponseHeader_def PutUint16_def)
    then have "packet ! start = 200" "start < length packet"
      unfolding data nth_append using pl by simp_all
    then have "txt_loop packet start (start + length pl) i = Some i" for i
      using pl by (subst txt_loop.simps) simp
    then show ?thesis
      unfolding packet_def [symmetric]
      using ParseResponse_one_record [OF sample_names(1), of pl 0 ntop6 kTypeTxt 120, folded start_def eq] pl
      by (simp add: parse_record_def parse_txt_def kTypeTxt_def kTypePtr_def kTypeSrv_def resolve_def Let_def sample_names(2)
          touch_receiver_def smap_at_def DiscoveryRecord_default_def)
  qed
  have cuts: "\<exists>ys. those (map (\<lambda>cut. ParseResponse ntop6 (take cut GoodResponse) []) [1..<length GoodResponse]) = Some ys"
    by (rule those_total) (use ParseResponse_total [of ntop6] in \<open>auto simp: list_all_iff\<close>)
  obtain lp where lp: "ParseResponse ntop6 pointer_loop_packet [] = Some lp"
    using ParseResponse_total by blast
  obtain ly where ly: "ParseResponse ntop6 (AppendRecord (ResponseHeader 40) sample_instance kTypeA [10, 0, 0, 1] 120) [] = Some ly"
    using ParseResponse_total by blast
  show ?thesis
    using over cuts by (auto simp: SelfCheck_def parsed bye lp ly smap_at_def)
qed

text \<open>The self-check of \<^verbatim>\<open>--browse-mdns\<close> always passes: the good packet is parsed into the right
  fields, a goodbye takes the receiver offline, an overlong TXT string is not read, and no truncation, pointer loop
  or lying header makes the parser leave the packet.\<close>

lemma self_check_is_green: "SelfCheck ntop6 = Some True"
  by (rule self_check_passes)

subsection \<open>The discovery cache\<close>

lemma find_index_None: "find_index P xs = None \<longleftrightarrow> (\<forall>x \<in> set xs. \<not> P x)"
  by (auto simp: find_index_def find_None_iff all_set_conv_all_nth)

lemma find_index_Some:
  "find_index P xs = Some i \<Longrightarrow> i < length xs \<and> P (xs ! i) \<and> (\<forall>j < i. \<not> P (xs ! j))"
  by (auto simp: find_index_def find_Some_iff)

definition ids :: "DiscoveryRecord list \<Rightarrow> string list" where
  "ids rs = filter (\<lambda>i. i \<noteq> []) (map rec_id rs)"

text \<open>The invariant of the cache: stable ids are unique.\<close>

definition cache_ok :: "DiscoveryRecord list \<Rightarrow> bool" where
  "cache_ok rs \<longleftrightarrow> distinct (ids rs)"

lemma ids_append [simp]: "ids (xs @ ys) = ids xs @ ids ys"
  by (simp add: ids_def)

lemma ids_Cons [simp]: "ids (r # rs) = (if rec_id r = [] then ids rs else rec_id r # ids rs)"
  and ids_Nil [simp]: "ids [] = []"
  by (simp_all add: ids_def)

lemma set_ids: "set (ids rs) = rec_id ` set rs - {[]}"
  by (auto simp: ids_def)

lemma ids_update:
  assumes "i < length rs"
  shows "ids (rs[i := r]) = ids (take i rs) @ ids [r] @ ids (drop (Suc i) rs)"
    and "ids rs = ids (take i rs) @ ids [rs ! i] @ ids (drop (Suc i) rs)"
  using arg_cong [OF id_take_nth_drop [OF assms], of ids] by (simp_all add: upd_conv_take_nth_drop assms)

lemma cache_ok_same_id:
  assumes i: "i < length rs" and r: "rec_id r = rec_id (rs ! i) \<or> rec_id r = []" and ok: "cache_ok rs"
  shows "cache_ok (rs[i := r])"
proof -
  have "distinct (ids (take i rs) @ ids [rs ! i] @ ids (drop (Suc i) rs))"
    using ok ids_update(2) [OF i] by (simp only: cache_ok_def)
  then show ?thesis
    unfolding cache_ok_def ids_update(1) [OF i] using r by (auto split: if_splits)
qed

lemma cache_ok_merge_one [preserves]:
  assumes "cache_ok rs"
  shows "cache_ok (merge_one now rs r)"
proof (cases "find_index (matches r) rs")
  case None
  then have "rec_id r \<notin> set (ids rs) \<or> rec_id r = []"
    by (auto simp: find_index_None matches_def set_ids)
  with None assms show ?thesis
    by (auto simp: merge_one_def cache_ok_def Let_def)
next
  case (Some i)
  then have "i < length rs" "matches r (rs ! i)"
    using find_index_Some [OF Some] by auto
  with Some assms show ?thesis
    by (auto simp: merge_one_def Let_def matches_def intro!: cache_ok_same_id)
qed

lemma cache_ok_Merge [preserves]: "cache_ok rs \<Longrightarrow> cache_ok (Merge incoming now rs)"
  unfolding Merge_def by (induction incoming arbitrary: rs) (simp_all add: cache_ok_merge_one)

lemma cache_ok_Expire [preserves]: "cache_ok (Expire now rs) = cache_ok rs"
proof -
  have "map rec_id (Expire now rs) = map rec_id rs" by (simp add: Expire_def)
  then show ?thesis by (simp add: cache_ok_def ids_def)
qed

lemma FindById_unique:
  assumes "cache_ok rs" and i: "i < length rs" and "rec_id (rs ! i) \<noteq> []"
  shows "FindById (rec_id (rs ! i)) rs = Some (rs ! i)"
proof -
  have "rec_id (rs ! i) \<notin> set (ids (take i rs))"
  proof -
    have "distinct (ids (take i rs) @ ids [rs ! i] @ ids (drop (Suc i) rs))"
      using assms(1) ids_update(2) [OF i] by (simp only: cache_ok_def)
    then show ?thesis using assms(3) by simp
  qed
  moreover have "rs ! j \<in> set (take i rs)" if "j < i" for j
    using that i nth_mem [of j "take i rs"] by simp
  ultimately have "\<forall>j < i. rec_id (rs ! j) \<noteq> rec_id (rs ! i)"
    using assms(3) by (metis (no_types, lifting) DiffI image_eqI set_ids singletonD)
  with assms show ?thesis
    by (auto simp: FindById_def find_Some_iff)
qed

lemma find_update_other: "\<not> P x \<Longrightarrow> n < length xs \<Longrightarrow> \<not> P (xs ! n) \<Longrightarrow> find P (xs[n := x]) = find P xs"
proof (induction xs arbitrary: n)
  case (Cons a xs)
  then show ?case by (cases n) auto
qed simp

lemma FindById_update:
  assumes "cache_ok rs" and "n < length rs" and "rec_id r = rec_id (rs ! n)" and "rec_id r \<noteq> []"
  shows "FindById i (rs[n := r]) = (if i = rec_id r then Some r else FindById i rs)"
  using assms FindById_unique [OF cache_ok_same_id [of n rs r], of n]
    find_update_other [of "\<lambda>x. rec_id x = i" r n rs] by (auto simp: FindById_def)

lemma find_append_new: "find P xs = None \<Longrightarrow> find P (xs @ ys) = find P ys"
  by (induction xs) (auto split: if_splits)

lemma find_append_old: "find P ys = None \<Longrightarrow> find P (xs @ ys) = find P xs"
  by (induction xs) auto

lemma FindById_append:
  assumes "rec_id r \<notin> rec_id ` set rs" and "rec_id r \<noteq> []"
  shows "FindById i (rs @ [r]) = (if i = rec_id r then Some r else FindById i rs)"
proof (cases "i = rec_id r")
  case True
  with assms have "find (\<lambda>x. rec_id x = i) rs = None" by (simp add: find_None_iff) (metis image_eqI)
  with True assms show ?thesis by (simp add: FindById_def find_append_new)
next
  case False
  then show ?thesis by (simp add: FindById_def find_append_old)
qed

lemma keep_fallbacks_set [simp]: "set (keep_fallbacks old new) = set new \<union> set old"
  unfolding keep_fallbacks_def by (induction old arbitrary: new) auto

lemma keep_fallbacks_prefix: "take (length new) (keep_fallbacks old new) = new"
proof -
  have "\<exists>zs. keep_fallbacks old new = new @ zs"
    unfolding keep_fallbacks_def
  proof (induction old arbitrary: new)
    case (Cons a old)
    then show ?case
      using Cons.IH [of "new @ [a]"] by auto
  qed simp
  then show ?thesis by auto
qed

lemma keep_fallbacks_distinct: "distinct new \<Longrightarrow> distinct (keep_fallbacks old new)"
  unfolding keep_fallbacks_def by (induction old arbitrary: new) auto

definition old_addresses :: "string \<Rightarrow> DiscoveryRecord list \<Rightarrow> string list" where
  "old_addresses i rs = (case FindById i rs of None \<Rightarrow> [] | Some r \<Rightarrow> addresses r)"

text \<open>An advertisement with a stable id: where the device is now, and where else it may be.\<close>

definition refreshed :: "int \<Rightarrow> DiscoveryRecord \<Rightarrow> DiscoveryRecord list \<Rightarrow> DiscoveryRecord \<Rightarrow> bool" where
  "refreshed now r rs q \<longleftrightarrow> online q \<and> \<not> goodbye q \<and> address q = address r \<and> rec_port q = rec_port r \<and>
     expiresAt q = now + 1000 * int (unat (ttlSeconds r)) \<and>
     starts_with (addresses r) (addresses q) \<and>
     set (addresses q) = set (if addresses r = [] \<and> address r \<noteq> [] then [address r] else addresses r) \<union>
       set (old_addresses (rec_id r) rs)"

lemma merge_one_refreshes:
  assumes ok: "cache_ok rs" and r: "rec_id r \<noteq> []" "\<not> goodbye r" "ttlSeconds r \<noteq> 0"
  shows "\<exists>q. FindById (rec_id r) (merge_one now rs r) = Some q \<and> refreshed now r rs q"
    and "i \<noteq> rec_id r \<Longrightarrow> FindById i (merge_one now rs r) = FindById i rs"
proof -
  define new where "new = (if addresses r = [] \<and> address r \<noteq> [] then [address r] else addresses r)"
  have pre: "starts_with (addresses r) (keep_fallbacks zs new)" for zs
    using keep_fallbacks_prefix [of new zs] by (auto simp: starts_with_take new_def split: if_splits)
  have pre': "starts_with (addresses r) new" by (simp add: new_def starts_with_take)
  have "(\<exists>q. FindById (rec_id r) (merge_one now rs r) = Some q \<and> refreshed now r rs q) \<and>
    (i \<noteq> rec_id r \<longrightarrow> FindById i (merge_one now rs r) = FindById i rs)"
  proof (cases "find_index (matches r) rs")
    case None
    then have nw: "rec_id r \<notin> rec_id ` set rs"
      using r by (auto simp: find_index_None matches_def)
    then have "FindById (rec_id r) rs = None"
      by (auto simp: FindById_def find_None_iff image_iff)
    with None nw r pre' show ?thesis
      by (simp add: merge_one_def Let_def FindById_append refreshed_def old_addresses_def flip: new_def)
  next
    case (Some n)
    then have n: "n < length rs" "rec_id (rs ! n) = rec_id r"
      using find_index_Some [OF Some] r by (auto simp: matches_def)
    then have "FindById (rec_id r) rs = Some (rs ! n)"
      using FindById_unique [OF ok n(1)] r by simp
    with Some n r ok pre show ?thesis
      by (simp add: merge_one_def Let_def FindById_update refreshed_def old_addresses_def flip: new_def)
  qed
  then show "\<exists>q. FindById (rec_id r) (merge_one now rs r) = Some q \<and> refreshed now r rs q"
    and "i \<noteq> rec_id r \<Longrightarrow> FindById i (merge_one now rs r) = FindById i rs" by auto
qed

text \<open>The cache keeps one record per stable id: an advertisement with an id puts the device online at
  its newest address, keeps its older addresses behind it as fallbacks, sets its deadline from the TTL, touches no
  other device, and leaves ids unique.\<close>

lemma advertisement_refreshes_one_device:
  assumes "cache_ok rs" and "rec_id r \<noteq> []" and "\<not> goodbye r" and "ttlSeconds r \<noteq> 0"
  shows "cache_ok (Merge [r] now rs) \<and>
    (\<exists>q. FindById (rec_id r) (Merge [r] now rs) = Some q \<and> refreshed now r rs q) \<and>
    (\<forall>i. i = rec_id r \<or> FindById i (Merge [r] now rs) = FindById i rs)"
  using merge_one_refreshes [OF assms] cache_ok_merge_one [OF assms(1)] by (auto simp: Merge_def)

lemma advertisement_refreshes_one_device_witness:
  "\<exists>q. FindById ''a'' (Merge [DiscoveryRecord_default\<lparr>rec_id := ''a'', address := ''10.0.0.1''\<rparr>] 5 []) = Some q \<and> online q"
  using advertisement_refreshes_one_device [of "[]" "DiscoveryRecord_default\<lparr>rec_id := ''a'', address := ''10.0.0.1''\<rparr>" 5]
  by (auto simp: cache_ok_def DiscoveryRecord_default_def refreshed_def)

lemma Merge_append: "Merge (xs @ ys) now rs = Merge ys now (Merge xs now rs)"
  by (simp add: Merge_def)

text \<open>A device whose deadline has passed is offline after \<^verbatim>\<open>Expire\<close>, one whose deadline lies
  ahead keeps its state, and no device is lost; so a cached device is online only while an advertisement covers it.\<close>

lemma expiry_is_exact:
  "length (Expire now rs) = length rs \<and>
   (\<forall>i. i \<ge> length rs \<or>
      (let a = rs ! i; b = Expire now rs ! i in
       online b = (online a \<and> (expiresAt a = 0 \<or> now < expiresAt a)) \<and> b\<lparr>online := online a\<rparr> = a))"
  by (auto simp: Expire_def Let_def not_le split: if_splits)

end
