(* ===== verification/NetworkSafety.thy ===== *)
theory NetworkSafety
  imports Prelude
begin

text \<open>
  The trusted-LAN policy (\<^verbatim>\<open>src/src/net/NetworkSafety.h\<close>,
  \<^verbatim>\<open>src/src/net/NetworkSafety.cpp\<close>).  The answers of the resolver and of the Windows
  network list are arguments; a GUID is a number.
\<close>

subsection \<open>Addresses\<close>

definition IsLoopback4 :: "u32 \<Rightarrow> bool" where
  "IsLoopback4 hostOrder \<longleftrightarrow> and hostOrder 0xFF000000 = 0x7F000000"

definition IsPrivateOrLinkLocal4 :: "u32 \<Rightarrow> bool" where
  "IsPrivateOrLinkLocal4 hostOrder \<longleftrightarrow>
     and hostOrder 0xFF000000 = 0x0A000000 \<or> and hostOrder 0xFFF00000 = 0xAC100000 \<or>
     and hostOrder 0xFFFF0000 = 0xC0A80000 \<or> and hostOrder 0xFFFF0000 = 0xA9FE0000"

text \<open>\<^verbatim>\<open>sockaddr_storage\<close>: the family with the address in host order or its 16 bytes.\<close>

datatype SockAddr = Inet u32 | Inet6 bytes

record ResolvedAddress =
  storage :: SockAddr
  numeric :: string

text \<open>One item of \<^verbatim>\<open>getaddrinfo\<close>: its address (\<open>None\<close> for another family) and
  what \<^verbatim>\<open>getnameinfo\<close> makes of it.\<close>

record AddrItem =
  item_addr :: "SockAddr option"
  item_name :: "string option"

definition resolve_item :: "AddrItem \<Rightarrow> ResolvedAddress list" where
  "resolve_item i =
     (case (item_addr i, item_name i) of
        (Some a, Some n) \<Rightarrow> [\<lparr>storage = a, numeric = n\<rparr>]
      | _ \<Rightarrow> [])"

definition ResolveTarget :: "AddrItem list option \<Rightarrow> bool \<times> ResolvedAddress list" where
  "ResolveTarget answer =
     (case answer of
        None \<Rightarrow> (False, [])
      | Some items \<Rightarrow> (let addresses = concat (map resolve_item items) in (addresses \<noteq> [], addresses)))"

definition IsLoopback :: "ResolvedAddress \<Rightarrow> bool" where
  "IsLoopback a =
     (case storage a of
        Inet v \<Rightarrow> IsLoopback4 v
      | Inet6 b \<Rightarrow> b = replicate 15 0 @ [1])"

definition IsPrivateOrLinkLocal :: "ResolvedAddress \<Rightarrow> bool" where
  "IsPrivateOrLinkLocal a =
     (case storage a of
        Inet v \<Rightarrow> IsPrivateOrLinkLocal4 v
      | Inet6 b \<Rightarrow> and (b ! 0) 0xFE = 0xFC \<or> (b ! 0 = 0xFE \<and> and (b ! 1) 0xC0 = 0x80))"

subsection \<open>The Windows network of a route\<close>

datatype Category = PublicNetwork | PrivateNetwork | DomainNetwork

text \<open>One round of the enumeration; \<open>None\<close> in a field is a failed call.\<close>

record NetConnection =
  adapter :: "nat option"
  connected :: "bool option"
  network_ok :: bool
  category :: "Category option"

text \<open>The adapter of the best route (\<open>None\<close> when a call fails), whether the list manager and the
  enumerator could be made, the rounds of the enumeration, and whether it ended properly.\<close>

record RouteAnswer =
  route_adapter :: "nat option"
  manager_ok :: bool
  connections :: "NetConnection list"
  ends_properly :: bool

fun walk_connections :: "nat \<Rightarrow> bool \<Rightarrow> bool \<Rightarrow> NetConnection list \<Rightarrow> bool" where
  "walk_connections adapterId ends foundConnectedRoute [] = (if ends then foundConnectedRoute else False)"
| "walk_connections adapterId ends foundConnectedRoute (c # cs) =
     (case adapter c of
        None \<Rightarrow> False
      | Some candidateId \<Rightarrow>
          (if candidateId \<noteq> adapterId then walk_connections adapterId ends foundConnectedRoute cs
           else (case connected c of
                   None \<Rightarrow> False
                 | Some False \<Rightarrow> walk_connections adapterId ends foundConnectedRoute cs
                 | Some True \<Rightarrow>
                     (if \<not> network_ok c then False
                      else (case category c of
                              None \<Rightarrow> False
                            | Some cat \<Rightarrow>
                                if cat \<noteq> PrivateNetwork \<and> cat \<noteq> DomainNetwork then False
                                else walk_connections adapterId ends True cs)))))"

definition HasTrustedWindowsNetwork :: "RouteAnswer \<Rightarrow> bool" where
  "HasTrustedWindowsNetwork r =
     (case route_adapter r of
        None \<Rightarrow> False
      | Some adapterId \<Rightarrow>
          if \<not> manager_ok r then False
          else walk_connections adapterId (ends_properly r) False (connections r))"

subsection \<open>The policy\<close>

datatype SafetyReason =
  Unresolved | EnforcementDisabled | NonPrivateAddress | LoopbackSelfTest | RouteNotTrusted | TrustedPrivateLan

record NetworkSafetyResult =
  allowed :: bool
  reason :: SafetyReason
  resolvedTarget :: string

fun address_loop :: "bool \<Rightarrow> ResolvedAddress list \<Rightarrow> bool option" where
  "address_loop allLoopback [] = Some allLoopback"
| "address_loop allLoopback (a # as) =
     (let loopback = IsLoopback a in
      if \<not> loopback \<and> \<not> IsPrivateOrLinkLocal a then None else address_loop (allLoopback \<and> loopback) as)"

definition CheckTrustedLan ::
    "AddrItem list option \<Rightarrow> (ResolvedAddress \<Rightarrow> RouteAnswer) \<Rightarrow> bool \<Rightarrow> NetworkSafetyResult" where
  "CheckTrustedLan answer route requirePrivateNetwork =
     (let (ok, addresses) = ResolveTarget answer in
      if \<not> ok then \<lparr>allowed = False, reason = Unresolved, resolvedTarget = []\<rparr>
      else if \<not> requirePrivateNetwork then
        \<lparr>allowed = True, reason = EnforcementDisabled, resolvedTarget = numeric (hd addresses)\<rparr>
      else (case address_loop True addresses of
              None \<Rightarrow> \<lparr>allowed = False, reason = NonPrivateAddress, resolvedTarget = []\<rparr>
            | Some True \<Rightarrow> \<lparr>allowed = True, reason = LoopbackSelfTest, resolvedTarget = numeric (hd addresses)\<rparr>
            | Some False \<Rightarrow>
                if list_ex (\<lambda>a. \<not> IsLoopback a \<and> \<not> HasTrustedWindowsNetwork (route a)) addresses
                then \<lparr>allowed = False, reason = RouteNotTrusted, resolvedTarget = []\<rparr>
                else \<lparr>allowed = True, reason = TrustedPrivateLan, resolvedTarget = numeric (hd addresses)\<rparr>))"

subsection \<open>The ranges\<close>

lemma and_high:
  "and (x :: 'a::len word) (not (mask n)) = push_bit n (drop_bit n x)"
  by (rule bit_word_eqI) (auto simp: bit_simps)

lemma push_drop_eq:
  fixes x c :: "'a::len word"
  assumes "drop_bit n (push_bit n c) = c"
  shows "and x (not (mask n)) = push_bit n c \<longleftrightarrow> drop_bit n x = c"
proof -
  have "drop_bit n (push_bit n (drop_bit n x)) = drop_bit n x"
    by (rule bit_word_eqI) (auto simp: bit_simps dest: bit_imp_le_length)
  with assms show ?thesis unfolding and_high by metis
qed

lemma drop_bit_uint: "drop_bit n (x :: 'a::len word) = c \<longleftrightarrow> uint x div 2 ^ n = uint c"
proof -
  have "take_bit LENGTH('a) (uint x) = uint x"
    using unsigned_less [of x, where 'a = int] by (simp add: take_bit_int_eq_self)
  then have "uint (drop_bit n x) = uint x div 2 ^ n"
    by (subst unsigned_drop_bit_eq) (simp add: drop_bit_eq_div)
  then show ?thesis by (simp only: word_uint_eq_iff)
qed

text \<open>An address block, by its base and prefix length.\<close>

definition in_block4 :: "nat \<Rightarrow> nat \<Rightarrow> nat \<Rightarrow> nat \<Rightarrow> nat \<Rightarrow> u32 \<Rightarrow> bool" where
  "in_block4 a b c d len v \<longleftrightarrow>
     uint v div 2 ^ (32 - len) = (int a * 2 ^ 24 + int b * 2 ^ 16 + int c * 2 ^ 8 + int d) div 2 ^ (32 - len)"

lemma block_masks:
  "(0xFF000000 :: u32) = not (mask 24)" "(0xFFF00000 :: u32) = not (mask 20)" "(0xFFFF0000 :: u32) = not (mask 16)"
  by (simp_all add: mask_eq_exp_minus_1)

lemma block_bases:
  "(0x7F000000 :: u32) = push_bit 24 0x7F" "(0x0A000000 :: u32) = push_bit 24 0x0A"
  "(0xAC100000 :: u32) = push_bit 20 0xAC1" "(0xC0A80000 :: u32) = push_bit 16 0xC0A8"
  "(0xA9FE0000 :: u32) = push_bit 16 0xA9FE"
  by simp_all

lemma IsLoopback4_block: "IsLoopback4 v \<longleftrightarrow> in_block4 127 0 0 0 8 v"
  unfolding IsLoopback4_def block_masks block_bases
  by (subst push_drop_eq) (simp_all add: drop_bit_uint in_block4_def)

lemma IsPrivateOrLinkLocal4_blocks:
  "IsPrivateOrLinkLocal4 v \<longleftrightarrow> in_block4 10 0 0 0 8 v \<or> in_block4 172 16 0 0 12 v \<or>
     in_block4 192 168 0 0 16 v \<or> in_block4 169 254 0 0 16 v"
proof -
  have "and v 0xFF000000 = 0x0A000000 \<longleftrightarrow> in_block4 10 0 0 0 8 v"
    unfolding block_masks block_bases by (subst push_drop_eq) (simp_all add: drop_bit_uint in_block4_def)
  moreover have "and v 0xFFF00000 = 0xAC100000 \<longleftrightarrow> in_block4 172 16 0 0 12 v"
    unfolding block_masks block_bases by (subst push_drop_eq) (simp_all add: drop_bit_uint in_block4_def)
  moreover have "and v 0xFFFF0000 = 0xC0A80000 \<longleftrightarrow> in_block4 192 168 0 0 16 v"
    unfolding block_masks block_bases by (subst push_drop_eq) (simp_all add: drop_bit_uint in_block4_def)
  moreover have "and v 0xFFFF0000 = 0xA9FE0000 \<longleftrightarrow> in_block4 169 254 0 0 16 v"
    unfolding block_masks block_bases by (subst push_drop_eq) (simp_all add: drop_bit_uint in_block4_def)
  ultimately show ?thesis by (simp add: IsPrivateOrLinkLocal4_def)
qed

text \<open>Unique local addresses fc00::/7 and link-local addresses fe80::/10.\<close>

definition ula_or_link_local :: "bytes \<Rightarrow> bool" where
  "ula_or_link_local b \<longleftrightarrow> uint (b ! 0) div 2 = 0x7E \<or> (b ! 0 = 0xFE \<and> uint (b ! 1) div 64 = 2)"

lemma v6_blocks:
  "(and x 0xFE = (0xFC :: byte)) \<longleftrightarrow> uint x div 2 = 0x7E" "(and x 0xC0 = (0x80 :: byte)) \<longleftrightarrow> uint x div 64 = 2"
proof -
  have m: "(0xFE :: byte) = not (mask 1)" "(0xC0 :: byte) = not (mask 6)"
    and b: "(0xFC :: byte) = push_bit 1 0x7E" "(0x80 :: byte) = push_bit 6 2"
    by (simp_all add: mask_eq_exp_minus_1)
  show "(and x 0xFE = (0xFC :: byte)) \<longleftrightarrow> uint x div 2 = 0x7E"
    unfolding m b by (subst push_drop_eq) (simp_all add: drop_bit_uint)
  show "(and x 0xC0 = (0x80 :: byte)) \<longleftrightarrow> uint x div 64 = 2"
    unfolding m b by (subst push_drop_eq) (simp_all add: drop_bit_uint)
qed

definition private_range :: "SockAddr \<Rightarrow> bool" where
  "private_range a =
     (case a of
        Inet v \<Rightarrow> in_block4 10 0 0 0 8 v \<or> in_block4 172 16 0 0 12 v \<or> in_block4 192 168 0 0 16 v \<or>
          in_block4 169 254 0 0 16 v
      | Inet6 b \<Rightarrow> ula_or_link_local b)"

lemma IsPrivateOrLinkLocal_range: "IsPrivateOrLinkLocal a = private_range (storage a)"
  by (simp add: IsPrivateOrLinkLocal_def private_range_def IsPrivateOrLinkLocal4_blocks ula_or_link_local_def v6_blocks
      split: SockAddr.split)

subsection \<open>The trusted route\<close>

text \<open>The connections of the route's adapter are readable, and those that are connected are private.\<close>

definition conn_fine :: "nat \<Rightarrow> NetConnection \<Rightarrow> bool" where
  "conn_fine adapterId c \<longleftrightarrow> adapter c \<noteq> None \<and>
     (adapter c = Some adapterId \<longrightarrow>
        connected c = Some False \<or>
        (connected c = Some True \<and> network_ok c \<and> (category c = Some PrivateNetwork \<or> category c = Some DomainNetwork)))"

definition conn_live :: "nat \<Rightarrow> NetConnection \<Rightarrow> bool" where
  "conn_live adapterId c \<longleftrightarrow> adapter c = Some adapterId \<and> connected c = Some True"

lemma walk_connections_iff:
  "walk_connections i ends got cs \<longleftrightarrow>
     ends \<and> list_all (conn_fine i) cs \<and> (got \<or> list_ex (conn_live i) cs)"
  by (induction i ends got cs rule: walk_connections.induct)
    (auto simp: conn_fine_def conn_live_def split: option.split bool.split)

definition trusted_route :: "RouteAnswer \<Rightarrow> bool" where
  "trusted_route r \<longleftrightarrow> (\<exists>i. route_adapter r = Some i \<and> manager_ok r \<and> ends_properly r \<and>
     list_all (conn_fine i) (connections r) \<and> list_ex (conn_live i) (connections r))"

lemma HasTrustedWindowsNetwork_iff: "HasTrustedWindowsNetwork r = trusted_route r"
  by (auto simp: HasTrustedWindowsNetwork_def trusted_route_def walk_connections_iff split: option.split)

lemma address_loop_eq:
  "address_loop al as =
     (if list_all (\<lambda>a. IsLoopback a \<or> IsPrivateOrLinkLocal a) as then Some (al \<and> list_all IsLoopback as) else None)"
  by (induction al as rule: address_loop.induct) (auto simp: Let_def)


end
