(* ===== verification/Panel.thy ===== *)
theory Panel
  imports Prelude
begin

text \<open>
  The shared panel size (\<^verbatim>\<open>PanelState\<close> and its operations in
  \<^verbatim>\<open>src/src/app/SenderApp.cpp\<close>): all virtual monitors have one custom resolution, so only
  senders of one panel size stream at a time.  The operations run under a mutex, so they are atomic steps
  of the senders that share the claim; \<open>panel_step\<close> interleaves them.
\<close>

record PanelState =
  panel_width :: u32
  panel_height :: u32
  holders :: int

definition Panel :: PanelState where
  "Panel = \<lparr>panel_width = 0, panel_height = 0, holders = 0\<rparr>"

text \<open>The result, the size that blocks it, and the new state.\<close>

definition AcquirePanel :: "u32 \<Rightarrow> u32 \<Rightarrow> PanelState \<Rightarrow> bool \<times> (u32 \<times> u32) option \<times> PanelState" where
  "AcquirePanel w h p =
     (if 0 < holders p \<and> (panel_width p \<noteq> w \<or> panel_height p \<noteq> h)
      then (False, Some (panel_width p, panel_height p), p)
      else (True, None, p\<lparr>panel_width := w, panel_height := h, holders := holders p + 1\<rparr>))"

definition ReleasePanel :: "PanelState \<Rightarrow> PanelState" where
  "ReleasePanel p =
     (if holders p - 1 \<le> 0 then p\<lparr>holders := 0, panel_width := 0, panel_height := 0\<rparr>
      else p\<lparr>holders := holders p - 1\<rparr>)"

definition RetunePanel :: "u32 \<Rightarrow> u32 \<Rightarrow> PanelState \<Rightarrow> bool \<times> PanelState" where
  "RetunePanel w h p =
     (if 1 < holders p then (False, p) else (True, p\<lparr>panel_width := w, panel_height := h\<rparr>))"

text \<open>\<^verbatim>\<open>~PanelHolder\<close>.\<close>

definition PanelHolder_end :: "bool \<Rightarrow> PanelState \<Rightarrow> PanelState" where
  "PanelHolder_end held p = (if held then ReleasePanel p else p)"

subsection \<open>The size of a panel\<close>

definition kMinAxis :: int where "kMinAxis = 320"
definition kMaxAxis :: int where "kMaxAxis = 8192"
definition kMaxPixels :: int where "kMaxPixels = 8192 * 4096"

definition NormalizePanelSize :: "int \<Rightarrow> int \<Rightarrow> (u32 \<times> u32) option" where
  "NormalizePanelSize rawWidth rawHeight =
     (if rawWidth < kMinAxis \<or> kMaxAxis < rawWidth \<or> rawHeight < kMinAxis \<or> kMaxAxis < rawHeight \<or>
         kMaxPixels < rawWidth * rawHeight
      then None
      else
        (let w = and (of_int rawWidth) (not 1) :: u32; h = and (of_int rawHeight) (not 1) in
         if 2 \<le> w \<and> 2 \<le> h then Some (w, h) else None))"

lemma even_part: "uint (and (x :: u32) (not 1)) = 2 * (uint x div 2)"
proof -
  have whole: "take_bit 32 (uint x) = uint x"
    using unsigned_less [of x, where 'a = int] by (simp add: take_bit_int_eq_self)
  have "and x (not (mask n)) = push_bit n (drop_bit n x)" for n
    by (rule bit_word_eqI) (auto simp: bit_simps)
  from this [of 1] have "and x (not 1) = push_bit 1 (drop_bit 1 x)" by simp
  then have "uint (and x (not 1)) = take_bit 32 (push_bit 1 (drop_bit 1 (uint x)))"
    by (simp only: unsigned_push_bit_eq unsigned_drop_bit_eq) (simp add: whole)
  also have "\<dots> = 2 * (uint x div 2)"
    using unsigned_less [of x, where 'a = int]
    by (simp add: push_bit_eq_mult drop_bit_eq_div take_bit_int_eq_self)
  finally show ?thesis .
qed

text \<open>A panel size is accepted exactly when both axes lie in 320..8192 with at most 8192 * 4096
  pixels, and then it is the reported size rounded down to even numbers: it never exceeds the report, both axes
  are even (as 4:2:0 chroma needs) and at least 320.\<close>

lemma panel_size_is_even_and_bounded:
  "case NormalizePanelSize rw rh of
     None \<Rightarrow> \<not> (320 \<le> rw \<and> rw \<le> 8192 \<and> 320 \<le> rh \<and> rh \<le> 8192 \<and> rw * rh \<le> 8192 * 4096)
   | Some (w, h) \<Rightarrow> 320 \<le> rw \<and> rw \<le> 8192 \<and> 320 \<le> rh \<and> rh \<le> 8192 \<and> rw * rh \<le> 8192 * 4096 \<and>
       uint w = rw - rw mod 2 \<and> uint h = rh - rh mod 2 \<and> 320 \<le> uint w \<and> 320 \<le> uint h"
proof -
  have ev: "uint (and (of_int r :: u32) (not 1)) = r - r mod 2 \<and> 2 \<le> and (of_int r :: u32) (not 1) \<and>
      320 \<le> r - r mod 2"
    if "320 \<le> r" "r \<le> 8192" for r :: int
  proof -
    have "uint (of_int r :: u32) = r" using that by (simp add: uint_word_of_int)
    then have u: "uint (and (of_int r :: u32) (not 1)) = r - r mod 2"
      using even_part [of "of_int r"] by (simp add: minus_mod_eq_mult_div)
    moreover have "320 \<le> r - r mod 2" using that by presburger
    ultimately show ?thesis by (simp add: word_le_def)
  qed
  show ?thesis
    using ev [of rw] ev [of rh]
    by (auto simp: NormalizePanelSize_def kMinAxis_def kMaxAxis_def kMaxPixels_def Let_def split: option.split)
qed

subsection \<open>Several senders\<close>

text \<open>The claim, the size each streaming sender uses, and whether a rotation was refused while the
  claim was shared (the code then logs that a picture may be letterboxed and rotates all the same).\<close>

record Shared =
  panel :: PanelState
  streaming :: "nat \<rightharpoonup> u32 \<times> u32"
  refused :: bool

inductive panel_step :: "Shared \<Rightarrow> Shared \<Rightarrow> bool" where
  join: "streaming s i = None \<Longrightarrow> AcquirePanel w h (panel s) = (True, b, p) \<Longrightarrow>
    panel_step s (s\<lparr>panel := p, streaming := (streaming s)(i \<mapsto> (w, h))\<rparr>)"
| blocked: "streaming s i = None \<Longrightarrow> AcquirePanel w h (panel s) = (False, b, p) \<Longrightarrow>
    panel_step s (s\<lparr>panel := p\<rparr>)"
| leave: "streaming s i = Some wh \<Longrightarrow>
    panel_step s (s\<lparr>panel := PanelHolder_end True (panel s), streaming := (streaming s)(i := None)\<rparr>)"
| rotate: "streaming s i = Some wh \<Longrightarrow> RetunePanel w h (panel s) = (ok, p) \<Longrightarrow>
    panel_step s (s\<lparr>panel := p, streaming := (streaming s)(i \<mapsto> (w, h)), refused := (refused s \<or> \<not> ok)\<rparr>)"

inductive_cases panel_stepE: "panel_step s s'"

definition nobody :: Shared where
  "nobody = \<lparr>panel = Panel, streaming = Map.empty, refused = False\<rparr>"

definition panel_inv :: "Shared \<Rightarrow> bool" where
  "panel_inv s \<longleftrightarrow> finite (dom (streaming s)) \<and> holders (panel s) = int (card (dom (streaming s))) \<and>
     (streaming s = Map.empty \<longrightarrow> panel s = Panel) \<and>
     (refused s \<or> ran (streaming s) \<subseteq> {(panel_width (panel s), panel_height (panel s))})"

lemma panel_inv_nobody: "panel_inv nobody"
  by (simp add: panel_inv_def nobody_def Panel_def)

lemma dom_empty_card: "finite (dom m) \<Longrightarrow> card (dom m) = 0 \<longleftrightarrow> m = Map.empty"
  by auto

lemma panel_inv_step [preserves]:
  assumes "panel_step s s'" and inv: "panel_inv s"
  shows "panel_inv s'"
  using assms(1)
proof cases
  case (join i w h b p)
  then have "i \<notin> dom (streaming s)" by auto
  with join inv show ?thesis
    by (auto simp: panel_inv_def AcquirePanel_def dom_empty_card split: if_splits)
next
  case (blocked i w h b p)
  with inv show ?thesis by (auto simp: AcquirePanel_def split: if_splits)
next
  case (leave i wh)
  have fin: "finite (dom (streaming s))" and card: "holders (panel s) = int (card (dom (streaming s)))"
    using inv by (simp_all add: panel_inv_def)
  have "i \<in> dom (streaming s)" using leave by auto
  with fin have dec: "int (card (dom (streaming s) - {i})) = holders (panel s) - 1"
    using card card_Suc_Diff1 [of "dom (streaming s)" i] by simp
  define m where "m = (streaming s)(i := None)"
  have m: "finite (dom m)" "int (card (dom m)) = holders (panel s) - 1" "ran m \<subseteq> ran (streaming s)"
    using fin dec by (auto simp: m_def ran_def)
  have s': "s' = s\<lparr>panel := ReleasePanel (panel s), streaming := m\<rparr>"
    using leave by (simp add: m_def PanelHolder_end_def)
  show ?thesis
  proof (cases "m = Map.empty")
    case True
    with m have "holders (panel s) = 1" by simp
    with True s' show ?thesis by (simp add: panel_inv_def ReleasePanel_def Panel_def)
  next
    case False
    with m have "0 < holders (panel s) - 1" using dom_empty_card [of m] by (metis of_nat_0_less_iff neq0_conv)
    with False s' m inv show ?thesis by (auto simp: panel_inv_def ReleasePanel_def)
  qed
next
  case (rotate i wh w h ok p)
  then have i: "i \<in> dom (streaming s)" by auto
  show ?thesis
  proof (cases ok)
    case True
    with rotate have "holders (panel s) \<le> 1" "p = (panel s)\<lparr>panel_width := w, panel_height := h\<rparr>"
      by (auto simp: RetunePanel_def split: if_splits)
    moreover from this i inv have "dom (streaming s) = {i}"
      by (auto simp: panel_inv_def card_le_Suc0_iff_eq)
    ultimately show ?thesis
      using rotate inv True by (auto simp: panel_inv_def ran_def)
  next
    case False
    with rotate i inv show ?thesis
      by (auto simp: panel_inv_def RetunePanel_def insert_absorb split: if_splits)
  qed
qed

lemma panel_reachable: "panel_step\<^sup>*\<^sup>* nobody s \<Longrightarrow> panel_inv s"
  by (induction rule: rtranclp_induct) (auto intro: panel_inv_nobody panel_inv_step)



end
