(* ===== verification/Input.thy ===== *)
theory Input
  imports Protocol
begin

text \<open>
  Input injection (\<^verbatim>\<open>src/src/input/InputInjector.h\<close>,
  \<^verbatim>\<open>src/src/input/InputInjector.cpp\<close>): receiver messages become mouse and pen events.
  The events handed to Windows are kept in order in the state; the geometry of the virtual desktop, the
  success of the pen calls and the two angles that \<^verbatim>\<open>libm\<close> gives for a pen position are
  arguments.  Coordinates (\<^verbatim>\<open>LONG\<close>) are integers.
\<close>

record RECT =
  left :: int
  upper :: int
  right :: int
  bottom :: int

record POINT =
  pt_x :: int
  pt_y :: int

definition RECT_zero :: RECT where
  "RECT_zero = \<lparr>left = 0, upper = 0, right = 0, bottom = 0\<rparr>"

subsection \<open>Windows constants\<close>

definition MOUSEEVENTF_MOVE :: u32 where "MOUSEEVENTF_MOVE = 0x0001"
definition MOUSEEVENTF_LEFTDOWN :: u32 where "MOUSEEVENTF_LEFTDOWN = 0x0002"
definition MOUSEEVENTF_LEFTUP :: u32 where "MOUSEEVENTF_LEFTUP = 0x0004"
definition MOUSEEVENTF_WHEEL :: u32 where "MOUSEEVENTF_WHEEL = 0x0800"
definition MOUSEEVENTF_HWHEEL :: u32 where "MOUSEEVENTF_HWHEEL = 0x1000"
definition MOUSEEVENTF_VIRTUALDESK :: u32 where "MOUSEEVENTF_VIRTUALDESK = 0x4000"
definition MOUSEEVENTF_ABSOLUTE :: u32 where "MOUSEEVENTF_ABSOLUTE = 0x8000"
definition POINTER_FLAG_INRANGE :: u32 where "POINTER_FLAG_INRANGE = 0x00000002"
definition POINTER_FLAG_INCONTACT :: u32 where "POINTER_FLAG_INCONTACT = 0x00000004"
definition POINTER_FLAG_DOWN :: u32 where "POINTER_FLAG_DOWN = 0x00010000"
definition POINTER_FLAG_UPDATE :: u32 where "POINTER_FLAG_UPDATE = 0x00020000"
definition POINTER_FLAG_UP :: u32 where "POINTER_FLAG_UP = 0x00040000"
definition WHEEL_DELTA :: int where "WHEEL_DELTA = 120"
definition kPixelsPerWheelNotch :: double where "kPixelsPerWheelNotch = 100"
definition kMaxPenPressure :: double where "kMaxPenPressure = 1024"

subsection \<open>Events and state\<close>

datatype InputEvent =
    MouseInput u32 int int int
  | PenInput u32 POINT int int int

text \<open>The virtual desktop, whether the pen device can be created and a pen event injected, and the
  angles in degrees for an azimuth and altitude.\<close>

record Desktop =
  xvirtual :: int
  yvirtual :: int
  cxvirtual :: int
  cyvirtual :: int
  pen_creatable :: bool
  pen_injected :: bool
  pen_angles :: "double \<Rightarrow> double \<Rightarrow> double \<times> double"

record InputInjector =
  monitorRect :: RECT
  isDown :: bool
  penDevice :: bool
  penDeviceFailed :: bool
  injectFailed :: bool
  penDown :: bool
  penInRange :: bool
  lastPenPoint :: POINT
  events :: "InputEvent list"

definition InputInjector_default :: InputInjector where
  "InputInjector_default = \<lparr>monitorRect = RECT_zero, isDown = False, penDevice = False, penDeviceFailed = False,
     injectFailed = False, penDown = False, penInRange = False, lastPenPoint = \<lparr>pt_x = 0, pt_y = 0\<rparr>, events = []\<rparr>"

definition SendMouseInput :: "u32 \<Rightarrow> int \<Rightarrow> int \<Rightarrow> int \<Rightarrow> InputInjector \<Rightarrow> InputInjector" where
  "SendMouseInput flags dx dy mouseData i = i\<lparr>events := events i @ [MouseInput flags dx dy mouseData]\<rparr>"

definition SetMonitorRect :: "RECT \<Rightarrow> InputInjector \<Rightarrow> InputInjector" where
  "SetMonitorRect r i = i\<lparr>monitorRect := r\<rparr>"

subsection \<open>Coordinates\<close>

definition Normalized :: "double \<Rightarrow> double" where
  "Normalized value = clamp value 0 1"

text \<open>\<^verbatim>\<open>static_cast<LONG>(Normalized(v) * extent)\<close>.\<close>

definition along :: "double \<Rightarrow> int \<Rightarrow> int" where
  "along v extent = dbl_trunc (dbl_mul (Normalized v) (of_int extent))"

definition NormalizeToVirtualDesktop :: "int \<Rightarrow> int \<Rightarrow> int \<Rightarrow> int" where
  "NormalizeToVirtualDesktop screenCoord origin extent =
     (if extent \<le> 0 then 0
      else dbl_trunc (dbl_div (dbl_mul (of_int (screenCoord - origin)) 65535) (of_int extent)))"

definition touch_point :: "Desktop \<Rightarrow> RECT \<Rightarrow> double \<Rightarrow> double \<Rightarrow> int \<times> int" where
  "touch_point d r x y =
     (let screenX = left r + along x (right r - left r); screenY = upper r + along y (bottom r - upper r)
      in (NormalizeToVirtualDesktop screenX (xvirtual d) (cxvirtual d),
          NormalizeToVirtualDesktop screenY (yvirtual d) (cyvirtual d)))"

definition ScreenPoint :: "Desktop \<Rightarrow> InputInjector \<Rightarrow> double \<Rightarrow> double \<Rightarrow> POINT" where
  "ScreenPoint d i nx ny =
     (let r = monitorRect i in
      \<lparr>pt_x = left r + lround (dbl_mul (Normalized nx) (of_int (right r - left r))) - xvirtual d,
       pt_y = upper r + lround (dbl_mul (Normalized ny) (of_int (bottom r - upper r))) - yvirtual d\<rparr>)"

text \<open>\<^verbatim>\<open>2 pi\<close> and \<^verbatim>\<open>pi / 2\<close> as the doubles of the code.\<close>

definition two_pi :: double where "two_pi = 884279719003555 / 140737488355328"

definition DeriveTilt :: "Desktop \<Rightarrow> double \<Rightarrow> double \<Rightarrow> int \<times> int" where
  "DeriveTilt d az alt =
     (let a = clamp az (- two_pi) two_pi; h = clamp alt 0 kPencilAltitudeUpright; (x, y) = pen_angles d a h
      in (lround (clamp x (- 90) 90), lround (clamp y (- 90) 90)))"

subsection \<open>Touch and scroll\<close>

definition moveFlags :: u32 where
  "moveFlags = or (or MOUSEEVENTF_MOVE MOUSEEVENTF_ABSOLUTE) MOUSEEVENTF_VIRTUALDESK"

definition button_flags :: "u32 \<Rightarrow> u32" where
  "button_flags b = or (or b MOUSEEVENTF_ABSOLUTE) MOUSEEVENTF_VIRTUALDESK"

definition HandleTouch :: "Desktop \<Rightarrow> TouchMsg \<Rightarrow> InputInjector \<Rightarrow> InputInjector" where
  "HandleTouch d t i =
     (let (normX, normY) = touch_point d (monitorRect i) (touch_x t) (touch_y t) in
      case touch_phase t of
        Began \<Rightarrow>
          (SendMouseInput (button_flags MOUSEEVENTF_LEFTDOWN) normX normY 0 (SendMouseInput moveFlags normX normY 0 i))
            \<lparr>isDown := True\<rparr>
      | Moved \<Rightarrow> SendMouseInput moveFlags normX normY 0 i
      | UnknownTouch \<Rightarrow> i
      | _ \<Rightarrow>
          (let i1 = SendMouseInput moveFlags normX normY 0 i;
               i2 = (if isDown i1 then SendMouseInput (button_flags MOUSEEVENTF_LEFTUP) normX normY 0 i1 else i1)
           in i2\<lparr>isDown := False\<rparr>))"

definition wheel_delta :: "double \<Rightarrow> int" where
  "wheel_delta s = dbl_trunc (dbl_mul (dbl_div (clamp s (- 10000) 10000) kPixelsPerWheelNotch) (of_int WHEEL_DELTA))"

definition scroll_axis :: "u32 \<Rightarrow> double \<Rightarrow> InputInjector \<Rightarrow> InputInjector" where
  "scroll_axis flag s i =
     (if s \<noteq> 0 then (let delta = wheel_delta s in if delta \<noteq> 0 then SendMouseInput flag 0 0 delta i else i) else i)"

definition HandleScroll :: "ScrollMsg \<Rightarrow> InputInjector \<Rightarrow> InputInjector" where
  "HandleScroll s i = scroll_axis MOUSEEVENTF_HWHEEL (scroll_dx s) (scroll_axis MOUSEEVENTF_WHEEL (scroll_dy s) i)"

subsection \<open>Pen\<close>

definition EnsurePenDevice :: "Desktop \<Rightarrow> InputInjector \<Rightarrow> bool \<times> InputInjector" where
  "EnsurePenDevice d i =
     (if penDevice i then (True, i)
      else if penDeviceFailed i then (False, i)
      else if \<not> pen_creatable d then (False, i\<lparr>penDeviceFailed := True\<rparr>)
      else (True, i\<lparr>penDevice := True\<rparr>))"

definition InjectPen :: "Desktop \<Rightarrow> u32 \<Rightarrow> POINT \<Rightarrow> double \<Rightarrow> double \<Rightarrow> double \<Rightarrow> InputInjector \<Rightarrow> InputInjector" where
  "InjectPen d flags pt prs az alt i =
     (let (tiltX, tiltY) = DeriveTilt d az alt;
          e = PenInput flags pt (lround (dbl_mul (clamp prs 0 1) kMaxPenPressure)) tiltX tiltY
      in i\<lparr>lastPenPoint := pt, events := events i @ [e], injectFailed := (injectFailed i \<or> \<not> pen_injected d)\<rparr>)"

definition ReleasePenIfDown :: "Desktop \<Rightarrow> POINT \<Rightarrow> InputInjector \<Rightarrow> InputInjector" where
  "ReleasePenIfDown d pt i =
     (if \<not> penDown i then i
      else (InjectPen d (or POINTER_FLAG_INRANGE POINTER_FLAG_UP) pt 0 0 kPencilAltitudeUpright i)\<lparr>penDown := False\<rparr>)"

definition HandlePencil :: "Desktop \<Rightarrow> PencilMsg \<Rightarrow> InputInjector \<Rightarrow> InputInjector" where
  "HandlePencil d p i0 =
     (let (ok, i) = EnsurePenDevice d i0 in
      if \<not> ok then i
      else
        (let pt = ScreenPoint d i (pencil_x p) (pencil_y p) in
         case pencil_phase p of
           Down \<Rightarrow>
             (InjectPen d (or (or POINTER_FLAG_INRANGE POINTER_FLAG_INCONTACT) POINTER_FLAG_DOWN) pt
                (pressure p) (azimuth p) (altitude p) i)\<lparr>penDown := True, penInRange := True\<rparr>
         | Move \<Rightarrow>
             (if penDown i
              then InjectPen d (or (or POINTER_FLAG_INRANGE POINTER_FLAG_INCONTACT) POINTER_FLAG_UPDATE) pt
                     (pressure p) (azimuth p) (altitude p) i
              else InjectPen d (or POINTER_FLAG_INRANGE POINTER_FLAG_UPDATE) pt 0 (azimuth p) (altitude p) i)
             \<lparr>penInRange := True\<rparr>
         | Up \<Rightarrow> ReleasePenIfDown d pt i
         | Hover \<Rightarrow>
             (InjectPen d (or POINTER_FLAG_INRANGE POINTER_FLAG_UPDATE) pt 0 (azimuth p) (altitude p)
                (ReleasePenIfDown d pt i))\<lparr>penInRange := True\<rparr>
         | UnknownPencil \<Rightarrow> i))"

definition HandleProximity :: "Desktop \<Rightarrow> ProximityMsg \<Rightarrow> InputInjector \<Rightarrow> InputInjector" where
  "HandleProximity d p i0 =
     (let (ok, i) = EnsurePenDevice d i0 in
      if \<not> ok then i
      else if entering p = penInRange i then i
      else
        (let pt = ScreenPoint d i (prox_x p) (prox_y p);
             i2 = (if entering p
                   then InjectPen d (or POINTER_FLAG_INRANGE POINTER_FLAG_UPDATE) pt 0 0 kPencilAltitudeUpright i
                   else InjectPen d POINTER_FLAG_UPDATE pt 0 0 kPencilAltitudeUpright (ReleasePenIfDown d pt i))
         in i2\<lparr>penInRange := entering p\<rparr>))"

definition EndSession :: "Desktop \<Rightarrow> InputInjector \<Rightarrow> InputInjector" where
  "EndSession d i =
     (let i1 = (if isDown i then (SendMouseInput MOUSEEVENTF_LEFTUP 0 0 0 i)\<lparr>isDown := False\<rparr> else i) in
      if \<not> penDevice i1 then i1
      else
        (let i2 = ReleasePenIfDown d (lastPenPoint i1) i1 in
         if penInRange i2
         then (InjectPen d POINTER_FLAG_UPDATE (lastPenPoint i2) 0 0 kPencilAltitudeUpright i2)\<lparr>penInRange := False\<rparr>
         else i2))"

end
