(* ===== verification/InputProps.thy ===== *)
theory InputProps
  imports Input
begin

text \<open>
  What the injector guarantees: coordinates stay on the screen, pen values in the ranges Windows accepts, and
  nothing stays pressed when a session ends.
\<close>

subsection \<open>Coordinates\<close>

lemma along_bounds:
  assumes "0 \<le> w" and "w < 2 ^ 53"
  shows "0 \<le> along v w \<and> along v w \<le> w"
  unfolding along_def Normalized_def
  using dbl_mul_unit_bounds [of "clamp v 0 1" w] clamp_bounds [of 0 1 v] assms
    dbl_trunc_bounds [of 0 "dbl_mul (clamp v 0 1) (of_int w)" w] by simp

lemma NormalizeToVirtualDesktop_bounds:
  assumes "a \<le> s" and "s \<le> a + w" and "w < 2 ^ 31"
  shows "0 \<le> NormalizeToVirtualDesktop s a w \<and> NormalizeToVirtualDesktop s a w \<le> 65535"
proof (cases "w \<le> 0")
  case False
  define k where "k = s - a"
  have k: "0 \<le> k" "k \<le> w" "k * 65535 < 2 ^ 53" "\<bar>k * 65535\<bar> < 2 ^ 53"
    using assms False by (simp_all add: k_def)
  have "dbl_mul (of_int k) 65535 = rnd (of_int (k * 65535))" by (simp add: dbl_mul_def)
  also have "\<dots> = of_int (k * 65535)" using k(4) by (rule rnd_of_int)
  finally have m: "dbl_mul (of_int k) 65535 = of_int (k * 65535)" .
  have q: "0 \<le> of_int (k * 65535) / rat_of_int w" "of_int (k * 65535) / rat_of_int w \<le> 65535"
  proof -
    show "0 \<le> of_int (k * 65535) / rat_of_int w" using k False by simp
    have "rat_of_int (k * 65535) \<le> rat_of_int (w * 65535)" using k(2) by (simp only: of_int_le_iff)
    then show "of_int (k * 65535) / rat_of_int w \<le> 65535" using False by (simp add: divide_le_eq)
  qed
  then have small: "\<bar>of_int (k * 65535) / rat_of_int w\<bar> < 2 ^ 53" by simp
  have "rat_of_int 0 \<le> dbl_div (of_int (k * 65535)) (of_int w)"
    unfolding dbl_div_def using q small by (intro rnd_ge_int) simp_all
  moreover have "dbl_div (of_int (k * 65535)) (of_int w) \<le> rat_of_int 65535"
    unfolding dbl_div_def using q small by (intro rnd_le_int) simp_all
  ultimately have range: "rat_of_int 0 \<le> dbl_div (of_int (k * 65535)) (of_int w)"
      "dbl_div (of_int (k * 65535)) (of_int w) \<le> rat_of_int 65535" .
  from dbl_trunc_bounds [OF range] show ?thesis
    using False m by (simp add: NormalizeToVirtualDesktop_def k_def)
qed (simp add: NormalizeToVirtualDesktop_def)

text \<open>A monitor inside the virtual desktop, which is smaller than \<open>2 ^ 31\<close> pixels each way.\<close>

definition monitor_inside :: "Desktop \<Rightarrow> RECT \<Rightarrow> bool" where
  "monitor_inside d r \<longleftrightarrow> xvirtual d \<le> left r \<and> left r \<le> right r \<and> right r \<le> xvirtual d + cxvirtual d \<and>
     yvirtual d \<le> upper r \<and> upper r \<le> bottom r \<and> bottom r \<le> yvirtual d + cyvirtual d \<and>
     cxvirtual d < 2 ^ 31 \<and> cyvirtual d < 2 ^ 31"

lemma touch_point_bounds:
  assumes "monitor_inside d r"
  shows "case touch_point d r x y of (nx, ny) \<Rightarrow> 0 \<le> nx \<and> nx \<le> 65535 \<and> 0 \<le> ny \<and> ny \<le> 65535"
proof -
  have "right r - left r < 2 ^ 53" "bottom r - upper r < 2 ^ 53"
    using assms by (simp_all add: monitor_inside_def)
  then have "0 \<le> along x (right r - left r) \<and> along x (right r - left r) \<le> right r - left r"
      "0 \<le> along y (bottom r - upper r) \<and> along y (bottom r - upper r) \<le> bottom r - upper r"
    using assms by (simp_all add: along_bounds monitor_inside_def)
  then show ?thesis
    using assms unfolding touch_point_def Let_def monitor_inside_def
    by (auto intro!: conjI NormalizeToVirtualDesktop_bounds [THEN conjunct1] NormalizeToVirtualDesktop_bounds [THEN conjunct2])
qed

lemma lround_scaled_bounds:
  assumes "0 \<le> w" and "w < 2 ^ 53"
  shows "0 \<le> lround (dbl_mul (Normalized v) (of_int w)) \<and> lround (dbl_mul (Normalized v) (of_int w)) \<le> w"
  unfolding Normalized_def
  using dbl_mul_unit_bounds [of "clamp v 0 1" w] clamp_bounds [of 0 1 v] assms
    lround_bounds [of 0 "dbl_mul (clamp v 0 1) (of_int w)" w] by simp

lemma ScreenPoint_bounds:
  assumes "monitor_inside d (monitorRect i)"
  shows "let p = ScreenPoint d i x y in 0 \<le> pt_x p \<and> pt_x p \<le> cxvirtual d \<and> 0 \<le> pt_y p \<and> pt_y p \<le> cyvirtual d"
proof -
  define r where "r = monitorRect i"
  have "right r - left r < 2 ^ 53" "bottom r - upper r < 2 ^ 53"
    using assms by (simp_all add: monitor_inside_def r_def)
  then show ?thesis
    using assms lround_scaled_bounds [of "right r - left r" x] lround_scaled_bounds [of "bottom r - upper r" y]
    by (simp add: ScreenPoint_def Let_def monitor_inside_def flip: r_def)
qed

subsection \<open>Pen values\<close>

lemma DeriveTilt_bounds: "case DeriveTilt d a h of (tx, ty) \<Rightarrow> - 90 \<le> tx \<and> tx \<le> 90 \<and> - 90 \<le> ty \<and> ty \<le> 90"
proof -
  have "- 90 \<le> lround (clamp v (- 90) 90) \<and> lround (clamp v (- 90) 90) \<le> 90" for v
    using lround_bounds [of "- 90" "clamp v (- 90) 90" 90] clamp_bounds [of "- 90" 90 v] by simp
  then show ?thesis by (simp add: DeriveTilt_def Let_def split: prod.splits)
qed

lemma pen_pressure_bounds:
  "0 \<le> lround (dbl_mul (clamp prs 0 1) kMaxPenPressure) \<and> lround (dbl_mul (clamp prs 0 1) kMaxPenPressure) \<le> 1024"
  using lround_scaled_bounds [of 1024 prs] by (simp add: Normalized_def kMaxPenPressure_def)

lemma wheel_delta_bounds: "\<bar>wheel_delta s\<bar> \<le> 12000"
proof -
  define c where "c = clamp s (- 10000) 10000"
  have c: "- 10000 \<le> c" "c \<le> 10000" using clamp_bounds [of "- 10000" 10000 s] by (simp_all add: c_def)
  have "rat_of_int (- 100) \<le> dbl_div c 100" "dbl_div c 100 \<le> rat_of_int 100"
    unfolding dbl_div_def using c by (intro rnd_ge_int rnd_le_int; simp)+
  then have "rat_of_int (- 12000) \<le> dbl_mul (dbl_div c 100) 120" "dbl_mul (dbl_div c 100) 120 \<le> rat_of_int 12000"
    unfolding dbl_mul_def by (intro rnd_ge_int rnd_le_int; simp)+
  from dbl_trunc_bounds [OF this] show ?thesis
    by (simp add: wheel_delta_def c_def kPixelsPerWheelNotch_def WHEEL_DELTA_def abs_le_iff)
qed

subsection \<open>What Windows is left with\<close>

text \<open>The button and the pen as the events leave them.\<close>

definition has_flag :: "u32 \<Rightarrow> u32 \<Rightarrow> bool" where
  "has_flag w f \<longleftrightarrow> and w f = f"

fun button_after :: "bool \<Rightarrow> InputEvent \<Rightarrow> bool" where
  "button_after held (MouseInput flags dx dy wheel) =
     (if has_flag flags MOUSEEVENTF_LEFTDOWN then True
      else if has_flag flags MOUSEEVENTF_LEFTUP then False else held)"
| "button_after held (PenInput flags pt prs tx ty) = held"

fun contact_after :: "bool \<Rightarrow> InputEvent \<Rightarrow> bool" where
  "contact_after c (MouseInput flags dx dy wheel) = c"
| "contact_after c (PenInput flags pt prs tx ty) = has_flag flags POINTER_FLAG_INCONTACT"

fun range_after :: "bool \<Rightarrow> InputEvent \<Rightarrow> bool" where
  "range_after c (MouseInput flags dx dy wheel) = c"
| "range_after c (PenInput flags pt prs tx ty) = has_flag flags POINTER_FLAG_INRANGE"

definition button_held :: "InputEvent list \<Rightarrow> bool" where "button_held = foldl button_after False"
definition pen_contact :: "InputEvent list \<Rightarrow> bool" where "pen_contact = foldl contact_after False"
definition pen_in_range :: "InputEvent list \<Rightarrow> bool" where "pen_in_range = foldl range_after False"

text \<open>Pen values that Windows accepts, and wheel steps that are bounded.\<close>

fun event_ok :: "InputEvent \<Rightarrow> bool" where
  "event_ok (MouseInput flags dx dy wheel) = (\<bar>wheel\<bar> \<le> 12000)"
| "event_ok (PenInput flags pt prs tx ty) =
     (0 \<le> prs \<and> prs \<le> 1024 \<and> - 90 \<le> tx \<and> tx \<le> 90 \<and> - 90 \<le> ty \<and> ty \<le> 90)"

definition injector_inv :: "InputInjector \<Rightarrow> bool" where
  "injector_inv i \<longleftrightarrow> isDown i = button_held (events i) \<and> penDown i = pen_contact (events i) \<and>
     penInRange i = pen_in_range (events i) \<and> (penDevice i \<or> \<not> penInRange i) \<and> (penInRange i \<or> \<not> penDown i) \<and>
     list_all event_ok (events i)"

lemma after_snoc [simp]:
  "button_held (es @ [e]) = button_after (button_held es) e"
  "pen_contact (es @ [e]) = contact_after (pen_contact es) e"
  "pen_in_range (es @ [e]) = range_after (pen_in_range es) e"
  by (simp_all add: button_held_def pen_contact_def pen_in_range_def)

lemmas flag_eval = has_flag_def moveFlags_def button_flags_def MOUSEEVENTF_MOVE_def MOUSEEVENTF_LEFTDOWN_def
  MOUSEEVENTF_LEFTUP_def MOUSEEVENTF_WHEEL_def MOUSEEVENTF_HWHEEL_def MOUSEEVENTF_VIRTUALDESK_def
  MOUSEEVENTF_ABSOLUTE_def POINTER_FLAG_INRANGE_def POINTER_FLAG_INCONTACT_def POINTER_FLAG_DOWN_def
  POINTER_FLAG_UPDATE_def POINTER_FLAG_UP_def

lemma InjectPen_event:
  obtains e where "events (InjectPen d f pt prs az alt i) = events i @ [e]" "event_ok e"
    "button_after b e = b" "contact_after b e = has_flag f POINTER_FLAG_INCONTACT"
    "range_after b e = has_flag f POINTER_FLAG_INRANGE"
  using DeriveTilt_bounds [of d az alt] pen_pressure_bounds [of prs]
  by (cases "DeriveTilt d az alt") (simp add: InjectPen_def Let_def)

lemma InjectPen_same [simp]:
  "isDown (InjectPen d f pt prs az alt i) = isDown i" "penDown (InjectPen d f pt prs az alt i) = penDown i"
  "penInRange (InjectPen d f pt prs az alt i) = penInRange i" "penDevice (InjectPen d f pt prs az alt i) = penDevice i"
  by (simp_all add: InjectPen_def Let_def split: prod.splits)

lemma pen_event_inv:
  assumes "injector_inv i" and "penDevice i" and "events j = events (InjectPen d f pt prs az alt i)"
    and "isDown j = isDown i" and "penDevice j = penDevice i"
    and "penDown j = has_flag f POINTER_FLAG_INCONTACT" and "penInRange j = has_flag f POINTER_FLAG_INRANGE"
    and "has_flag f POINTER_FLAG_INRANGE \<or> \<not> has_flag f POINTER_FLAG_INCONTACT"
  shows "injector_inv j"
proof -
  obtain e where e: "events j = events i @ [e]" "event_ok e" "\<And>b. button_after b e = b"
      "\<And>b. contact_after b e = has_flag f POINTER_FLAG_INCONTACT" "\<And>b. range_after b e = has_flag f POINTER_FLAG_INRANGE"
    using DeriveTilt_bounds [of d az alt] pen_pressure_bounds [of prs] assms(3)
    by (cases "DeriveTilt d az alt") (simp add: InjectPen_def Let_def)
  show ?thesis using assms(1,2) assms(4-8) e by (auto simp: injector_inv_def)
qed

lemma mouse_event_inv:
  assumes "injector_inv i" and "events j = events i @ [MouseInput f dx dy w]" and "\<bar>w\<bar> \<le> 12000"
    and "isDown j = button_after (isDown i) (MouseInput f dx dy w)"
    and "penDown j = penDown i" "penInRange j = penInRange i" "penDevice j = penDevice i"
  shows "injector_inv j"
  using assms by (auto simp: injector_inv_def)

lemma injector_inv_cong:
  "injector_inv i \<Longrightarrow> events j = events i \<Longrightarrow> isDown j = isDown i \<Longrightarrow> penDown j = penDown i \<Longrightarrow>
   penInRange j = penInRange i \<Longrightarrow> penDevice i \<le> penDevice j \<Longrightarrow> injector_inv j"
  by (auto simp: injector_inv_def)

lemma SendMouseInput_inv:
  assumes "injector_inv i" and "\<bar>w\<bar> \<le> 12000" and "button_after (isDown i) (MouseInput f dx dy w) = isDown i"
  shows "injector_inv (SendMouseInput f dx dy w i)"
proof (rule mouse_event_inv [OF assms(1), of _ f dx dy w])
  show "isDown (SendMouseInput f dx dy w i) = button_after (isDown i) (MouseInput f dx dy w)"
    using assms(3) by (simp add: SendMouseInput_def del: button_after.simps)
qed (simp_all add: SendMouseInput_def assms(2))

lemma HandleTouch_inv [preserves]:
  assumes "injector_inv i"
  shows "injector_inv (HandleTouch d t i)"
proof -
  obtain nx ny where p: "touch_point d (monitorRect i) (touch_x t) (touch_y t) = (nx, ny)"
    by (cases "touch_point d (monitorRect i) (touch_x t) (touch_y t)")
  have move: "injector_inv (SendMouseInput moveFlags nx ny 0 i)"
    using assms by (intro SendMouseInput_inv) (simp_all add: flag_eval)
  have down: "injector_inv ((SendMouseInput (button_flags MOUSEEVENTF_LEFTDOWN) nx ny 0 (SendMouseInput moveFlags nx ny 0 i))\<lparr>isDown := True\<rparr>)"
    by (rule mouse_event_inv [OF move, of _ "button_flags MOUSEEVENTF_LEFTDOWN" nx ny 0])
      (simp_all add: SendMouseInput_def flag_eval)
  have up: "injector_inv ((SendMouseInput (button_flags MOUSEEVENTF_LEFTUP) nx ny 0 (SendMouseInput moveFlags nx ny 0 i))\<lparr>isDown := False\<rparr>)"
    by (rule mouse_event_inv [OF move, of _ "button_flags MOUSEEVENTF_LEFTUP" nx ny 0])
      (simp_all add: SendMouseInput_def flag_eval)
  have idle: "isDown i \<or> injector_inv ((SendMouseInput moveFlags nx ny 0 i)\<lparr>isDown := False\<rparr>)"
    using injector_inv_cong [OF move, of "(SendMouseInput moveFlags nx ny 0 i)\<lparr>isDown := False\<rparr>"]
    by (auto simp: SendMouseInput_def)
  show ?thesis
    using assms move down up idle
    by (auto simp: HandleTouch_def p Let_def SendMouseInput_def split: TouchPhase.split)
qed

lemma scroll_axis_inv:
  assumes "injector_inv i" and "f = MOUSEEVENTF_WHEEL \<or> f = MOUSEEVENTF_HWHEEL"
  shows "injector_inv (scroll_axis f s i)"
proof -
  have "injector_inv (SendMouseInput f 0 0 (wheel_delta s) i)"
    using assms wheel_delta_bounds [of s] by (intro SendMouseInput_inv) (auto simp: flag_eval)
  with assms(1) show ?thesis by (simp add: scroll_axis_def Let_def)
qed

lemma HandleScroll_inv [preserves]: "injector_inv i \<Longrightarrow> injector_inv (HandleScroll s i)"
  by (simp add: HandleScroll_def scroll_axis_inv)

lemma EnsurePenDevice_inv:
  assumes "injector_inv i" and "EnsurePenDevice d i = (ok, j)"
  shows "injector_inv j" and "ok = penDevice j"
  using assms by (auto simp: EnsurePenDevice_def injector_inv_def split: if_splits)

lemma ReleasePen_inv:
  assumes "injector_inv i" and "penDevice i"
  shows "injector_inv (ReleasePenIfDown d pt i)" and "penDevice (ReleasePenIfDown d pt i)"
    and "\<not> penDown (ReleasePenIfDown d pt i)" and "penInRange (ReleasePenIfDown d pt i) = penInRange i"
    and "isDown (ReleasePenIfDown d pt i) = isDown i"
proof -
  have "penDown i \<Longrightarrow> penInRange i" using assms(1) by (auto simp: injector_inv_def)
  then have "penDown i \<Longrightarrow> injector_inv ((InjectPen d (or POINTER_FLAG_INRANGE POINTER_FLAG_UP) pt 0 0 kPencilAltitudeUpright i)\<lparr>penDown := False\<rparr>)"
    by (intro pen_event_inv [OF assms, of _ d "or POINTER_FLAG_INRANGE POINTER_FLAG_UP" pt 0 0 kPencilAltitudeUpright])
      (simp_all add: flag_eval)
  with assms show "injector_inv (ReleasePenIfDown d pt i)" by (simp add: ReleasePenIfDown_def)
qed (use assms(2) in \<open>simp_all add: ReleasePenIfDown_def\<close>)

lemma HandlePencil_inv [preserves]:
  assumes "injector_inv i0"
  shows "injector_inv (HandlePencil d p i0)"
proof -
  obtain ok i where e: "EnsurePenDevice d i0 = (ok, i)" by (cases "EnsurePenDevice d i0")
  note inv = EnsurePenDevice_inv [OF assms e]
  show ?thesis
  proof (cases ok)
    case True
    then have dev: "penDevice i" using inv by simp
    define pt where "pt = ScreenPoint d i (pencil_x p) (pencil_y p)"
    note rel = ReleasePen_inv [OF inv(1) dev, of d pt]
    have "injector_inv ((InjectPen d (or (or POINTER_FLAG_INRANGE POINTER_FLAG_INCONTACT) POINTER_FLAG_DOWN) pt
        (pressure p) (azimuth p) (altitude p) i)\<lparr>penDown := True, penInRange := True\<rparr>)"
      by (rule pen_event_inv [OF inv(1) dev, of _ d "or (or POINTER_FLAG_INRANGE POINTER_FLAG_INCONTACT) POINTER_FLAG_DOWN"
            pt "pressure p" "azimuth p" "altitude p"]) (simp_all add: flag_eval)
    moreover have "penDown i \<Longrightarrow> injector_inv ((InjectPen d (or (or POINTER_FLAG_INRANGE POINTER_FLAG_INCONTACT)
        POINTER_FLAG_UPDATE) pt (pressure p) (azimuth p) (altitude p) i)\<lparr>penInRange := True\<rparr>)"
      by (rule pen_event_inv [OF inv(1) dev, of _ d "or (or POINTER_FLAG_INRANGE POINTER_FLAG_INCONTACT) POINTER_FLAG_UPDATE"
            pt "pressure p" "azimuth p" "altitude p"]) (simp_all add: flag_eval)
    moreover have "\<not> penDown i \<Longrightarrow> injector_inv ((InjectPen d (or POINTER_FLAG_INRANGE POINTER_FLAG_UPDATE) pt 0
        (azimuth p) (altitude p) i)\<lparr>penInRange := True\<rparr>)"
      by (rule pen_event_inv [OF inv(1) dev, of _ d "or POINTER_FLAG_INRANGE POINTER_FLAG_UPDATE" pt 0 "azimuth p"
            "altitude p"]) (simp_all add: flag_eval)
    moreover have "injector_inv ((InjectPen d (or POINTER_FLAG_INRANGE POINTER_FLAG_UPDATE) pt 0
        (azimuth p) (altitude p) (ReleasePenIfDown d pt i))\<lparr>penInRange := True\<rparr>)"
      by (rule pen_event_inv [OF rel(1,2), of _ d "or POINTER_FLAG_INRANGE POINTER_FLAG_UPDATE" pt 0 "azimuth p"
            "altitude p"]) (simp_all add: flag_eval rel(3))
    ultimately show ?thesis
      using e True inv(1) rel(1) by (auto simp: HandlePencil_def Let_def pt_def split: PencilPhase.split)
  qed (use e inv in \<open>simp add: HandlePencil_def\<close>)
qed

lemma leave_range_inv:
  assumes "injector_inv i" and "penDevice i" and "\<not> penDown i"
  shows "injector_inv ((InjectPen d POINTER_FLAG_UPDATE pt 0 0 kPencilAltitudeUpright i)\<lparr>penInRange := False\<rparr>)"
  by (rule pen_event_inv [OF assms(1,2), of _ d POINTER_FLAG_UPDATE pt 0 0 kPencilAltitudeUpright])
    (simp_all add: flag_eval assms(3))

lemma HandleProximity_inv [preserves]:
  assumes "injector_inv i0"
  shows "injector_inv (HandleProximity d p i0)"
proof -
  obtain ok i where e: "EnsurePenDevice d i0 = (ok, i)" by (cases "EnsurePenDevice d i0")
  note inv = EnsurePenDevice_inv [OF assms e]
  show ?thesis
  proof (cases "ok \<and> entering p \<noteq> penInRange i")
    case True
    then have dev: "penDevice i" using inv by simp
    define pt where "pt = ScreenPoint d i (prox_x p) (prox_y p)"
    note rel = ReleasePen_inv [OF inv(1) dev, of d pt]
    have "\<not> penInRange i \<Longrightarrow> \<not> penDown i" using inv(1) by (auto simp: injector_inv_def)
    then have "\<not> penInRange i \<Longrightarrow> injector_inv ((InjectPen d (or POINTER_FLAG_INRANGE POINTER_FLAG_UPDATE) pt 0 0
        kPencilAltitudeUpright i)\<lparr>penInRange := True\<rparr>)"
      by (intro pen_event_inv [OF inv(1) dev, of _ d "or POINTER_FLAG_INRANGE POINTER_FLAG_UPDATE" pt 0 0
            kPencilAltitudeUpright]) (simp_all add: flag_eval)
    with True e leave_range_inv [OF rel(1,2,3)] show ?thesis
      by (cases "entering p") (simp_all add: HandleProximity_def Let_def flip: pt_def)
  qed (use e inv in \<open>auto simp: HandleProximity_def Let_def\<close>)
qed

lemma EndSession_inv:
  assumes "injector_inv i"
  shows "injector_inv (EndSession d i)" and "\<not> isDown (EndSession d i)" and "\<not> penInRange (EndSession d i)"
proof -
  define i1 where "i1 = (if isDown i then (SendMouseInput MOUSEEVENTF_LEFTUP 0 0 0 i)\<lparr>isDown := False\<rparr> else i)"
  have up: "injector_inv i1" "\<not> isDown i1"
    using assms mouse_event_inv [OF assms, of "(SendMouseInput MOUSEEVENTF_LEFTUP 0 0 0 i)\<lparr>isDown := False\<rparr>"
        MOUSEEVENTF_LEFTUP 0 0 0]
    by (simp_all add: i1_def SendMouseInput_def flag_eval)
  have "injector_inv (EndSession d i) \<and> \<not> isDown (EndSession d i) \<and> \<not> penInRange (EndSession d i)"
  proof (cases "penDevice i1")
    case True
    note rel = ReleasePen_inv [OF up(1) True, of d "lastPenPoint i1"]
    show ?thesis
      using up rel leave_range_inv [OF rel(1,2,3)] by (simp add: EndSession_def True Let_def flip: i1_def)
  next
    case False
    with up show ?thesis by (auto simp: EndSession_def injector_inv_def simp flip: i1_def)
  qed
  then show "injector_inv (EndSession d i)" "\<not> isDown (EndSession d i)" "\<not> penInRange (EndSession d i)" by auto
qed

text \<open>The calls of a session.\<close>

datatype InputCall =
    CRect RECT
  | CTouch Desktop TouchMsg
  | CScroll ScrollMsg
  | CPencil Desktop PencilMsg
  | CProximity Desktop ProximityMsg
  | CEnd Desktop

fun run_call :: "InputInjector \<Rightarrow> InputCall \<Rightarrow> InputInjector" where
  "run_call i (CRect r) = SetMonitorRect r i"
| "run_call i (CTouch d t) = HandleTouch d t i"
| "run_call i (CScroll s) = HandleScroll s i"
| "run_call i (CPencil d p) = HandlePencil d p i"
| "run_call i (CProximity d p) = HandleProximity d p i"
| "run_call i (CEnd d) = EndSession d i"

lemma run_call_inv [preserves]: "injector_inv i \<Longrightarrow> injector_inv (run_call i c)"
  by (cases c) (auto simp: HandleTouch_inv HandleScroll_inv HandlePencil_inv HandleProximity_inv EndSession_inv(1)
      SetMonitorRect_def intro: injector_inv_cong)

lemma run_calls_inv: "injector_inv i \<Longrightarrow> injector_inv (foldl run_call i cs)"
  by (induction cs arbitrary: i) (simp_all add: run_call_inv)

lemma injector_inv_default: "injector_inv InputInjector_default"
  by (simp add: injector_inv_def InputInjector_default_def button_held_def pen_contact_def pen_in_range_def)

text \<open>C21. Whatever messages a session brings, in any order and over any number of sessions, after
  \<^verbatim>\<open>EndSession\<close> the events given to Windows leave the mouse button up and the pen out of contact and
  out of range; and every event on the way carried a pressure in 0..1024, tilts in -90..90 and a wheel step of at
  most 12000.\<close>

theorem session_leaves_nothing_pressed:
  "let i = EndSession d (foldl run_call InputInjector_default calls) in
   \<not> button_held (events i) \<and> \<not> pen_contact (events i) \<and> \<not> pen_in_range (events i) \<and> list_all event_ok (events i)"
  using EndSession_inv [OF run_calls_inv [OF injector_inv_default], of d calls]
  by (auto simp: Let_def injector_inv_def)

text \<open>With the monitor inside the virtual desktop every touch lands in the absolute range 0..65535 of
  \<^verbatim>\<open>SendInput\<close>, and every pen point on the virtual screen, whatever numbers the receiver sends.\<close>

lemma input_stays_on_screen:
  assumes "monitor_inside d (monitorRect i)"
  shows "(case touch_point d (monitorRect i) x y of (nx, ny) \<Rightarrow> 0 \<le> nx \<and> nx \<le> 65535 \<and> 0 \<le> ny \<and> ny \<le> 65535) \<and>
    (let p = ScreenPoint d i x y in 0 \<le> pt_x p \<and> pt_x p \<le> cxvirtual d \<and> 0 \<le> pt_y p \<and> pt_y p \<le> cyvirtual d)"
  by (rule conjI [OF touch_point_bounds [OF assms] ScreenPoint_bounds [OF assms]])

definition sample_desktop :: Desktop where
  "sample_desktop = \<lparr>xvirtual = - 100, yvirtual = 0, cxvirtual = 3000, cyvirtual = 2000, pen_creatable = True,
     pen_injected = True, pen_angles = (\<lambda>a h. (0, 0))\<rparr>"

lemma input_stays_on_screen_witness:
  "\<exists>nx ny. touch_point sample_desktop \<lparr>left = - 100, upper = 0, right = 900, bottom = 1000\<rparr> 7 (- 3) = (nx, ny) \<and> 0 \<le> nx \<and> nx \<le> 65535"
  using input_stays_on_screen [of sample_desktop
      "InputInjector_default\<lparr>monitorRect := \<lparr>left = - 100, upper = 0, right = 900, bottom = 1000\<rparr>\<rparr>" 7 "- 3"]
  by (auto simp: monitor_inside_def sample_desktop_def)

end
