(* ===== verification/SenderStatus.thy ===== *)
theory SenderStatus
  imports Input NetworkSafety
begin

text \<open>
  The members of \<^verbatim>\<open>SenderApp\<close> (\<^verbatim>\<open>src/src/app/SenderApp.h\<close>): the
  lifecycle of its worker thread, the status the worker publishes and the snapshot the UI reads.
  Times are milliseconds, \<open>0\<close> is the empty \<^verbatim>\<open>time_point\<close>.  The Chinese texts
  shown to the user are named by constructors of \<open>StatusText\<close>.
\<close>

datatype ConnectionPhase =
  Idle | Connecting | WaitingHello | PreparingDisplay | Streaming | Reconnecting | Sleeping | Blocked | UnsafeNetwork |
  Failed

datatype FailureReason =
  NoFailure | ReceiverUnavailable | OpenDisplayUnavailable | UsbUnavailable | NetworkUnsafe | DriverUnavailable |
  ResolutionUnavailable | CaptureUnavailable | EncoderUnavailable | InvalidPanel | ProtocolError |
  DeviceIdentityMismatch | AnotherSender | TransportError

datatype State = StateIdle | StateConnecting | StateStreaming | StateBlocked | StateUnsafeNetwork

datatype StatusText =
  NoText | Plain string | Because SafetyReason | NoGuard | OtherProcess | NoDriver | NoResolution | TestDisplayGone | NoCapture | NoEncoder |
  OpenReceiver | AwaitHello | NoHello | OtherDevice | WelcomeNotSent | BadPanel | PanelInUse | IdentityChanged |
  ReceiverSleeps | ReceiverClosed | LinkLost

record StreamSettings =
  fps :: u32
  bitrateBps :: u32
  requirePrivateNetwork :: bool
  existingDisplayName :: wstring

definition StreamSettings_default :: StreamSettings where
  "StreamSettings_default = \<lparr>fps = 60, bitrateBps = 30000000, requirePrivateNetwork = True, existingDisplayName = []\<rparr>"

text \<open>\<^verbatim>\<open>worker_\<close>: no thread, one whose function still runs, or one that waits to be joined.\<close>

datatype Thread = NoThread | Live | Finished

record SenderApp =
  running :: bool
  stopRequested :: bool
  state :: State
  width :: u32
  height :: u32
  blockedByWidth :: u32
  blockedByHeight :: u32
  published_rect :: RECT
  phase :: ConnectionPhase
  failure :: FailureReason
  failureDetail :: StatusText
  retryAt :: int
  networkDrops :: nat
  receiverRttMs :: double
  receiverMbps :: double
  actualFps :: double
  receiverStalls :: int
  captureMs :: double
  encodeMs :: double
  displayName :: wstring
  session_device :: string
  transport :: string
  attempt :: u32
  worker :: Thread

subsection \<open>Publishing\<close>

definition PublishStatus ::
    "int \<Rightarrow> ConnectionPhase \<Rightarrow> FailureReason \<Rightarrow> StatusText \<Rightarrow> int \<Rightarrow> 'a SenderApp_scheme \<Rightarrow> 'a SenderApp_scheme" where
  "PublishStatus now ph fl detail retryInMs s =
     s\<lparr>phase := ph, failure := fl, failureDetail := detail, retryAt := (if 0 < retryInMs then now + retryInMs else 0)\<rparr>"

definition PublishMonitorRect :: "RECT \<Rightarrow> 'a SenderApp_scheme \<Rightarrow> 'a SenderApp_scheme" where
  "PublishMonitorRect r s = s\<lparr>published_rect := r\<rparr>"

definition StreamMonitorRect :: "'a SenderApp_scheme \<Rightarrow> RECT option" where
  "StreamMonitorRect s =
     (let r = published_rect s in if right r \<le> left r \<or> bottom r \<le> upper r then None else Some r)"

definition PublishDisplayName :: "wstring \<Rightarrow> 'a SenderApp_scheme \<Rightarrow> 'a SenderApp_scheme" where
  "PublishDisplayName name s = s\<lparr>displayName := name\<rparr>"

text \<open>\<^verbatim>\<open>std::strtod\<close> on a C string: the characters taken and the value, \<open>None\<close> when it is
  infinite or not a number.  A decimal is read as \<open>from_chars_general\<close> reads it; a text too small for a
  double is zero.\<close>

definition hex_digit_value :: "char \<Rightarrow> nat option" where
  "hex_digit_value c =
     (if is_digit c then Some (code c - 48)
      else if 97 \<le> code c \<and> code c \<le> 102 then Some (code c - 87)
      else if 65 \<le> code c \<and> code c \<le> 70 then Some (code c - 55)
      else None)"

definition is_hex :: "char \<Rightarrow> bool" where
  "is_hex c \<longleftrightarrow> hex_digit_value c \<noteq> None"

definition hex_val :: "string \<Rightarrow> nat" where
  "hex_val = foldl (\<lambda>a c. a * 16 + value_or (hex_digit_value c) 0) 0"

definition finite_double :: "rat \<Rightarrow> double option" where
  "finite_double q = (if dbl_max < \<bar>rnd q\<bar> then None else Some (rnd q))"

definition strtod_hex :: "string \<Rightarrow> (nat \<times> rat) option" where
  "strtod_hex t =
     (if 2 < length t \<and> t ! 0 = CHR ''0'' \<and> to_lower (t ! 1) = CHR ''x'' then
        (let n = length t;
             i1 = skip_while is_hex t 2;
             i2 = (if i1 < n \<and> t ! i1 = CHR ''.'' then skip_while is_hex t (Suc i1) else i1);
             frac = (if i1 < i2 then slice t (Suc i1) i2 else []);
             ds = slice t 2 i1 @ frac;
             j = (if Suc i2 < n \<and> (t ! Suc i2 = CHR ''+'' \<or> t ! Suc i2 = CHR ''-'') then Suc (Suc i2) else Suc i2);
             k = skip_while is_digit t j;
             has_exp = (i2 < n \<and> to_lower (t ! i2) = CHR ''p'' \<and> j < k);
             ex = (if has_exp then (if t ! Suc i2 = CHR ''-'' then - int (digits_val (slice t j k))
                                    else int (digits_val (slice t j k)))
                   else 0)
         in if ds = [] then None
            else Some (if has_exp then k else i2, of_nat (hex_val ds) * pow2 (ex - 4 * int (length frac))))
      else None)"

text \<open>Digits with an optional point and an exponent that counts only when it has a digit.\<close>

definition strtod_dec :: "string \<Rightarrow> (nat \<times> rat) option" where
  "strtod_dec t =
     (let n = length t;
          i1 = skip_while is_digit t 0;
          i2 = (if i1 < n \<and> t ! i1 = CHR ''.'' then skip_while is_digit t (Suc i1) else i1);
          frac = (if i1 < i2 then slice t (Suc i1) i2 else []);
          ds = slice t 0 i1 @ frac;
          j = (if Suc i2 < n \<and> (t ! Suc i2 = CHR ''+'' \<or> t ! Suc i2 = CHR ''-'') then Suc (Suc i2) else Suc i2);
          k = skip_while is_digit t j;
          has_exp = (i2 < n \<and> to_lower (t ! i2) = CHR ''e'' \<and> j < k);
          ex = (if has_exp then (if t ! Suc i2 = CHR ''-'' then - int (digits_val (slice t j k))
                                 else int (digits_val (slice t j k)))
                else 0)
      in if ds = [] then None
         else Some (if has_exp then k else i2, of_nat (digits_val ds) * pow10 (ex - int (length frac))))"

definition strtod :: "string \<Rightarrow> nat \<times> double option" where
  "strtod cstr =
     (let i = skip_while is_space cstr 0;
          signed = (i < length cstr \<and> (cstr ! i = CHR ''-'' \<or> cstr ! i = CHR ''+''));
          neg = (i < length cstr \<and> cstr ! i = CHR ''-'');
          j = (if signed then Suc i else i);
          t = drop j cstr;
          low = map to_lower t
      in if starts_with ''inf'' low \<or> starts_with ''nan'' low then (j + 3, None)
         else (case (case strtod_hex t of Some r \<Rightarrow> Some r | None \<Rightarrow> strtod_dec t) of
                 None \<Rightarrow> (0, Some 0)
               | Some (n, q) \<Rightarrow> (j + n, finite_double (if neg then - q else q))))"

definition JsonNumber :: "string \<Rightarrow> string \<Rightarrow> double option" where
  "JsonNumber json key =
     (let needle = [CHR 0x22] @ key @ [CHR 0x22] in
      case str_find json needle 0 of
        None \<Rightarrow> None
      | Some pos \<Rightarrow>
          (case str_find json '':'' (pos + length needle) of
             None \<Rightarrow> None
           | Some colon \<Rightarrow>
               (case strtod (takeWhile (\<lambda>c. c \<noteq> CHR 0x00) (drop (colon + 1) json)) of
                  (taken, v) \<Rightarrow> if taken = 0 then None else v)))"

text \<open>\<^verbatim>\<open>static_cast<int>\<close> on the x64 targets: a value outside the range becomes the smallest
  integer (the language leaves it undefined).\<close>

definition cast_int :: "double \<Rightarrow> int" where
  "cast_int v = (let t = dbl_trunc v in if - (2 ^ 31) \<le> t \<and> t < 2 ^ 31 then t else - (2 ^ 31))"

definition PublishReceiverStats :: "string \<Rightarrow> 'a SenderApp_scheme \<Rightarrow> 'a SenderApp_scheme" where
  "PublishReceiverStats json s0 =
     (let s1 = (case JsonNumber json ''rtt'' of Some v \<Rightarrow> s0\<lparr>receiverRttMs := v\<rparr> | None \<Rightarrow> s0);
          s2 = (case JsonNumber json ''mbps'' of Some v \<Rightarrow> s1\<lparr>receiverMbps := v\<rparr> | None \<Rightarrow> s1);
          s3 = (case JsonNumber json ''fps'' of
                  Some v \<Rightarrow> s2\<lparr>actualFps := v\<rparr>
                | None \<Rightarrow> (case JsonNumber json ''actualFps'' of Some v \<Rightarrow> s2\<lparr>actualFps := v\<rparr> | None \<Rightarrow> s2))
      in case JsonNumber json ''stalls'' of Some v \<Rightarrow> s3\<lparr>receiverStalls := cast_int v\<rparr> | None \<Rightarrow> s3)"

text \<open>The exponential average.\<close>

definition smooth :: "double \<Rightarrow> double \<Rightarrow> double" where
  "smooth old new =
     (if old < 0 then new else rnd (dbl_mul old (rnd (9 / 10)) + dbl_mul new (rnd (1 / 10))))"

definition PublishPipelineTimings :: "double \<Rightarrow> double option \<Rightarrow> 'a SenderApp_scheme \<Rightarrow> 'a SenderApp_scheme" where
  "PublishPipelineTimings capture encode s =
     (let s1 = s\<lparr>captureMs := smooth (captureMs s) capture\<rparr>
      in case encode of None \<Rightarrow> s1 | Some e \<Rightarrow> s1\<lparr>encodeMs := smooth (encodeMs s1) e\<rparr>)"

subsection \<open>The snapshot\<close>

record ConnectionSnapshot =
  snap_deviceId :: string
  snap_transport :: string
  snap_attempt :: u32
  snap_phase :: ConnectionPhase
  snap_failure :: FailureReason
  snap_detail :: StatusText
  snap_width :: u32
  snap_height :: u32
  snap_retryInMs :: int
  snap_networkDrops :: nat
  snap_receiverRttMs :: double
  snap_receiverMbps :: double
  snap_actualFps :: double
  snap_receiverStalls :: int
  snap_captureMs :: double
  snap_encodeMs :: double
  snap_displayName :: wstring

definition Snapshot :: "int \<Rightarrow> 'a SenderApp_scheme \<Rightarrow> ConnectionSnapshot" where
  "Snapshot now s =
     \<lparr>snap_deviceId = session_device s, snap_transport = transport s, snap_attempt = attempt s,
      snap_phase = phase s, snap_failure = failure s, snap_detail = failureDetail s,
      snap_width = width s, snap_height = height s,
      snap_retryInMs = (if retryAt s \<noteq> 0 then max 0 (retryAt s - now) else 0),
      snap_networkDrops = networkDrops s, snap_receiverRttMs = receiverRttMs s,
      snap_receiverMbps = receiverMbps s, snap_actualFps = actualFps s, snap_receiverStalls = receiverStalls s,
      snap_captureMs = captureMs s, snap_encodeMs = encodeMs s, snap_displayName = displayName s\<rparr>"

subsection \<open>The lifecycle\<close>

text \<open>\<^verbatim>\<open>join\<close> on a thread that still runs would wait: \<open>None\<close>.\<close>

definition join_worker :: "'a SenderApp_scheme \<Rightarrow> 'a SenderApp_scheme option" where
  "join_worker s = (case worker s of Live \<Rightarrow> None | _ \<Rightarrow> Some (s\<lparr>worker := NoThread\<rparr>))"

text \<open>Assigning a new thread over a joinable one ends the process: also \<open>None\<close>.\<close>

definition launch_worker :: "'a SenderApp_scheme \<Rightarrow> 'a SenderApp_scheme option" where
  "launch_worker s = (if worker s = NoThread then Some (s\<lparr>worker := Live\<rparr>) else None)"

definition Start :: "int \<Rightarrow> string \<Rightarrow> string \<Rightarrow> 'a SenderApp_scheme \<Rightarrow> 'a SenderApp_scheme option" where
  "Start now expectedDeviceId tr s =
     (if running s then Some s
      else
        (case (if worker s \<noteq> NoThread then join_worker (s\<lparr>running := True\<rparr>) else Some (s\<lparr>running := True\<rparr>)) of
           None \<Rightarrow> None
         | Some s1 \<Rightarrow>
             launch_worker (PublishStatus now Connecting NoFailure NoText 0
               (s1\<lparr>stopRequested := False, networkDrops := 0, receiverRttMs := - 1, receiverMbps := - 1,
                   actualFps := - 1, receiverStalls := - 1, captureMs := - 1, encodeMs := - 1, displayName := [],
                   session_device := expectedDeviceId, transport := tr, attempt := attempt s1 + 1\<rparr>))))"

text \<open>The interruption of the active connection is part of the worker's state.\<close>

definition RequestStop :: "'a SenderApp_scheme \<Rightarrow> 'a SenderApp_scheme" where
  "RequestStop s = s\<lparr>stopRequested := True\<rparr>"

text \<open>\<^verbatim>\<open>Stop\<close>; \<open>None\<close> while it waits for the worker.\<close>

definition Stop :: "int \<Rightarrow> 'a SenderApp_scheme \<Rightarrow> 'a SenderApp_scheme option" where
  "Stop now s =
     (let s1 = RequestStop s in
      case (if worker s1 \<noteq> NoThread then join_worker s1 else Some s1) of
        None \<Rightarrow> None
      | Some s2 \<Rightarrow>
          Some (PublishStatus now Idle NoFailure NoText 0
            (s2\<lparr>running := False, stopRequested := False, state := StateIdle\<rparr>)))"

text \<open>The function of the worker thread after \<^verbatim>\<open>RunLoop\<close> has returned.\<close>

definition worker_returns :: "'a SenderApp_scheme \<Rightarrow> 'a SenderApp_scheme" where
  "worker_returns s = s\<lparr>running := False, worker := Finished\<rparr>"

text \<open>How many slices of 100 ms \<^verbatim>\<open>InterruptibleSleep\<close> sleeps, when the stop flag is seen set
  before slice \<open>stop_at\<close>.\<close>

function sleep_slices :: "int \<Rightarrow> int \<Rightarrow> nat \<Rightarrow> nat option \<Rightarrow> nat" where
  "sleep_slices ms waited done_slices stop_at =
     (if waited < ms \<and> stop_at \<noteq> Some done_slices
      then sleep_slices ms (waited + 100) (Suc done_slices) stop_at else done_slices)"
  by pat_completeness auto
termination
  by (relation "measure (\<lambda>(ms, waited, d, stop_at). nat (ms - waited))") auto

declare sleep_slices.simps [simp del]

definition InterruptibleSleep :: "int \<Rightarrow> nat option \<Rightarrow> nat" where
  "InterruptibleSleep ms stop_at = sleep_slices ms 0 0 stop_at"

end
