(* ===== verification/SenderLife.thy ===== *)
theory SenderLife
  imports SenderStatus
begin

text \<open>
  The lifecycle of a sender as its owner drives it (\<^verbatim>\<open>Start\<close>, \<^verbatim>\<open>RequestStop\<close> and
  \<^verbatim>\<open>Stop\<close> of \<^verbatim>\<open>src/src/app/SenderApp.cpp\<close>), interleaved with the worker thread,
  and the sleep of the worker between its attempts.
\<close>

subsection \<open>The lifecycle\<close>

text \<open>The initialisers of the members.\<close>

definition SenderApp_default :: SenderApp where
  "SenderApp_default =
     \<lparr>running = False, stopRequested = False, state = StateIdle, width = 0, height = 0, blockedByWidth = 0,
      blockedByHeight = 0, published_rect = RECT_zero, phase = Idle, failure = NoFailure, failureDetail = NoText,
      retryAt = 0, networkDrops = 0, receiverRttMs = - 1, receiverMbps = - 1, actualFps = - 1, receiverStalls = - 1,
      captureMs = - 1, encodeMs = - 1, displayName = [], session_device = [], transport = [], attempt = 0, worker = NoThread\<rparr>"

text \<open>The calls of the owner, the end of the worker, and whatever the worker does to the status while it lives.\<close>

inductive life_step :: "'a SenderApp_scheme \<Rightarrow> 'a SenderApp_scheme \<Rightarrow> bool" where
  start: "Start now e tr s = Some s' \<Longrightarrow> life_step s s'"
| request: "life_step s (RequestStop s)"
| stop: "Stop now s = Some s' \<Longrightarrow> life_step s s'"
| finish: "worker s = Live \<Longrightarrow> life_step s (worker_returns s)"
| work: "worker s = Live \<Longrightarrow> running s' = running s \<Longrightarrow> worker s' = worker s \<Longrightarrow> life_step s s'"

inductive_cases life_stepE: "life_step s s'"

definition life_inv :: "'a SenderApp_scheme \<Rightarrow> bool" where
  "life_inv s \<longleftrightarrow> (running s \<longleftrightarrow> worker s = Live)"

lemma Start_cases:
  assumes "life_inv s"
  shows "\<exists>s'. Start now e tr s = Some s' \<and> worker s' = Live \<and> running s' \<and>
    (if running s then s' = s else attempt s' = attempt s + 1 \<and> \<not> stopRequested s')"
  using assms
  by (cases "worker s") (auto simp: life_inv_def Start_def join_worker_def launch_worker_def PublishStatus_def)

lemma Stop_cases:
  "case Stop now s of
     None \<Rightarrow> worker s = Live
   | Some s' \<Rightarrow> worker s \<noteq> Live \<and> worker s' = NoThread \<and> \<not> running s' \<and> \<not> stopRequested s' \<and> state s' = StateIdle"
  by (cases "worker s") (auto simp: Stop_def RequestStop_def join_worker_def PublishStatus_def)

lemma life_step_inv [preserves]: "life_step s s' \<Longrightarrow> life_inv s \<Longrightarrow> life_inv s'"
proof (erule life_stepE)
  fix now e tr
  assume "life_inv s" "Start now e tr s = Some s'"
  with Start_cases [of s now e tr] show "life_inv s'" by (auto simp: life_inv_def)
next
  fix now
  assume "Stop now s = Some s'"
  with Stop_cases [of s now] show "life_inv s'" by (simp add: life_inv_def)
qed (auto simp: life_inv_def RequestStop_def worker_returns_def)

lemma life_reachable: "life_step\<^sup>*\<^sup>* s s' \<Longrightarrow> life_inv s \<Longrightarrow> life_inv s'"
  by (induction rule: rtranclp_induct) (auto intro: life_step_inv)

text \<open>However calls of the owner and the worker thread interleave, \<open>running\<close> holds exactly while the thread of
  the worker runs.  So \<open>Start\<close> never waits for a running thread and never overwrites a joinable one (which would
  end the process): it keeps a running worker and otherwise launches the next attempt with the stop flag clear.  And
  \<open>Stop\<close> waits exactly as long as the worker runs and leaves no thread behind.\<close>

lemma start_and_stop_are_safe:
  assumes "life_step\<^sup>*\<^sup>* SenderApp_default s"
  shows "(running s \<longleftrightarrow> worker s = Live) \<and>
    (case Start now e tr s of
       None \<Rightarrow> False
     | Some s' \<Rightarrow> worker s' = Live \<and> running s' \<and>
         (if running s then s' = s else attempt s' = attempt s + 1 \<and> \<not> stopRequested s')) \<and>
    (case Stop now s of
       None \<Rightarrow> worker s = Live
     | Some s' \<Rightarrow> worker s \<noteq> Live \<and> worker s' = NoThread \<and> \<not> running s' \<and> \<not> stopRequested s' \<and> state s' = StateIdle)"
proof -
  have i: "life_inv s" by (rule life_reachable [OF assms]) (simp add: life_inv_def SenderApp_default_def)
  with Start_cases [OF i, of now e tr] Stop_cases [of s now] show ?thesis
    by (auto simp: life_inv_def)
qed

lemma start_and_stop_are_safe_witness:
  "case Start 7 ''ipad'' ''usb'' (RequestStop SenderApp_default) of
     None \<Rightarrow> False
   | Some s' \<Rightarrow> worker s' = Live \<and> running s' \<and> attempt s' = 1 \<and> \<not> stopRequested s'"
proof -
  have "life_step\<^sup>*\<^sup>* SenderApp_default (RequestStop SenderApp_default)" by (intro r_into_rtranclp life_step.request)
  moreover have "\<not> running (RequestStop SenderApp_default)" "attempt (RequestStop SenderApp_default) = 0"
    by (simp_all add: SenderApp_default_def RequestStop_def)
  ultimately show ?thesis
    using start_and_stop_are_safe [of "RequestStop SenderApp_default" 7 "''ipad''" "''usb''"]
    by (auto split: option.splits)
qed

subsection \<open>The sleep between attempts\<close>

lemma sleep_slices_value:
  "0 \<le> w \<Longrightarrow> (case stop_at of None \<Rightarrow> True | Some k \<Rightarrow> d \<le> k) \<Longrightarrow>
   sleep_slices ms w d stop_at = (case stop_at of None \<Rightarrow> d + nat ((ms - w + 99) div 100)
      | Some k \<Rightarrow> min k (d + nat ((ms - w + 99) div 100)))"
proof (induction ms w d stop_at rule: sleep_slices.induct)
  case (1 ms w d stop_at)
  show ?case
  proof (cases "w < ms \<and> stop_at \<noteq> Some d")
    case True
    have "nat ((ms - w + 99) div 100) = Suc (nat ((ms - (w + 100) + 99) div 100))"
      using True by (auto simp: nat_eq_iff)
    with True "1.IH" "1.prems" show ?thesis
      by (subst sleep_slices.simps) (auto split: option.splits)
  next
    case False
    then show ?thesis
      using "1.prems" by (subst sleep_slices.simps) (auto split: option.splits)
  qed
qed

text \<open>The sleep of the worker ends: it takes one slice of 100 ms per started hundred of its milliseconds, and when
  a stop is requested no slice is begun any more.  The five seconds of the longest wait are at most 50 slices.\<close>

lemma sleep_is_interruptible:
  "InterruptibleSleep ms stop_at = (case stop_at of None \<Rightarrow> nat ((ms + 99) div 100) | Some k \<Rightarrow> min k (nat ((ms + 99) div 100)))"
  by (simp add: InterruptibleSleep_def sleep_slices_value split: option.split)

end
