(* ===== verification/SenderPipeline.thy ===== *)
theory SenderPipeline
  imports SenderStatus Connection Panel NetworkSafety
begin

text \<open>
  The worker of a sender, first part (\<^verbatim>\<open>src/src/app/SenderApp.cpp\<close>): building the pipeline
  of virtual display, capture and encoder, and detaching the display.  What the display, the
  capture and the encoder answer are arguments; what is done to them is kept in order in \<open>acts\<close>.
\<close>

definition kSendTimeoutMs :: int where "kSendTimeoutMs = 500"
definition kReconnectDelayMs :: int where "kReconnectDelayMs = 2000"
definition kKeepaliveMs :: int where "kKeepaliveMs = 1000"
definition kSenderPingMs :: int where "kSenderPingMs = 2000"
definition kDisconnectGraceMs :: int where "kDisconnectGraceMs = 15000"
definition kActiveTailMs :: int where "kActiveTailMs = 300"
definition kWrongSizeGraceMs :: int where "kWrongSizeGraceMs = 3000"
definition kBlockedRetryMs :: int where "kBlockedRetryMs = 5000"
definition kVirtualDisplayHz :: u32 where "kVirtualDisplayHz = 60"

datatype Act =
    DriverOpened
  | ResolutionEnsured u32 u32 u32
  | DisplayRemoved
  | CaptureClosed
  | CaptureOpened wstring
  | EncoderConfigured u32 u32 u32 u32
  | KeyFrameAsked
  | Encoded
  | CursorMoved int int

record Worker = SenderApp +
  display_open :: bool
  capture_open :: bool
  dup_width :: u32
  dup_height :: u32
  enc_width :: u32
  enc_height :: u32
  injector :: InputInjector
  acts :: "Act list"

definition act :: "Act \<Rightarrow> 'a Worker_scheme \<Rightarrow> 'a Worker_scheme" where
  "act a s = s\<lparr>acts := acts s @ [a]\<rparr>"

definition managedDisplay :: "StreamSettings \<Rightarrow> bool" where
  "managedDisplay settings \<longleftrightarrow> existingDisplayName settings = []"

definition clamp_settings :: "StreamSettings \<Rightarrow> StreamSettings" where
  "clamp_settings settings =
     settings\<lparr>fps := clamp (fps settings) 30 120, bitrateBps := clamp (bitrateBps settings) 5000000 100000000\<rparr>"

definition dup_close :: "'a Worker_scheme \<Rightarrow> 'a Worker_scheme" where
  "dup_close s = (act CaptureClosed s)\<lparr>capture_open := False\<rparr>"

text \<open>\<^verbatim>\<open>dup.Open(name)\<close> with its answer, the size of the duplicated output.\<close>

definition dup_open :: "wstring \<Rightarrow> (u32 \<times> u32) option \<Rightarrow> 'a Worker_scheme \<Rightarrow> bool \<times> 'a Worker_scheme" where
  "dup_open name answer s =
     (case answer of
        None \<Rightarrow> (False, s)
      | Some (w, h) \<Rightarrow> (True, (act (CaptureOpened name) s)\<lparr>capture_open := True, dup_width := w, dup_height := h\<rparr>))"

text \<open>\<^verbatim>\<open>encoder.Configure\<close> takes the geometry over before it can fail.\<close>

definition configure_encoder :: "StreamSettings \<Rightarrow> bool \<Rightarrow> 'a Worker_scheme \<Rightarrow> bool \<times> 'a Worker_scheme" where
  "configure_encoder settings ok s =
     (ok, (act (EncoderConfigured (dup_width s) (dup_height s) (fps settings) (bitrateBps settings)) s)
            \<lparr>enc_width := dup_width s, enc_height := dup_height s\<rparr>)"

record BuildAnswer =
  b_now :: int
  b_driver :: bool
  b_resolution :: bool
  b_device :: wstring
  b_attached :: bool
  b_capture :: "(u32 \<times> u32) option"
  b_encoder :: bool
  b_rect :: RECT

definition fail_build :: "BuildAnswer \<Rightarrow> FailureReason \<Rightarrow> StatusText \<Rightarrow> 'a Worker_scheme \<Rightarrow> bool \<times> 'a Worker_scheme" where
  "fail_build b why detail s = (False, PublishStatus (b_now b) Failed why detail kReconnectDelayMs s)"

text \<open>From \<^verbatim>\<open>dup.Open\<close> on.\<close>

definition open_capture :: "StreamSettings \<Rightarrow> BuildAnswer \<Rightarrow> wstring \<Rightarrow> 'a Worker_scheme \<Rightarrow> bool \<times> 'a Worker_scheme" where
  "open_capture settings b name s =
     (case dup_open name (b_capture b) s of
        (False, s1) \<Rightarrow> fail_build b CaptureUnavailable NoCapture s1
      | (True, s1) \<Rightarrow>
          (case configure_encoder settings (b_encoder b) s1 of
             (False, s2) \<Rightarrow> fail_build b EncoderUnavailable NoEncoder s2
           | (True, s2) \<Rightarrow>
               (True, PublishDisplayName name (PublishMonitorRect (b_rect b)
                        (s2\<lparr>injector := SetMonitorRect (b_rect b) (injector s2)\<rparr>)))))"

definition buildPipeline :: "StreamSettings \<Rightarrow> BuildAnswer \<Rightarrow> u32 \<Rightarrow> u32 \<Rightarrow> 'a Worker_scheme \<Rightarrow> bool \<times> 'a Worker_scheme" where
  "buildPipeline settings b w h s =
     (let managed = managedDisplay settings in
      if managed \<and> \<not> display_open s \<and> \<not> b_driver b then fail_build b DriverUnavailable NoDriver s
      else
        (let s1 = (if managed \<and> \<not> display_open s then (act DriverOpened s)\<lparr>display_open := True\<rparr> else s);
             s2 = dup_close s1
         in if managed then
              (let s3 = act (ResolutionEnsured w h kVirtualDisplayHz) s2 in
               if \<not> b_resolution b then fail_build b ResolutionUnavailable NoResolution s3
               else open_capture settings b (b_device b) s3)
            else if \<not> b_attached b then fail_build b CaptureUnavailable TestDisplayGone s2
            else open_capture settings b (existingDisplayName settings) s2))"

subsection \<open>Detaching the display\<close>

record DisplayInfo =
  bounds_of :: RECT
  is_primary :: bool

text \<open>The rectangle of the monitor that goes, the cursor (if it can be read) and the displays.\<close>

record DetachAnswer =
  removed_rect :: RECT
  cursor_pos :: "POINT option"
  displays :: "DisplayInfo list"

definition PtInRect :: "RECT \<Rightarrow> POINT \<Rightarrow> bool" where
  "PtInRect r p \<longleftrightarrow> left r \<le> pt_x p \<and> pt_x p < right r \<and> upper r \<le> pt_y p \<and> pt_y p < bottom r"

text \<open>Division of C++ by two, towards zero.\<close>

definition half :: "int \<Rightarrow> int" where
  "half n = (if n < 0 then - (- n div 2) else n div 2)"

definition rescue_cursor :: "DetachAnswer \<Rightarrow> 'a Worker_scheme \<Rightarrow> 'a Worker_scheme" where
  "rescue_cursor d s =
     (case cursor_pos d of
        None \<Rightarrow> s
      | Some c \<Rightarrow>
          (if PtInRect (removed_rect d) c
           then (case find is_primary (displays d) of
                   None \<Rightarrow> s
                 | Some p \<Rightarrow> act (CursorMoved (half (left (bounds_of p) + right (bounds_of p)))
                                   (half (upper (bounds_of p) + bottom (bounds_of p)))) s)
           else s))"

definition detachManagedDisplay :: "StreamSettings \<Rightarrow> DetachAnswer \<Rightarrow> 'a Worker_scheme \<Rightarrow> 'a Worker_scheme" where
  "detachManagedDisplay settings d s =
     (if \<not> managedDisplay settings \<or> \<not> display_open s then s
      else PublishDisplayName [] (PublishMonitorRect RECT_zero
             ((act DisplayRemoved (rescue_cursor d (dup_close s)))\<lparr>display_open := False\<rparr>)))"

subsection \<open>The capture is closed whenever a display changes\<close>

text \<open>The capture as the acts leave it, \<open>None\<close> when a monitor was replaced or removed under a live capture.\<close>

fun capture_after :: "bool option \<Rightarrow> Act \<Rightarrow> bool option" where
  "capture_after None a = None"
| "capture_after (Some live) CaptureClosed = Some False"
| "capture_after (Some live) (CaptureOpened name) = (if live then None else Some True)"
| "capture_after (Some live) (ResolutionEnsured w h hz) = (if live then None else Some False)"
| "capture_after (Some live) DisplayRemoved = (if live then None else Some False)"
| "capture_after (Some live) a = Some live"

definition replay_capture :: "Act list \<Rightarrow> bool option" where
  "replay_capture = foldl capture_after (Some False)"

definition capture_inv :: "'a Worker_scheme \<Rightarrow> bool" where
  "capture_inv s \<longleftrightarrow> replay_capture (acts s) = Some (capture_open s)"

lemma replay_snoc [simp]: "replay_capture (as @ [a]) = capture_after (replay_capture as) a"
  by (simp add: replay_capture_def)

named_theorems worker_simps

lemma act_simps [worker_simps]:
  "acts (act a s) = acts s @ [a]" "capture_open (act a s) = capture_open s" "display_open (act a s) = display_open s"
  by (simp_all add: act_def)

lemma publish_simps [worker_simps]:
  "acts (PublishStatus now p f d r s) = acts s" "capture_open (PublishStatus now p f d r s) = capture_open s"
  "display_open (PublishStatus now p f d r s) = display_open s"
  "acts (PublishMonitorRect m s) = acts s" "capture_open (PublishMonitorRect m s) = capture_open s"
  "display_open (PublishMonitorRect m s) = display_open s"
  "acts (PublishDisplayName n s) = acts s" "capture_open (PublishDisplayName n s) = capture_open s"
  "display_open (PublishDisplayName n s) = display_open s"
  by (simp_all add: PublishStatus_def PublishMonitorRect_def PublishDisplayName_def)

lemma capture_inv_cong:
  "capture_inv s \<Longrightarrow> acts s' = acts s \<Longrightarrow> capture_open s' = capture_open s \<Longrightarrow> capture_inv s'"
  by (simp add: capture_inv_def)

lemma capture_inv_publish [preserves]:
  "capture_inv (PublishStatus now p f d r s) = capture_inv s"
  "capture_inv (PublishMonitorRect m s) = capture_inv s"
  "capture_inv (PublishDisplayName n s) = capture_inv s"
  by (simp_all add: capture_inv_def worker_simps)

lemma dup_close_inv [preserves]: "capture_inv s \<Longrightarrow> capture_inv (dup_close s) \<and> \<not> capture_open (dup_close s)"
  by (simp add: capture_inv_def dup_close_def act_def)

lemma dup_open_inv:
  "capture_inv s \<Longrightarrow> \<not> capture_open s \<Longrightarrow> capture_inv (snd (dup_open name b s))"
  by (auto simp: capture_inv_def dup_open_def act_def split: option.split)

lemma configure_encoder_inv [preserves]: "capture_inv s \<Longrightarrow> capture_inv (snd (configure_encoder settings ok s))"
  by (simp add: capture_inv_def configure_encoder_def act_def)

lemma fail_build_inv [preserves]: "capture_inv s \<Longrightarrow> capture_inv (snd (fail_build b why detail s))"
  by (simp add: fail_build_def capture_inv_publish)

lemma open_capture_inv:
  assumes "capture_inv s" and "\<not> capture_open s"
  shows "capture_inv (snd (open_capture settings b name s))"
proof -
  obtain ok1 s1 where o: "dup_open name (b_capture b) s = (ok1, s1)" by (cases "dup_open name (b_capture b) s")
  have i1: "capture_inv s1" using dup_open_inv [OF assms, of name "b_capture b"] o by simp
  obtain ok2 s2 where c: "configure_encoder settings (b_encoder b) s1 = (ok2, s2)"
    by (cases "configure_encoder settings (b_encoder b) s1")
  have i2: "capture_inv s2" using configure_encoder_inv [OF i1, of settings "b_encoder b"] c by simp
  then have "capture_inv (s2\<lparr>injector := i\<rparr>)" for i by (rule capture_inv_cong) simp_all
  then show ?thesis
    using fail_build_inv [OF i1] fail_build_inv [OF i2]
    by (simp add: open_capture_def o c capture_inv_publish split: bool.split)
qed

lemma buildPipeline_inv [preserves]:
  assumes "capture_inv s"
  shows "capture_inv (snd (buildPipeline settings b w h s))"
proof -
  define s1 where "s1 = (if managedDisplay settings \<and> \<not> display_open s then (act DriverOpened s)\<lparr>display_open := True\<rparr> else s)"
  have i1: "capture_inv s1"
    using assms by (simp add: s1_def capture_inv_def act_def)
  note i2 = dup_close_inv [OF i1]
  have i3: "capture_inv (act (ResolutionEnsured w h kVirtualDisplayHz) (dup_close s1))"
      "\<not> capture_open (act (ResolutionEnsured w h kVirtualDisplayHz) (dup_close s1))"
    using i2 by (simp_all add: capture_inv_def act_def)
  show ?thesis
    using fail_build_inv [OF assms] fail_build_inv [OF i3(1)] fail_build_inv [of "dup_close s1"] i2
      open_capture_inv [OF i3] open_capture_inv [of "dup_close s1"]
    by (simp add: buildPipeline_def Let_def flip: s1_def)
qed

lemma detach_inv [preserves]:
  assumes "capture_inv s"
  shows "capture_inv (detachManagedDisplay settings d s)"
proof -
  have r: "capture_inv (rescue_cursor d x)" "\<not> capture_open (rescue_cursor d x)" if "capture_inv x" "\<not> capture_open x"
    for x :: "'a Worker_scheme"
    using that by (auto simp: rescue_cursor_def capture_inv_def act_def split: option.split)
  note r' = r [of "dup_close s"] dup_close_inv [OF assms]
  then have "capture_inv ((act DisplayRemoved (rescue_cursor d (dup_close s)))\<lparr>display_open := False\<rparr>)"
    by (auto simp: capture_inv_def act_def)
  with assms show ?thesis by (simp add: detachManagedDisplay_def capture_inv_publish)
qed

end
