(* ===== verification/SenderReader.thy ===== *)
theory SenderReader
  imports SenderPipeline
begin

text \<open>
  The worker of a sender, second part: a session and the thread that reads the receiver's messages
  (the \<^verbatim>\<open>reader\<close> of \<^verbatim>\<open>RunLoop\<close> in
  \<^verbatim>\<open>src/src/app/SenderApp.cpp\<close>).  A step of the reader is one frame: the blocking read and
  what is done with the message.
\<close>

record Session = Worker +
  conn :: Connection
  live :: bool
  receiverSleeping :: bool
  receiverClosing :: bool
  keyFrameRequested :: bool
  pendingResize :: "(u32 \<times> u32) option"
  loggedPencil :: bool
  claim :: PanelState
  panel_w :: u32
  panel_h :: u32
  lastSend :: int
  lastPing :: int
  lastNetworkCheck :: int
  lastChange :: int
  dropPending :: bool
  rectStale :: bool
  wrongSizeSince :: int
  sizeRebuildDone :: bool
  sizeGiveUpLogged :: bool
  capture_left :: bool

text \<open>What the reader is given with a frame: the times, the monitor's rectangle and the desktop.\<close>

record ReaderAnswer =
  r_now :: int
  r_unix_ms :: int
  r_rect :: RECT
  r_desktop :: Desktop

definition kControlTimeoutMs :: int where "kControlTimeoutMs = 1000"

definition send_text :: "string \<Rightarrow> 'a Session_scheme \<Rightarrow> bool \<times> 'a Session_scheme" where
  "send_text t s =
     (case SendFrame kControlTimeoutMs (bytes_of t) (conn s) of (ok, c) \<Rightarrow> (ok, s\<lparr>conn := c\<rparr>))"

definition hang_up :: "'a Session_scheme \<Rightarrow> 'a Session_scheme" where
  "hang_up s = s\<lparr>live := False, conn := Interrupt (conn s)\<rparr>"

definition on_ping :: "ReaderAnswer \<Rightarrow> string \<Rightarrow> 'a Session_scheme \<Rightarrow> 'a Session_scheme" where
  "on_ping a t s =
     (case SerializePong (r_unix_ms a) t of
        None \<Rightarrow> s
      | Some pong \<Rightarrow> (case send_text pong s of (ok, s1) \<Rightarrow> if ok then s1 else s1\<lparr>live := False\<rparr>))"

definition on_hello :: "string \<Rightarrow> ReaderAnswer \<Rightarrow> HelloMsg \<Rightarrow> 'a Session_scheme \<Rightarrow> 'a Session_scheme" where
  "on_hello expectedDeviceId a h s =
     (if \<not> HelloMatchesExpectedDevice h expectedDeviceId then
        (PublishStatus (r_now a) Failed DeviceIdentityMismatch IdentityChanged 0 s)\<lparr>live := False\<rparr>
      else
        (case send_text SerializeWelcome s of
           (ok, s1) \<Rightarrow>
             if \<not> ok then s1\<lparr>live := False\<rparr>
             else (case NormalizePanelSize (pixelsWide h) (pixelsHigh h) of
                     None \<Rightarrow> hang_up s1
                   | Some wh \<Rightarrow> s1\<lparr>pendingResize := Some wh\<rparr>)))"

text \<open>The rectangle is refreshed before every input event.\<close>

definition with_input :: "ReaderAnswer \<Rightarrow> (InputInjector \<Rightarrow> InputInjector) \<Rightarrow> 'a Session_scheme \<Rightarrow> 'a Session_scheme" where
  "with_input a f s = s\<lparr>injector := f (SetMonitorRect (r_rect a) (injector s))\<rparr>"

definition handle_message :: "string \<Rightarrow> ReaderAnswer \<Rightarrow> ControlMessage \<Rightarrow> 'a Session_scheme \<Rightarrow> 'a Session_scheme" where
  "handle_message expectedDeviceId a m s =
     (case msg_type m of
        Ping \<Rightarrow> on_ping a (ping_t m) s
      | Kf \<Rightarrow> s\<lparr>keyFrameRequested := True\<rparr>
      | Hello \<Rightarrow> on_hello expectedDeviceId a (hello m) s
      | Touch \<Rightarrow> with_input a (HandleTouch (r_desktop a) (touch m)) s
      | Scroll \<Rightarrow> with_input a (HandleScroll (scroll m)) s
      | Pencil \<Rightarrow> with_input a (HandlePencil (r_desktop a) (pencil m)) (s\<lparr>loggedPencil := True\<rparr>)
      | Proximity \<Rightarrow> with_input a (HandleProximity (r_desktop a) (proximity m)) s
      | Stats \<Rightarrow> PublishReceiverStats (stats_json m) s
      | ControlType.Sleeping \<Rightarrow>
          (hang_up (PublishStatus (r_now a) Sleeping OpenDisplayUnavailable ReceiverSleeps kReconnectDelayMs s))
            \<lparr>receiverSleeping := True\<rparr>
      | Closing \<Rightarrow>
          (hang_up (PublishStatus (r_now a) Idle OpenDisplayUnavailable ReceiverClosed 0 s))\<lparr>receiverClosing := True\<rparr>
      | UnknownType \<Rightarrow> s)"

definition reader_step :: "string \<Rightarrow> ReaderAnswer \<Rightarrow> 'a Session_scheme \<Rightarrow> 'a Session_scheme" where
  "reader_step expectedDeviceId a s =
     (if \<not> live s \<or> stopRequested s then s
      else (case ReadFrame (conn s) of
              (None, c) \<Rightarrow> s\<lparr>conn := c, live := False\<rparr>
            | (Some payload, c) \<Rightarrow>
                (let s1 = s\<lparr>conn := c\<rparr> in
                 if \<not> IsControlPayload payload then s1
                 else (case ParseControlMessage payload of
                         None \<Rightarrow> s1
                       | Some m \<Rightarrow> handle_message expectedDeviceId a m s1))))"

text \<open>The loop that waits for the first hello; every frame it reads takes at least four bytes.\<close>

lemma ReadFrame_consumes:
  assumes "ReadFrame c = (Some p, c')"
  shows "length (inbox (stream c')) < length (inbox (stream c))"
proof -
  obtain ok1 h s1 where r1: "ReadExact 4 (stream c) = (ok1, h, s1)" by (metis prod_cases3)
  then have one: "ok1 \<Longrightarrow> inbox (stream c) = h @ inbox s1 \<and> length h = 4"
    using reader.receive_ok [of 4 "stream c" h s1] by auto
  show ?thesis
  proof (cases ok1)
    case True
    define n where "n = unat (be32 (h ! 0) (h ! 1) (h ! 2) (h ! 3))"
    obtain ok2 b s2 where r2: "ReadExact n s1 = (ok2, b, s2)" by (metis prod_cases3)
    then have two: "ok2 \<Longrightarrow> inbox s1 = b @ inbox s2"
      using reader.receive_ok [of n s1 b s2] by auto
    show ?thesis
      using assms r1 one True r2 two
      by (auto simp: ReadFrame_def Let_def n_def split: if_splits)
  next
    case False
    with assms r1 show ?thesis by (auto simp: ReadFrame_def split: if_splits)
  qed
qed

function wait_hello :: "bool \<Rightarrow> Connection \<Rightarrow> HelloMsg option \<times> Connection" where
  "wait_hello stop c =
     (if stop then (None, c)
      else (case ReadFrame c of
              (None, c1) \<Rightarrow> (None, c1)
            | (Some payload, c1) \<Rightarrow>
                (if \<not> IsControlPayload payload then wait_hello stop c1
                 else (case ParseControlMessage payload of
                         None \<Rightarrow> wait_hello stop c1
                       | Some m \<Rightarrow> if msg_type m = Hello then (Some (hello m), c1) else wait_hello stop c1))))"
  by pat_completeness auto
termination
  by (relation "measure (\<lambda>(stop, c). length (inbox (stream c)))") (auto dest: ReadFrame_consumes sym)

declare wait_hello.simps [simp del]

end
