(* ===== verification/SenderCapture.thy ===== *)
theory SenderCapture
  imports SenderReader
begin

text \<open>
  The worker of a sender, third part: one round of the capture loop of \<^verbatim>\<open>RunLoop\<close>
  (\<^verbatim>\<open>src/src/app/SenderApp.cpp\<close>), in the stages the code has.  A stage returns what the loop
  does next: go on with the round, start the next round (\<^verbatim>\<open>continue\<close>) or leave the loop
  (\<^verbatim>\<open>break\<close>).
\<close>

datatype Next = GoOn | NextRound | LeaveLoop

record EncodedFrame =
  annexB :: bytes
  isKeyFrame :: bool

text \<open>What the world answers during one round: the clock at the points where the code reads it, the policy, the
  monitor's rectangle, the size and freshness of the captured frame (with a capture that had to be reopened),
  the frames of the encoder and, for each, whether the socket became writable.\<close>

record RoundAnswer =
  c_loop_now :: int
  c_policy :: NetworkSafetyResult
  c_rect :: RECT
  c_resize_build :: BuildAnswer
  c_reopened :: "bool option"
  c_changed :: bool
  c_size :: "u32 \<times> u32"
  c_encoder_ok :: bool
  c_rect_known :: bool
  c_rect_after :: RECT
  c_now :: int
  c_size_build :: BuildAnswer
  c_capture_ms :: double
  c_encode_ms :: double
  c_frames :: "EncodedFrame list"
  c_writable :: "nat \<Rightarrow> bool"
  c_drop_now :: int
  c_sent_now :: int
  c_end_now :: int

definition network_stage :: "bool \<Rightarrow> RoundAnswer \<Rightarrow> 'a Session_scheme \<Rightarrow> Next \<times> 'a Session_scheme" where
  "network_stage usb a s =
     (if kSenderPingMs \<le> c_loop_now a - lastNetworkCheck s then
        (let s1 = s\<lparr>lastNetworkCheck := c_loop_now a\<rparr> in
         if \<not> (usb \<or> allowed (c_policy a)) then (LeaveLoop, hang_up (s1\<lparr>state := StateUnsafeNetwork\<rparr>))
         else (GoOn, s1))
      else (GoOn, s))"

definition resize_stage :: "StreamSettings \<Rightarrow> RoundAnswer \<Rightarrow> 'a Session_scheme \<Rightarrow> Next \<times> 'a Session_scheme" where
  "resize_stage settings a s0 =
     (let s = s0\<lparr>pendingResize := None\<rparr> in
      case pendingResize s0 of
        None \<Rightarrow> (GoOn, s)
      | Some (w, h) \<Rightarrow>
          (if w \<noteq> panel_w s \<or> h \<noteq> panel_h s then
             (let s1 = (if managedDisplay settings then s\<lparr>claim := snd (RetunePanel w h (claim s))\<rparr> else s) in
              case buildPipeline settings (c_resize_build a) w h s1 of
                (ok, s2) \<Rightarrow>
                  if \<not> ok then (LeaveLoop, hang_up s2)
                  else (GoOn, s2\<lparr>panel_w := w, panel_h := h, width := dup_width s2, height := dup_height s2,
                                 keyFrameRequested := True\<rparr>))
           else (GoOn, s\<lparr>keyFrameRequested := True\<rparr>)))"

text \<open>The key frame request of the reader, the capture and the size it finds.\<close>

definition capture_frame :: "RoundAnswer \<Rightarrow> 'a Session_scheme \<Rightarrow> 'a Session_scheme" where
  "capture_frame a s0 =
     (let s1 = (if keyFrameRequested s0 then (act KeyFrameAsked s0)\<lparr>keyFrameRequested := False\<rparr> else s0);
          s2 = (case c_reopened a of
                  None \<Rightarrow> s1
                | Some opened \<Rightarrow>
                    (let s' = dup_close s1 in
                     if opened then (act (CaptureOpened (displayName s1)) s')\<lparr>capture_open := True\<rparr> else s'))
      in s2\<lparr>dup_width := fst (c_size a), dup_height := snd (c_size a)\<rparr>)"

text \<open>A size that changed on the Windows side: the encoder follows the capture.\<close>

definition follow_capture :: "StreamSettings \<Rightarrow> RoundAnswer \<Rightarrow> 'a Session_scheme \<Rightarrow> 'a Session_scheme" where
  "follow_capture settings a s =
     (if c_changed a \<and> (enc_width s \<noteq> dup_width s \<or> enc_height s \<noteq> dup_height s) then
        (case configure_encoder settings (c_encoder_ok a) s of
           (True, s1) \<Rightarrow>
             (act KeyFrameAsked (s1\<lparr>rectStale := (managedDisplay settings \<and> \<not> c_rect_known a),
                injector := SetMonitorRect (c_rect_after a) (injector s1)\<rparr>))
               \<lparr>width := dup_width s1, height := dup_height s1\<rparr>
         | (False, s1) \<Rightarrow> s1\<lparr>live := False\<rparr>)
      else if managedDisplay settings \<and> rectStale s \<and> c_rect_known a then
        s\<lparr>injector := SetMonitorRect (c_rect_after a) (injector s), rectStale := False\<rparr>
      else s)"

text \<open>The watchdog of the panel size.\<close>

definition size_stage :: "StreamSettings \<Rightarrow> RoundAnswer \<Rightarrow> 'a Session_scheme \<Rightarrow> Next \<times> 'a Session_scheme" where
  "size_stage settings a s0 =
     (let managed = managedDisplay settings; now = c_now a;
          s = (if managed \<and> dup_width s0 = panel_h s0 \<and> dup_height s0 = panel_w s0
               then s0\<lparr>panel_w := panel_h s0, panel_h := panel_w s0\<rparr> else s0)
      in if \<not> managed \<or> (dup_width s = panel_w s \<and> dup_height s = panel_h s) then
           (GoOn, s\<lparr>wrongSizeSince := 0, sizeRebuildDone := False\<rparr>)
         else if wrongSizeSince s = 0 then (GoOn, s\<lparr>wrongSizeSince := now\<rparr>)
         else if \<not> sizeRebuildDone s \<and> kWrongSizeGraceMs < now - wrongSizeSince s then
           (case buildPipeline settings (c_size_build a) (panel_w s) (panel_h s) (s\<lparr>sizeRebuildDone := True\<rparr>) of
              (ok, s1) \<Rightarrow> if \<not> ok then (GoOn, s1) else (NextRound, s1))
         else if sizeRebuildDone s \<and> \<not> sizeGiveUpLogged s then (GoOn, s\<lparr>sizeGiveUpLogged := True\<rparr>)
         else (GoOn, s))"

text \<open>Whether the encoder is fed, and the frames it then gives.\<close>

definition encode_stage :: "RoundAnswer \<Rightarrow> 'a Session_scheme \<Rightarrow> EncodedFrame list \<times> 'a Session_scheme" where
  "encode_stage a s0 =
     (let now = c_now a;
          s = (if c_changed a then s0\<lparr>lastChange := now\<rparr> else s0);
          active = (now - lastChange s < kActiveTailMs);
          keepaliveDue = (kKeepaliveMs \<le> now - lastSend s)
      in if live s \<and> (active \<or> keepaliveDue)
         then (c_frames a, PublishPipelineTimings (c_capture_ms a) (Some (c_encode_ms a)) (act Encoded s))
         else ([], PublishPipelineTimings (c_capture_ms a) None s))"

text \<open>Sending the frames; the flag says whether one went out.\<close>

fun send_stage :: "RoundAnswer \<Rightarrow> nat \<Rightarrow> bool \<Rightarrow> EncodedFrame list \<Rightarrow> 'a Session_scheme \<Rightarrow> bool \<times> 'a Session_scheme" where
  "send_stage a k sentSomething [] s = (sentSomething, s)"
| "send_stage a k sentSomething (f # fs) s =
     (if \<not> WaitWritable (c_writable a k) (conn s) then
        (let s1 = act KeyFrameAsked s in
         (sentSomething,
          if \<not> dropPending s1
          then s1\<lparr>lastChange := c_drop_now a, dropPending := True, networkDrops := networkDrops s1 + 1\<rparr> else s1))
      else (case SendFrame kSendTimeoutMs (annexB f) (conn s) of
              (ok, c) \<Rightarrow>
                if \<not> ok then (sentSomething, s\<lparr>conn := c, live := False\<rparr>)
                else send_stage a (Suc k) True fs (s\<lparr>conn := c, dropPending := False\<rparr>)))"

definition SerializeSenderPing_default :: string where
  "SerializeSenderPing_default = [lbrace] @ quoted ''type'' @ '':'' @ quoted ''ping'' @ [rbrace]"

definition ping_stage :: "RoundAnswer \<Rightarrow> 'a Session_scheme \<Rightarrow> 'a Session_scheme" where
  "ping_stage a s =
     (if live s \<and> kSenderPingMs \<le> c_end_now a - lastPing s then
        (case send_text SerializeSenderPing_default s of
           (ok, s1) \<Rightarrow> (if ok then s1 else s1\<lparr>live := False\<rparr>)\<lparr>lastPing := c_end_now a\<rparr>)
      else s)"

text \<open>A round of the loop; the loop is left when its condition is false.\<close>

definition encode_and_send :: "RoundAnswer \<Rightarrow> 'a Session_scheme \<Rightarrow> 'a Session_scheme" where
  "encode_and_send a s =
     (let (frames, s1) = encode_stage a s;
          (sent, s2) = send_stage a 0 False frames s1;
          s3 = (if sent then s2\<lparr>lastSend := c_sent_now a\<rparr> else s2)
      in ping_stage a s3)"

definition capture_round :: "bool \<Rightarrow> StreamSettings \<Rightarrow> RoundAnswer \<Rightarrow> 'a Session_scheme \<Rightarrow> 'a Session_scheme" where
  "capture_round usb settings a s =
     (if capture_left s then s
      else if \<not> live s \<or> stopRequested s then s\<lparr>capture_left := True\<rparr>
      else (case network_stage usb a s of
              (LeaveLoop, s1) \<Rightarrow> s1\<lparr>capture_left := True\<rparr>
            | (_, s1) \<Rightarrow>
                (case resize_stage settings a (PublishMonitorRect (c_rect a) s1) of
                   (LeaveLoop, s2) \<Rightarrow> s2\<lparr>capture_left := True\<rparr>
                 | (_, s2) \<Rightarrow>
                     (case size_stage settings a (follow_capture settings a (capture_frame a s2)) of
                        (NextRound, s3) \<Rightarrow> s3
                      | (_, s3) \<Rightarrow> encode_and_send a s3))))"

end
