(* ===== verification/SenderLoop.thy ===== *)
theory SenderLoop
  imports SenderCapture
begin

text \<open>
  The worker of a sender, fourth part: the reconnect loop of \<^verbatim>\<open>RunLoop\<close>
  (\<^verbatim>\<open>src/src/app/SenderApp.cpp\<close>).  An attempt goes from the network policy over the connection,
  the hello, the identity check and the claim on the panel size to a session, in which steps of the reader,
  rounds of the capture loop and a stop request interleave in any order.
\<close>

subsection \<open>A session\<close>

datatype SessionStep = ReaderStep ReaderAnswer | CaptureRound RoundAnswer | StopRequested

definition request_stop :: "'a Session_scheme \<Rightarrow> 'a Session_scheme" where
  "request_stop s = (RequestStop s)\<lparr>conn := Interrupt (conn s)\<rparr>"

definition session_step :: "bool \<Rightarrow> StreamSettings \<Rightarrow> string \<Rightarrow> 'a Session_scheme \<Rightarrow> SessionStep \<Rightarrow> 'a Session_scheme" where
  "session_step usb settings expectedDeviceId s st =
     (case st of
        ReaderStep a \<Rightarrow> reader_step expectedDeviceId a s
      | CaptureRound a \<Rightarrow> capture_round usb settings a s
      | StopRequested \<Rightarrow> request_stop s)"

definition run_session :: "bool \<Rightarrow> StreamSettings \<Rightarrow> string \<Rightarrow> SessionStep list \<Rightarrow> 'a Session_scheme \<Rightarrow> 'a Session_scheme" where
  "run_session usb settings expectedDeviceId steps s = foldl (session_step usb settings expectedDeviceId) s steps"

subsection \<open>The loop's own variables\<close>

record Loop = Session +
  blockedLogged :: bool
  everStreamed :: bool
  lastNetworkBlockReason :: "SafetyReason option"
  disconnectedSince :: "int option"

record AttemptAnswer =
  a_stop :: bool
  a_now :: int
  a_detach :: DetachAnswer
  a_policy :: NetworkSafetyResult
  a_connection :: "Connection option"
  a_usb_error :: string
  a_build :: BuildAnswer
  a_steps :: "SessionStep list"
  a_desktop :: Desktop
  a_end_now :: int

text \<open>How an attempt ends: the next one follows, the loop is left, the function returns at once, or the
  session goes on.\<close>

datatype Outcome = Again | LeftLoop | ReturnedAtOnce | StillStreaming

definition publish :: "AttemptAnswer \<Rightarrow> ConnectionPhase \<Rightarrow> FailureReason \<Rightarrow> StatusText \<Rightarrow> int \<Rightarrow> 'a Loop_scheme \<Rightarrow> 'a Loop_scheme" where
  "publish a ph why detail retry s = PublishStatus (a_now a) ph why detail retry s"

definition hang_up_conn :: "'a Session_scheme \<Rightarrow> 'a Session_scheme" where
  "hang_up_conn s = s\<lparr>conn := Close (conn s)\<rparr>"

text \<open>A receiver that stayed away for the grace period loses its display.\<close>

definition grace_stage :: "StreamSettings \<Rightarrow> AttemptAnswer \<Rightarrow> 'a Loop_scheme \<Rightarrow> 'a Loop_scheme" where
  "grace_stage settings a s =
     (case disconnectedSince s of
        Some since \<Rightarrow>
          (if kDisconnectGraceMs \<le> a_now a - since
           then (detachManagedDisplay settings (a_detach a) s)\<lparr>disconnectedSince := None\<rparr> else s)
      | None \<Rightarrow> s)"

definition refuse_network :: "AttemptAnswer \<Rightarrow> 'a Loop_scheme \<Rightarrow> 'a Loop_scheme" where
  "refuse_network a s =
     (publish a UnsafeNetwork NetworkUnsafe (Because (reason (a_policy a))) kBlockedRetryMs (s\<lparr>state := StateUnsafeNetwork\<rparr>))
       \<lparr>lastNetworkBlockReason := Some (reason (a_policy a))\<rparr>"

text \<open>The variables of a session as it starts.\<close>

definition begin_session :: "AttemptAnswer \<Rightarrow> u32 \<Rightarrow> u32 \<Rightarrow> 'a Loop_scheme \<Rightarrow> 'a Loop_scheme" where
  "begin_session a w h s =
     (publish a Streaming NoFailure NoText 0 (s\<lparr>width := dup_width s, height := dup_height s, state := StateStreaming\<rparr>))
       \<lparr>everStreamed := True, disconnectedSince := None, live := True, receiverSleeping := False,
        receiverClosing := False, keyFrameRequested := False, pendingResize := None, loggedPencil := False,
        panel_w := w, panel_h := h, lastSend := a_now a, lastPing := a_now a, lastNetworkCheck := a_now a,
        lastChange := a_now a - kActiveTailMs, dropPending := False, rectStale := False, wrongSizeSince := 0,
        sizeRebuildDone := False, sizeGiveUpLogged := False, capture_left := False\<rparr>"

text \<open>What follows the capture loop.\<close>

definition end_session :: "StreamSettings \<Rightarrow> AttemptAnswer \<Rightarrow> 'a Loop_scheme \<Rightarrow> Outcome \<times> 'a Loop_scheme" where
  "end_session settings a s0 =
     (let s1 = s0\<lparr>conn := Close (Interrupt (conn s0))\<rparr>;
          s2 = s1\<lparr>injector := EndSession (a_desktop a) (injector s1), width := 0, height := 0\<rparr>;
          s3 = (if receiverSleeping s2 \<or> receiverClosing s2 then detachManagedDisplay settings (a_detach a) s2
                else if \<not> stopRequested s2 \<and> disconnectedSince s2 = None then s2\<lparr>disconnectedSince := Some (a_end_now a)\<rparr>
                else s2);
          s4 = (if \<not> stopRequested s3 \<and> \<not> receiverClosing s3 \<and> \<not> receiverSleeping s3
                then PublishStatus (a_end_now a) Reconnecting TransportError LinkLost kReconnectDelayMs s3 else s3)
      in (if receiverClosing s4 then LeftLoop else Again, s4))"

text \<open>From the claim on the panel size on; the claim is released when the attempt ends.\<close>

definition stream_stage ::
    "bool \<Rightarrow> StreamSettings \<Rightarrow> string \<Rightarrow> AttemptAnswer \<Rightarrow> u32 \<Rightarrow> u32 \<Rightarrow> 'a Loop_scheme \<Rightarrow> Outcome \<times> 'a Loop_scheme" where
  "stream_stage usb settings expectedDeviceId a w h s =
     (let managed = managedDisplay settings;
          (held, by, p) = (if managed then AcquirePanel w h (claim s) else (False, None, claim s)) in
      if managed \<and> \<not> held then
        (let (bw, bh) = value_or by (0, 0);
             s1 = s\<lparr>blockedByWidth := bw, blockedByHeight := bh, state := StateBlocked, claim := p\<rparr>
         in (Again, hang_up_conn ((publish a Blocked ResolutionUnavailable PanelInUse kBlockedRetryMs s1)\<lparr>blockedLogged := True\<rparr>)))
      else
        (let s1 = s\<lparr>claim := p, blockedByWidth := 0, blockedByHeight := 0, blockedLogged := False\<rparr> in
         case buildPipeline settings (a_build a) w h s1 of
           (False, s2) \<Rightarrow>
             (Again, (detachManagedDisplay settings (a_detach a) (hang_up_conn s2))\<lparr>claim := PanelHolder_end held (claim s2)\<rparr>)
         | (True, s2) \<Rightarrow>
             (let s3 = run_session usb settings expectedDeviceId (a_steps a) (begin_session a w h s2) in
              if \<not> capture_left s3 then (StillStreaming, s3)
              else (case end_session settings a s3 of
                      (r, s4) \<Rightarrow> (r, s4\<lparr>claim := PanelHolder_end held (claim s4)\<rparr>)))))"

text \<open>With a connection: the hello, the identity, the welcome and the panel's size.\<close>

definition handshake_stage ::
    "bool \<Rightarrow> StreamSettings \<Rightarrow> string \<Rightarrow> AttemptAnswer \<Rightarrow> 'a Loop_scheme \<Rightarrow> Outcome \<times> 'a Loop_scheme" where
  "handshake_stage usb settings expectedDeviceId a s0 =
     (let s1 = publish a WaitingHello OpenDisplayUnavailable AwaitHello 0 s0 in
      case wait_hello (stopRequested s1) (conn s1) of
        (None, c) \<Rightarrow>
          (Again, publish a Reconnecting OpenDisplayUnavailable NoHello kReconnectDelayMs (hang_up_conn (s1\<lparr>conn := c\<rparr>)))
      | (Some h, c) \<Rightarrow>
          (let s2 = s1\<lparr>conn := c\<rparr> in
           if \<not> HelloMatchesExpectedDevice h expectedDeviceId then
             (ReturnedAtOnce, publish a Failed DeviceIdentityMismatch OtherDevice 0 (hang_up_conn s2))
           else
             (case send_text SerializeWelcome (s2\<lparr>session_device := hello_id h\<rparr>) of
                (False, s3) \<Rightarrow> (Again, publish a Reconnecting ProtocolError WelcomeNotSent kReconnectDelayMs (hang_up_conn s3))
              | (True, s3) \<Rightarrow>
                  (case NormalizePanelSize (pixelsWide h) (pixelsHigh h) of
                     None \<Rightarrow> (Again, publish a Failed InvalidPanel BadPanel kReconnectDelayMs (hang_up_conn s3))
                   | Some (w, h) \<Rightarrow>
                       stream_stage usb settings expectedDeviceId a w h
                         (publish a PreparingDisplay NoFailure NoText 0 s3)))))"

definition run_attempt ::
    "bool \<Rightarrow> StreamSettings \<Rightarrow> string \<Rightarrow> AttemptAnswer \<Rightarrow> 'a Loop_scheme \<Rightarrow> Outcome \<times> 'a Loop_scheme" where
  "run_attempt usb settings expectedDeviceId a s0 =
     (let s1 = grace_stage settings a s0 in
      if \<not> (usb \<or> allowed (a_policy a)) then (Again, refuse_network a s1)
      else
        (let s2 = s1\<lparr>lastNetworkBlockReason := None\<rparr>;
             s3 = (if state s2 \<noteq> StateBlocked then s2\<lparr>state := StateConnecting\<rparr> else s2);
             s4 = publish a (if everStreamed s3 then Reconnecting else Connecting) NoFailure NoText 0 s3
         in case a_connection a of
              None \<Rightarrow>
                (Again, if usb then publish a Reconnecting UsbUnavailable (Plain (a_usb_error a)) kReconnectDelayMs s4
                        else publish a Reconnecting ReceiverUnavailable OpenReceiver kReconnectDelayMs s4)
            | Some c \<Rightarrow> handshake_stage usb settings expectedDeviceId a (s4\<lparr>conn := c\<rparr>)))"

subsection \<open>The loop\<close>

text \<open>The named mutex that guards a device, and the names whose handles are open on the machine.\<close>

definition lock_char :: "char \<Rightarrow> char" where
  "lock_char c = (if c = CHR ''.'' \<or> c = CHR '':'' then CHR ''_'' else c)"

definition lock_name :: "string \<Rightarrow> string \<Rightarrow> string" where
  "lock_name ip expectedDeviceId =
     ''Global'' @ [CHR 0x5C] @ ''opendisplay-win-'' @
       map lock_char (if expectedDeviceId = [] then ip else expectedDeviceId)"

text \<open>The locals of the function as it starts, and their destructors: the capture goes before the display.\<close>

definition begin_loop :: "'a Loop_scheme \<Rightarrow> 'a Loop_scheme" where
  "begin_loop s =
     s\<lparr>blockedLogged := False, everStreamed := False, lastNetworkBlockReason := None, disconnectedSince := None,
       display_open := False, capture_open := False, injector := InputInjector_default, acts := []\<rparr>"

definition destroy_objects :: "'a Worker_scheme \<Rightarrow> 'a Worker_scheme" where
  "destroy_objects s =
     (let s1 = dup_close s
      in if display_open s1 then (act DisplayRemoved s1)\<lparr>display_open := False\<rparr> else s1)"

definition leave_loop :: "StreamSettings \<Rightarrow> AttemptAnswer \<Rightarrow> 'a Loop_scheme \<Rightarrow> 'a Loop_scheme" where
  "leave_loop settings a s0 =
     (let s1 = (detachManagedDisplay settings (a_detach a) s0)\<lparr>state := StateIdle\<rparr>
      in if stopRequested s1 then PublishStatus (a_end_now a) Idle NoFailure NoText 0 s1 else s1)"

text \<open>The attempts one after the other, as long as the answers last; the flag says whether the handle of the
  mutex was closed.\<close>

fun attempts :: "bool \<Rightarrow> StreamSettings \<Rightarrow> string \<Rightarrow> AttemptAnswer list \<Rightarrow> 'a Loop_scheme \<Rightarrow> bool \<times> 'a Loop_scheme" where
  "attempts usb settings expectedDeviceId [] s = (False, s)"
| "attempts usb settings expectedDeviceId (a # as) s0 =
     (let s = (if a_stop a then RequestStop s0 else s0) in
      if stopRequested s then (True, destroy_objects (leave_loop settings a s))
      else (case run_attempt usb settings expectedDeviceId a s of
              (Again, s1) \<Rightarrow> attempts usb settings expectedDeviceId as s1
            | (StillStreaming, s1) \<Rightarrow> (False, s1)
            | (LeftLoop, s1) \<Rightarrow> (True, destroy_objects (leave_loop settings a s1))
            | (ReturnedAtOnce, s1) \<Rightarrow> (False, destroy_objects s1)))"

text \<open>The function: with the open names and whether the mutex can be created, the open names afterwards.\<close>

definition RunLoop ::
    "string \<Rightarrow> bool \<Rightarrow> string list \<Rightarrow> StreamSettings \<Rightarrow> string \<Rightarrow> AttemptAnswer list \<Rightarrow> 'a Loop_scheme
      \<Rightarrow> string list \<times> 'a Loop_scheme" where
  "RunLoop ip created locks settings0 expectedDeviceId as s =
     (let settings = clamp_settings settings0; lockName = lock_name ip expectedDeviceId in
      if \<not> created then (locks, PublishStatus 0 Failed AnotherSender NoGuard 0 (s\<lparr>state := StateIdle\<rparr>))
      else if lockName \<in> set locks then
        (locks, PublishStatus 0 Failed AnotherSender OtherProcess 0 (s\<lparr>state := StateIdle\<rparr>))
      else (case attempts (IsUsbMuxTarget ip) settings expectedDeviceId as (begin_loop s) of
              (released, s1) \<Rightarrow> (if released then locks else lockName # locks, s1)))"

end
