(* ===== verification/SenderProps.thy ===== *)
theory SenderProps
  imports SenderLoop InputProps
begin

text \<open>
  What the worker of a sender keeps, whatever the receiver sends, the encoder and the display answer, and however
  its two threads interleave: one invariant of a session, preserved by every stage, and the properties
  that rest on it.
\<close>

subsection \<open>The wire\<close>

definition welcome_bytes :: bytes where
  "welcome_bytes = bytes_of SerializeWelcome"

text \<open>Complete frames, the welcome first, and a cut one behind them only on a stream that is shut down.\<close>

definition wire_ok :: "Connection \<Rightarrow> bool" where
  "wire_ok c \<longleftrightarrow> (\<exists>fs part. outbox (stream c) = concat (map frame (welcome_bytes # fs)) @ part \<and>
     (part = [] \<or> shut (stream c)))"

lemma SendFrame_invalid: "\<not> handle_valid c \<Longrightarrow> SendFrame t p c = (False, c)"
  by (simp add: SendFrame_def IsValid_def)

lemma SendFrame_wire [preserves]:
  assumes "wire_ok c" and "0 < t"
  shows "wire_ok (snd (SendFrame t p c))"
proof (cases "handle_valid c")
  case True
  obtain fs part where w: "outbox (stream c) = concat (map frame (welcome_bytes # fs)) @ part" "part = [] \<or> shut (stream c)"
    using assms(1) by (auto simp: wire_ok_def)
  obtain ok c' where s: "SendFrame t p c = (ok, c')" by (cases "SendFrame t p c")
  from SendFrame_cases [OF s True assms(2)] obtain k where
    k: "k \<le> length (frame p)" "outbox (stream c') = outbox (stream c) @ take k (frame p)" "ok \<longleftrightarrow> k = length (frame p)"
      "shut (stream c) \<longrightarrow> k = 0" "shut (stream c') \<longleftrightarrow> shut (stream c) \<or> \<not> ok" by blast
  show ?thesis
  proof (cases "ok \<and> k \<noteq> 0")
    case True
    with k w have "outbox (stream c') = concat (map frame (welcome_bytes # (fs @ [p]))) @ []" by auto
    with s have "outbox (stream (snd (SendFrame t p c))) = concat (map frame (welcome_bytes # (fs @ [p]))) @ []" by simp
    then show ?thesis unfolding wire_ok_def by blast
  next
    case False
    have "frame p \<noteq> []" by (simp add: frame_def put32_def)
    with False k w have "outbox (stream c') = concat (map frame (welcome_bytes # fs)) @ (part @ take k (frame p))"
        "part @ take k (frame p) = [] \<or> shut (stream c')" by auto
    with s have "outbox (stream (snd (SendFrame t p c))) = concat (map frame (welcome_bytes # fs)) @ (part @ take k (frame p))"
      "part @ take k (frame p) = [] \<or> shut (stream (snd (SendFrame t p c)))" by simp_all
    then show ?thesis unfolding wire_ok_def by blast
  qed
qed (simp add: SendFrame_invalid assms(1))

lemma wire_ok_cong: "wire_ok c \<Longrightarrow> outbox (stream c') = outbox (stream c) \<Longrightarrow> shut (stream c) \<le> shut (stream c') \<Longrightarrow> wire_ok c'"
  by (auto simp: wire_ok_def)

lemma ReadFrame_outbox:
  "outbox (stream (snd (ReadFrame c))) = outbox (stream c) \<and> shut (stream (snd (ReadFrame c))) = shut (stream c)"
proof -
  obtain ok1 h s1 where r1: "ReadExact 4 (stream c) = (ok1, h, s1)" by (metis prod_cases3)
  obtain ok2 b s2 where r2: "ReadExact (unat (be32 (h ! 0) (h ! 1) (h ! 2) (h ! 3))) s1 = (ok2, b, s2)" by (metis prod_cases3)
  show ?thesis
    using r1 r2 reader.receive_outbox [OF r1] reader.receive_outbox [OF r2] by (auto simp: ReadFrame_def Let_def)
qed

lemma wire_ReadFrame [preserves]: "wire_ok c \<Longrightarrow> wire_ok (snd (ReadFrame c))"
  using ReadFrame_outbox [of c] by (auto intro: wire_ok_cong)

lemma wire_Interrupt [preserves]: "wire_ok c \<Longrightarrow> wire_ok (Interrupt c)"
  by (cases "handle_valid c") (auto simp: Interrupt_def intro: wire_ok_cong [of c])

lemma wire_Close [preserves]: "wire_ok c \<Longrightarrow> wire_ok (Close c)"
  by (cases "handle_valid c") (auto simp: Close_def intro: wire_ok_cong [of c])

subsection \<open>The invariant of a session\<close>

definition session_inv :: "int \<Rightarrow> 'a Session_scheme \<Rightarrow> bool" where
  "session_inv n s \<longleftrightarrow> capture_inv s \<and> injector_inv (injector s) \<and> wire_ok (conn s) \<and> holders (claim s) = n"

lemma session_inv_cong:
  "session_inv n s \<Longrightarrow> acts s' = acts s \<Longrightarrow> capture_open s' = capture_open s \<Longrightarrow> injector s' = injector s \<Longrightarrow>
   conn s' = conn s \<Longrightarrow> claim s' = claim s \<Longrightarrow> session_inv n s'"
  by (simp add: session_inv_def capture_inv_def)

lemma session_inv_conn:
  "session_inv n s \<Longrightarrow> wire_ok c \<Longrightarrow> session_inv n (s\<lparr>conn := c\<rparr>)"
  by (simp add: session_inv_def capture_inv_def)

lemma session_inv_injector:
  "session_inv n s \<Longrightarrow> injector_inv i \<Longrightarrow> session_inv n (s\<lparr>injector := i\<rparr>)"
  by (simp add: session_inv_def capture_inv_def)

lemma session_inv_live [simp]: "session_inv n (s\<lparr>live := b\<rparr>) = session_inv n s"
  by (simp add: session_inv_def capture_inv_def)

lemma session_inv_PublishStatus [simp]: "session_inv n (PublishStatus now p f d r s) = session_inv n s"
  by (simp add: session_inv_def capture_inv_def PublishStatus_def)

lemma SetMonitorRect_inv: "injector_inv i \<Longrightarrow> injector_inv (SetMonitorRect r i)"
  by (auto simp: SetMonitorRect_def intro: injector_inv_cong)

lemma send_text_inv [preserves]:
  assumes "session_inv n s"
  shows "session_inv n (snd (send_text t s))"
  using assms SendFrame_wire [of "conn s" kControlTimeoutMs "bytes_of t"]
  by (auto simp: send_text_def kControlTimeoutMs_def session_inv_def capture_inv_def split: prod.splits)

lemma hang_up_inv [preserves]: "session_inv n s \<Longrightarrow> session_inv n (hang_up s)"
  by (simp add: hang_up_def session_inv_def capture_inv_def wire_Interrupt)

lemma with_input_inv:
  assumes "session_inv n s" and "\<And>i. injector_inv i \<Longrightarrow> injector_inv (f i)"
  shows "session_inv n (with_input a f s)"
  using assms by (simp add: with_input_def session_inv_def capture_inv_def SetMonitorRect_inv)

lemma on_ping_inv: "session_inv n s \<Longrightarrow> session_inv n (on_ping a t s)"
  using send_text_inv [of n s] by (auto simp: on_ping_def split: option.split prod.split) (metis snd_conv)+

lemma on_hello_inv:
  assumes "session_inv n s"
  shows "session_inv n (on_hello e a h s)"
proof -
  obtain ok s1 where s: "send_text SerializeWelcome s = (ok, s1)" by (cases "send_text SerializeWelcome s")
  then have "session_inv n s1" using send_text_inv [OF assms, of SerializeWelcome] by simp
  moreover from this have "session_inv n (s1\<lparr>pendingResize := r\<rparr>)" for r by (rule session_inv_cong) simp_all
  ultimately show ?thesis
    using assms s hang_up_inv [of n s1] by (auto simp: on_hello_def split: option.split)
qed

lemma PublishReceiverStats_inv: "session_inv n s \<Longrightarrow> session_inv n (PublishReceiverStats j s)"
  by (erule session_inv_cong) (simp_all add: PublishReceiverStats_def Let_def split: option.split)

lemma handle_message_inv [preserves]:
  assumes "session_inv n s"
  shows "session_inv n (handle_message e a m s)"
proof -
  have f: "session_inv n (s\<lparr>keyFrameRequested := b\<rparr>)" "session_inv n (s\<lparr>loggedPencil := b\<rparr>)" for b
    using assms by (auto intro: session_inv_cong)
  have g: "session_inv n (x\<lparr>receiverSleeping := b\<rparr>)" "session_inv n (x\<lparr>receiverClosing := b\<rparr>)"
    if "session_inv n x" for b and x :: "'a Session_scheme"
    using that by (auto intro: session_inv_cong)
  show ?thesis
    using assms f
    by (cases "msg_type m")
      (auto simp: handle_message_def on_ping_inv on_hello_inv PublishReceiverStats_inv HandleTouch_inv HandleScroll_inv
        HandlePencil_inv HandleProximity_inv hang_up_inv intro!: with_input_inv g)
qed

lemma reader_step_inv [preserves]:
  assumes "session_inv n s"
  shows "session_inv n (reader_step e a s)"
proof -
  obtain r c where rf: "ReadFrame (conn s) = (r, c)" by (cases "ReadFrame (conn s)")
  have "wire_ok c" using wire_ReadFrame [of "conn s"] assms rf by (simp add: session_inv_def)
  then have i: "session_inv n (s\<lparr>conn := c\<rparr>)" using assms by (rule session_inv_conn [rotated])
  then have "session_inv n (s\<lparr>conn := c, live := False\<rparr>)" by simp
  with assms i show ?thesis
    by (auto simp: reader_step_def rf Let_def handle_message_inv simp del: session_inv_live split: option.split)
qed

subsection \<open>The capture loop\<close>

text \<open>Building and detaching leave the connection and the claim alone.\<close>

named_theorems session_frame

lemma act_frame [session_frame]:
  "conn (act x s) = conn s" "claim (act x s) = claim s" "injector (act x s) = injector s" "stopRequested (act x s) = stopRequested s"
  by (simp_all add: act_def)

lemma publish_frame [session_frame]:
  "conn (PublishStatus now p f d r s) = conn s" "claim (PublishStatus now p f d r s) = claim s"
  "injector (PublishStatus now p f d r s) = injector s" "stopRequested (PublishStatus now p f d r s) = stopRequested s"
  "conn (PublishMonitorRect m s) = conn s" "claim (PublishMonitorRect m s) = claim s"
  "injector (PublishMonitorRect m s) = injector s" "stopRequested (PublishMonitorRect m s) = stopRequested s"
  "conn (PublishDisplayName n s) = conn s" "claim (PublishDisplayName n s) = claim s"
  "injector (PublishDisplayName n s) = injector s" "stopRequested (PublishDisplayName n s) = stopRequested s"
  by (simp_all add: PublishStatus_def PublishMonitorRect_def PublishDisplayName_def)

lemma timings_frame [session_frame]:
  "conn (PublishPipelineTimings c e s) = conn s" "claim (PublishPipelineTimings c e s) = claim s"
  "injector (PublishPipelineTimings c e s) = injector s" "acts (PublishPipelineTimings c e s) = acts s"
  "capture_open (PublishPipelineTimings c e s) = capture_open s"
  by (simp_all add: PublishPipelineTimings_def Let_def split: option.split)

lemma dup_frame [session_frame]:
  "conn (dup_close s) = conn s" "claim (dup_close s) = claim s" "injector (dup_close s) = injector s"
  "conn (snd (dup_open n b s)) = conn s" "claim (snd (dup_open n b s)) = claim s" "injector (snd (dup_open n b s)) = injector s"
  "conn (snd (configure_encoder g ok s)) = conn s" "claim (snd (configure_encoder g ok s)) = claim s"
  "injector (snd (configure_encoder g ok s)) = injector s"
  by (simp_all add: dup_close_def dup_open_def configure_encoder_def session_frame split: option.split)

lemma SetMonitorRect_keeps:
  "isDown (SetMonitorRect r i) = isDown i" "penInRange (SetMonitorRect r i) = penInRange i"
  by (simp_all add: SetMonitorRect_def)

lemma open_capture_frame:
  "conn (snd (open_capture g b n s)) = conn s \<and> claim (snd (open_capture g b n s)) = claim s \<and>
   isDown (injector (snd (open_capture g b n s))) = isDown (injector s) \<and>
   penInRange (injector (snd (open_capture g b n s))) = penInRange (injector s) \<and>
   (injector_inv (injector s) \<longrightarrow> injector_inv (injector (snd (open_capture g b n s))))"
proof -
  obtain ok1 s1 where o: "dup_open n (b_capture b) s = (ok1, s1)" by (cases "dup_open n (b_capture b) s")
  obtain ok2 s2 where c: "configure_encoder g (b_encoder b) s1 = (ok2, s2)" by (cases "configure_encoder g (b_encoder b) s1")
  have "conn s1 = conn s" "claim s1 = claim s" "injector s1 = injector s"
    using dup_frame(4-6) [of n "b_capture b" s] o by simp_all
  moreover from this have "conn s2 = conn s" "claim s2 = claim s" "injector s2 = injector s"
    using dup_frame(7-9) [of g "b_encoder b" s1] c by simp_all
  ultimately show ?thesis
    by (simp add: open_capture_def fail_build_def o c session_frame SetMonitorRect_inv SetMonitorRect_keeps
        split: bool.split)
qed

lemma buildPipeline_frame:
  "conn (snd (buildPipeline g b w h s)) = conn s \<and> claim (snd (buildPipeline g b w h s)) = claim s \<and>
   isDown (injector (snd (buildPipeline g b w h s))) = isDown (injector s) \<and>
   penInRange (injector (snd (buildPipeline g b w h s))) = penInRange (injector s) \<and>
   (injector_inv (injector s) \<longrightarrow> injector_inv (injector (snd (buildPipeline g b w h s))))"
  by (simp add: buildPipeline_def Let_def fail_build_def session_frame open_capture_frame split: if_split)

lemma build_inv [preserves]: "session_inv n s \<Longrightarrow> session_inv n (snd (buildPipeline g b w h s))"
  using buildPipeline_frame [of g b w h s] buildPipeline_inv [of s g b w h] by (simp add: session_inv_def)

lemma detach_frame:
  "conn (detachManagedDisplay g d s) = conn s \<and> claim (detachManagedDisplay g d s) = claim s \<and>
   injector (detachManagedDisplay g d s) = injector s \<and> stopRequested (detachManagedDisplay g d s) = stopRequested s"
  by (simp add: detachManagedDisplay_def rescue_cursor_def session_frame dup_close_def split: option.split)

lemma detach_session_inv [preserves]: "session_inv n s \<Longrightarrow> session_inv n (detachManagedDisplay g d s)"
  using detach_frame [of g d s] detach_inv [of s g d] by (simp add: session_inv_def)

lemma network_stage_inv [preserves]: "session_inv n s \<Longrightarrow> session_inv n (snd (network_stage usb a s))"
proof -
  assume i: "session_inv n s"
  then have j: "session_inv n (s\<lparr>lastNetworkCheck := t\<rparr>)" "session_inv n (s\<lparr>lastNetworkCheck := t, state := st\<rparr>)" for t st
    by (auto elim: session_inv_cong)
  show ?thesis using i j by (simp add: network_stage_def Let_def hang_up_inv)
qed

lemma RetunePanel_holders [simp]: "holders (snd (RetunePanel w h p)) = holders p"
  by (simp add: RetunePanel_def)

lemma session_inv_claim: "session_inv n s \<Longrightarrow> holders p = n \<Longrightarrow> session_inv n (s\<lparr>claim := p\<rparr>)"
  by (simp add: session_inv_def capture_inv_def)

lemma resize_stage_inv [preserves]:
  assumes "session_inv n s0"
  shows "session_inv n (snd (resize_stage settings a s0))"
proof -
  define s where "s = s0\<lparr>pendingResize := None\<rparr>"
  have i: "session_inv n s" unfolding s_def by (rule session_inv_cong [OF assms]) simp_all
  have k: "session_inv n (s\<lparr>keyFrameRequested := True\<rparr>)" by (rule session_inv_cong [OF i]) simp_all
  have sized: "session_inv n (x\<lparr>panel_w := w, panel_h := h, width := ww, height := hh, keyFrameRequested := True\<rparr>)"
    if "session_inv n x" for w h ww hh and x :: "'a Session_scheme"
    by (rule session_inv_cong [OF that]) simp_all
  show ?thesis
  proof (cases "pendingResize s0")
    case (Some wh)
    obtain w h where wh: "wh = (w, h)" by (cases wh)
    define s1 where "s1 = (if managedDisplay settings then s\<lparr>claim := snd (RetunePanel w h (claim s))\<rparr> else s)"
    have "session_inv n s1"
      using i by (simp add: s1_def session_inv_def capture_inv_def)
    then have b: "session_inv n (snd (buildPipeline settings (c_resize_build a) w h s1))" by (rule build_inv)
    show ?thesis
      using b k sized [OF b] hang_up_inv [OF b]
      by (cases "managedDisplay settings") (simp_all add: resize_stage_def Let_def Some wh split_beta s1_def flip: s_def)
  qed (simp add: resize_stage_def i flip: s_def)
qed


lemma session_inv_acts:
  assumes "session_inv n s" and "\<And>c. capture_after (Some c) x = Some c"
  shows "session_inv n (act x s)"
  using assms by (simp add: session_inv_def capture_inv_def act_def)

lemma capture_frame_inv [preserves]:
  assumes "session_inv n s0"
  shows "session_inv n (capture_frame a s0)"
proof -
  define s1 where "s1 = (if keyFrameRequested s0 then (act KeyFrameAsked s0)\<lparr>keyFrameRequested := False\<rparr> else s0)"
  have i: "session_inv n s1"
    using assms by (simp add: s1_def session_inv_def capture_inv_def act_def)
  then have "session_inv n (dup_close s1)" "session_inv n ((act (CaptureOpened m) (dup_close s1))\<lparr>capture_open := True\<rparr>)" for m
    by (simp_all add: session_inv_def capture_inv_def act_def dup_close_def replay_capture_def)
  with i have s2: "session_inv n (case c_reopened a of None \<Rightarrow> s1
       | Some opened \<Rightarrow> (let s' = dup_close s1 in
           if opened then (act (CaptureOpened (displayName s1)) s')\<lparr>capture_open := True\<rparr> else s'))"
    by (simp add: Let_def split: option.split)
  show ?thesis
    unfolding capture_frame_def Let_def [of "if keyFrameRequested s0 then _ else _"] s1_def [symmetric]
    by (subst Let_def) (rule session_inv_cong [OF s2], simp_all)
qed

lemma follow_capture_inv [preserves]:
  assumes "session_inv n s"
  shows "session_inv n (follow_capture settings a s)"
  using assms
  by (simp add: follow_capture_def configure_encoder_def session_inv_def capture_inv_def act_def replay_capture_def SetMonitorRect_inv split: bool.split)

lemma size_stage_inv [preserves]:
  assumes "session_inv n s0"
  shows "session_inv n (snd (size_stage settings a s0))"
proof -
  define s where "s = (if managedDisplay settings \<and> dup_width s0 = panel_h s0 \<and> dup_height s0 = panel_w s0
       then s0\<lparr>panel_w := panel_h s0, panel_h := panel_w s0\<rparr> else s0)"
  have i: "session_inv n s" using assms by (simp add: s_def session_inv_def capture_inv_def)
  then have j: "session_inv n (s\<lparr>wrongSizeSince := t, sizeRebuildDone := b\<rparr>)" "session_inv n (s\<lparr>wrongSizeSince := t\<rparr>)"
     "session_inv n (s\<lparr>sizeRebuildDone := b\<rparr>)" "session_inv n (s\<lparr>sizeGiveUpLogged := b\<rparr>)" for t b
    by (simp_all add: session_inv_def capture_inv_def)
  show ?thesis
    unfolding size_stage_def Let_def s_def [symmetric]
    using i j build_inv [OF j(3) [of True]] by (simp add: split_beta)
qed

lemma encode_stage_inv [preserves]:
  assumes "session_inv n s0"
  shows "session_inv n (snd (encode_stage a s0))"
proof -
  define s where "s = (if c_changed a then s0\<lparr>lastChange := c_now a\<rparr> else s0)"
  have i: "session_inv n s" using assms by (simp add: s_def session_inv_def capture_inv_def)
  then have "session_inv n (PublishPipelineTimings c e s)" "session_inv n (PublishPipelineTimings c e (act Encoded s))" for c e
    by (simp_all add: session_inv_def capture_inv_def session_frame act_def)
  then show ?thesis by (simp add: encode_stage_def Let_def flip: s_def)
qed

lemma send_stage_inv [preserves]: "session_inv n s \<Longrightarrow> session_inv n (snd (send_stage a k sent fs s))"
proof (induction fs arbitrary: k sent s)
  case (Cons f fs)
  have d: "session_inv n (act KeyFrameAsked s)"
      "session_inv n ((act KeyFrameAsked s)\<lparr>lastChange := t, dropPending := True, networkDrops := m\<rparr>)" for t m
    using Cons.prems by (simp_all add: session_inv_def capture_inv_def act_def)
  obtain ok c where s: "SendFrame kSendTimeoutMs (annexB f) (conn s) = (ok, c)"
    by (cases "SendFrame kSendTimeoutMs (annexB f) (conn s)")
  then have "wire_ok c"
    using SendFrame_wire [of "conn s" kSendTimeoutMs "annexB f"] Cons.prems by (simp add: session_inv_def kSendTimeoutMs_def)
  then have "session_inv n (s\<lparr>conn := c, live := False\<rparr>)" "session_inv n (s\<lparr>conn := c, dropPending := False\<rparr>)"
    using Cons.prems by (simp_all add: session_inv_def capture_inv_def)
  with d Cons.IH s show ?case by (simp add: Let_def)
qed simp

lemma ping_stage_inv [preserves]:
  assumes "session_inv n s"
  shows "session_inv n (ping_stage a s)"
proof -
  obtain ok s1 where s: "send_text SerializeSenderPing_default s = (ok, s1)" by (cases "send_text SerializeSenderPing_default s")
  then have "session_inv n s1" using send_text_inv [OF assms, of SerializeSenderPing_default] by simp
  then have "session_inv n (s1\<lparr>live := b, lastPing := t\<rparr>)" "session_inv n (s1\<lparr>lastPing := t\<rparr>)" for b t
    by (simp_all add: session_inv_def capture_inv_def)
  with assms s show ?thesis by (simp add: ping_stage_def)
qed

lemma encode_and_send_inv [preserves]:
  assumes "session_inv n s"
  shows "session_inv n (encode_and_send a s)"
proof -
  obtain fs s1 where e: "encode_stage a s = (fs, s1)" by (cases "encode_stage a s")
  obtain b s2 where t: "send_stage a 0 False fs s1 = (b, s2)" by (cases "send_stage a 0 False fs s1")
  have "session_inv n s2" using encode_stage_inv [OF assms, of a] send_stage_inv [of n s1 a 0 False fs] e t by simp
  then have "session_inv n (if b then s2\<lparr>lastSend := c_sent_now a\<rparr> else s2)"
    by (simp add: session_inv_def capture_inv_def)
  then show ?thesis by (simp add: encode_and_send_def e t ping_stage_inv)
qed

lemma session_inv_left [simp]: "session_inv n (s\<lparr>capture_left := b\<rparr>) = session_inv n s"
  by (simp add: session_inv_def capture_inv_def)

lemma session_inv_rect [simp]: "session_inv n (PublishMonitorRect r s) = session_inv n s"
  by (simp add: session_inv_def capture_inv_def PublishMonitorRect_def)

lemma capture_round_inv [preserves]:
  assumes "session_inv n s"
  shows "session_inv n (capture_round usb settings a s)"
proof -
  obtain r1 s1 where n: "network_stage usb a s = (r1, s1)" by (cases "network_stage usb a s")
  obtain r2 s2 where r: "resize_stage settings a (PublishMonitorRect (c_rect a) s1) = (r2, s2)"
    by (cases "resize_stage settings a (PublishMonitorRect (c_rect a) s1)")
  obtain r3 s3 where z: "size_stage settings a (follow_capture settings a (capture_frame a s2)) = (r3, s3)"
    by (cases "size_stage settings a (follow_capture settings a (capture_frame a s2))")
  have "session_inv n s1" using network_stage_inv [OF assms, of usb a] n by simp
  moreover from this have "session_inv n s2" using resize_stage_inv [of n "PublishMonitorRect (c_rect a) s1" settings a] r by simp
  moreover from this have "session_inv n s3"
    using size_stage_inv [OF follow_capture_inv [OF capture_frame_inv], of n s2 settings a settings a a] z by simp
  ultimately show ?thesis
    using assms by (simp add: capture_round_def n r z encode_and_send_inv split: Next.split)
qed

lemma request_stop_inv [preserves]: "session_inv n s \<Longrightarrow> session_inv n (request_stop s)"
  by (simp add: request_stop_def RequestStop_def session_inv_def capture_inv_def wire_Interrupt)

lemma run_session_inv [preserves]: "session_inv n s \<Longrightarrow> session_inv n (run_session usb settings e steps s)"
  unfolding run_session_def
  by (induction steps arbitrary: s)
    (auto simp: session_step_def reader_step_inv capture_round_inv request_stop_inv split: SessionStep.split)

subsection \<open>An attempt\<close>

text \<open>Between two attempts: no session, so nothing is asked of the connection.\<close>

definition loop_inv :: "int \<Rightarrow> 'a Session_scheme \<Rightarrow> bool" where
  "loop_inv n s \<longleftrightarrow> capture_inv s \<and> injector_inv (injector s) \<and>
     \<not> isDown (injector s) \<and> \<not> penInRange (injector s) \<and> holders (claim s) = n"

lemma loop_inv_cong:
  "loop_inv n s \<Longrightarrow> acts s' = acts s \<Longrightarrow> capture_open s' = capture_open s \<Longrightarrow> injector s' = injector s \<Longrightarrow>
   claim s' = claim s \<Longrightarrow> loop_inv n s'"
  by (simp add: loop_inv_def capture_inv_def)

lemma loop_inv_detach [preserves]: "loop_inv n s \<Longrightarrow> loop_inv n (detachManagedDisplay g d s)"
  using detach_frame [of g d s] detach_inv [of s g d] by (simp add: loop_inv_def)

lemma loop_inv_publish [simp]: "loop_inv n (publish a p w d r s) = loop_inv n s"
  by (simp add: loop_inv_def capture_inv_def publish_def PublishStatus_def)

lemma loop_inv_PublishStatus [simp]: "loop_inv n (PublishStatus t p w d r s) = loop_inv n s"
  by (simp add: loop_inv_def capture_inv_def PublishStatus_def)

lemma loop_inv_conn [simp]: "loop_inv n (s\<lparr>conn := c\<rparr>) = loop_inv n s"
  by (simp add: loop_inv_def capture_inv_def)

lemma loop_inv_hang_up_conn [simp]: "loop_inv n (hang_up_conn s) = loop_inv n s"
  by (simp add: hang_up_conn_def)

lemma grace_stage_inv [preserves]: "loop_inv n s \<Longrightarrow> loop_inv n (grace_stage settings a s)"
  using loop_inv_detach [of n s settings "a_detach a"]
  by (auto simp: grace_stage_def split: option.split elim: loop_inv_cong)

lemma refuse_network_inv [preserves]: "loop_inv n s \<Longrightarrow> loop_inv n (refuse_network a s)"
  by (simp add: refuse_network_def publish_def PublishStatus_def loop_inv_def capture_inv_def)

lemma begin_session_inv: "loop_inv n s \<Longrightarrow> wire_ok (conn s) \<Longrightarrow> session_inv n (begin_session a w h s)"
  by (simp add: begin_session_def publish_def PublishStatus_def session_inv_def loop_inv_def capture_inv_def)

lemma end_session_inv:
  assumes "session_inv n s0"
  shows "loop_inv n (snd (end_session settings a s0)) \<and> wire_ok (conn (snd (end_session settings a s0)))"
proof -
  define s2 where "s2 = (s0\<lparr>conn := Close (Interrupt (conn s0))\<rparr>)
      \<lparr>injector := EndSession (a_desktop a) (injector (s0\<lparr>conn := Close (Interrupt (conn s0))\<rparr>)), width := 0, height := 0\<rparr>"
  have w: "wire_ok (conn s2)" using assms by (simp add: s2_def session_inv_def wire_Close wire_Interrupt)
  have i: "loop_inv n s2"
    using assms by (simp add: s2_def session_inv_def loop_inv_def capture_inv_def EndSession_inv)
  define s3 where "s3 = (if receiverSleeping s2 \<or> receiverClosing s2 then detachManagedDisplay settings (a_detach a) s2
                else if \<not> stopRequested s2 \<and> disconnectedSince s2 = None then s2\<lparr>disconnectedSince := Some (a_end_now a)\<rparr>
                else s2)"
  have "loop_inv n (s2\<lparr>disconnectedSince := x\<rparr>)" for x by (rule loop_inv_cong [OF i]) simp_all
  then have "loop_inv n s3" "wire_ok (conn s3)"
    using i w detach_frame [of settings "a_detach a" s2] by (auto simp: s3_def loop_inv_detach)
  moreover have "end_session settings a s0 = (let s4 = (if \<not> stopRequested s3 \<and> \<not> receiverClosing s3 \<and> \<not> receiverSleeping s3
                then PublishStatus (a_end_now a) Reconnecting TransportError LinkLost kReconnectDelayMs s3 else s3)
      in (if receiverClosing s4 then LeftLoop else Again, s4))"
    unfolding end_session_def Let_def s2_def [symmetric] s3_def [symmetric] ..
  ultimately show ?thesis by (simp add: Let_def session_frame)
qed


lemma AcquirePanel_holders:
  "AcquirePanel w h p = (held, b, p') \<Longrightarrow> holders p' = (if held then holders p + 1 else holders p)"
  by (auto simp: AcquirePanel_def split: if_splits)

lemma ReleasePanel_holders: "0 \<le> n \<Longrightarrow> holders p = n + 1 \<Longrightarrow> holders (ReleasePanel p) = n"
  by (auto simp: ReleasePanel_def)

lemma loop_inv_claim: "loop_inv n s \<Longrightarrow> holders p = m \<Longrightarrow> loop_inv m (s\<lparr>claim := p\<rparr>)"
  by (simp add: loop_inv_def capture_inv_def)

lemma PanelHolder_end_inv:
  assumes "loop_inv (if held then n + 1 else n) s" and "0 \<le> n"
  shows "loop_inv n (s\<lparr>claim := PanelHolder_end held (claim s)\<rparr>)"
proof (rule loop_inv_claim [OF assms(1)])
  show "holders (PanelHolder_end held (claim s)) = n"
    using assms ReleasePanel_holders [of n "claim s"] by (cases held) (simp_all add: PanelHolder_end_def loop_inv_def)
qed

lemma build_loop_inv: "loop_inv n s \<Longrightarrow> loop_inv n (snd (buildPipeline g b w h s))"
  using buildPipeline_frame [of g b w h s] buildPipeline_inv [of s g b w h] by (simp add: loop_inv_def)

text \<open>The state after an attempt: the invariant of the loop, or that of a session which still runs.\<close>

definition attempt_inv :: "int \<Rightarrow> Outcome \<times> 'a Session_scheme \<Rightarrow> bool" where
  "attempt_inv n r \<longleftrightarrow> (if fst r = StillStreaming then capture_inv (snd r) else loop_inv n (snd r))"

lemma stream_stage_inv:
  assumes "loop_inv n s" and "wire_ok (conn s)" and "0 \<le> n"
  shows "attempt_inv n (stream_stage usb settings e a w h s) \<and> wire_ok (conn (snd (stream_stage usb settings e a w h s)))"
proof -
  obtain held b p where acq: "(if managedDisplay settings then AcquirePanel w h (claim s) else (False, None, claim s)) = (held, b, p)"
    by (metis prod_cases3)
  define m where "m = (if held then n + 1 else n)"
  have p: "holders p = m"
    using acq AcquirePanel_holders [of w h "claim s" held b p] assms(1)
    by (auto simp: m_def loop_inv_def split: if_splits)
  show ?thesis
  proof (cases "managedDisplay settings \<and> \<not> held")
    case True
    obtain bw bh where "value_or b (0, 0) = (bw, bh)" by (cases "value_or b (0, 0)")
    moreover have "m = n" using True by (simp add: m_def)
    ultimately show ?thesis
      unfolding stream_stage_def Let_def acq prod.case if_P [OF True]
      using p assms
      by (simp add: attempt_inv_def hang_up_conn_def publish_def PublishStatus_def loop_inv_def capture_inv_def wire_Close)
  next
    case False
    define s1 where "s1 = s\<lparr>claim := p, blockedByWidth := 0, blockedByHeight := 0, blockedLogged := False\<rparr>"
    obtain ok s2 where bp: "buildPipeline settings (a_build a) w h s1 = (ok, s2)"
      by (cases "buildPipeline settings (a_build a) w h s1")
    have eq: "stream_stage usb settings e a w h s =
        (case (ok, s2) of
           (False, s2) \<Rightarrow>
             (Again, (detachManagedDisplay settings (a_detach a) (hang_up_conn s2))\<lparr>claim := PanelHolder_end held (claim s2)\<rparr>)
         | (True, s2) \<Rightarrow>
             (let s3 = run_session usb settings e (a_steps a) (begin_session a w h s2) in
              if \<not> capture_left s3 then (StillStreaming, s3)
              else (case end_session settings a s3 of
                      (r, s4) \<Rightarrow> (r, s4\<lparr>claim := PanelHolder_end held (claim s4)\<rparr>))))"
      unfolding stream_stage_def Let_def acq prod.case if_not_P [OF False] s1_def [symmetric] bp ..
    have i1: "loop_inv m s1" using assms(1) p by (simp add: s1_def loop_inv_def capture_inv_def)
    have i2: "loop_inv m s2" "wire_ok (conn s2)"
      using build_loop_inv [OF i1, of settings "a_build a" w h] buildPipeline_frame [of settings "a_build a" w h s1] bp assms(2)
      by (simp_all add: s1_def)
    show ?thesis
    proof (cases ok)
      case False
      let ?s = "detachManagedDisplay settings (a_detach a) (hang_up_conn s2)"
      have "loop_inv m ?s" using i2 by (simp add: loop_inv_detach)
      then have "loop_inv n (?s\<lparr>claim := PanelHolder_end held (claim ?s)\<rparr>)"
        using PanelHolder_end_inv [OF _ assms(3), of held ?s] by (simp add: m_def)
      moreover have "claim ?s = claim s2"
        using detach_frame [of settings "a_detach a" "hang_up_conn s2"] by (simp add: hang_up_conn_def)
      moreover have "wire_ok (conn ?s)"
        using i2 detach_frame [of settings "a_detach a" "hang_up_conn s2"] by (simp add: hang_up_conn_def wire_Close)
      ultimately show ?thesis
        using False unfolding eq by (simp add: attempt_inv_def)
    next
      case True
      define s3 where "s3 = run_session usb settings e (a_steps a) (begin_session a w h s2)"
      have i3: "session_inv m s3" unfolding s3_def by (intro run_session_inv begin_session_inv i2)
      obtain r s4 where es: "end_session settings a s3 = (r, s4)" by (cases "end_session settings a s3")
      have i4: "loop_inv m s4" "wire_ok (conn s4)" using end_session_inv [OF i3, of settings a] es by simp_all
      have "r \<noteq> StillStreaming" using es by (auto simp: end_session_def Let_def split: if_splits)
      moreover have "loop_inv n (s4\<lparr>claim := PanelHolder_end held (claim s4)\<rparr>)"
        using i4(1) PanelHolder_end_inv [OF _ assms(3), of held s4] by (simp add: m_def)
      ultimately show ?thesis
        using True i3 i4 es unfolding eq by (simp add: Let_def attempt_inv_def session_inv_def flip: s3_def)
    qed
  qed
qed


text \<open>What an attempt leaves on a fresh connection: nothing but complete frames, the welcome first, and a cut
  one only on a stream that is shut down.\<close>

definition wire_trace :: "Connection \<Rightarrow> bool" where
  "wire_trace c \<longleftrightarrow> (\<exists>fs part. outbox (stream c) = concat (map frame fs) @ part \<and>
     (part = [] \<or> shut (stream c)) \<and> (fs = [] \<or> hd fs = welcome_bytes))"

lemma wire_ok_trace: "wire_ok c \<Longrightarrow> wire_trace c"
  unfolding wire_ok_def wire_trace_def by (metis list.sel(1))

lemma wire_trace_empty: "outbox (stream c) = [] \<Longrightarrow> wire_trace c"
  unfolding wire_trace_def by (metis append_Nil concat.simps(1) list.map_disc_iff)

lemma wire_trace_Close: "wire_trace c \<Longrightarrow> wire_trace (Close c)"
  by (cases "handle_valid c") (auto simp: wire_trace_def Close_def)

lemma wait_hello_outbox:
  "wait_hello stop c = (r, c') \<Longrightarrow> outbox (stream c') = outbox (stream c) \<and> shut (stream c') = shut (stream c)"
proof (induction stop c arbitrary: r c' rule: wait_hello.induct)
  case (1 stop c)
  note rf = ReadFrame_outbox [of c]
  show ?case
    using "1.prems" "1.IH" rf
    by (subst (asm) wait_hello.simps) (auto split: if_splits prod.splits option.splits)
qed

lemma first_send:
  assumes "outbox (stream c) = []" and "SendFrame t p c = (ok, c')" and "0 < t" and "p = welcome_bytes"
  shows "wire_trace c' \<and> (ok \<longrightarrow> wire_ok c')"
proof (cases "handle_valid c")
  case True
  from SendFrame_cases [OF assms(2) True assms(3)] assms(1) obtain k where
    k: "outbox (stream c') = take k (frame p)" "ok \<longleftrightarrow> k = length (frame p)"
      "shut (stream c') \<longleftrightarrow> shut (stream c) \<or> \<not> ok" by auto
  show ?thesis
  proof (cases ok)
    case True
    then have "wire_ok c'"
      unfolding wire_ok_def using k assms(4) by (intro exI [of _ "[]"]) simp
    then show ?thesis by (simp add: wire_ok_trace)
  next
    case False
    then have "wire_trace c'"
      unfolding wire_trace_def using k by (intro exI [of _ "[]"] exI [of _ "take k (frame p)"]) simp
    with False show ?thesis by simp
  qed
qed (use assms SendFrame_invalid [of c t p] in \<open>auto simp: wire_trace_empty\<close>)

lemma handshake_stage_inv:
  assumes "loop_inv n s0" and "outbox (stream (conn s0)) = []" and "0 \<le> n"
  shows "attempt_inv n (handshake_stage usb settings e a s0) \<and> wire_trace (conn (snd (handshake_stage usb settings e a s0)))"
proof -
  define s1 where "s1 = publish a WaitingHello OpenDisplayUnavailable AwaitHello 0 s0"
  have i1: "loop_inv n s1" "outbox (stream (conn s1)) = []"
    using assms by (simp_all add: s1_def publish_def session_frame)
  obtain hello c where wh: "wait_hello (stopRequested s1) (conn s1) = (hello, c)" by (cases "wait_hello (stopRequested s1) (conn s1)")
  have c: "outbox (stream c) = []" using wait_hello_outbox [OF wh] i1(2) by simp
  show ?thesis
  proof (cases hello)
    case None
    show ?thesis
      unfolding handshake_stage_def Let_def s1_def [symmetric] wh prod.case None option.case
      using i1 c by (simp add: attempt_inv_def wire_trace_Close wire_trace_empty publish_def session_frame hang_up_conn_def)
  next
    case (Some h)
    define s2 where "s2 = s1\<lparr>conn := c\<rparr>"
    have i2: "loop_inv n s2" "outbox (stream (conn s2)) = []" using i1 c by (simp_all add: s2_def)
    show ?thesis
    proof (cases "HelloMatchesExpectedDevice h e")
      case False
      show ?thesis
        unfolding handshake_stage_def Let_def s1_def [symmetric] wh prod.case Some option.case s2_def [symmetric]
        using i2 False by (simp add: attempt_inv_def wire_trace_Close wire_trace_empty publish_def session_frame hang_up_conn_def)
    next
      case True
      obtain ok c' where sf: "SendFrame kControlTimeoutMs (bytes_of SerializeWelcome) c = (ok, c')"
        by (cases "SendFrame kControlTimeoutMs (bytes_of SerializeWelcome) c")
      have w: "wire_trace c'" "ok \<Longrightarrow> wire_ok c'"
        using first_send [OF c sf] by (simp_all add: kControlTimeoutMs_def welcome_bytes_def)
      define s3 where "s3 = s2\<lparr>session_device := hello_id h, conn := c'\<rparr>"
      have st: "send_text SerializeWelcome (s2\<lparr>session_device := hello_id h\<rparr>) = (ok, s3)"
        using sf by (simp add: send_text_def s2_def s3_def)
      have i3: "loop_inv n s3" using i2(1) by (simp add: s3_def loop_inv_def capture_inv_def)
      have w3: "conn s3 = c'" by (simp add: s3_def)
      define s4 where "s4 = publish a PreparingDisplay NoFailure NoText 0 s3"
      have i4: "loop_inv n s4" "conn s4 = c'" using i3 w3 by (simp_all add: s4_def publish_def session_frame)
      have st': "attempt_inv n (stream_stage usb settings e a ww hh s4) \<and> wire_trace (conn (snd (stream_stage usb settings e a ww hh s4)))"
        if ok for ww hh
        using stream_stage_inv [OF i4(1) _ assms(3), of usb settings e a ww hh] i4(2) w(2) [OF that]
        by (auto intro: wire_ok_trace)
      show ?thesis
      proof (cases ok)
        case False
        show ?thesis
          unfolding handshake_stage_def Let_def s1_def [symmetric] wh prod.case Some option.case s2_def [symmetric] st
          using False True i3 w w3 by (simp add: attempt_inv_def wire_trace_Close publish_def session_frame hang_up_conn_def)
      next
        case True': True
        show ?thesis
        proof (cases "NormalizePanelSize (pixelsWide h) (pixelsHigh h)")
          case None
          show ?thesis
            unfolding handshake_stage_def Let_def s1_def [symmetric] wh prod.case \<open>hello = _\<close> option.case s2_def [symmetric] st None
            using True' True i3 w w3 by (simp add: attempt_inv_def wire_trace_Close publish_def session_frame hang_up_conn_def)
        next
          case (Some wh')
          obtain ww hh where "wh' = (ww, hh)" by (cases wh')
          with True' True st' show ?thesis
            unfolding handshake_stage_def Let_def s1_def [symmetric] wh prod.case \<open>hello = _\<close> option.case s2_def [symmetric] st Some s4_def [symmetric]
            by simp
        qed
      qed
    qed
  qed
qed


definition fresh_attempt :: "AttemptAnswer \<Rightarrow> bool" where
  "fresh_attempt a \<longleftrightarrow> (case a_connection a of None \<Rightarrow> True | Some c \<Rightarrow> outbox (stream c) = [])"

lemma attempt_inv_Again: "attempt_inv n (Again, s) = loop_inv n s"
  by (simp add: attempt_inv_def)

lemma run_attempt_inv:
  assumes "loop_inv n s0" and "fresh_attempt a" and "0 \<le> n"
  shows "attempt_inv n (run_attempt usb settings e a s0)"
proof -
  have i1: "loop_inv n (grace_stage settings a s0)" by (rule grace_stage_inv) fact
  define s3 where "s3 = (if state (grace_stage settings a s0) \<noteq> StateBlocked
      then (grace_stage settings a s0)\<lparr>lastNetworkBlockReason := None, state := StateConnecting\<rparr>
      else (grace_stage settings a s0)\<lparr>lastNetworkBlockReason := None\<rparr>)"
  have i3: "loop_inv n s3" by (rule loop_inv_cong [OF i1]) (simp_all add: s3_def)
  have h: "attempt_inv n (handshake_stage usb settings e a (publish a ph NoFailure NoText 0 s3\<lparr>conn := c\<rparr>))"
    if "a_connection a = Some c" for c ph
    using handshake_stage_inv [of n "publish a ph NoFailure NoText 0 s3\<lparr>conn := c\<rparr>"] i3 assms that
    by (simp add: fresh_attempt_def)
  have "run_attempt usb settings e a s0 =
     (if \<not> (usb \<or> allowed (a_policy a)) then (Again, refuse_network a (grace_stage settings a s0))
      else (let s4 = publish a (if everStreamed s3 then Reconnecting else Connecting) NoFailure NoText 0 s3
         in case a_connection a of
              None \<Rightarrow>
                (Again, if usb then publish a Reconnecting UsbUnavailable (Plain (a_usb_error a)) kReconnectDelayMs s4
                        else publish a Reconnecting ReceiverUnavailable OpenReceiver kReconnectDelayMs s4)
            | Some c \<Rightarrow> handshake_stage usb settings e a (s4\<lparr>conn := c\<rparr>)))"
    by (simp add: run_attempt_def Let_def s3_def cong: if_cong)
  then show ?thesis
    using h i3 refuse_network_inv [OF i1]
    by (auto simp: Let_def attempt_inv_Again split: option.split)
qed

lemma destroy_objects_inv:
  assumes "capture_inv s"
  shows "capture_inv (destroy_objects s) \<and> \<not> capture_open (destroy_objects s) \<and> \<not> display_open (destroy_objects s)"
  using dup_close_inv [OF assms] by (simp add: destroy_objects_def Let_def capture_inv_def act_def)

lemma destroy_objects_frame:
  "claim (destroy_objects s) = claim s \<and> injector (destroy_objects s) = injector s \<and> state (destroy_objects s) = state s"
  by (simp add: destroy_objects_def Let_def dup_close_def act_def)

lemma leave_loop_inv: "loop_inv n s \<Longrightarrow> loop_inv n (leave_loop settings a s) \<and> state (leave_loop settings a s) = StateIdle"
proof -
  assume "loop_inv n s"
  then have "loop_inv n ((detachManagedDisplay settings (a_detach a) s)\<lparr>state := StateIdle\<rparr>)"
    by (rule loop_inv_cong [OF loop_inv_detach]) simp_all
  then show ?thesis by (simp add: leave_loop_def Let_def PublishStatus_def loop_inv_def capture_inv_def)
qed

text \<open>Where the attempts end: the capture as the acts left it; and nothing left behind when the loop was left.\<close>

definition left_clean :: "int \<Rightarrow> 'a Session_scheme \<Rightarrow> bool" where
  "left_clean n s \<longleftrightarrow> \<not> capture_open s \<and> \<not> display_open s \<and> \<not> isDown (injector s) \<and> \<not> penInRange (injector s) \<and>
     holders (claim s) = n \<and> state s = StateIdle"

lemma destroyed_clean:
  assumes "loop_inv n s"
  shows "capture_inv (destroy_objects s)" and "state s = StateIdle \<Longrightarrow> left_clean n (destroy_objects s)"
  using assms destroy_objects_inv [of s] destroy_objects_frame [of s] by (simp_all add: loop_inv_def left_clean_def)

lemma attempts_inv:
  "loop_inv n s \<Longrightarrow> list_all fresh_attempt as \<Longrightarrow> 0 \<le> n \<Longrightarrow> attempts usb settings e as s = (released, s') \<Longrightarrow>
   capture_inv s' \<and> (released \<longrightarrow> left_clean n s')"
proof (induction as arbitrary: s)
  case (Cons a as)
  define s1 where "s1 = (if a_stop a then RequestStop s else s)"
  have i1: "loop_inv n s1"
    using Cons.prems(1) by (auto simp: s1_def RequestStop_def elim: loop_inv_cong)
  note left = destroyed_clean [OF conjunct1 [OF leave_loop_inv]]
  obtain r s2 where ra: "run_attempt usb settings e a s1 = (r, s2)" by (cases "run_attempt usb settings e a s1")
  have i2: "attempt_inv n (r, s2)" using run_attempt_inv [OF i1, of a usb settings e] Cons.prems ra by simp
  show ?case
  proof (cases "stopRequested s1")
    case True
    with Cons.prems(4) have "released" "s' = destroy_objects (leave_loop settings a s1)"
      by (simp_all add: Let_def flip: s1_def)
    with left [OF i1] leave_loop_inv [OF i1] show ?thesis by simp
  next
    case False
    show ?thesis
    proof (cases r)
      case Again
      with False ra Cons.prems(4) have "attempts usb settings e as s2 = (released, s')" by (simp add: Let_def flip: s1_def)
      moreover have "loop_inv n s2" using i2 Again by (simp add: attempt_inv_def)
      ultimately show ?thesis using Cons.IH Cons.prems by simp
    next
      case LeftLoop
      with False ra Cons.prems(4) have "released" "s' = destroy_objects (leave_loop settings a s2)"
        by (simp_all add: Let_def flip: s1_def)
      moreover have "loop_inv n s2" using i2 LeftLoop by (simp add: attempt_inv_def)
      ultimately show ?thesis using left leave_loop_inv by blast
    next
      case ReturnedAtOnce
      with False ra Cons.prems(4) i2 show ?thesis
        by (auto simp: Let_def attempt_inv_def destroyed_clean(1) simp flip: s1_def)
    next
      case StillStreaming
      with False ra Cons.prems(4) i2 show ?thesis by (auto simp: Let_def attempt_inv_def simp flip: s1_def)
    qed
  qed
qed (simp add: loop_inv_def)

lemma begin_loop_inv: "loop_inv (holders (claim s)) (begin_loop s)"
  using injector_inv_default
  by (simp add: begin_loop_def loop_inv_def capture_inv_def replay_capture_def InputInjector_default_def)

text \<open>A sender that has just started, and an attempt with a stream that never fails.\<close>

definition sample_rect :: RECT where
  "sample_rect = \<lparr>left = 0, upper = 0, right = 1920, bottom = 1080\<rparr>"

definition sample_loop :: Loop where
  "sample_loop =
     \<lparr>running = True, stopRequested = False, state = StateIdle, width = 0, height = 0, blockedByWidth = 0,
      blockedByHeight = 0, published_rect = RECT_zero, phase = Connecting, failure = NoFailure, failureDetail = NoText,
      retryAt = 0, networkDrops = 0, receiverRttMs = - 1, receiverMbps = - 1, actualFps = - 1, receiverStalls = - 1,
      captureMs = - 1, encodeMs = - 1, displayName = [], session_device = [], transport = ''wifi'', attempt = 1, worker = Live,
      display_open = False, capture_open = False, dup_width = 0, dup_height = 0, enc_width = 0, enc_height = 0,
      injector = InputInjector_default, acts = [],
      conn = sample_stream [], live = False, receiverSleeping = False, receiverClosing = False, keyFrameRequested = False,
      pendingResize = None, loggedPencil = False, claim = Panel, panel_w = 0, panel_h = 0, lastSend = 0, lastPing = 0,
      lastNetworkCheck = 0, lastChange = 0, dropPending = False, rectStale = False, wrongSizeSince = 0,
      sizeRebuildDone = False, sizeGiveUpLogged = False, capture_left = False,
      blockedLogged = False, everStreamed = False, lastNetworkBlockReason = None, disconnectedSince = None\<rparr>"

definition sample_attempt :: "Connection option \<Rightarrow> AttemptAnswer" where
  "sample_attempt c =
     \<lparr>a_stop = False, a_now = 1000, a_detach = \<lparr>removed_rect = sample_rect, cursor_pos = None, displays = []\<rparr>,
      a_policy = \<lparr>allowed = True, reason = TrustedPrivateLan, resolvedTarget = ''192.168.1.7''\<rparr>, a_connection = c, a_usb_error = [],
      a_build = \<lparr>b_now = 1000, b_driver = True, b_resolution = True, b_device = [], b_attached = True,
        b_capture = Some (1920, 1080), b_encoder = True, b_rect = sample_rect\<rparr>,
      a_steps = [],
      a_desktop = \<lparr>xvirtual = 0, yvirtual = 0, cxvirtual = 1920, cyvirtual = 1080, pen_creatable = True, pen_injected = True,
        pen_angles = (\<lambda>a b. (0, 0))\<rparr>,
      a_end_now = 2000\<rparr>"

subsection \<open>Properties\<close>

text \<open>C3. Whatever the receiver, the encoder, the display driver and the clock do, and however the reader and
  the capture loop interleave over any number of attempts, the worker never replaces or removes a monitor, nor
  opens another capture, while a capture of it is open; and when the function has left its loop the capture and the
  managed display are closed, no button or pen is left pressed, the panel claim is as it was and the state is idle.\<close>

theorem display_outlives_its_capture:
  assumes "list_all fresh_attempt as" and "0 \<le> holders (claim s)"
  shows "case attempts usb settings e as (begin_loop s) of (released, s') \<Rightarrow>
    replay_capture (acts s') = Some (capture_open s') \<and>
    (if released then left_clean (holders (claim s)) s' else True)"
  using attempts_inv [OF begin_loop_inv assms, of usb settings e] by (auto simp: capture_inv_def split: prod.split)

lemma display_outlives_its_capture_witness:
  "case attempts False StreamSettings_default ''ipad-a''
      [sample_attempt (Some (sample_stream [])), (sample_attempt None)\<lparr>a_stop := True\<rparr>] (begin_loop sample_loop) of (released, s') \<Rightarrow>
    replay_capture (acts s') = Some (capture_open s') \<and>
    (if released then left_clean (holders (claim sample_loop)) s' else True)"
  by (rule display_outlives_its_capture)
    (simp_all add: fresh_attempt_def sample_attempt_def sample_loop_def sample_stream_def Panel_def)




end
