(* ===== verification/SenderGuards.thy ===== *)
theory SenderGuards
  imports SenderProps ProtocolProps
begin

text \<open>
  What guards a sender: the identity of the device, the network policy, the stop request, the named
  mutex of the device, and what the watchdogs of the capture loop do in one round.
\<close>

subsection \<open>The identity of the device\<close>

lemma detach_no_session: "display_open s = False \<Longrightarrow> detachManagedDisplay g d s = s"
  by (simp add: detachManagedDisplay_def)

lemma grace_frame [session_frame]:
  "conn (grace_stage g a s) = conn s" "claim (grace_stage g a s) = claim s" "injector (grace_stage g a s) = injector s"
  "stopRequested (grace_stage g a s) = stopRequested s"
  by (auto simp: grace_stage_def detach_frame split: option.split)

text \<open>Nothing of the display, the input and the claim is touched.\<close>

definition untouched :: "'a Session_scheme \<Rightarrow> 'a Session_scheme \<Rightarrow> bool" where
  "untouched s s' \<longleftrightarrow> acts s' = acts s \<and> capture_open s' = capture_open s \<and> display_open s' = display_open s \<and>
     injector s' = injector s \<and> claim s' = claim s"

text \<open>The device at the other end of the connection proved to be the expected one.\<close>

definition expected_hello :: "bool \<Rightarrow> string \<Rightarrow> Connection \<Rightarrow> bool" where
  "expected_hello stop e c = (case fst (wait_hello stop c) of None \<Rightarrow> False | Some h \<Rightarrow> HelloMatchesExpectedDevice h e)"

lemma handshake_stranger:
  assumes "\<not> expected_hello (stopRequested s) e (conn s)" and "outbox (stream (conn s)) = []"
  shows "untouched s (snd (handshake_stage usb settings e a s)) \<and>
    outbox (stream (conn (snd (handshake_stage usb settings e a s)))) = []"
proof -
  define s1 where "s1 = publish a WaitingHello OpenDisplayUnavailable AwaitHello 0 s"
  have s1: "conn s1 = conn s" "stopRequested s1 = stopRequested s" by (simp_all add: s1_def publish_def session_frame)
  obtain r c where wh: "wait_hello (stopRequested s1) (conn s1) = (r, c)" by (cases "wait_hello (stopRequested s1) (conn s1)")
  have c: "outbox (stream c) = []" using wait_hello_outbox [OF wh] assms(2) s1 by simp
  have cl: "outbox (stream (Close c)) = []" using c by (simp add: Close_def)
  have stranger: "\<not> HelloMatchesExpectedDevice h e" if "r = Some h" for h
    using assms(1) wh s1 that by (simp add: expected_hello_def)
  show ?thesis
    unfolding handshake_stage_def Let_def s1_def [symmetric] wh prod.case
    using stranger cl
    by (cases r) (simp_all add: untouched_def publish_def session_frame worker_simps hang_up_conn_def, simp_all add: s1_def publish_def session_frame worker_simps)
qed

text \<open>C9. Without an allowed network, and without a hello of the expected device, an attempt sends nothing, and apart
  from the display it drops when the grace period of the last session is over it touches neither the displays nor the
  capture nor the input nor the claim.\<close>

theorem only_the_expected_device_is_served:
  assumes "a_connection a = Some c" and "outbox (stream c) = []"
  shows "if (usb \<or> allowed (a_policy a)) \<and> expected_hello (stopRequested s) e c then True
    else untouched (grace_stage settings a s) (snd (run_attempt usb settings e a s)) \<and>
      (conn (snd (run_attempt usb settings e a s)) = conn s \<or> outbox (stream (conn (snd (run_attempt usb settings e a s)))) = [])"
proof -
  define s1 where "s1 = grace_stage settings a s"
  define s2 where "s2 = s1\<lparr>lastNetworkBlockReason := None\<rparr>"
  define s3 where "s3 = (if state s2 \<noteq> StateBlocked then s2\<lparr>state := StateConnecting\<rparr> else s2)"
  define s4 where "s4 = (publish a (if everStreamed s3 then Reconnecting else Connecting) NoFailure NoText 0 s3)\<lparr>conn := c\<rparr>"
  have refused: "untouched s1 (refuse_network a s1)" "conn (refuse_network a s1) = conn s"
    by (simp_all add: untouched_def refuse_network_def publish_def session_frame worker_simps s1_def)
  have s4: "untouched s1 s4" "conn s4 = c" "stopRequested s4 = stopRequested s"
    by (simp_all add: untouched_def s4_def s3_def s2_def publish_def session_frame worker_simps)
      (simp_all add: s1_def session_frame)
  have trans: "untouched s1 x" if "untouched s4 x" for x using that s4(1) by (simp add: untouched_def)
  have "run_attempt usb settings e a s =
     (if \<not> (usb \<or> allowed (a_policy a)) then (Again, refuse_network a s1) else handshake_stage usb settings e a s4)"
    unfolding run_attempt_def Let_def s1_def [symmetric] s2_def [symmetric] s3_def [symmetric] s4_def
    using assms(1) by simp
  with refused trans handshake_stranger [of s4 e usb settings a] s4 assms(2) show ?thesis
    by (auto simp flip: s1_def)
qed

subsection \<open>A stop request is final\<close>

lemma stopped_step:
  assumes "stopRequested s"
  shows "stopRequested (session_step usb g e s st) \<and> acts (session_step usb g e s st) = acts s \<and>
    outbox (stream (conn (session_step usb g e s st))) = outbox (stream (conn s)) \<and>
    injector (session_step usb g e s st) = injector s \<and>
    capture_left (session_step usb g e s st) = (capture_left s \<or> (\<exists>a. st = CaptureRound a))"
  using assms
  by (cases st) (auto simp: session_step_def reader_step_def capture_round_def request_stop_def RequestStop_def Interrupt_def)

lemma stopped_steps:
  "stopRequested s \<Longrightarrow>
   acts (foldl (session_step usb g e) s steps) = acts s \<and>
   outbox (stream (conn (foldl (session_step usb g e) s steps))) = outbox (stream (conn s)) \<and>
   injector (foldl (session_step usb g e) s steps) = injector s \<and>
   capture_left (foldl (session_step usb g e) s steps) = (capture_left s \<or> list_ex (\<lambda>st. \<exists>a. st = CaptureRound a) steps)"
proof (induction steps arbitrary: s)
  case (Cons st steps)
  with stopped_step [OF Cons.prems, of usb g e st] Cons.IH [of "session_step usb g e s st"] show ?case by auto
qed simp


subsection \<open>The guard of a device\<close>

lemma handshake_mismatch:
  assumes "fst (wait_hello (stopRequested s) (conn s)) = Some h" and "\<not> HelloMatchesExpectedDevice h e"
  shows "case handshake_stage usb g e a s of (r, s') \<Rightarrow>
    r = ReturnedAtOnce \<and> phase s' = Failed \<and> failure s' = DeviceIdentityMismatch \<and> state s' = state s"
proof -
  define s1 where "s1 = publish a WaitingHello OpenDisplayUnavailable AwaitHello 0 s"
  have s1: "stopRequested s1 = stopRequested s" "conn s1 = conn s" "state s1 = state s"
    by (simp_all add: s1_def publish_def PublishStatus_def)
  obtain r c where wh: "wait_hello (stopRequested s1) (conn s1) = (r, c)" by (cases "wait_hello (stopRequested s1) (conn s1)")
  then have r: "r = Some h" using assms(1) s1 by simp
  show ?thesis
    unfolding handshake_stage_def Let_def s1_def [symmetric] wh prod.case r option.case
    using assms(2) s1 by (simp add: publish_def PublishStatus_def hang_up_conn_def)
qed

lemma destroy_objects_status:
  "phase (destroy_objects s) = phase s \<and> failure (destroy_objects s) = failure s"
  by (simp add: destroy_objects_def Let_def dup_close_def act_def)

lemma attempts_mismatch:
  assumes "a_connection a = Some c" and "usb \<or> allowed (a_policy a)" and "\<not> a_stop a" and "\<not> stopRequested s"
    and "fst (wait_hello False c) = Some h" and "\<not> HelloMatchesExpectedDevice h e"
  shows "case attempts usb g e (a # as) s of (released, s') \<Rightarrow>
    \<not> released \<and> phase s' = Failed \<and> failure s' = DeviceIdentityMismatch \<and> state s' \<noteq> StateIdle"
proof -
  define s1 where "s1 = grace_stage g a s"
  define s2 where "s2 = s1\<lparr>lastNetworkBlockReason := None\<rparr>"
  define s3 where "s3 = (if state s2 \<noteq> StateBlocked then s2\<lparr>state := StateConnecting\<rparr> else s2)"
  define s4 where "s4 = (publish a (if everStreamed s3 then Reconnecting else Connecting) NoFailure NoText 0 s3)\<lparr>conn := c\<rparr>"
  have s4: "stopRequested s4 = False" "conn s4 = c" "state s4 \<noteq> StateIdle"
    using assms(4) by (simp_all add: s4_def s3_def s2_def s1_def publish_def PublishStatus_def session_frame)
  have ra: "run_attempt usb g e a s = handshake_stage usb g e a s4"
    unfolding run_attempt_def Let_def s1_def [symmetric] s2_def [symmetric] s3_def [symmetric] s4_def
    using assms(1,2) by simp
  obtain s5 where h: "handshake_stage usb g e a s4 = (ReturnedAtOnce, s5)" "phase s5 = Failed"
      "failure s5 = DeviceIdentityMismatch" "state s5 = state s4"
    using handshake_mismatch [of s4 h e usb g a] assms(5,6) s4 by (auto split: prod.splits)
  then show ?thesis
    using assms(3,4) ra s4 destroy_objects_status [of s5] destroy_objects_frame [of s5] by (simp add: Let_def)
qed

lemma RunLoop_guarded:
  assumes "lock_name ip e \<in> set locks"
  shows "fst (RunLoop ip True locks g e as s) = locks \<and> failure (snd (RunLoop ip True locks g e as s)) = AnotherSender \<and>
    acts (snd (RunLoop ip True locks g e as s)) = acts s"
  using assms by (simp add: RunLoop_def Let_def PublishStatus_def)

text \<open>C11. A device is guarded by a named mutex, and a sender that finds the name open refuses to run.  When the first hello
  comes from another device than the expected one the function returns without closing its own handle: the name stays
  open, and from then on every run for that device, at any address, is refused as if another process were driving
  the device.\<close>

theorem identity_mismatch_keeps_the_guard:
  assumes "a_connection a = Some c" and "IsUsbMuxTarget ip \<or> allowed (a_policy a)"
    and "\<not> a_stop a" and "\<not> stopRequested s" and "lock_name ip e \<notin> set locks"
    and "fst (wait_hello False c) = Some h" and "\<not> HelloMatchesExpectedDevice h e" and "e \<noteq> []"
  shows "case RunLoop ip True locks g e (a # as) s of (locks1, s1) \<Rightarrow>
    locks1 = lock_name ip e # locks \<and> phase s1 = Failed \<and> failure s1 = DeviceIdentityMismatch \<and> state s1 \<noteq> StateIdle \<and>
    (case RunLoop ip2 True locks1 g2 e bs s2 of (locks2, s3) \<Rightarrow>
       locks2 = locks1 \<and> failure s3 = AnotherSender \<and> acts s3 = acts s2)"
proof -
  have b: "\<not> stopRequested (begin_loop s)" using assms(4) by (simp add: begin_loop_def)
  obtain s1 where at: "attempts (IsUsbMuxTarget ip) (clamp_settings g) e (a # as) (begin_loop s) = (False, s1)"
      "phase s1 = Failed" "failure s1 = DeviceIdentityMismatch" "state s1 \<noteq> StateIdle"
    using attempts_mismatch [OF assms(1-3) b assms(6,7), of "clamp_settings g" as] by (auto split: prod.splits)
  then have r: "RunLoop ip True locks g e (a # as) s = (lock_name ip e # locks, s1)"
    using assms(5) by (simp add: RunLoop_def Let_def)
  have "lock_name ip2 e = lock_name ip e" using assms(8) by (simp add: lock_name_def)
  then have "lock_name ip2 e \<in> set (lock_name ip e # locks)" by simp
  from RunLoop_guarded [OF this, of g2 bs s2] r at(2-4) show ?thesis by (simp add: split_beta)
qed

text \<open>Witnesses: a stranger says hello over a stream that never fails.\<close>

definition sample_members :: "member list" where
  "sample_members =
     [\<lparr>m_ws1 = [], m_key = ''type'', m_ws2 = [], m_ws3 = [], m_value = [Str ''hello''], m_ws4 = []\<rparr>,
      \<lparr>m_ws1 = [], m_key = ''id'', m_ws2 = [], m_ws3 = [], m_value = [Str ''ipad-b''], m_ws4 = []\<rparr>]"

definition sample_hello :: bytes where
  "sample_hello = bytes_of (render_doc [] sample_members [])"

lemma sample_hello_parses:
  "\<exists>h. ParseControlMessage sample_hello = Some (ControlMessage_default\<lparr>msg_type := Hello, hello := h\<rparr>) \<and> hello_id h = ''ipad-b''"
proof -
  have wf: "list_all wf_member sample_members" by code_simp
  have "Option.bind (root_member ''type'' sample_members) (\<lambda>m. string_value (m_value m)) = Some ''hello''"
    "Option.bind (root_member ''id'' sample_members) (\<lambda>m. string_value (m_value m)) = Some ''ipad-b''"
    by code_simp+
  with FindStringField_doc [of "[]" sample_members _ "[]"] wf
  have "FindStringField (AsView sample_hello) ''type'' = Some ''hello''" "FindStringField (AsView sample_hello) ''id'' = Some ''ipad-b''"
    by (simp_all add: sample_hello_def AsView_def)
  then have "ParseControlMessage sample_hello =
      Some (ControlMessage_default\<lparr>msg_type := Hello, hello := parse_hello (AsView sample_hello)\<rparr>)"
    "hello_id (parse_hello (AsView sample_hello)) = ''ipad-b''"
    by (simp_all add: ParseControlMessage_def Let_def parse_hello_def)
  then show ?thesis by blast
qed

lemma sample_hello_heard:
  "\<exists>h. fst (wait_hello False (sample_stream (frame sample_hello))) = Some h \<and> hello_id h = ''ipad-b''"
proof -
  obtain h where h: "ParseControlMessage sample_hello = Some (ControlMessage_default\<lparr>msg_type := Hello, hello := h\<rparr>)"
      "hello_id h = ''ipad-b''"
    using sample_hello_parses by blast
  have fits: "IsControlPayload sample_hello" "length sample_hello \<le> kMaxInboundFrame"
    by (simp_all add: IsControlPayload_def sample_hello_def render_doc_def sample_members_def render_member_def
        member_head_def render_def byte_of_char_nonzero kMaxInboundFrame_def)
  have "ready (sample_stream (frame sample_hello))" "inbox (stream (sample_stream (frame sample_hello))) = frame sample_hello @ []"
    by (simp_all add: sample_stream_def ready_def receiving_def)
  from ReadFrame_frame [OF this fits(2)] obtain c where
    "ReadFrame (sample_stream (frame sample_hello)) = (Some sample_hello, c)"
    by (cases "ReadFrame (sample_stream (frame sample_hello))") auto
  with h fits(1) show ?thesis by (subst wait_hello.simps) simp
qed

lemma identity_mismatch_keeps_the_guard_witness:
  "case RunLoop ''192.168.1.7'' True [] StreamSettings_default ''ipad-a''
      [sample_attempt (Some (sample_stream (frame sample_hello)))] (sample_loop) of (locks1, s1) \<Rightarrow>
    locks1 = [lock_name ''192.168.1.7'' ''ipad-a''] \<and> phase s1 = Failed \<and> failure s1 = DeviceIdentityMismatch \<and> state s1 \<noteq> StateIdle \<and>
    (case RunLoop ''192.168.1.8'' True locks1 StreamSettings_default ''ipad-a'' [] sample_loop of (locks2, s3) \<Rightarrow>
       locks2 = locks1 \<and> failure s3 = AnotherSender \<and> acts s3 = acts sample_loop)"
proof -
  obtain h where h: "fst (wait_hello False (sample_stream (frame sample_hello))) = Some h" "hello_id h = ''ipad-b''"
    using sample_hello_heard by blast
  then have "\<not> HelloMatchesExpectedDevice h ''ipad-a''" by (simp add: HelloMatchesExpectedDevice_def)
  from identity_mismatch_keeps_the_guard [OF _ _ _ _ _ h(1) this, where a = "sample_attempt (Some (sample_stream (frame sample_hello)))"
      and ip = "''192.168.1.7''" and s = sample_loop and locks = "[]" and g = StreamSettings_default and as = "[]"
      and ?ip2.0 = "''192.168.1.8''" and ?g2.0 = StreamSettings_default and bs = "[]" and ?s2.0 = sample_loop]
  show ?thesis by (simp add: sample_attempt_def sample_loop_def)
qed

lemma only_the_expected_device_is_served_witness:
  "untouched (grace_stage StreamSettings_default (sample_attempt (Some (sample_stream (frame sample_hello)))) sample_loop)
     (snd (run_attempt False StreamSettings_default ''ipad-a'' (sample_attempt (Some (sample_stream (frame sample_hello)))) sample_loop))"
proof -
  let ?c = "sample_stream (frame sample_hello)"
  obtain h where h: "fst (wait_hello False ?c) = Some h" "hello_id h = ''ipad-b''"
    using sample_hello_heard by blast
  then have "\<not> expected_hello (stopRequested sample_loop) ''ipad-a'' ?c"
    by (simp add: expected_hello_def sample_loop_def HelloMatchesExpectedDevice_def)
  moreover have "a_connection (sample_attempt (Some ?c)) = Some ?c" "outbox (stream ?c) = []"
    by (simp_all add: sample_attempt_def sample_stream_def)
  ultimately show ?thesis
    using only_the_expected_device_is_served [where a = "sample_attempt (Some ?c)" and c = ?c and usb = False
        and e = "''ipad-a''" and s = sample_loop and settings = StreamSettings_default]
    by (simp only: conj_absorb simp_thms if_False)
qed

subsection \<open>The watchdog of the panel size\<close>

definition builds :: "'a Worker_scheme \<Rightarrow> nat" where
  "builds s = length (filter (\<lambda>x. case x of ResolutionEnsured w h hz \<Rightarrow> True | _ \<Rightarrow> False) (acts s))"

lemma builds_cong: "acts s' = acts s \<Longrightarrow> builds s' = builds s"
  by (simp add: builds_def)

lemma builds_act: "builds (act x s) = builds s + (case x of ResolutionEnsured w h hz \<Rightarrow> 1 | _ \<Rightarrow> 0)"
  by (cases x) (simp_all add: builds_def act_def)

lemma builds_dup: "builds (dup_close s) = builds s"
  by (simp add: dup_close_def builds_def act_def)

lemma builds_publish [simp]:
  "builds (PublishStatus t p f d r s) = builds s" "builds (PublishMonitorRect m s) = builds s"
  "builds (PublishDisplayName n s) = builds s"
  by (simp_all add: builds_def worker_simps)

lemma builds_open_capture: "builds (snd (open_capture g b n s)) = builds s"
  by (cases "b_capture b"; cases "b_encoder b")
    (simp_all add: open_capture_def dup_open_def configure_encoder_def fail_build_def builds_def act_def split_beta
      PublishStatus_def PublishMonitorRect_def PublishDisplayName_def)

lemma builds_buildPipeline: "builds (snd (buildPipeline g b w h s)) \<le> builds s + 1"
proof -
  define s1 where "s1 = (if managedDisplay g \<and> \<not> display_open s then (act DriverOpened s)\<lparr>display_open := True\<rparr> else s)"
  have "builds s1 = builds s" by (simp add: s1_def builds_def act_def)
  then show ?thesis
    unfolding buildPipeline_def Let_def s1_def [symmetric]
    by (simp add: fail_build_def builds_open_capture builds_act builds_dup)
qed

text \<open>The rounds as the watchdog sees them: the capture reports a size, the watchdog judges it.\<close>

definition size_round :: "StreamSettings \<Rightarrow> 'a Session_scheme \<Rightarrow> RoundAnswer \<Rightarrow> 'a Session_scheme" where
  "size_round settings s a = snd (size_stage settings a (follow_capture settings a (capture_frame a s)))"

text \<open>Neither the panel's size nor the panel turned.\<close>

definition wrong_size :: "'a Session_scheme \<Rightarrow> RoundAnswer \<Rightarrow> bool" where
  "wrong_size s a \<longleftrightarrow> c_size a \<noteq> (panel_w s, panel_h s) \<and> c_size a \<noteq> (panel_h s, panel_w s)"

lemma capture_frame_watch:
  "builds (capture_frame a s) = builds s \<and> sizeRebuildDone (capture_frame a s) = sizeRebuildDone s \<and>
   panel_w (capture_frame a s) = panel_w s \<and> panel_h (capture_frame a s) = panel_h s \<and>
   dup_width (capture_frame a s) = fst (c_size a) \<and> dup_height (capture_frame a s) = snd (c_size a)"
  by (simp add: capture_frame_def Let_def builds_def act_def dup_close_def split: option.split)

lemma follow_capture_watch:
  "builds (follow_capture g a s) = builds s \<and> sizeRebuildDone (follow_capture g a s) = sizeRebuildDone s \<and>
   panel_w (follow_capture g a s) = panel_w s \<and> panel_h (follow_capture g a s) = panel_h s \<and>
   dup_width (follow_capture g a s) = dup_width s \<and> dup_height (follow_capture g a s) = dup_height s"
  by (simp add: follow_capture_def configure_encoder_def builds_def act_def split: bool.split)

lemma buildPipeline_watch:
  "sizeRebuildDone (snd (buildPipeline g b w h s)) = sizeRebuildDone s \<and>
   panel_w (snd (buildPipeline g b w h s)) = panel_w s \<and> panel_h (snd (buildPipeline g b w h s)) = panel_h s"
proof -
  have oc: "sizeRebuildDone (snd (open_capture g b n x)) = sizeRebuildDone x \<and> panel_w (snd (open_capture g b n x)) = panel_w x \<and>
      panel_h (snd (open_capture g b n x)) = panel_h x" for n and x :: "'a Session_scheme"
    by (cases "b_capture b"; cases "b_encoder b")
      (simp_all add: open_capture_def dup_open_def configure_encoder_def fail_build_def act_def split_beta
        PublishStatus_def PublishMonitorRect_def PublishDisplayName_def)
  show ?thesis
    by (simp add: buildPipeline_def Let_def fail_build_def oc act_def dup_close_def PublishStatus_def)
qed

lemma size_stage_watch:
  assumes "(dup_width s, dup_height s) \<noteq> (panel_w s, panel_h s)" and "(dup_width s, dup_height s) \<noteq> (panel_h s, panel_w s)"
    and "managedDisplay g"
  shows "builds (snd (size_stage g a s)) + (if sizeRebuildDone (snd (size_stage g a s)) then 0 else 1) \<le>
      builds s + (if sizeRebuildDone s then 0 else 1) \<and>
    panel_w (snd (size_stage g a s)) = panel_w s \<and> panel_h (snd (size_stage g a s)) = panel_h s"
proof -
  let ?t = "s\<lparr>sizeRebuildDone := True\<rparr>"
  have b: "builds (s\<lparr>wrongSizeSince := t\<rparr>) = builds s" "builds (s\<lparr>sizeRebuildDone := x\<rparr>) = builds s"
    "builds (s\<lparr>sizeGiveUpLogged := x\<rparr>) = builds s" for t x
    by (simp_all add: builds_def)
  show ?thesis
    using assms b builds_buildPipeline [of g "c_size_build a" "panel_w s" "panel_h s" ?t]
      buildPipeline_watch [of g "c_size_build a" "panel_w s" "panel_h s" ?t]
    by (auto simp: size_stage_def Let_def split_beta)
qed

lemma size_round_watch:
  assumes "wrong_size s a" and "managedDisplay g"
  shows "builds (size_round g s a) + (if sizeRebuildDone (size_round g s a) then 0 else 1) \<le>
      builds s + (if sizeRebuildDone s then 0 else 1) \<and>
    panel_w (size_round g s a) = panel_w s \<and> panel_h (size_round g s a) = panel_h s"
  using size_stage_watch [of "follow_capture g a (capture_frame a s)" g a] assms
    follow_capture_watch [of g a "capture_frame a s"] capture_frame_watch [of a s]
  by (simp add: size_round_def wrong_size_def)

lemma size_rounds_watch:
  "list_all (wrong_size s) as \<Longrightarrow> managedDisplay g \<Longrightarrow>
   builds (foldl (size_round g) s as) + (if sizeRebuildDone (foldl (size_round g) s as) then 0 else 1) \<le>
      builds s + (if sizeRebuildDone s then 0 else 1)"
proof (induction as arbitrary: s)
  case (Cons a as)
  with size_round_watch [of s a g] have
    step: "builds (size_round g s a) + (if sizeRebuildDone (size_round g s a) then 0 else 1) \<le> builds s + (if sizeRebuildDone s then 0 else 1)"
    and "wrong_size (size_round g s a) = wrong_size s"
    by (auto simp: wrong_size_def fun_eq_iff)
  with Cons.IH [of "size_round g s a"] Cons.prems show ?case by simp
qed simp

text \<open>C28. While Windows keeps giving the managed monitor a size that is neither the panel's nor the turned panel's, however
  long that lasts and whatever the clock and the rebuild answer, the watchdog rebuilds the pipeline at most once: it
  never ends in a loop of rebuilds, each of which would interrupt every stream.\<close>

theorem one_rebuild_per_wrong_size:
  assumes "list_all (wrong_size s) as" and "managedDisplay g"
  shows "builds (foldl (size_round g) s as) \<le> builds s + (if sizeRebuildDone s then 0 else 1)"
  using size_rounds_watch [OF assms] by simp

definition sample_round :: RoundAnswer where
  "sample_round =
     \<lparr>c_loop_now = 5000, c_policy = \<lparr>allowed = True, reason = TrustedPrivateLan, resolvedTarget = ''192.168.1.7''\<rparr>,
      c_rect = sample_rect, c_resize_build = a_build (sample_attempt None), c_reopened = None, c_changed = True,
      c_size = (1024, 768), c_encoder_ok = True, c_rect_known = True, c_rect_after = sample_rect, c_now = 5000,
      c_size_build = a_build (sample_attempt None), c_capture_ms = 1, c_encode_ms = 2, c_frames = [], c_writable = (\<lambda>k. True),
      c_drop_now = 5000, c_sent_now = 5000, c_end_now = 5000\<rparr>"

lemma one_rebuild_per_wrong_size_witness:
  "builds (foldl (size_round StreamSettings_default) (sample_loop\<lparr>panel_w := 1920, panel_h := 1080, wrongSizeSince := 1\<rparr>)
     [sample_round, sample_round, sample_round]) \<le> 1"
proof -
  let ?s = "sample_loop\<lparr>panel_w := 1920, panel_h := 1080, wrongSizeSince := 1\<rparr>"
  have "list_all (wrong_size ?s) [sample_round, sample_round, sample_round]"
    by (simp add: wrong_size_def sample_round_def)
  moreover have "managedDisplay StreamSettings_default" by (simp add: managedDisplay_def StreamSettings_default_def)
  moreover have "builds ?s = 0" "\<not> sizeRebuildDone ?s" by (simp_all add: builds_def sample_loop_def)
  ultimately show ?thesis
    using one_rebuild_per_wrong_size [of ?s "[sample_round, sample_round, sample_round]" StreamSettings_default] by simp
qed

end
