(* ===== verification/DisplayModes.thy ===== *)
theory DisplayModes
  imports Prelude
begin

text \<open>
  The custom resolutions of the virtual monitors
  (\<^verbatim>\<open>src/src/display/VirtualDisplay.cpp\<close>): five slots in the registry of the driver, which
  all senders of the machine share.  Writing needs an elevated process; where the registry refuses, the
  answers of the calls are arguments.
\<close>

subsection \<open>The slots\<close>

record Res =
  res_w :: u32
  res_h :: u32
  res_hz :: u32

text \<open>A slot that exists, with the values that are there and have the right type.\<close>

record Slot =
  slot_width :: "u32 option"
  slot_height :: "u32 option"
  slot_hz :: "u32 option"

type_synonym slots = "nat \<rightharpoonup> Slot"

definition read_slot :: "Slot \<Rightarrow> Res option" where
  "read_slot s =
     (case slot_width s of
        None \<Rightarrow> None
      | Some w \<Rightarrow>
          (case slot_height s of
             None \<Rightarrow> None
           | Some h \<Rightarrow>
               (if w \<noteq> 0 \<and> h \<noteq> 0 then Some \<lparr>res_w = w, res_h = h, res_hz = value_or (slot_hz s) 60\<rparr> else None)))"

definition ReadRegisteredResolutions :: "slots \<Rightarrow> Res list" where
  "ReadRegisteredResolutions s = List.map_filter (\<lambda>i. Option.bind (s i) read_slot) [0..<5]"

definition same_size :: "u32 \<Rightarrow> u32 \<Rightarrow> Res \<Rightarrow> bool" where
  "same_size w h r \<longleftrightarrow> res_w r = w \<and> res_h r = h"

definition IsResolutionRegistered :: "u32 \<Rightarrow> u32 \<Rightarrow> slots \<Rightarrow> bool" where
  "IsResolutionRegistered w h s \<longleftrightarrow> list_ex (same_size w h) (ReadRegisteredResolutions s)"

definition slot_of :: "Res \<Rightarrow> Slot" where
  "slot_of r = \<lparr>slot_width = Some (res_w r), slot_height = Some (res_h r), slot_hz = Some (res_hz r)\<rparr>"

text \<open>The loop over the slots: the answers of creating and of deleting a key.  A failure leaves the slots
  already written as they are.\<close>

fun write_slots :: "(nat \<Rightarrow> bool) \<Rightarrow> (nat \<Rightarrow> bool) \<Rightarrow> Res list \<Rightarrow> nat list \<Rightarrow> slots \<Rightarrow> bool \<times> slots" where
  "write_slots created deleted l [] s = (True, s)"
| "write_slots created deleted l (i # is) s =
     (if i < length l then
        (if \<not> created i then (False, s) else write_slots created deleted l is (s(i \<mapsto> slot_of (l ! i))))
      else write_slots created deleted l is (if deleted i then s(i := None) else s))"

definition WriteResolutionSlots :: "(nat \<Rightarrow> bool) \<Rightarrow> (nat \<Rightarrow> bool) \<Rightarrow> Res list \<Rightarrow> slots \<Rightarrow> bool \<times> slots" where
  "WriteResolutionSlots created deleted l s = write_slots created deleted l [0..<5] s"

definition ensure_res :: "u32 \<Rightarrow> u32 \<Rightarrow> Res list \<Rightarrow> Res list" where
  "ensure_res w h l = (if list_ex (same_size w h) l then l else l @ [\<lparr>res_w = w, res_h = h, res_hz = 60\<rparr>])"

definition RegisterResolutions :: "(nat \<Rightarrow> bool) \<Rightarrow> (nat \<Rightarrow> bool) \<Rightarrow> u32 \<Rightarrow> u32 \<Rightarrow> slots \<Rightarrow> bool \<times> slots" where
  "RegisterResolutions created deleted w h s =
     (let l = ensure_res h w (ensure_res w h (ReadRegisteredResolutions s));
          kept = (if 5 < length l then drop (length l - 5) l else l)
      in WriteResolutionSlots created deleted kept s)"

text \<open>The elevated process: \<open>None\<close> when it could not be launched or was declined, else the answers it gets.\<close>

definition SelfElevateRegister :: "((nat \<Rightarrow> bool) \<times> (nat \<Rightarrow> bool)) option \<Rightarrow> u32 \<Rightarrow> u32 \<Rightarrow> slots \<Rightarrow> bool \<times> slots" where
  "SelfElevateRegister elevated w h s =
     (case elevated of
        None \<Rightarrow> (False, s)
      | Some (created, deleted) \<Rightarrow>
          (case RegisterResolutions created deleted w h s of
             (ok, s1) \<Rightarrow> (ok \<and> IsResolutionRegistered w h s1, s1)))"

subsection \<open>Reading back what was written\<close>

definition sized :: "Res \<Rightarrow> bool" where
  "sized r \<longleftrightarrow> res_w r \<noteq> 0 \<and> res_h r \<noteq> 0"

lemma read_slot_of [simp]: "sized r \<Longrightarrow> read_slot (slot_of r) = Some r"
  by (simp add: read_slot_def slot_of_def sized_def)

lemma read_slot_sized: "read_slot s = Some r \<Longrightarrow> sized r"
  by (auto simp: read_slot_def sized_def split: option.splits if_splits)

lemma ReadRegistered_sized: "list_all sized (ReadRegisteredResolutions s)"
  by (auto simp: ReadRegisteredResolutions_def list_all_iff map_filter_def bind_eq_Some_conv dest: read_slot_sized)

lemma ReadRegistered_length: "length (ReadRegisteredResolutions s) \<le> 5"
proof -
  have "length (List.map_filter f xs) \<le> length xs" for f :: "nat \<Rightarrow> Res option" and xs
    by (induction xs) (simp_all add: map_filter_simps split: option.split)
  from this [of _ "[0..<5]"] show ?thesis by (simp add: ReadRegisteredResolutions_def)
qed

lemma write_slots_ok:
  "(\<And>i. created i) \<Longrightarrow> (\<And>i. deleted i) \<Longrightarrow> distinct is \<Longrightarrow>
   write_slots created deleted l is s =
     (True, \<lambda>i. if i \<in> set is then (if i < length l then Some (slot_of (l ! i)) else None) else s i)"
  by (induction "is" arbitrary: s) (auto simp: fun_eq_iff)

lemma map_filter_slots:
  assumes "list_all sized l" and "length l \<le> n"
  shows "List.map_filter (\<lambda>i. Option.bind (if i < length l then Some (slot_of (l ! i)) else None) read_slot) [0..<n] = l"
proof -
  let ?f = "\<lambda>i. Option.bind (if i < length l then Some (slot_of (l ! i)) else None) read_slot"
  have split: "[0..<n] = [0..<length l] @ [length l..<n]" using assms(2) upt_add_eq_append [of 0 "length l" "n - length l"] by simp
  have "List.map_filter ?f [0..<length l] = map (nth l) [0..<length l]"
  proof -
    have "set is \<subseteq> {..<length l} \<Longrightarrow> List.map_filter ?f is = map (nth l) is" for "is"
      using assms(1) by (induction "is") (auto simp: map_filter_simps list_all_length)
    then show ?thesis by (simp add: lessThan_atLeast0)
  qed
  moreover have "List.map_filter ?f [length l..<n] = []"
  proof -
    have "set is \<subseteq> {length l..} \<Longrightarrow> List.map_filter ?f is = []" for "is"
      by (induction "is") (auto simp: map_filter_simps)
    from this [of "[length l..<n]"] show ?thesis by (simp add: subset_iff)
  qed
  ultimately show ?thesis
    unfolding split by (simp add: map_filter_def map_nth)
qed

lemma WriteResolutionSlots_read:
  assumes "\<And>i. created i" and "\<And>i. deleted i" and "list_all sized l" and "length l \<le> 5"
  shows "\<exists>s'. WriteResolutionSlots created deleted l s = (True, s') \<and> ReadRegisteredResolutions s' = l"
proof -
  let ?s = "\<lambda>i. if i \<in> set [0..<5] then (if i < length l then Some (slot_of (l ! i)) else None) else s i"
  have "WriteResolutionSlots created deleted l s = (True, ?s)"
    unfolding WriteResolutionSlots_def by (rule write_slots_ok) (simp_all add: assms(1,2))
  moreover have "ReadRegisteredResolutions ?s = l"
  proof -
    have "List.map_filter (\<lambda>i. Option.bind (?s i) read_slot) [0..<5] =
        List.map_filter (\<lambda>i. Option.bind (if i < length l then Some (slot_of (l ! i)) else None) read_slot) [0..<5]"
      unfolding map_filter_def by (intro map_cong filter_cong refl) auto
    then show ?thesis unfolding ReadRegisteredResolutions_def using map_filter_slots [OF assms(3,4)] by (rule trans)
  qed
  ultimately show ?thesis by blast
qed

subsection \<open>Registering a size and its rotation\<close>

lemma ensure_res_has [simp]: "list_ex (same_size w h) (ensure_res w h l)"
  by (simp add: ensure_res_def same_size_def)

lemma ensure_res_keeps: "list_ex P l \<Longrightarrow> list_ex P (ensure_res w h l)"
  by (simp add: ensure_res_def)

lemma ensure_res_sized: "list_all sized l \<Longrightarrow> w \<noteq> 0 \<Longrightarrow> h \<noteq> 0 \<Longrightarrow> list_all sized (ensure_res w h l)"
  by (simp add: ensure_res_def sized_def)

lemma ensure_res_length: "length (ensure_res w h l) \<le> Suc (length l)"
  by (simp add: ensure_res_def)

lemma ensure_res_prefix: "\<exists>new. ensure_res w h l = l @ new \<and> length new \<le> 1"
  by (simp add: ensure_res_def)

definition register_list :: "u32 \<Rightarrow> u32 \<Rightarrow> Res list \<Rightarrow> Res list" where
  "register_list w h l = ensure_res h w (ensure_res w h l)"

lemma register_list_sized: "list_all sized l \<Longrightarrow> w \<noteq> 0 \<Longrightarrow> h \<noteq> 0 \<Longrightarrow> list_all sized (register_list w h l)"
  by (simp add: register_list_def ensure_res_sized)

lemma register_list_length: "length (register_list w h l) \<le> length l + 2"
  using ensure_res_length [of h w "ensure_res w h l"] ensure_res_length [of w h l] by (simp add: register_list_def)

lemma RegisterResolutions_read:
  assumes "\<And>i. created i" and "\<And>i. deleted i" and "w \<noteq> 0" and "h \<noteq> 0"
  shows "\<exists>s'. RegisterResolutions created deleted w h s = (True, s') \<and>
    ReadRegisteredResolutions s' = drop (length (register_list w h (ReadRegisteredResolutions s)) - 5)
      (register_list w h (ReadRegisteredResolutions s))"
proof -
  let ?l = "register_list w h (ReadRegisteredResolutions s)"
  let ?k = "drop (length ?l - 5) ?l"
  have "list_all sized ?l" using ReadRegistered_sized assms(3,4) by (rule register_list_sized)
  then have "list_all sized ?k" by (auto simp: list_all_iff dest: in_set_dropD)
  moreover have "length ?k \<le> 5" by simp
  ultimately have "\<exists>s'. WriteResolutionSlots created deleted ?k s = (True, s') \<and> ReadRegisteredResolutions s' = ?k"
    using assms(1,2) by (intro WriteResolutionSlots_read)
  moreover have "(if 5 < length ?l then drop (length ?l - 5) ?l else ?l) = ?k" by simp
  ultimately show ?thesis
    unfolding RegisterResolutions_def Let_def register_list_def [symmetric] by simp
qed

lemma new_size_survives:
  assumes "\<not> list_ex (same_size w h) l"
  shows "list_ex (same_size w h) (drop (length (register_list w h l) - 5) (register_list w h l))"
proof -
  obtain new where new: "register_list w h l = (l @ [\<lparr>res_w = w, res_h = h, res_hz = 60\<rparr>]) @ new" "length new \<le> 1"
    using ensure_res_prefix [of h w "ensure_res w h l"] assms by (auto simp: register_list_def ensure_res_def)
  have "length (register_list w h l) - 5 \<le> length l" using new by simp
  then have "\<lparr>res_w = w, res_h = h, res_hz = 60\<rparr> \<in> set (drop (length (register_list w h l) - 5) (register_list w h l))"
    using new by (simp add: drop_Cons' split: nat_diff_split)
  then show ?thesis
    unfolding list_ex_iff by (rule bexI [rotated]) (simp add: same_size_def)
qed

lemma room_keeps_all:
  assumes "length (register_list w h l) \<le> 5"
  shows "drop (length (register_list w h l) - 5) (register_list w h l) = register_list w h l \<and>
    list_ex (same_size w h) (register_list w h l) \<and> list_ex (same_size h w) (register_list w h l) \<and>
    (\<exists>new. register_list w h l = l @ new)"
proof -
  have "\<exists>new. register_list w h l = l @ new"
    using ensure_res_prefix [of h w "ensure_res w h l"] ensure_res_prefix [of w h l] by (auto simp: register_list_def)
  with assms show ?thesis by (simp add: register_list_def ensure_res_keeps)
qed

subsection \<open>Properties\<close>

text \<open>Where the registry accepts the writes, registering a size that is not registered yet succeeds, leaves at most five
  sizes (all of them with the driver's 60 Hz or what they had), and the size is registered afterwards.  When the two
  orientations fit, both are registered and no size of another device is lost.\<close>

lemma registered_size_is_there:
  assumes "w \<noteq> 0" and "h \<noteq> 0" and "\<not> IsResolutionRegistered w h s"
  shows "case RegisterResolutions (\<lambda>i. True) (\<lambda>i. True) w h s of (ok, s') \<Rightarrow>
    ok \<and> IsResolutionRegistered w h s' \<and> length (ReadRegisteredResolutions s') \<le> 5 \<and>
    (if length (ReadRegisteredResolutions s) \<le> 3
     then IsResolutionRegistered h w s' \<and> (\<exists>new. ReadRegisteredResolutions s' = ReadRegisteredResolutions s @ new) else True)"
proof -
  let ?l = "ReadRegisteredResolutions s"
  obtain s' where s': "RegisterResolutions (\<lambda>i. True) (\<lambda>i. True) w h s = (True, s')"
      "ReadRegisteredResolutions s' = drop (length (register_list w h ?l) - 5) (register_list w h ?l)"
    using RegisterResolutions_read [of "\<lambda>i. True" "\<lambda>i. True" w h s] assms by blast
  have "IsResolutionRegistered w h s'"
    using new_size_survives [of w h ?l] assms(3) s'(2) by (simp add: IsResolutionRegistered_def)
  moreover have "length ?l \<le> 3 \<Longrightarrow> length (register_list w h ?l) \<le> 5"
    using register_list_length [of w h ?l] by linarith
  ultimately show ?thesis
    using s' room_keeps_all [of w h ?l] ReadRegistered_length [of s'] by (auto simp: IsResolutionRegistered_def)
qed

lemma registered_size_is_there_witness:
  "case RegisterResolutions (\<lambda>i. True) (\<lambda>i. True) 2732 2048 Map.empty of (ok, s') \<Rightarrow>
    ok \<and> IsResolutionRegistered 2732 2048 s' \<and> length (ReadRegisteredResolutions s') \<le> 5 \<and>
    IsResolutionRegistered 2048 2732 s'"
proof -
  have "ReadRegisteredResolutions Map.empty = []" by (simp add: ReadRegisteredResolutions_def map_filter_def)
  then show ?thesis
    using registered_size_is_there [of 2732 2048 Map.empty] by (auto simp: IsResolutionRegistered_def split: prod.splits)
qed

text \<open>With five sizes registered the one in the first slot goes, even when it is the rotation that the call was to
  ensure.\<close>

lemma rotation_can_be_evicted:
  assumes "ReadRegisteredResolutions s = \<lparr>res_w = h, res_h = w, res_hz = 60\<rparr> # l" and "length l = 4" and "w \<noteq> 0" and "h \<noteq> 0"
    and "w \<noteq> h" and "\<not> list_ex (same_size w h) l" and "\<not> list_ex (same_size h w) l"
  shows "\<exists>s'. RegisterResolutions (\<lambda>i. True) (\<lambda>i. True) w h s = (True, s') \<and> IsResolutionRegistered w h s' \<and>
    IsResolutionRegistered h w s \<and> \<not> IsResolutionRegistered h w s'"
proof -
  let ?l = "ReadRegisteredResolutions s"
  have "register_list w h ?l = ?l @ [\<lparr>res_w = w, res_h = h, res_hz = 60\<rparr>]"
    using assms by (simp add: register_list_def ensure_res_def same_size_def)
  then have "drop (length (register_list w h ?l) - 5) (register_list w h ?l) = l @ [\<lparr>res_w = w, res_h = h, res_hz = 60\<rparr>]"
    using assms(1,2) by simp
  moreover obtain s' where "RegisterResolutions (\<lambda>i. True) (\<lambda>i. True) w h s = (True, s')"
      "ReadRegisteredResolutions s' = drop (length (register_list w h ?l) - 5) (register_list w h ?l)"
    using RegisterResolutions_read [of "\<lambda>i. True" "\<lambda>i. True" w h s] assms(3,4) by blast
  ultimately show ?thesis
    using assms by (auto simp: IsResolutionRegistered_def same_size_def)
qed

end
