(* ===== verification/DisplayPosition.thy ===== *)
theory DisplayPosition
  imports Input
begin

text \<open>
  Where the virtual monitor of each device stood
  (\<^verbatim>\<open>src/src/display/VirtualDisplay.cpp\<close>): two values of the user's registry per device, with
  the migration from the shared position and from the key of the upstream program.
\<close>

subsection \<open>The registry\<close>

text \<open>The values of the two keys, and whether the program's own key can be opened or created.\<close>

record Positions =
  own :: "wstring \<rightharpoonup> u32"
  own_access :: bool
  legacy :: "wstring \<rightharpoonup> u32"

definition value_x :: wstring where "value_x = wide ''monitorX''"
definition value_y :: wstring where "value_y = wide ''monitorY''"

definition position_char :: "char \<Rightarrow> char" where
  "position_char c =
     (if (CHR ''0'' \<le> c \<and> c \<le> CHR ''9'') \<or> (CHR ''a'' \<le> c \<and> c \<le> CHR ''z'') \<or> (CHR ''A'' \<le> c \<and> c \<le> CHR ''Z'')
      then c else CHR ''_'')"

definition PositionValueName :: "string \<Rightarrow> wstring \<Rightarrow> wstring" where
  "PositionValueName identity base =
     (if identity = [] then base else base @ wide ''_'' @ wide (map position_char identity))"

text \<open>Both values, as signed integers.\<close>

definition read_pair :: "(wstring \<rightharpoonup> u32) \<Rightarrow> wstring \<Rightarrow> wstring \<Rightarrow> (int \<times> int) option" where
  "read_pair key nx ny =
     (case key nx of
        None \<Rightarrow> None
      | Some x \<Rightarrow> (case key ny of None \<Rightarrow> None | Some y \<Rightarrow> Some (sint x, sint y)))"

definition SavePosition :: "string \<Rightarrow> int \<Rightarrow> int \<Rightarrow> Positions \<Rightarrow> Positions" where
  "SavePosition identity x y r =
     (if \<not> own_access r then r
      else r\<lparr>own := (own r)(PositionValueName identity value_x \<mapsto> word_of_int x,
                            PositionValueName identity value_y \<mapsto> word_of_int y)\<rparr>)"

definition LoadSavedPosition :: "string \<Rightarrow> Positions \<Rightarrow> (int \<times> int) option \<times> Positions" where
  "LoadSavedPosition identity r =
     (let nx = PositionValueName identity value_x; ny = PositionValueName identity value_y;
          mine = (if own_access r then read_pair (own r) nx ny else None);
          shared = (if own_access r \<and> identity \<noteq> [] then read_pair (own r) value_x value_y else None)
      in case mine of
           Some p \<Rightarrow> (Some p, r)
         | None \<Rightarrow>
             (case shared of
                Some p \<Rightarrow> (Some p, r\<lparr>own := (own r)(value_x := None, value_y := None)\<rparr>)
              | None \<Rightarrow>
                  (case (case read_pair (legacy r) nx ny of
                           Some p \<Rightarrow> Some p
                         | None \<Rightarrow> if identity \<noteq> [] then read_pair (legacy r) value_x value_y else None) of
                     None \<Rightarrow> (None, r)
                   | Some (x, y) \<Rightarrow> (Some (x, y), SavePosition identity x y r))))"

text \<open>The poll of the keepalive thread: the monitor's rectangle, if it is attached.  \<open>None\<close> for the last known
  corner is \<^verbatim>\<open>INT_MIN\<close>.\<close>

definition PollPosition ::
    "string \<Rightarrow> wstring \<Rightarrow> RECT option \<Rightarrow> (int \<times> int) option \<Rightarrow> RECT \<Rightarrow> Positions \<Rightarrow> (int \<times> int) option \<times> RECT \<times> Positions" where
  "PollPosition identity name found lastKnown rect r =
     (if name = [] then (lastKnown, rect, r)
      else (case found of
              None \<Rightarrow> (lastKnown, rect, r)
            | Some m \<Rightarrow>
                (case lastKnown of
                   None \<Rightarrow> (Some (left m, upper m), rect, r)
                 | Some (x, y) \<Rightarrow>
                     (if left m \<noteq> x \<or> upper m \<noteq> y
                      then (Some (left m, upper m), m, SavePosition identity (left m) (upper m) r)
                      else (Some (x, y), rect, r)))))"

subsection \<open>The names\<close>

lemma wide_simps [simp]: "wide (a @ b) = wide a @ wide b" "wide [] = []"
  by (simp_all add: wide_def)

lemma code_inj: "(of_nat (of_char c) :: u16) = of_nat (of_char d) \<longleftrightarrow> c = d"
proof
  assume e: "(of_nat (of_char c) :: u16) = of_nat (of_char d)"
  have small: "(of_char c :: nat) < 65536" for c :: char
    using of_char_mod_256 [of c, where 'a = nat] mod_less_divisor [of 256 "of_char c :: nat"] by linarith
  have "unat (of_nat (of_char c) :: u16) = of_char c" "unat (of_nat (of_char d) :: u16) = of_char d"
    using small by (simp_all add: unat_of_nat)
  with e show "c = d" by (metis of_char_eq_iff)
qed simp

lemma wide_inj [simp]: "wide a = wide b \<longleftrightarrow> a = b"
proof
  have inj: "inj (\<lambda>c. of_nat (of_char c) :: u16)" by (rule injI) (simp add: code_inj)
  assume "wide a = wide b"
  then show "a = b" using inj by (simp add: wide_def inj_map_eq_map)
qed simp

lemma names_differ: "PositionValueName i value_x \<noteq> PositionValueName j value_y"
proof
  assume "PositionValueName i value_x = PositionValueName j value_y"
  then have "take 8 (PositionValueName i value_x) = take 8 (PositionValueName j value_y)" by simp
  moreover have "take 8 (PositionValueName i (wide b)) = wide b" if "length b = 8" for i b
    using that by (simp add: PositionValueName_def wide_def)
  ultimately have "wide ''monitorX'' = wide ''monitorY''" by (simp add: value_x_def value_y_def)
  then show False by simp
qed

lemma name_same: "PositionValueName i b = PositionValueName j b \<longleftrightarrow> map position_char i = map position_char j"
proof -
  have "wide ''_'' \<noteq> []" by (simp add: wide_def)
  then show ?thesis by (auto simp: PositionValueName_def)
qed

lemma signed_round: "- (2 ^ 31) \<le> x \<Longrightarrow> x < 2 ^ 31 \<Longrightarrow> sint (word_of_int x :: u32) = x"
  using signed_take_bit_int_eq_self [of 31 x] by (simp add: sint_sbintrunc')

subsection \<open>Properties\<close>

lemma saved_position_loads:
  assumes "own_access r" and "- (2 ^ 31) \<le> x" "x < 2 ^ 31" "- (2 ^ 31) \<le> y" "y < 2 ^ 31"
  shows "LoadSavedPosition i (SavePosition i x y r) = (Some (x, y), SavePosition i x y r)"
  using assms names_differ [of i i] names_differ [of i i, symmetric]
  by (simp add: LoadSavedPosition_def SavePosition_def read_pair_def Let_def signed_round)

lemma other_position_kept:
  assumes "map position_char i \<noteq> map position_char j"
  shows "read_pair (own (SavePosition i x y r)) (PositionValueName j value_x) (PositionValueName j value_y) =
    read_pair (own r) (PositionValueName j value_x) (PositionValueName j value_y)"
  using assms names_differ [of i j] names_differ [of j i] name_same [of i _ j] name_same [of j _ i]
  by (auto simp: SavePosition_def read_pair_def split: option.split)

text \<open>The position of a device's monitor survives: what was saved for it, negative coordinates included, is what the
  next session loads, loading it changes nothing, and saving it leaves alone the position of every other device
  whose name in the registry differs.  A monitor that the user moves while a session runs is saved at its new corner.\<close>

lemma saved_position_returns:
  assumes "own_access r" and "- (2 ^ 31) \<le> left m" "left m < 2 ^ 31" "- (2 ^ 31) \<le> upper m" "upper m < 2 ^ 31"
    and "name \<noteq> []" and "(x, y) \<noteq> (left m, upper m)"
  shows "case PollPosition i name (Some m) (Some (x, y)) rect r of (known, rect', r') \<Rightarrow>
    known = Some (left m, upper m) \<and> rect' = m \<and>
    LoadSavedPosition i r' = (Some (left m, upper m), r') \<and>
    (if map position_char j \<noteq> map position_char i
     then read_pair (own r') (PositionValueName j value_x) (PositionValueName j value_y) =
          read_pair (own r) (PositionValueName j value_x) (PositionValueName j value_y) else True)"
  using assms saved_position_loads [OF assms(1-5), of i] other_position_kept [of i j "left m" "upper m" r]
  by (auto simp: PollPosition_def)

lemma saved_position_returns_witness:
  "case PollPosition ''192.168.1.7'' (wide ''DISPLAY3'') (Some \<lparr>left = - 1366, upper = 20, right = 0, bottom = 1044\<rparr>) (Some (0, 0))
      RECT_zero \<lparr>own = Map.empty, own_access = True, legacy = Map.empty\<rparr> of (known, rect', r') \<Rightarrow>
    known = Some (- 1366, 20) \<and> LoadSavedPosition ''192.168.1.7'' r' = (Some (- 1366, 20), r')"
proof -
  have "wide ''DISPLAY3'' \<noteq> []" by (simp add: wide_def)
  then show ?thesis
    using saved_position_returns [where r = "\<lparr>own = Map.empty, own_access = True, legacy = Map.empty\<rparr>"
        and m = "\<lparr>left = - 1366, upper = 20, right = 0, bottom = 1044\<rparr>" and name = "wide ''DISPLAY3''" and x = 0 and y = 0
        and i = "''192.168.1.7''" and rect = RECT_zero and j = "[]"]
    by (auto split: prod.splits)
qed

text \<open>The shared position is inherited by removing it; nothing keeps it until the session has placed its monitor.\<close>

lemma inherited_position_is_lost_on_failure:
  assumes "own_access r" and "i \<noteq> []" and "own r = [value_x \<mapsto> px, value_y \<mapsto> py]" and "legacy r = Map.empty"
  shows "LoadSavedPosition i r = (Some (sint px, sint py), r\<lparr>own := Map.empty\<rparr>) \<and>
    fst (LoadSavedPosition i (r\<lparr>own := Map.empty\<rparr>)) = None"
proof -
  have "PositionValueName i value_x \<noteq> value_x" "value_x \<noteq> value_y" "PositionValueName i value_x \<noteq> value_y"
    using assms(2) names_differ [of i "[]"] names_differ [of "[]" "[]"] by (simp_all add: PositionValueName_def wide_def [of "''_''"])
  then show ?thesis
    using assms by (auto simp: LoadSavedPosition_def read_pair_def Let_def fun_eq_iff)
qed

end
