(* ===== verification/VirtualDisplay.thy ===== *)
theory VirtualDisplay
  imports DisplayModes DisplayPosition
begin

text \<open>
  The virtual monitor of a sender (\<^verbatim>\<open>src/src/display/VirtualDisplay.cpp\<close>): the driver handle,
  the index of the monitor this sender added, and the display path it claimed.  What the driver and Windows
  answer are arguments; what is asked of the driver is kept in order in \<open>driver\<close>.
\<close>

subsection \<open>Display paths\<close>

definition tolower_w :: "u16 \<Rightarrow> u16" where
  "tolower_w c = (if 65 \<le> c \<and> c \<le> 90 then c + 32 else c)"

definition MonitorKey :: "wstring \<Rightarrow> wstring" where
  "MonitorKey = map tolower_w"

definition ContainsInsensitive :: "wstring \<Rightarrow> wstring \<Rightarrow> bool" where
  "ContainsInsensitive text needle \<longleftrightarrow>
     needle \<noteq> [] \<and> list_ex (\<lambda>i. map tolower_w (take (length needle) (drop i text)) = map tolower_w needle) [0..<length text]"

text \<open>A path as Windows lists it, with the answers to the two name queries.\<close>

record PathInfo =
  path_active :: bool
  target_available :: bool
  target_name :: "(wstring \<times> wstring) option"
  source_name :: "wstring option"

record ParsecPathBinding =
  monitorPath :: wstring
  monitorKey :: wstring
  bind_device :: wstring

definition bind_path :: "PathInfo \<Rightarrow> ParsecPathBinding option" where
  "bind_path p =
     (if \<not> path_active p \<or> \<not> target_available p then None
      else (case target_name p of
              None \<Rightarrow> None
            | Some (path, friendly) \<Rightarrow>
                (if \<not> ContainsInsensitive path (wide ''DISPLAY#PSCCDD0#'') \<and> \<not> ContainsInsensitive friendly (wide ''ParsecVDA'')
                 then None
                 else (case source_name p of
                         None \<Rightarrow> None
                       | Some dev \<Rightarrow>
                           (if dev = [] \<or> MonitorKey path = [] then None
                            else Some \<lparr>monitorPath = path, monitorKey = MonitorKey path, bind_device = dev\<rparr>)))))"

text \<open>The answers of the at most three queries: a failure, a topology that changed, or the paths.\<close>

datatype PathQuery = QueryFailed | TopologyChanged | Paths "PathInfo list"

fun query_paths :: "PathQuery list \<Rightarrow> ParsecPathBinding list" where
  "query_paths [] = []"
| "query_paths (QueryFailed # qs) = []"
| "query_paths (TopologyChanged # qs) = query_paths qs"
| "query_paths (Paths ps # qs) = List.map_filter bind_path ps"

definition ActiveParsecPaths :: "PathQuery list \<Rightarrow> ParsecPathBinding list" where
  "ActiveParsecPaths qs = query_paths (take 3 qs)"

definition ActiveParsecPathKeys :: "PathQuery list \<Rightarrow> wstring list" where
  "ActiveParsecPathKeys qs = map monitorKey (ActiveParsecPaths qs)"

text \<open>The monitors of the desktop that could be queried.\<close>

definition GetMonitorRectByName :: "wstring \<Rightarrow> (wstring \<times> RECT) list \<Rightarrow> RECT option" where
  "GetMonitorRectByName name monitors = map_option snd (find (\<lambda>(n, r). n = name) monitors)"

text \<open>\<^verbatim>\<open>WaitUntil\<close> polls every 150 ms and once more at the end: the result and the poll it stopped at.\<close>

function wait_polls :: "(nat \<Rightarrow> bool) \<Rightarrow> int \<Rightarrow> int \<Rightarrow> nat \<Rightarrow> bool \<times> nat" where
  "wait_polls pred timeoutMs waited k =
     (if waited < timeoutMs then (if pred k then (True, k) else wait_polls pred timeoutMs (waited + 150) (Suc k))
      else (pred k, k))"
  by pat_completeness auto
termination
  by (relation "measure (\<lambda>(pred, timeoutMs, waited, k). nat (timeoutMs - waited))") auto

declare wait_polls.simps [simp del]

definition WaitUntil :: "(nat \<Rightarrow> bool) \<Rightarrow> int \<Rightarrow> bool \<times> nat" where
  "WaitUntil pred timeoutMs = wait_polls pred timeoutMs 0 0"

lemma wait_polls_result: "wait_polls pred t w k = (b, n) \<Longrightarrow> b = pred n \<and> k \<le> n"
proof (induction pred t w k rule: wait_polls.induct)
  case (1 pred t w k)
  from "1.prems" "1.IH" show ?case by (subst (asm) wait_polls.simps) (auto split: if_splits)
qed

lemma WaitUntil_result: "WaitUntil pred t = (b, n) \<Longrightarrow> b = pred n"
  unfolding WaitUntil_def by (drule wait_polls_result) simp

subsection \<open>The monitor\<close>

datatype DriverCall = VddUpdated | VddAdded int | VddRemoved int

record VirtualDisplay =
  device_open :: bool
  displayIndex :: int
  identity :: string
  targetWidth :: u32
  targetHeight :: u32
  targetHz :: u32
  vd_rect :: RECT
  deviceName :: wstring
  monitorPathKey :: wstring
  slots_of :: slots
  positions :: Positions
  driver :: "DriverCall list"

definition VirtualDisplay_default :: "slots \<Rightarrow> Positions \<Rightarrow> VirtualDisplay" where
  "VirtualDisplay_default s p =
     \<lparr>device_open = False, displayIndex = - 1, identity = [], targetWidth = 0, targetHeight = 0, targetHz = 60,
      vd_rect = RECT_zero, deviceName = [], monitorPathKey = [], slots_of = s, positions = p, driver = []\<rparr>"

definition call :: "DriverCall \<Rightarrow> VirtualDisplay \<Rightarrow> VirtualDisplay" where
  "call c v = v\<lparr>driver := driver v @ [c]\<rparr>"

definition vdd_open :: "bool \<Rightarrow> VirtualDisplay \<Rightarrow> bool \<times> VirtualDisplay" where
  "vdd_open opened v = (if \<not> opened then (False, v\<lparr>device_open := False\<rparr>) else (True, call VddUpdated (v\<lparr>device_open := True\<rparr>)))"

definition vdd_close :: "VirtualDisplay \<Rightarrow> VirtualDisplay" where
  "vdd_close v =
     (let v1 = (if 0 \<le> displayIndex v \<and> device_open v
                then (call (VddRemoved (displayIndex v)) v)\<lparr>displayIndex := - 1\<rparr> else v)
      in if device_open v1 then v1\<lparr>device_open := False\<rparr> else v1)"

definition SetIdentity :: "string \<Rightarrow> VirtualDisplay \<Rightarrow> VirtualDisplay" where
  "SetIdentity i v = v\<lparr>identity := i\<rparr>"

definition QueryMonitorRect :: "(wstring \<times> RECT) list \<Rightarrow> VirtualDisplay \<Rightarrow> bool \<times> VirtualDisplay" where
  "QueryMonitorRect monitors v =
     (case GetMonitorRectByName (deviceName v) monitors of None \<Rightarrow> (False, v) | Some r \<Rightarrow> (True, v\<lparr>vd_rect := r\<rparr>))"

text \<open>A wait on it; the rectangle is the one of the last poll.\<close>

definition wait_rect :: "(nat \<Rightarrow> (wstring \<times> RECT) list) \<Rightarrow> int \<Rightarrow> VirtualDisplay \<Rightarrow> bool \<times> VirtualDisplay" where
  "wait_rect monitors timeoutMs v =
     (case WaitUntil (\<lambda>k. fst (QueryMonitorRect (monitors k) v)) timeoutMs of
        (ok, k) \<Rightarrow> (ok, snd (QueryMonitorRect (monitors k) v)))"

definition keepalive_poll :: "(wstring \<times> RECT) list \<Rightarrow> (int \<times> int) option \<Rightarrow> VirtualDisplay \<Rightarrow> (int \<times> int) option \<times> VirtualDisplay" where
  "keepalive_poll monitors lastKnown v =
     (case PollPosition (identity v) (deviceName v) (GetMonitorRectByName (deviceName v) monitors) lastKnown (vd_rect v) (positions v) of
        (known, r, p) \<Rightarrow> (known, v\<lparr>vd_rect := r, positions := p\<rparr>))"

text \<open>One turn of \<^verbatim>\<open>KeepAliveLoop\<close>: an update of the driver, and every twentieth turn the poll.\<close>

definition keepalive_turn ::
    "(wstring \<times> RECT) list \<Rightarrow> nat \<times> (int \<times> int) option \<Rightarrow> VirtualDisplay \<Rightarrow> (nat \<times> (int \<times> int) option) \<times> VirtualDisplay" where
  "keepalive_turn monitors local v =
     (let v1 = call VddUpdated v; tick = Suc (fst local) in
      if 20 \<le> tick then (case keepalive_poll monitors (snd local) v1 of (known, v2) \<Rightarrow> ((0, known), v2))
      else ((tick, snd local), v1))"

subsection \<open>Placing the monitor\<close>

record Mode =
  mode_w :: u32
  mode_h :: u32
  mode_hz :: u32
  mode_bpp :: u32

record GeometryAnswer =
  g_paths :: "nat \<Rightarrow> PathQuery list"
  g_desktop_right :: int
  g_desktop_top :: int
  g_modes :: "Mode list"
  g_attach :: bool
  g_attach_apply :: bool
  g_topology :: bool
  g_monitors :: "nat \<Rightarrow> (wstring \<times> RECT) list"
  g_extend :: bool
  g_monitors_extended :: "nat \<Rightarrow> (wstring \<times> RECT) list"
  g_exact :: bool
  g_exact_apply :: bool
  g_settled :: "nat \<Rightarrow> (wstring \<times> RECT) list"
  g_current :: "nat \<Rightarrow> Mode option"

definition fresh_paths :: "wstring list \<Rightarrow> PathQuery list \<Rightarrow> ParsecPathBinding list" where
  "fresh_paths before qs = filter (\<lambda>b. monitorKey b \<notin> set before) (ActiveParsecPaths qs)"

text \<open>The claim: \<open>None\<close> when no path appeared or more than one.\<close>

definition claim_path :: "wstring list \<Rightarrow> (nat \<Rightarrow> PathQuery list) \<Rightarrow> ParsecPathBinding option" where
  "claim_path before paths =
     (case WaitUntil (\<lambda>k. fresh_paths before (paths k) \<noteq> []) 3000 of
        (found, k) \<Rightarrow>
          (case fresh_paths before (paths k) of [b] \<Rightarrow> if found then Some b else None | _ \<Rightarrow> None))"

definition is_target_mode :: "VirtualDisplay \<Rightarrow> Mode \<Rightarrow> bool" where
  "is_target_mode v m \<longleftrightarrow> mode_w m = targetWidth v \<and> mode_h m = targetHeight v \<and> mode_hz m = targetHz v \<and> mode_bpp m = 32"

definition is_current_mode :: "VirtualDisplay \<Rightarrow> Mode \<Rightarrow> bool" where
  "is_current_mode v m \<longleftrightarrow> mode_w m = targetWidth v \<and> mode_h m = targetHeight v \<and> mode_hz m = targetHz v"

definition attach_monitor :: "GeometryAnswer \<Rightarrow> VirtualDisplay \<Rightarrow> bool \<times> VirtualDisplay" where
  "attach_monitor g v =
     (if (if g_attach g then \<not> g_attach_apply g else \<not> g_topology g) then (False, v)
      else (case wait_rect (g_monitors g) 1500 v of
              (True, v1) \<Rightarrow> (True, v1)
            | (False, v1) \<Rightarrow> (if g_extend g then wait_rect (g_monitors_extended g) 5000 v1 else (False, v1))))"

definition settle_monitor :: "GeometryAnswer \<Rightarrow> VirtualDisplay \<Rightarrow> bool \<times> VirtualDisplay" where
  "settle_monitor g v =
     (if \<not> g_exact g \<or> \<not> g_exact_apply g then (False, v)
      else (case WaitUntil (\<lambda>k. fst (QueryMonitorRect (g_settled g k) v) \<and>
                      (case g_current g k of None \<Rightarrow> False | Some m \<Rightarrow> is_current_mode v m)) 5000 of
              (ok, k) \<Rightarrow> (ok, snd (QueryMonitorRect (g_settled g k) v))))"

definition initial_position :: "GeometryAnswer \<Rightarrow> VirtualDisplay \<Rightarrow> (int \<times> int) \<times> VirtualDisplay" where
  "initial_position g v =
     (case LoadSavedPosition (identity v) (positions v) of
        (Some p, r) \<Rightarrow> (p, v\<lparr>positions := r\<rparr>)
      | (None, r) \<Rightarrow>
          ((g_desktop_right g, g_desktop_top g),
           v\<lparr>positions := SavePosition (identity v) (g_desktop_right g) (g_desktop_top g) r\<rparr>))"

definition FindMonitorGeometry :: "wstring list \<Rightarrow> GeometryAnswer \<Rightarrow> VirtualDisplay \<Rightarrow> bool \<times> VirtualDisplay" where
  "FindMonitorGeometry before g v =
     (case claim_path before (g_paths g) of
        None \<Rightarrow> (False, v)
      | Some b \<Rightarrow>
          (case initial_position g (v\<lparr>deviceName := bind_device b, monitorPathKey := monitorKey b\<rparr>) of
             ((x, y), v1) \<Rightarrow>
               (if \<not> list_ex (is_target_mode v1) (g_modes g) then (False, v1)
                else (case attach_monitor g v1 of
                        (False, v2) \<Rightarrow> (False, v2)
                      | (True, v2) \<Rightarrow>
                          (case settle_monitor g v2 of
                             (False, v3) \<Rightarrow> (False, v3)
                           | (True, v3) \<Rightarrow> (True, v3\<lparr>positions := SavePosition (identity v3) x y (positions v3)\<rparr>))))))"

subsection \<open>Ensuring a resolution\<close>

record EnsureAnswer =
  e_monitors :: "(wstring \<times> RECT) list"
  e_created :: "nat \<Rightarrow> bool"
  e_deleted :: "nat \<Rightarrow> bool"
  e_elevated :: "((nat \<Rightarrow> bool) \<times> (nat \<Rightarrow> bool)) option"
  e_lock :: bool
  e_before :: "PathQuery list"
  e_index :: int
  e_geometry :: GeometryAnswer

definition remove_display :: "VirtualDisplay \<Rightarrow> VirtualDisplay" where
  "remove_display v =
     (call (VddRemoved (displayIndex v)) v)
       \<lparr>displayIndex := - 1, deviceName := [], monitorPathKey := [], vd_rect := RECT_zero\<rparr>"

definition register_size :: "EnsureAnswer \<Rightarrow> u32 \<Rightarrow> u32 \<Rightarrow> VirtualDisplay \<Rightarrow> bool \<times> VirtualDisplay" where
  "register_size e w h v =
     (if IsResolutionRegistered w h (slots_of v) then (True, v)
      else (case RegisterResolutions (e_created e) (e_deleted e) w h (slots_of v) of
              (True, s1) \<Rightarrow> (True, v\<lparr>slots_of := s1\<rparr>)
            | (False, s1) \<Rightarrow>
                (case SelfElevateRegister (e_elevated e) w h s1 of (ok, s2) \<Rightarrow> (ok, v\<lparr>slots_of := s2\<rparr>))))"

definition add_display :: "EnsureAnswer \<Rightarrow> VirtualDisplay \<Rightarrow> bool \<times> VirtualDisplay" where
  "add_display e v =
     (if \<not> e_lock e then (False, v)
      else if e_index e < 0 then (False, v)
      else (case FindMonitorGeometry (ActiveParsecPathKeys (e_before e)) (e_geometry e)
                   ((call (VddAdded (e_index e)) v)\<lparr>displayIndex := e_index e\<rparr>) of
              (False, v1) \<Rightarrow> (False, remove_display v1)
            | (True, v1) \<Rightarrow> (True, v1)))"

definition reusable :: "EnsureAnswer \<Rightarrow> u32 \<Rightarrow> u32 \<Rightarrow> u32 \<Rightarrow> VirtualDisplay \<Rightarrow> bool" where
  "reusable e w h hz v \<longleftrightarrow>
     0 \<le> displayIndex v \<and> targetWidth v = w \<and> targetHeight v = h \<and> targetHz v = hz \<and> fst (QueryMonitorRect (e_monitors e) v)"

definition EnsureResolution :: "EnsureAnswer \<Rightarrow> u32 \<Rightarrow> u32 \<Rightarrow> u32 \<Rightarrow> VirtualDisplay \<Rightarrow> bool \<times> VirtualDisplay" where
  "EnsureResolution e w h hz v =
     (if \<not> device_open v then (False, v)
      else if reusable e w h hz v then (True, snd (QueryMonitorRect (e_monitors e) v))
      else (case register_size e w h (v\<lparr>targetWidth := w, targetHeight := h, targetHz := hz\<rparr>) of
              (False, v1) \<Rightarrow> (False, v1)
            | (True, v1) \<Rightarrow> add_display e (if 0 \<le> displayIndex v1 then remove_display v1 else v1)))"

end
