(* ===== verification/VirtualDisplayProps.thy ===== *)
theory VirtualDisplayProps
  imports VirtualDisplay
begin

text \<open>
  What a sender owns of the driver: an abstract owner has no monitor or one, adds only when it has none and
  removes only its own.  Every operation of the virtual display is a run of that owner.
\<close>

subsection \<open>The owner\<close>

text \<open>The monitor owned after a call; \<open>None\<close> for a call no owner may make.\<close>

fun owner_step :: "int option option \<Rightarrow> DriverCall \<Rightarrow> int option option" where
  "owner_step None c = None"
| "owner_step (Some mine) VddUpdated = Some mine"
| "owner_step (Some None) (VddAdded i) = Some (Some i)"
| "owner_step (Some (Some j)) (VddAdded i) = None"
| "owner_step (Some None) (VddRemoved i) = None"
| "owner_step (Some (Some j)) (VddRemoved i) = (if i = j then Some None else None)"

definition owner_run :: "int option \<Rightarrow> DriverCall list \<Rightarrow> int option option" where
  "owner_run mine cs = foldl owner_step (Some mine) cs"

definition abs_owner :: "VirtualDisplay \<Rightarrow> int option" where
  "abs_owner v = (if displayIndex v < 0 then None else Some (displayIndex v))"

lemma owner_run_append: "owner_run a (cs @ ds) = (case owner_run a cs of None \<Rightarrow> None | Some b \<Rightarrow> owner_run b ds)"
proof -
  have "foldl owner_step None ds = None" for ds by (induction ds) auto
  then show ?thesis by (simp add: owner_run_def split: option.split)
qed

text \<open>The simulation: the calls of an operation are a run of the owner between the abstractions.\<close>

definition refines :: "VirtualDisplay \<Rightarrow> VirtualDisplay \<Rightarrow> bool" where
  "refines v v' \<longleftrightarrow> (\<exists>cs. driver v' = driver v @ cs \<and> owner_run (abs_owner v) cs = Some (abs_owner v'))"

lemma refines_same: "driver v' = driver v \<Longrightarrow> displayIndex v' = displayIndex v \<Longrightarrow> refines v v'"
  unfolding refines_def by (intro exI [of _ "[]"]) (simp add: owner_run_def abs_owner_def)

lemma refines_trans: "refines u v \<Longrightarrow> refines v w \<Longrightarrow> refines u w"
  unfolding refines_def by (elim exE conjE) (rule_tac x = "cs @ csa" in exI, simp add: owner_run_append)

lemma refines_call:
  assumes "driver v' = driver v @ [c]" and "owner_run (abs_owner v) [c] = Some (abs_owner v')"
  shows "refines v v'"
  using assms unfolding refines_def by blast

lemma refines_cong: "refines u v \<Longrightarrow> driver v' = driver v \<Longrightarrow> displayIndex v' = displayIndex v \<Longrightarrow> refines u v'"
  by (erule refines_trans) (rule refines_same)

subsection \<open>The operations\<close>

lemma QueryMonitorRect_same [simp]:
  "driver (snd (QueryMonitorRect m v)) = driver v" "displayIndex (snd (QueryMonitorRect m v)) = displayIndex v"
  "device_open (snd (QueryMonitorRect m v)) = device_open v" "deviceName (snd (QueryMonitorRect m v)) = deviceName v"
  "targetWidth (snd (QueryMonitorRect m v)) = targetWidth v" "targetHeight (snd (QueryMonitorRect m v)) = targetHeight v"
  "targetHz (snd (QueryMonitorRect m v)) = targetHz v" "identity (snd (QueryMonitorRect m v)) = identity v"
  by (simp_all add: QueryMonitorRect_def split: option.split)

definition untouched_driver :: "VirtualDisplay \<Rightarrow> VirtualDisplay \<Rightarrow> bool" where
  "untouched_driver v v' \<longleftrightarrow> driver v' = driver v \<and> displayIndex v' = displayIndex v \<and> device_open v' = device_open v \<and>
     targetWidth v' = targetWidth v \<and> targetHeight v' = targetHeight v \<and> targetHz v' = targetHz v"

lemma untouched_refines: "untouched_driver v v' \<Longrightarrow> refines v v'"
  by (simp add: untouched_driver_def refines_same)

lemma untouched_trans: "untouched_driver u v \<Longrightarrow> untouched_driver v w \<Longrightarrow> untouched_driver u w"
  by (simp add: untouched_driver_def)

lemma wait_rect_untouched: "untouched_driver v (snd (wait_rect m t v)) \<and> deviceName (snd (wait_rect m t v)) = deviceName v"
  by (simp add: wait_rect_def untouched_driver_def split: prod.split)

lemma attach_untouched: "untouched_driver v (snd (attach_monitor g v)) \<and> deviceName (snd (attach_monitor g v)) = deviceName v"
proof -
  obtain ok v1 where w: "wait_rect (g_monitors g) 1500 v = (ok, v1)" by (cases "wait_rect (g_monitors g) 1500 v")
  have "untouched_driver v v1" "deviceName v1 = deviceName v" using wait_rect_untouched [of v "g_monitors g" 1500] w by simp_all
  then show ?thesis
    using wait_rect_untouched [of v1 "g_monitors_extended g" 5000]
    by (auto simp: attach_monitor_def w untouched_driver_def split: bool.split)
qed

lemma settle_untouched: "untouched_driver v (snd (settle_monitor g v)) \<and> deviceName (snd (settle_monitor g v)) = deviceName v"
  by (simp add: settle_monitor_def untouched_driver_def split: prod.split)

lemma initial_position_untouched:
  "untouched_driver v (snd (initial_position g v)) \<and> deviceName (snd (initial_position g v)) = deviceName v"
  by (simp add: initial_position_def untouched_driver_def split: prod.split option.split)

text \<open>What a placed monitor is: the claimed path, and the mode Windows reported last.\<close>

lemma FindMonitorGeometry_result:
  "untouched_driver v (snd (FindMonitorGeometry before g v)) \<and>
   (fst (FindMonitorGeometry before g v) \<longrightarrow>
     (\<exists>k b. fresh_paths before (g_paths g k) = [b] \<and> deviceName (snd (FindMonitorGeometry before g v)) = bind_device b) \<and>
     (\<exists>k m. g_current g k = Some m \<and> mode_w m = targetWidth v \<and> mode_h m = targetHeight v \<and> mode_hz m = targetHz v \<and>
        GetMonitorRectByName (deviceName (snd (FindMonitorGeometry before g v))) (g_settled g k) =
          Some (vd_rect (snd (FindMonitorGeometry before g v)))))"
proof (cases "claim_path before (g_paths g)")
  case None
  then show ?thesis by (simp add: FindMonitorGeometry_def untouched_driver_def)
next
  case (Some b)
  then obtain k where k: "fresh_paths before (g_paths g k) = [b]"
    by (auto simp: claim_path_def split: prod.splits list.splits if_splits)
  define v0 where "v0 = v\<lparr>deviceName := bind_device b, monitorPathKey := monitorKey b\<rparr>"
  obtain x y v1 where p: "initial_position g v0 = ((x, y), v1)" by (metis surj_pair)
  obtain ok2 v2 where a: "attach_monitor g v1 = (ok2, v2)" by (cases "attach_monitor g v1")
  obtain ok3 v3 where s: "settle_monitor g v2 = (ok3, v3)" by (cases "settle_monitor g v2")
  have u: "untouched_driver v v0" by (simp add: v0_def untouched_driver_def)
  have u1: "untouched_driver v v1" "deviceName v1 = bind_device b"
    using initial_position_untouched [of v0 g] p u by (auto simp: v0_def intro: untouched_trans)
  have u2: "untouched_driver v v2" "deviceName v2 = bind_device b"
    using attach_untouched [of v1 g] a u1 by (auto intro: untouched_trans)
  have u3: "untouched_driver v v3" "deviceName v3 = bind_device b"
    using settle_untouched [of v2 g] s u2 by (auto intro: untouched_trans)
  have settled: "\<exists>k m. g_current g k = Some m \<and> mode_w m = targetWidth v \<and> mode_h m = targetHeight v \<and> mode_hz m = targetHz v \<and>
      GetMonitorRectByName (deviceName v3) (g_settled g k) = Some (vd_rect v3)" if ok3
  proof -
    define P where "P = (\<lambda>k. fst (QueryMonitorRect (g_settled g k) v2) \<and>
      (case g_current g k of None \<Rightarrow> False | Some m \<Rightarrow> is_current_mode v2 m))"
    obtain okw n where w: "WaitUntil P 5000 = (okw, n)" by (cases "WaitUntil P 5000")
    have "settle_monitor g v2 = (if \<not> g_exact g \<or> \<not> g_exact_apply g then (False, v2)
        else (okw, snd (QueryMonitorRect (g_settled g n) v2)))"
      unfolding settle_monitor_def P_def [symmetric] w by simp
    with s that have "okw" and v3: "v3 = snd (QueryMonitorRect (g_settled g n) v2)" by (simp_all split: if_splits)
    then have P: "P n" using WaitUntil_result [OF w] by simp
    then obtain m where m: "g_current g n = Some m" "is_current_mode v2 m" by (cases "g_current g n") (auto simp: P_def)
    obtain rc where rc: "GetMonitorRectByName (deviceName v2) (g_settled g n) = Some rc"
      using P by (cases "GetMonitorRectByName (deviceName v2) (g_settled g n)") (auto simp: P_def QueryMonitorRect_def)
    then have "v3 = v2\<lparr>vd_rect := rc\<rparr>" using v3 by (simp add: QueryMonitorRect_def)
    then have "GetMonitorRectByName (deviceName v3) (g_settled g n) = Some (vd_rect v3)" using rc by simp
    with m u2(1) show ?thesis
      by (intro exI [of _ n] exI [of _ m]) (simp add: is_current_mode_def untouched_driver_def)
  qed
  have eq: "FindMonitorGeometry before g v =
      (if \<not> list_ex (is_target_mode v1) (g_modes g) then (False, v1)
       else if \<not> ok2 then (False, v2)
       else if \<not> ok3 then (False, v3)
       else (True, v3\<lparr>positions := SavePosition (identity v3) x y (positions v3)\<rparr>))"
    unfolding FindMonitorGeometry_def Some option.case v0_def [symmetric] p prod.case a s by (simp split: bool.split)
  have "untouched_driver v (v3\<lparr>positions := r\<rparr>)" for r using u3(1) by (simp add: untouched_driver_def)
  then show ?thesis
    unfolding eq using u1 u2 u3 k settled by auto
qed

lemma remove_refines: "0 \<le> displayIndex v \<Longrightarrow> refines v (remove_display v) \<and> displayIndex (remove_display v) = - 1"
  by (auto simp: remove_display_def call_def abs_owner_def owner_run_def intro!: refines_call [of _ _ "VddRemoved (displayIndex v)"])

lemma add_display_refines:
  assumes "displayIndex v < 0"
  shows "refines v (snd (add_display e v))"
proof -
  let ?v = "(call (VddAdded (e_index e)) v)\<lparr>displayIndex := e_index e\<rparr>"
  let ?f = "FindMonitorGeometry (ActiveParsecPathKeys (e_before e)) (e_geometry e) ?v"
  have u: "untouched_driver ?v (snd ?f)" using FindMonitorGeometry_result by blast
  show ?thesis
  proof (cases "e_lock e \<and> 0 \<le> e_index e")
    case True
    have "refines v ?v" using assms True by (intro refines_call [of _ _ "VddAdded (e_index e)"]) (simp_all add: call_def abs_owner_def owner_run_def)
    then have r: "refines v (snd ?f)" using untouched_refines [OF u] by (rule refines_trans)
    moreover have "0 \<le> displayIndex (snd ?f)" using u True by (simp add: untouched_driver_def)
    ultimately have "refines v (remove_display (snd ?f))" using remove_refines refines_trans by blast
    with r True show ?thesis by (simp add: add_display_def split_beta split: bool.split)
  qed (use assms in \<open>auto simp: add_display_def refines_same\<close>)
qed

lemma register_size_same:
  "driver (snd (register_size e w h v)) = driver v \<and> displayIndex (snd (register_size e w h v)) = displayIndex v \<and>
   targetWidth (snd (register_size e w h v)) = targetWidth v \<and> targetHeight (snd (register_size e w h v)) = targetHeight v \<and>
   targetHz (snd (register_size e w h v)) = targetHz v \<and> deviceName (snd (register_size e w h v)) = deviceName v \<and>
   device_open (snd (register_size e w h v)) = device_open v"
  by (simp add: register_size_def split: prod.split bool.split)

lemma EnsureResolution_refines: "refines v (snd (EnsureResolution e w h hz v))"
proof -
  let ?v = "v\<lparr>targetWidth := w, targetHeight := h, targetHz := hz\<rparr>"
  obtain ok v1 where r: "register_size e w h ?v = (ok, v1)" by (cases "register_size e w h ?v")
  have s: "driver v1 = driver v" "displayIndex v1 = displayIndex v"
    using register_size_same [of e w h ?v] r by simp_all
  then have v1: "refines v v1" by (intro refines_same)
  define v2 where "v2 = (if 0 \<le> displayIndex v1 then remove_display v1 else v1)"
  have "refines v v2" "displayIndex v2 < 0"
    using v1 remove_refines [of v1] by (auto simp: v2_def intro: refines_trans)
  then have "refines v (snd (add_display e v2))" using add_display_refines refines_trans by blast
  with v1 show ?thesis
    unfolding EnsureResolution_def r prod.case v2_def [symmetric] by (simp add: refines_same split: bool.split)
qed

subsection \<open>The life of a virtual display\<close>

datatype DisplayOp =
    OpenDriver bool
  | Ensure EnsureAnswer u32 u32 u32
  | KeepAlive "(wstring \<times> RECT) list" nat "(int \<times> int) option"
  | CloseDriver

text \<open>The driver is opened only when it is not open, as the worker does.\<close>

definition display_op :: "VirtualDisplay \<Rightarrow> DisplayOp \<Rightarrow> VirtualDisplay" where
  "display_op v op =
     (case op of
        OpenDriver ok \<Rightarrow> if device_open v then v else snd (vdd_open ok v)
      | Ensure e w h hz \<Rightarrow> snd (EnsureResolution e w h hz v)
      | KeepAlive m tick known \<Rightarrow> if device_open v then snd (keepalive_turn m (tick, known) v) else v
      | CloseDriver \<Rightarrow> vdd_close v)"

lemma keepalive_refines:
  "refines v (snd (keepalive_turn m l v)) \<and> device_open (snd (keepalive_turn m l v)) = device_open v \<and>
   displayIndex (snd (keepalive_turn m l v)) = displayIndex v"
proof -
  have "refines v (call VddUpdated v)" by (intro refines_call [of _ _ VddUpdated]) (simp_all add: call_def abs_owner_def owner_run_def)
  then show ?thesis
    by (auto simp: keepalive_turn_def keepalive_poll_def Let_def call_def split: prod.split elim: refines_cong)
qed

lemma EnsureResolution_open: "device_open (snd (EnsureResolution e w h hz v)) = device_open v"
proof -
  let ?v = "v\<lparr>targetWidth := w, targetHeight := h, targetHz := hz\<rparr>"
  have a: "device_open (snd (add_display e x)) = device_open x" for x
  proof -
    let ?x = "(call (VddAdded (e_index e)) x)\<lparr>displayIndex := e_index e\<rparr>"
    have "device_open (snd (FindMonitorGeometry b g ?x)) = device_open x" for b g
      using FindMonitorGeometry_result [of ?x b g] by (simp add: untouched_driver_def call_def)
    then show ?thesis by (simp add: add_display_def remove_display_def call_def split_beta split: bool.split)
  qed
  obtain ok v1 where r: "register_size e w h ?v = (ok, v1)" by (cases "register_size e w h ?v")
  moreover have "device_open v1 = device_open v" using register_size_same [of e w h ?v] r by simp
  moreover have "device_open (remove_display x) = device_open x" for x by (simp add: remove_display_def call_def)
  ultimately show ?thesis by (simp add: EnsureResolution_def a split: bool.split)
qed

text \<open>No monitor outlives the driver handle.\<close>

definition handle_inv :: "VirtualDisplay \<Rightarrow> bool" where
  "handle_inv v \<longleftrightarrow> (device_open v \<or> displayIndex v < 0)"

lemma closed_ensure: "\<not> device_open v \<Longrightarrow> EnsureResolution e w h hz v = (False, v)"
  by (simp add: EnsureResolution_def)

lemma display_op_step:
  assumes "handle_inv v"
  shows "refines v (display_op v op) \<and> handle_inv (display_op v op)"
proof (cases op)
  case (OpenDriver ok)
  then show ?thesis
    using assms by (auto simp: display_op_def vdd_open_def handle_inv_def call_def abs_owner_def owner_run_def
        intro: refines_same refines_call [of _ _ VddUpdated])
next
  case (Ensure e w h hz)
  then show ?thesis
    using assms EnsureResolution_refines [of v e w h hz] EnsureResolution_open [of e w h hz v]
    by (cases "device_open v") (auto simp: display_op_def handle_inv_def closed_ensure)
next
  case (KeepAlive m tick known)
  then show ?thesis
    using assms keepalive_refines [of v m "(tick, known)"] by (auto simp: display_op_def handle_inv_def refines_same)
next
  case CloseDriver
  then show ?thesis
    using assms by (auto simp: display_op_def vdd_close_def handle_inv_def Let_def call_def abs_owner_def owner_run_def
        intro: refines_same refines_call [of _ _ "VddRemoved (displayIndex v)"])
qed

lemma display_ops:
  "handle_inv v \<Longrightarrow> refines v (foldl display_op v ops) \<and> handle_inv (foldl display_op v ops)"
proof (induction ops arbitrary: v)
  case (Cons op ops)
  with display_op_step [OF Cons.prems, of op] Cons.IH [of "display_op v op"] show ?case by (auto intro: refines_trans)
qed (simp add: refines_same)

subsection \<open>Properties\<close>

text \<open>C16. The virtual display implements an owner of at most one monitor: for any sequence of opening, ensuring
  resolutions, turns of the keepalive thread and closing, whatever driver, registry, Windows and other senders
  answer, the calls made to the driver are those of an owner that adds a monitor only when it has none and removes only the
  one it added, the index kept is exactly the one it owns, and after closing it owns nothing.\<close>

theorem driver_calls_refine_an_owner:
  "case foldl display_op (VirtualDisplay_default s p) ops of v \<Rightarrow>
     owner_run None (driver v) = Some (abs_owner v) \<and>
     owner_run None (driver (vdd_close v)) = Some None \<and> \<not> device_open (vdd_close v)"
proof -
  define v0 where "v0 = VirtualDisplay_default s p"
  define v where "v = foldl display_op v0 ops"
  have i0: "handle_inv v0" "driver v0 = []" "abs_owner v0 = None"
    by (simp_all add: v0_def handle_inv_def VirtualDisplay_default_def abs_owner_def)
  have i: "refines v0 v" "handle_inv v" using display_ops [OF i0(1), of ops] by (simp_all add: v_def)
  have run: "owner_run None (driver x) = Some (abs_owner x)" if "refines v0 x" for x
    using that i0 by (auto simp: refines_def)
  have c: "refines v (vdd_close v)" using display_op_step [of v CloseDriver] i by (simp add: display_op_def)
  have "abs_owner (vdd_close v) = None" "\<not> device_open (vdd_close v)"
    using i(2) by (auto simp: vdd_close_def handle_inv_def Let_def call_def abs_owner_def)
  with run [OF i(1)] run [OF refines_trans [OF i(1) c]] show ?thesis by (simp flip: v0_def v_def)
qed

text \<open>A monitor that is still on the desktop and was placed for the same size is reused without a call to the
  driver.  Otherwise, when ensuring a resolution succeeds, the monitor is this sender's own and has the size: the claim lock was held, the display path is the only one that was not there before the add, its index is the
  one the driver gave, and Windows reported the requested size and rate together with the rectangle that is then used for
  the input.  When ensuring fails after an add, the added monitor is removed again.\<close>

lemma ensured_display_is_its_own:
  "case EnsureResolution e w h hz v of (ok, v') \<Rightarrow>
    if device_open v \<and> reusable e w h hz v then
      ok \<and> driver v' = driver v \<and> displayIndex v' = displayIndex v \<and>
      GetMonitorRectByName (deviceName v) (e_monitors e) = Some (vd_rect v')
    else if ok then
      e_lock e \<and> 0 \<le> displayIndex v' \<and> displayIndex v' = e_index e \<and>
      (\<exists>k b. fresh_paths (ActiveParsecPathKeys (e_before e)) (g_paths (e_geometry e) k) = [b] \<and> deviceName v' = bind_device b) \<and>
      (\<exists>k m. g_current (e_geometry e) k = Some m \<and> mode_w m = w \<and> mode_h m = h \<and> mode_hz m = hz \<and>
         GetMonitorRectByName (deviceName v') (g_settled (e_geometry e) k) = Some (vd_rect v'))
    else displayIndex v' < 0 \<or> (displayIndex v' = displayIndex v \<and> driver v' = driver v)"
proof (cases "device_open v \<and> reusable e w h hz v")
  case True
  then obtain r where "GetMonitorRectByName (deviceName v) (e_monitors e) = Some r"
    by (auto simp: reusable_def QueryMonitorRect_def split: option.splits)
  with True show ?thesis by (simp add: EnsureResolution_def QueryMonitorRect_def)
next
  case assms: False
  let ?v = "v\<lparr>targetWidth := w, targetHeight := h, targetHz := hz\<rparr>"
  obtain ok v1 where r: "register_size e w h ?v = (ok, v1)" by (cases "register_size e w h ?v")
  have s: "driver v1 = driver v" "displayIndex v1 = displayIndex v" "targetWidth v1 = w" "targetHeight v1 = h" "targetHz v1 = hz"
    using register_size_same [of e w h ?v] r by simp_all
  define v2 where "v2 = (if 0 \<le> displayIndex v1 then remove_display v1 else v1)"
  have v2: "targetWidth v2 = w" "targetHeight v2 = h" "targetHz v2 = hz" "displayIndex v2 < 0"
    using s by (simp_all add: v2_def remove_display_def call_def)
  let ?a = "(call (VddAdded (e_index e)) v2)\<lparr>displayIndex := e_index e\<rparr>"
  note f = FindMonitorGeometry_result [of ?a "ActiveParsecPathKeys (e_before e)" "e_geometry e"]
  obtain okf vf where fm: "FindMonitorGeometry (ActiveParsecPathKeys (e_before e)) (e_geometry e) ?a = (okf, vf)"
    by (cases "FindMonitorGeometry (ActiveParsecPathKeys (e_before e)) (e_geometry e) ?a")
  have t: "targetWidth ?a = w" "targetHeight ?a = h" "targetHz ?a = hz" using v2 by (simp_all add: call_def)
  have eq: "EnsureResolution e w h hz v =
      (if \<not> device_open v then (False, v) else if \<not> ok then (False, v1)
       else if \<not> e_lock e \<or> e_index e < 0 then (False, v2)
       else if \<not> okf then (False, remove_display vf) else (True, vf))"
    unfolding EnsureResolution_def r prod.case v2_def [symmetric] add_display_def fm using assms by (simp split: bool.split)
  have no: "(device_open v \<and> reusable e w h hz v) = False" using assms by simp
  show ?thesis
    unfolding eq no if_False using f fm s v2 t by (auto simp: untouched_driver_def remove_display_def call_def)
qed

text \<open>A failed registration leaves the monitor at its old size under the new target: the next call for that size
  takes it for the right one.\<close>

lemma stale_target_is_reused:
  assumes "device_open v" and "0 \<le> displayIndex v" and "\<not> reusable e w h hz v"
    and "\<not> fst (register_size e w h v)" and "GetMonitorRectByName (deviceName v) (e_monitors e2) = Some r"
  shows "fst (EnsureResolution e w h hz v) = False \<and>
    (case EnsureResolution e2 w h hz (snd (EnsureResolution e w h hz v)) of (ok, v') \<Rightarrow>
       ok \<and> driver v' = driver v \<and> displayIndex v' = displayIndex v \<and> vd_rect v' = r)"
proof -
  let ?v = "v\<lparr>targetWidth := w, targetHeight := h, targetHz := hz\<rparr>"
  obtain ok v1 where reg: "register_size e w h ?v = (ok, v1)" by (cases "register_size e w h ?v")
  have "fst (register_size e w h ?v) = fst (register_size e w h v)"
    by (simp add: register_size_def split: prod.split bool.split)
  then have ok: "\<not> ok" using reg assms(4) by simp
  have s: "driver v1 = driver v" "displayIndex v1 = displayIndex v" "targetWidth v1 = w" "targetHeight v1 = h" "targetHz v1 = hz"
      "deviceName v1 = deviceName v" "device_open v1 = device_open v"
    using register_size_same [of e w h ?v] reg by simp_all
  have "EnsureResolution e w h hz v = (False, v1)"
    using assms(1,3) ok by (simp add: EnsureResolution_def reg)
  moreover have "EnsureResolution e2 w h hz v1 = (True, v1\<lparr>vd_rect := r\<rparr>)"
    using assms(1,2,5) s by (simp add: EnsureResolution_def reusable_def QueryMonitorRect_def)
  ultimately show ?thesis using s by simp
qed

text \<open>A first session of a device: the monitor is added, claimed and settled.\<close>

definition sample_path :: PathInfo where
  "sample_path = \<lparr>path_active = True, target_available = True,
     target_name = Some (wide ''DISPLAY#PSCCDD0#5'', wide ''ParsecVDA''), source_name = Some (wide ''DISPLAY3'')\<rparr>"

definition sample_mode :: Mode where
  "sample_mode = \<lparr>mode_w = 2732, mode_h = 2048, mode_hz = 60, mode_bpp = 32\<rparr>"

definition sample_monitors :: "(wstring \<times> RECT) list" where
  "sample_monitors = [(wide ''DISPLAY3'', \<lparr>left = 1920, upper = 0, right = 4652, bottom = 2048\<rparr>)]"

definition sample_ensure :: EnsureAnswer where
  "sample_ensure =
     \<lparr>e_monitors = [], e_created = (\<lambda>i. True), e_deleted = (\<lambda>i. True), e_elevated = None, e_lock = True,
      e_before = [Paths []], e_index = 0,
      e_geometry = \<lparr>g_paths = (\<lambda>k. [Paths [sample_path]]), g_desktop_right = 1920, g_desktop_top = 0, g_modes = [sample_mode],
        g_attach = True, g_attach_apply = True, g_topology = True, g_monitors = (\<lambda>k. sample_monitors), g_extend = True,
        g_monitors_extended = (\<lambda>k. []), g_exact = True, g_exact_apply = True, g_settled = (\<lambda>k. sample_monitors),
        g_current = (\<lambda>k. Some sample_mode)\<rparr>\<rparr>"

lemma ensure_can_succeed:
  "case EnsureResolution sample_ensure 2732 2048 60
      (snd (vdd_open True (VirtualDisplay_default Map.empty \<lparr>own = Map.empty, own_access = True, legacy = Map.empty\<rparr>))) of
     (ok, v') \<Rightarrow> ok \<and> displayIndex v' = 0 \<and> deviceName v' = wide ''DISPLAY3'' \<and> left (vd_rect v') = 1920"
  by code_simp

end
