(* ===== verification/Nv12.thy ===== *)
theory Nv12
  imports Prelude
begin

text \<open>
  The picture conversion of the capture
  (\<^verbatim>\<open>src/src/display/DesktopDuplication.cpp\<close>): BGRA to NV12, and the cursor that is
  drawn into the captured picture.  Buffers are byte lists; \<open>None\<close> is an access outside of one.
  Sizes are natural numbers: a picture of the graphics system has at most 16384 rows and columns, far from the
  bounds of \<^verbatim>\<open>size_t\<close>.
\<close>

subsection \<open>Stores\<close>

definition store :: "(nat \<times> byte) list \<Rightarrow> bytes \<Rightarrow> bytes option" where
  "store ws buf =
     (if list_all (\<lambda>(i, b). i < length buf) ws then Some (foldl (\<lambda>xs (i, b). xs[i := b]) buf ws) else None)"

definition Clamp8 :: "int \<Rightarrow> byte" where
  "Clamp8 v = of_int (if v < 0 then 0 else if 255 < v then 255 else v)"

text \<open>Blue, green and red of a pixel.\<close>

definition pixel :: "bytes \<Rightarrow> nat \<Rightarrow> nat \<Rightarrow> nat \<Rightarrow> int \<times> int \<times> int" where
  "pixel bgra rowPitch row col =
     (let i = row * rowPitch + col * 4 in (uint (bgra ! i), uint (bgra ! (i + 1)), uint (bgra ! (i + 2))))"

definition luma :: "int \<times> int \<times> int \<Rightarrow> int" where
  "luma px = (case px of (b, g, r) \<Rightarrow> (66 * r + 129 * g + 25 * b + 128) div 256 + 16)"

definition chroma_u :: "int \<times> int \<times> int \<Rightarrow> int" where
  "chroma_u px = (case px of (b, g, r) \<Rightarrow> (- 38 * r - 74 * g + 112 * b + 128) div 256 + 128)"

definition chroma_v :: "int \<times> int \<times> int \<Rightarrow> int" where
  "chroma_v px = (case px of (b, g, r) \<Rightarrow> (112 * r - 94 * g - 18 * b + 128) div 256 + 128)"

text \<open>The average of four pixels; the sums are not negative.\<close>

definition average :: "(int \<times> int \<times> int) list \<Rightarrow> int \<times> int \<times> int" where
  "average pxs =
     (sum_list (map fst pxs) div 4, sum_list (map (fst \<circ> snd) pxs) div 4, sum_list (map (snd \<circ> snd) pxs) div 4)"

definition y_stores :: "bytes \<Rightarrow> nat \<Rightarrow> nat \<Rightarrow> nat \<Rightarrow> (nat \<times> byte) list" where
  "y_stores bgra rowPitch w h =
     concat (map (\<lambda>row. map (\<lambda>col. (row * w + col, Clamp8 (luma (pixel bgra rowPitch row col)))) [0..<w]) [0..<h])"

text \<open>The loops that advance by two.\<close>

definition by_two :: "nat \<Rightarrow> nat list" where
  "by_two n = map (\<lambda>k. 2 * k) [0..<(n + 1) div 2]"

definition block :: "bytes \<Rightarrow> nat \<Rightarrow> nat \<Rightarrow> nat \<Rightarrow> nat \<Rightarrow> nat \<Rightarrow> int \<times> int \<times> int" where
  "block bgra rowPitch w h row col =
     (let row1 = min (row + 1) (h - 1); col1 = min (col + 1) (w - 1) in
      average [pixel bgra rowPitch row col, pixel bgra rowPitch row col1,
               pixel bgra rowPitch row1 col, pixel bgra rowPitch row1 col1])"

definition uv_stores :: "bytes \<Rightarrow> nat \<Rightarrow> nat \<Rightarrow> nat \<Rightarrow> (nat \<times> byte) list" where
  "uv_stores bgra rowPitch w h =
     concat (map (\<lambda>row. concat (map (\<lambda>col.
        (let px = block bgra rowPitch w h row col; base = w * h + row div 2 * w in
         [(base + col, Clamp8 (chroma_u px)), (base + min (col + 1) (w - 1), Clamp8 (chroma_v px))])) (by_two w))) (by_two h))"

text \<open>\<^verbatim>\<open>std::vector::resize\<close>.\<close>

definition resize :: "nat \<Rightarrow> bytes \<Rightarrow> bytes" where
  "resize n xs = take n xs @ replicate (n - length xs) 0"

definition reads_inside :: "bytes \<Rightarrow> nat \<Rightarrow> nat \<Rightarrow> nat \<Rightarrow> bool" where
  "reads_inside bgra rowPitch w h \<longleftrightarrow>
     list_all (\<lambda>row. list_all (\<lambda>col. row * rowPitch + col * 4 + 2 < length bgra) [0..<w]) [0..<h]"

definition ConvertBgraToNv12 :: "bytes \<Rightarrow> nat \<Rightarrow> nat \<Rightarrow> nat \<Rightarrow> bytes \<Rightarrow> bytes option" where
  "ConvertBgraToNv12 bgra rowPitch w h nv12 =
     (if reads_inside bgra rowPitch w h
      then store (y_stores bgra rowPitch w h @ uv_stores bgra rowPitch w h) (resize (w * h * 3 div 2) nv12)
      else None)"

subsection \<open>Values of the planes\<close>

lemma Clamp8_uint: "uint (Clamp8 v) = (if v < 0 then 0 else if 255 < v then 255 else v)"
  by (simp add: Clamp8_def uint_word_of_int)

definition colour :: "int \<times> int \<times> int \<Rightarrow> bool" where
  "colour px \<longleftrightarrow> (case px of (b, g, r) \<Rightarrow> 0 \<le> b \<and> b \<le> 255 \<and> 0 \<le> g \<and> g \<le> 255 \<and> 0 \<le> r \<and> r \<le> 255)"

lemma byte_range: "0 \<le> uint (b :: byte)" "uint (b :: byte) \<le> 255"
  using unsigned_less [of b, where 'a = int] by simp_all

lemma pixel_colour: "colour (pixel bgra p r c)"
  by (simp add: colour_def pixel_def Let_def byte_range)

lemma block_colour: "colour (block bgra p w h r c)"
proof -
  have "colour (average [a, b, c, d])" if "colour a" "colour b" "colour c" "colour d" for a b c d
    using that by (auto simp: colour_def average_def split: prod.splits)
  then show ?thesis by (simp add: block_def Let_def pixel_colour)
qed

lemma luma_range: "colour px \<Longrightarrow> 16 \<le> luma px \<and> luma px \<le> 235"
  by (cases px) (auto simp: colour_def luma_def)

lemma chroma_range: "colour px \<Longrightarrow> 16 \<le> chroma_u px \<and> chroma_u px \<le> 240 \<and> 16 \<le> chroma_v px \<and> chroma_v px \<le> 240"
  by (cases px) (auto simp: colour_def chroma_u_def chroma_v_def)

lemma plane_values:
  "uint (Clamp8 (luma (pixel bgra p r c))) = luma (pixel bgra p r c)"
  "uint (Clamp8 (chroma_u (block bgra p w h r c))) = chroma_u (block bgra p w h r c)"
  "uint (Clamp8 (chroma_v (block bgra p w h r c))) = chroma_v (block bgra p w h r c)"
  using luma_range [OF pixel_colour, of bgra p r c] chroma_range [OF block_colour, of bgra p w h r c]
  by (simp_all add: Clamp8_uint)

subsection \<open>Where the stores go\<close>

lemma stores_length [simp]: "length (foldl (\<lambda>xs (i, b). xs[i := b]) buf ws) = length buf"
  by (induction ws arbitrary: buf) auto

text \<open>A byte that some store reaches has what every store to it would leave there.\<close>

lemma stores_value:
  assumes "i < length buf" and "(i, c) \<in> set ws" and "\<And>b. (i, b) \<in> set ws \<Longrightarrow> P b"
  shows "P (foldl (\<lambda>xs (i, b). xs[i := b]) buf ws ! i)"
  using assms
proof (induction ws arbitrary: c rule: rev_induct)
  case (snoc w ws)
  obtain j b where w: "w = (j, b)" by (cases w)
  show ?case
  proof (cases "j = i")
    case True
    with w snoc.prems(1,3) show ?thesis by simp
  next
    case False
    with w snoc.prems(2) have "(i, c) \<in> set ws" by auto
    with snoc.IH snoc.prems w False show ?thesis by simp
  qed
qed simp

lemma index_less: "r < (h :: nat) \<Longrightarrow> c < w \<Longrightarrow> r * w + c < h * w"
proof -
  assume "r < h" "c < w"
  then have "r * w + c < Suc r * w" by simp
  also have "\<dots> \<le> h * w" using \<open>r < h\<close> by (intro mult_le_mono1) simp
  finally show ?thesis .
qed

lemma y_stores_index: "(i, b) \<in> set (y_stores bgra p w h) \<Longrightarrow>
    i < h * w \<and> b = Clamp8 (luma (pixel bgra p (i div w) (i mod w)))"
  by (auto simp: y_stores_def index_less)

lemma y_stores_reach: "i < h * w \<Longrightarrow> \<exists>b. (i, b) \<in> set (y_stores bgra p w h)"
proof -
  assume i: "i < h * w"
  then have "0 < w" by (cases w) auto
  moreover from this i have "i div w < h" by (simp add: less_mult_imp_div_less)
  ultimately have "(i div w * w + i mod w, Clamp8 (luma (pixel bgra p (i div w) (i mod w)))) \<in> set (y_stores bgra p w h)"
    unfolding y_stores_def by (auto simp del: div_mult_mod_eq intro!: bexI [of _ "i div w"] image_eqI [of _ _ "i mod w"])
  then show ?thesis by auto
qed

lemma uv_stores_index:
  "(i, b) \<in> set (uv_stores bgra p w h) \<Longrightarrow>
   \<exists>k c px. k < (h + 1) div 2 \<and> c < w \<and> i = w * h + k * w + c \<and> colour px \<and> (b = Clamp8 (chroma_u px) \<or> b = Clamp8 (chroma_v px))"
proof -
  assume "(i, b) \<in> set (uv_stores bgra p w h)"
  then obtain k j where kj: "k < (h + 1) div 2" "j < (w + 1) div 2"
      "(i, b) = (w * h + 2 * k div 2 * w + 2 * j, Clamp8 (chroma_u (block bgra p w h (2 * k) (2 * j)))) \<or>
       (i, b) = (w * h + 2 * k div 2 * w + min (2 * j + 1) (w - 1), Clamp8 (chroma_v (block bgra p w h (2 * k) (2 * j))))"
    by (auto simp: uv_stores_def by_two_def Let_def)
  have "2 * j < w" "min (2 * j + 1) (w - 1) < w" using kj(2) by auto
  with kj block_colour [of bgra p w h "2 * k" "2 * j"] show ?thesis
    by (intro exI [of _ k] exI [of _ "i - w * h - k * w"] exI [of _ "block bgra p w h (2 * k) (2 * j)"]) auto
qed

lemma uv_stores_reach: "k < (h + 1) div 2 \<Longrightarrow> c < w \<Longrightarrow> \<exists>b. (w * h + k * w + c, b) \<in> set (uv_stores bgra p w h)"
proof -
  assume k: "k < (h + 1) div 2" and c: "c < w"
  let ?j = "c div 2"
  have j: "?j < (w + 1) div 2" using c by linarith
  have "(w * h + k * w + 2 * ?j, Clamp8 (chroma_u (block bgra p w h (2 * k) (2 * ?j)))) \<in> set (uv_stores bgra p w h)"
    "(w * h + k * w + min (2 * ?j + 1) (w - 1), Clamp8 (chroma_v (block bgra p w h (2 * k) (2 * ?j)))) \<in> set (uv_stores bgra p w h)"
    unfolding uv_stores_def by_two_def Let_def using k j by force+
  moreover have "c = 2 * ?j \<or> c = min (2 * ?j + 1) (w - 1)" using c by linarith
  ultimately show ?thesis by metis
qed

lemma reads_inside_rows:
  assumes "4 * w \<le> p" and "length bgra = p * h"
  shows "reads_inside bgra p w h"
  unfolding reads_inside_def list_all_iff
proof (intro ballI)
  fix row col
  assume "row \<in> set [0..<h]" "col \<in> set [0..<w]"
  then have "row < h" "col * 4 + 2 < p" using assms(1) by auto
  from index_less [OF this] show "row * p + col * 4 + 2 < length bgra" using assms(2) by (simp add: mult.commute add.assoc)
qed

lemma nv12_well_formed:
  assumes "even h" and "0 < w" and "4 * w \<le> p" and "length bgra = p * h"
  shows "\<exists>out. ConvertBgraToNv12 bgra p w h nv12 = Some out \<and> length out = w * h * 3 div 2 \<and>
    (\<forall>i < w * h. uint (out ! i) = luma (pixel bgra p (i div w) (i mod w)) \<and> 16 \<le> uint (out ! i) \<and> uint (out ! i) \<le> 235) \<and>
    (\<forall>i < w * h div 2. 16 \<le> uint (out ! (w * h + i)) \<and> uint (out ! (w * h + i)) \<le> 240)"
proof -
  obtain m where h: "h = 2 * m" using assms(1) by (auto elim: evenE)
  define buf where "buf = resize (w * h * 3 div 2) nv12"
  define ws where "ws = y_stores bgra p w h @ uv_stores bgra p w h"
  define out where "out = foldl (\<lambda>xs (i, b). xs[i := b]) buf ws"
  have len: "length buf = w * h + m * w" by (simp add: buf_def resize_def h)
  have uvi: "\<exists>px. w * h \<le> i \<and> i < w * h + m * w \<and> colour px \<and> (b = Clamp8 (chroma_u px) \<or> b = Clamp8 (chroma_v px))"
    if uv: "(i, b) \<in> set (uv_stores bgra p w h)" for i b
  proof -
    from uv_stores_index [OF uv] obtain k c px where kc: "k < m" "c < w" "i = w * h + k * w + c" "colour px"
        "b = Clamp8 (chroma_u px) \<or> b = Clamp8 (chroma_v px)"
      by (auto simp: h)
    with index_less [OF kc(1,2)] show ?thesis by (intro exI [of _ px]) auto
  qed
  have "list_all (\<lambda>(i, b). i < length buf) ws"
    using y_stores_index [of _ _ bgra p w h] uvi by (fastforce simp: list_all_iff ws_def len mult.commute)
  then have some: "ConvertBgraToNv12 bgra p w h nv12 = Some out"
    using reads_inside_rows [OF assms(3,4)] by (simp add: ConvertBgraToNv12_def store_def out_def flip: buf_def ws_def)
  have y: "uint (out ! i) = luma (pixel bgra p (i div w) (i mod w))" if "i < w * h" for i
  proof -
    have i: "i < length buf" "i < h * w" using that len by (simp_all add: mult.commute)
    from y_stores_reach [OF i(2)] obtain c where "(i, c) \<in> set ws" unfolding ws_def by force
    from stores_value [OF i(1) this, of "\<lambda>b. b = Clamp8 (luma (pixel bgra p (i div w) (i mod w)))"]
    have "out ! i = Clamp8 (luma (pixel bgra p (i div w) (i mod w)))"
      using y_stores_index [of i _ bgra p w h] uvi [of i] that by (fastforce simp: out_def ws_def)
    then show ?thesis by (simp add: plane_values)
  qed
  have uv: "16 \<le> uint (out ! (w * h + i)) \<and> uint (out ! (w * h + i)) \<le> 240" if "i < w * h div 2" for i
  proof -
    have i: "i < m * w" using that by (simp add: h mult.commute mult.left_commute)
    have "i div w < m" "i mod w < w" using i assms(2) by (simp_all add: less_mult_imp_div_less)
    then obtain c where c: "(w * h + i, c) \<in> set ws"
      using uv_stores_reach [of "i div w" h "i mod w" w bgra p] by (auto simp: ws_def h add.assoc)
    have "w * h + i < length buf" using i len by simp
    from stores_value [OF this c, of "\<lambda>b. 16 \<le> uint b \<and> uint b \<le> 240"] show ?thesis
      using y_stores_index [of "w * h + i" _ bgra p w h] uvi [of "w * h + i"] chroma_range
      by (fastforce simp: out_def ws_def Clamp8_uint mult.commute)
  qed
  have "length out = w * h * 3 div 2" by (simp add: out_def buf_def resize_def)
  with some y uv luma_range [OF pixel_colour] show ?thesis by (intro exI [of _ out]) simp
qed

subsection \<open>Properties\<close>

text \<open>C33. A captured picture of even height becomes a well-formed NV12 buffer: the conversion never leaves the picture
  or the buffer, the buffer has exactly width * height * 3 / 2 bytes whatever size it had, each luma byte is the
  BT.601 value of its pixel and lies in 16..235, and each chroma byte lies in 16..240: no clamping ever happens.\<close>

theorem nv12_frame_is_well_formed:
  assumes "even h" and "0 < w" and "4 * w \<le> p" and "length bgra = p * h"
  shows "\<exists>out. ConvertBgraToNv12 bgra p w h nv12 = Some out \<and> length out = w * h * 3 div 2 \<and>
    (\<forall>i < w * h. uint (out ! i) = luma (pixel bgra p (i div w) (i mod w)) \<and> 16 \<le> uint (out ! i) \<and> uint (out ! i) \<le> 235) \<and>
    (\<forall>i < w * h div 2. 16 \<le> uint (out ! (w * h + i)) \<and> uint (out ! (w * h + i)) \<le> 240)"
  by (rule nv12_well_formed) fact+

lemma nv12_frame_is_well_formed_witness:
  "\<exists>out. ConvertBgraToNv12 (replicate 16 200) 8 2 2 [] = Some out \<and> length out = 6 \<and> 16 \<le> uint (out ! 3) \<and> uint (out ! 5) \<le> 240"
proof -
  obtain out where out: "ConvertBgraToNv12 (replicate 16 200) 8 2 2 [] = Some out" "length out = 2 * 2 * 3 div 2"
      "\<forall>i < 2 * 2. uint (out ! i) = luma (pixel (replicate 16 200) 8 (i div 2) (i mod 2)) \<and> 16 \<le> uint (out ! i) \<and> uint (out ! i) \<le> 235"
      "\<forall>i < 2 * 2 div 2. 16 \<le> uint (out ! (2 * 2 + i)) \<and> uint (out ! (2 * 2 + i)) \<le> 240"
    using nv12_frame_is_well_formed [of 2 2 8 "replicate 16 200" "[]"] by auto
  have "16 \<le> uint (out ! 3)" using out(3) [rule_format, of 3] by linarith
  moreover have "uint (out ! 5) \<le> 240" using out(4) [rule_format, of 1] by simp
  ultimately show ?thesis using out(1,2) by simp
qed

text \<open>A picture of odd height is written behind the end of the buffer.\<close>

lemma odd_height_overruns:
  assumes "odd h" and "0 < w"
  shows "ConvertBgraToNv12 bgra p w h nv12 = None"
proof -
  let ?buf = "resize (w * h * 3 div 2) nv12"
  obtain m where h: "h = 2 * m + 1" using assms(1) by (auto elim: oddE)
  from uv_stores_reach [of m h "w - 1" w bgra p] assms(2) obtain b where
    "(w * h + m * w + (w - 1), b) \<in> set (uv_stores bgra p w h)" by (auto simp: h)
  moreover have "length ?buf \<le> w * h + m * w + (w - 1)"
  proof -
    have "w * h * 3 = 2 * (w * h + m * w) + w" by (simp add: h algebra_simps)
    then have "w * h * 3 div 2 = (2 * (w * h + m * w) + w) div 2" by (simp only:)
    moreover have "(2 * k + w) div 2 = k + w div 2" for k by simp
    ultimately have "w * h * 3 div 2 = w * h + m * w + w div 2" by (simp only:)
    then show ?thesis using assms(2) by (simp add: resize_def)
  qed
  ultimately have "\<not> list_all (\<lambda>(i, b). i < length ?buf) (uv_stores bgra p w h)"
    unfolding list_all_iff by (intro notI) (drule (1) bspec, simp)
  then show ?thesis by (simp add: ConvertBgraToNv12_def store_def)
qed

end
