(* ===== verification/Duplication.thy ===== *)
theory Duplication
  imports Nv12 Input
begin

text \<open>
  The capture of the virtual monitor (\<^verbatim>\<open>src/src/display/DesktopDuplication.cpp\<close>): the
  duplication that is lost and rebuilt, the frame whose size it follows, the cursor that is cached and drawn into the
  frame.  What DXGI and D3D11 answer is an argument.  \<open>None\<close> is an access outside of a buffer.
\<close>

subsection \<open>The cursor\<close>

datatype ShapeType = Monochrome | Color | MaskedColor

record ShapeInfo =
  shape_type :: ShapeType
  shape_width :: nat
  shape_height :: nat
  shape_pitch :: nat

definition read_byte :: "bytes \<Rightarrow> nat \<Rightarrow> byte option" where
  "read_byte xs i = (if i < length xs then Some (xs ! i) else None)"

text \<open>The three colour bytes of a pixel replaced through a function of each; alpha stays.\<close>

definition update_pixel :: "nat \<Rightarrow> (nat \<Rightarrow> byte \<Rightarrow> byte) \<Rightarrow> bytes \<Rightarrow> bytes option" where
  "update_pixel i f buf =
     (if i + 2 < length buf
      then Some (buf[i := f 0 (buf ! i), i + 1 := f 1 (buf ! (i + 1)), i + 2 := f 2 (buf ! (i + 2))]) else None)"

definition mono_pixel :: "bool \<Rightarrow> bool \<Rightarrow> nat \<Rightarrow> byte \<Rightarrow> byte" where
  "mono_pixel a x k d = (if \<not> a \<and> \<not> x then 0 else if \<not> a \<and> x then 255 else if a \<and> x then 255 - d else d)"

definition blend :: "byte \<Rightarrow> byte \<Rightarrow> byte \<Rightarrow> byte" where
  "blend alpha s d = of_int ((uint s * uint alpha + uint d * (255 - uint alpha)) div 255)"

text \<open>One pixel of the shape, drawn at an offset of the frame.\<close>

definition draw_mono :: "bytes \<Rightarrow> nat \<Rightarrow> nat \<Rightarrow> nat \<Rightarrow> nat \<Rightarrow> nat \<Rightarrow> bytes \<Rightarrow> bytes option" where
  "draw_mono shape pitch shapeH x y i buf =
     (let byteIdx = y * pitch + x div 8; bit_no = 7 - x mod 8 in
      case read_byte shape byteIdx of
        None \<Rightarrow> None
      | Some ma \<Rightarrow>
          (case read_byte shape (pitch * shapeH + byteIdx) of
             None \<Rightarrow> None
           | Some mx \<Rightarrow>
               (if bit ma bit_no \<and> \<not> bit mx bit_no then Some buf
                else update_pixel i (mono_pixel (bit ma bit_no) (bit mx bit_no)) buf)))"

definition draw_color :: "bool \<Rightarrow> bytes \<Rightarrow> nat \<Rightarrow> nat \<Rightarrow> nat \<Rightarrow> nat \<Rightarrow> bytes \<Rightarrow> bytes option" where
  "draw_color masked shape pitch x y i buf =
     (let src = y * pitch + x * 4 in
      if length shape \<le> src + 3 then None
      else
        (let alpha = shape ! (src + 3) in
         update_pixel i (\<lambda>k d. if masked then (if alpha = 0 then shape ! (src + k) else xor d (shape ! (src + k)))
                               else blend alpha (shape ! (src + k)) d) buf))"

definition in_frame :: "nat \<Rightarrow> nat \<Rightarrow> int \<Rightarrow> int \<Rightarrow> bool" where
  "in_frame frameW frameH fx fy \<longleftrightarrow> 0 \<le> fx \<and> 0 \<le> fy \<and> fx < int frameW \<and> fy < int frameH"

definition draw_pixel ::
    "bytes \<Rightarrow> ShapeInfo \<Rightarrow> POINT \<Rightarrow> nat \<Rightarrow> nat \<Rightarrow> nat \<Rightarrow> nat \<times> nat \<Rightarrow> bytes option \<Rightarrow> bytes option" where
  "draw_pixel shape info pos stride frameW frameH xy buf0 =
     (case xy of (x, y) \<Rightarrow>
       let fx = pt_x pos + int x; fy = pt_y pos + int y in
       if \<not> in_frame frameW frameH fx fy then buf0
       else
         (let i = nat fy * stride + nat fx * 4 in
          case buf0 of
            None \<Rightarrow> None
          | Some buf \<Rightarrow>
              (case shape_type info of
                 Monochrome \<Rightarrow> draw_mono shape (shape_pitch info) (shape_height info div 2) x y i buf
               | Color \<Rightarrow> draw_color False shape (shape_pitch info) x y i buf
               | MaskedColor \<Rightarrow> draw_color True shape (shape_pitch info) x y i buf)))"

definition CompositePointer :: "bytes \<Rightarrow> ShapeInfo \<Rightarrow> POINT \<Rightarrow> nat \<Rightarrow> nat \<Rightarrow> nat \<Rightarrow> bytes \<Rightarrow> bytes option" where
  "CompositePointer shape info pos stride frameW frameH bgra =
     (let shapeH = (if shape_type info = Monochrome then shape_height info div 2 else shape_height info) in
      foldl (\<lambda>buf xy. draw_pixel shape info pos stride frameW frameH xy buf) (Some bgra)
        (concat (map (\<lambda>y. map (\<lambda>x. (x, y)) [0..<shape_width info]) [0..<shapeH])))"

subsection \<open>The duplication\<close>

record Duplication =
  dd_device :: bool
  dup_live :: bool
  staging :: "(nat \<times> nat) option"
  dup_name :: wstring
  reportedLoss :: bool
  cap_width :: nat
  cap_height :: nat
  pointerShape :: bytes
  pointerInfo :: ShapeInfo
  pointerPos :: POINT
  pointerVisible :: bool

definition Duplication_default :: Duplication where
  "Duplication_default =
     \<lparr>dd_device = False, dup_live = False, staging = None, dup_name = [], reportedLoss = False, cap_width = 0, cap_height = 0,
      pointerShape = [], pointerInfo = \<lparr>shape_type = Monochrome, shape_width = 0, shape_height = 0, shape_pitch = 0\<rparr>,
      pointerPos = \<lparr>pt_x = 0, pt_y = 0\<rparr>, pointerVisible = False\<rparr>"

record OpenAnswer =
  o_output :: bool
  o_device :: bool
  o_output1 :: bool
  o_duplicate :: "(nat \<times> nat) option"

definition dd_open :: "wstring \<Rightarrow> OpenAnswer \<Rightarrow> Duplication \<Rightarrow> bool \<times> Duplication" where
  "dd_open name a d =
     (if \<not> o_output a then (False, d)
      else if \<not> o_device a then (False, d\<lparr>dd_device := False\<rparr>)
      else if \<not> o_output1 a then (False, d\<lparr>dd_device := True\<rparr>)
      else (case o_duplicate a of
              None \<Rightarrow> (False, d\<lparr>dd_device := True, dup_live := False\<rparr>)
            | Some (w, h) \<Rightarrow>
                (True, d\<lparr>dd_device := True, dup_live := True, cap_width := w, cap_height := h, dup_name := name\<rparr>)))"

definition dd_close :: "Duplication \<Rightarrow> Duplication" where
  "dd_close d = d\<lparr>dup_live := False, staging := None, dd_device := False\<rparr>"

definition Reopen :: "OpenAnswer \<Rightarrow> Duplication \<Rightarrow> bool \<times> Duplication" where
  "Reopen a d = (let name = dup_name d in dd_open name a (dd_close d))"

text \<open>A frame: the mouse update, the new shape with its size and the answer of the call that fetches it, the texture's
  size, and the mapped pixels with their row pitch.\<close>

record FrameAnswer =
  f_mouse :: "(bool \<times> POINT) option"
  f_shape_size :: nat
  f_shape :: "(bytes \<times> ShapeInfo) option"
  f_texture :: bool
  f_w :: nat
  f_h :: nat
  f_staging :: bool
  f_map :: "(nat \<times> bytes) option"

datatype Acquire = AcquireTimeout | AcquireFailed | Acquired FrameAnswer

definition UpdatePointer :: "FrameAnswer \<Rightarrow> Duplication \<Rightarrow> Duplication" where
  "UpdatePointer f d =
     (let d1 = (case f_mouse f of None \<Rightarrow> d | Some (visible, p) \<Rightarrow> d\<lparr>pointerVisible := visible, pointerPos := p\<rparr>)
      in if f_shape_size f = 0 then d1
         else (case f_shape f of
                 None \<Rightarrow> d1\<lparr>pointerShape := resize (f_shape_size f) (pointerShape d1)\<rparr>
               | Some (bits, info) \<Rightarrow> d1\<lparr>pointerShape := bits, pointerInfo := info\<rparr>))"

text \<open>The size of the frame is followed, and the staging texture is made for it.\<close>

definition follow_frame :: "FrameAnswer \<Rightarrow> Duplication \<Rightarrow> bool \<times> Duplication" where
  "follow_frame f d =
     (let d1 = (if f_w f \<noteq> cap_width d \<or> f_h f \<noteq> cap_height d
                then d\<lparr>cap_width := f_w f, cap_height := f_h f, staging := None\<rparr> else d)
      in if staging d1 = None then (if f_staging f then (True, d1\<lparr>staging := Some (f_w f, f_h f)\<rparr>) else (False, d1))
         else (True, d1))"

definition convert_frame :: "FrameAnswer \<Rightarrow> nat \<Rightarrow> bytes \<Rightarrow> bytes \<Rightarrow> Duplication \<Rightarrow> bytes option" where
  "convert_frame f rowPitch pixels nv12 d =
     (case (if pointerVisible d \<and> pointerShape d \<noteq> []
            then CompositePointer (pointerShape d) (pointerInfo d) (pointerPos d) rowPitch (f_w f) (f_h f) pixels
            else Some pixels) of
        None \<Rightarrow> None
      | Some drawn \<Rightarrow> ConvertBgraToNv12 drawn rowPitch (f_w f) (f_h f) nv12)"

definition CaptureFrameNv12 ::
    "OpenAnswer \<Rightarrow> Acquire \<Rightarrow> OpenAnswer \<Rightarrow> bytes \<Rightarrow> Duplication \<Rightarrow> (bool \<times> bytes \<times> Duplication) option" where
  "CaptureFrameNv12 first acquired again nv12 d0 =
     (case (if \<not> dup_live d0 then Reopen first d0 else (True, d0)) of
        (False, d) \<Rightarrow> Some (False, nv12, d)
      | (True, d) \<Rightarrow>
          (case acquired of
             AcquireTimeout \<Rightarrow> Some (False, nv12, d)
           | AcquireFailed \<Rightarrow> Some (False, nv12, snd (Reopen again (d\<lparr>reportedLoss := True\<rparr>)))
           | Acquired f \<Rightarrow>
               (let d1 = UpdatePointer f (d\<lparr>reportedLoss := False\<rparr>) in
                if \<not> f_texture f then Some (False, nv12, d1)
                else (case follow_frame f d1 of
                        (False, d2) \<Rightarrow> Some (False, nv12, d2)
                      | (True, d2) \<Rightarrow>
                          (case f_map f of
                             None \<Rightarrow> Some (False, nv12, d2)
                           | Some (rowPitch, pixels) \<Rightarrow>
                               (case convert_frame f rowPitch pixels nv12 d2 of
                                  None \<Rightarrow> None
                                | Some out \<Rightarrow> Some (True, out, d2)))))))"

subsection \<open>Drawing stays inside\<close>

text \<open>A shape with all the bytes its description needs.\<close>

definition shape_ok :: "bytes \<Rightarrow> ShapeInfo \<Rightarrow> bool" where
  "shape_ok bits info \<longleftrightarrow>
     (if shape_type info = Monochrome
      then shape_width info \<le> 8 * shape_pitch info \<and> 2 * (shape_height info div 2) * shape_pitch info \<le> length bits
      else 4 * shape_width info \<le> shape_pitch info \<and> shape_height info * shape_pitch info \<le> length bits)"

lemma update_pixel_length: "update_pixel i f buf = Some buf' \<Longrightarrow> length buf' = length buf"
  by (auto simp: update_pixel_def split: if_splits)

lemma update_pixel_ok: "i + 2 < length buf \<Longrightarrow> \<exists>buf'. update_pixel i f buf = Some buf' \<and> length buf' = length buf"
  by (simp add: update_pixel_def)

lemma shape_shape_index: "x < w \<Longrightarrow> w \<le> 8 * p \<Longrightarrow> x div 8 < (p :: nat)"
  by auto

lemma draw_pixel_ok:
  assumes "shape_ok bits info" and "4 * w \<le> stride" and "length buf = stride * h"
    and "x < shape_width info" and "y < (if shape_type info = Monochrome then shape_height info div 2 else shape_height info)"
  shows "\<exists>buf'. draw_pixel bits info pos stride w h (x, y) (Some buf) = Some buf' \<and> length buf' = length buf"
proof (cases "in_frame w h (pt_x pos + int x) (pt_y pos + int y)")
  case False
  then show ?thesis by (simp add: draw_pixel_def Let_def)
next
  case True
  let ?fx = "nat (pt_x pos + int x)" and ?fy = "nat (pt_y pos + int y)"
  let ?i = "?fy * stride + ?fx * 4"
  have f: "?fx < w" "?fy < h" using True by (auto simp: in_frame_def)
  then have "?fx * 4 + 2 < stride" using assms(2) by linarith
  from index_less [OF f(2) this] have i: "?i + 2 < length buf" using assms(3) by (simp add: mult.commute add.assoc)
  show ?thesis
  proof (cases "shape_type info = Monochrome")
    case True
    let ?p = "shape_pitch info" and ?H = "shape_height info div 2"
    have s: "x div 8 < ?p" "y < ?H" "2 * ?H * ?p \<le> length bits"
      using assms(1,4,5) True by (auto simp: shape_ok_def)
    have "y * ?p + x div 8 < ?H * ?p" by (rule index_less [OF s(2,1)])
    then have "y * ?p + x div 8 < length bits" "?p * ?H + (y * ?p + x div 8) < length bits"
      using s(3) by (simp_all add: mult.commute mult.left_commute)
    with True \<open>in_frame w h _ _\<close> update_pixel_ok [OF i] show ?thesis
      by (simp add: draw_pixel_def draw_mono_def Let_def read_byte_def)
  next
    case False
    let ?p = "shape_pitch info"
    have "x * 4 + 3 < ?p" "y < shape_height info" "shape_height info * ?p \<le> length bits"
      using assms(1,4,5) False by (auto simp: shape_ok_def)
    from index_less [OF this(2,1)] this(3) have "\<not> length bits \<le> y * ?p + x * 4 + 3" by simp
    with False \<open>in_frame w h _ _\<close> update_pixel_ok [OF i] show ?thesis
      by (cases "shape_type info") (simp_all add: draw_pixel_def draw_color_def Let_def)
  qed
qed

lemma CompositePointer_ok:
  assumes "shape_ok bits info" and "4 * w \<le> stride" and "length buf = stride * h"
  shows "\<exists>buf'. CompositePointer bits info pos stride w h buf = Some buf' \<and> length buf' = length buf"
proof -
  let ?H = "if shape_type info = Monochrome then shape_height info div 2 else shape_height info"
  have "set xys \<subseteq> {..<shape_width info} \<times> {..<?H} \<Longrightarrow> length b = stride * h \<Longrightarrow>
      \<exists>b'. foldl (\<lambda>buf xy. draw_pixel bits info pos stride w h xy buf) (Some b) xys = Some b' \<and> length b' = length b" for xys b
  proof (induction xys arbitrary: b)
    case (Cons xy xys)
    obtain x y where xy: "xy = (x, y)" by (cases xy)
    from draw_pixel_ok [OF assms(1,2) Cons.prems(2), of x y pos] Cons.prems(1) xy obtain b1 where
      "draw_pixel bits info pos stride w h (x, y) (Some b) = Some b1" "length b1 = length b" by auto
    with Cons.IH [of b1] Cons.prems xy show ?case by auto
  qed simp
  note run = this
  let ?xys = "concat (map (\<lambda>y. map (\<lambda>x. (x, y)) [0..<shape_width info]) [0..<?H])"
  have "set ?xys \<subseteq> {..<shape_width info} \<times> {..<?H}" by auto
  from run [OF this assms(3)] show ?thesis unfolding CompositePointer_def Let_def .
qed

subsection \<open>Properties\<close>

text \<open>The cached shape has its bytes.\<close>

definition cursor_inv :: "Duplication \<Rightarrow> bool" where
  "cursor_inv d \<longleftrightarrow> pointerShape d = [] \<or> shape_ok (pointerShape d) (pointerInfo d)"

text \<open>A frame as DXGI documents it: rows of at least four bytes a pixel, all of them mapped, and a shape that comes
  with its bytes when one is announced.\<close>

definition frame_answer_ok :: "FrameAnswer \<Rightarrow> bool" where
  "frame_answer_ok f \<longleftrightarrow>
     (if f_shape_size f = 0 then True
      else (case f_shape f of None \<Rightarrow> False | Some (bits, info) \<Rightarrow> length bits = f_shape_size f \<and> shape_ok bits info)) \<and>
     (case f_map f of None \<Rightarrow> True | Some (rowPitch, pixels) \<Rightarrow> 4 * f_w f \<le> rowPitch \<and> length pixels = rowPitch * f_h f)"

definition acquire_ok :: "Acquire \<Rightarrow> bool" where
  "acquire_ok q = (case q of Acquired f \<Rightarrow> frame_answer_ok f \<and> even (f_h f) \<and> 0 < f_w f | _ \<Rightarrow> True)"

lemma UpdatePointer_inv: "cursor_inv d \<Longrightarrow> frame_answer_ok f \<Longrightarrow> cursor_inv (UpdatePointer f d)"
  by (auto simp: UpdatePointer_def cursor_inv_def frame_answer_ok_def Let_def split: option.splits prod.splits)

lemma follow_frame_size:
  "cursor_inv (snd (follow_frame f d)) = cursor_inv d \<and> cap_width (snd (follow_frame f d)) = f_w f \<and>
   cap_height (snd (follow_frame f d)) = f_h f \<and> dup_live (snd (follow_frame f d)) = dup_live d"
  by (simp add: follow_frame_def cursor_inv_def Let_def)

lemma Reopen_inv: "cursor_inv d \<Longrightarrow> cursor_inv (snd (Reopen a d))"
  by (simp add: Reopen_def dd_open_def dd_close_def cursor_inv_def Let_def split: option.split)

lemma convert_frame_ok:
  assumes "cursor_inv d" and "even (f_h f)" and "0 < f_w f" and "4 * f_w f \<le> p" and "length pixels = p * f_h f"
  shows "\<exists>out. convert_frame f p pixels nv12 d = Some out \<and> length out = f_w f * f_h f * 3 div 2"
proof -
  have "\<exists>drawn. (if pointerVisible d \<and> pointerShape d \<noteq> []
      then CompositePointer (pointerShape d) (pointerInfo d) (pointerPos d) p (f_w f) (f_h f) pixels else Some pixels) = Some drawn \<and>
      length drawn = p * f_h f"
    using CompositePointer_ok [OF _ assms(4,5), of "pointerShape d" "pointerInfo d" "pointerPos d"] assms(1,5)
    by (auto simp: cursor_inv_def)
  then obtain drawn where d: "(if pointerVisible d \<and> pointerShape d \<noteq> []
      then CompositePointer (pointerShape d) (pointerInfo d) (pointerPos d) p (f_w f) (f_h f) pixels else Some pixels) = Some drawn"
    "length drawn = p * f_h f" by blast
  from nv12_well_formed [OF assms(2,3,4) d(2), of nv12] show ?thesis by (auto simp: convert_frame_def d(1))
qed


text \<open>Witnesses: a frame of two by two pixels with a cursor of one pixel.\<close>

definition sample_frame :: FrameAnswer where
  "sample_frame =
     \<lparr>f_mouse = Some (True, \<lparr>pt_x = 1, pt_y = - 1\<rparr>), f_shape_size = 8,
      f_shape = Some ([1, 2, 3, 255, 4, 5, 6, 255], \<lparr>shape_type = Color, shape_width = 1, shape_height = 2, shape_pitch = 4\<rparr>),
      f_texture = True, f_w = 2, f_h = 2, f_staging = True, f_map = Some (8, replicate 16 200)\<rparr>"

definition sample_open :: OpenAnswer where
  "sample_open = \<lparr>o_output = True, o_device = True, o_output1 = True, o_duplicate = Some (2, 2)\<rparr>"


text \<open>When the call that fetches a new shape fails, its smaller buffer is read with the old description.\<close>

lemma failed_shape_fetch_overreads:
  "case CaptureFrameNv12 sample_open (Acquired sample_frame) sample_open [] Duplication_default of
     None \<Rightarrow> False
   | Some (fresh, out, d') \<Rightarrow>
       fresh \<and> CaptureFrameNv12 sample_open (Acquired (sample_frame\<lparr>f_shape_size := 4, f_shape := None\<rparr>)) sample_open out d' = None"
  by code_simp

end
