(* ===== verification/Encoder.thy ===== *)
theory Encoder
  imports AnnexB
begin

text \<open>
  The encoder (\<^verbatim>\<open>src/src/encode/H264Encoder.cpp\<close>) around a transform of Media Foundation:
  configuration, the credits of an asynchronous transform, key frames on request, and the access units it
  gives.  The answers of the transform are arguments; what it is told is kept in order in \<open>mft\<close>.
\<close>

subsection \<open>The state\<close>

text \<open>What the transform is told: an announced need for input was taken note of, a picture with its time was fed, a key
  frame was forced.\<close>

datatype MftCall = SawNeed | Fed bytes int | ForcedKeyFrame

record Encoder =
  configured :: bool
  isAsync :: bool
  pendingNeedInput :: bool
  cfg_width :: u32
  cfg_height :: u32
  cfg_fps :: u32
  frameDuration :: int
  timestamp :: int
  forceKeyFrame :: bool
  spsPpsCache :: SpsPpsCache
  mft :: "MftCall list"

definition Encoder_default :: Encoder where
  "Encoder_default =
     \<lparr>configured = False, isAsync = False, pendingNeedInput = False, cfg_width = 0, cfg_height = 0, cfg_fps = 60,
      frameDuration = 0, timestamp = 0, forceKeyFrame = False, spsPpsCache = empty_cache, mft = []\<rparr>"

record AccessUnit =
  annexB_bytes :: bytes
  key_frame :: bool

definition tell :: "MftCall \<Rightarrow> Encoder \<Rightarrow> Encoder" where
  "tell c s = s\<lparr>mft := mft s @ [c]\<rparr>"

subsection \<open>Output\<close>

text \<open>The answer of \<^verbatim>\<open>ProcessOutput\<close>; a sample may be missing or unreadable.\<close>

datatype Output = NeedMoreInput | StreamChange | OutputFailed | Sample "bytes option"

definition ExtractFrame :: "bytes option \<Rightarrow> AccessUnit list \<Rightarrow> Encoder \<Rightarrow> AccessUnit list \<times> Encoder" where
  "ExtractFrame sample out s =
     (case sample of
        None \<Rightarrow> (out, s)
      | Some data \<Rightarrow>
          (let nals = ScanStartCodes data in
           if nals = [] then (out, s)
           else (case EnsureParameterSets (spsPpsCache s) nals of
                   (c, fixed) \<Rightarrow>
                     (out @ [\<lparr>annexB_bytes = BuildAccessUnit fixed,
                              key_frame = list_ex (\<lambda>n. nal_type n = kNalTypeIdrSlice) fixed\<rparr>],
                      s\<lparr>spsPpsCache := c\<rparr>))))"

definition ProcessOutputOnce :: "Output \<Rightarrow> AccessUnit list \<Rightarrow> Encoder \<Rightarrow> bool \<times> AccessUnit list \<times> Encoder" where
  "ProcessOutputOnce res out s =
     (case res of Sample sample \<Rightarrow> (True, ExtractFrame sample out s) | _ \<Rightarrow> (False, out, s))"

subsection \<open>The pump of an asynchronous transform\<close>

datatype Event = HaveOutput Output | NeedInput | OtherEvent

text \<open>The events as they are polled for: at the moment none, an error, or an event.\<close>

datatype Poll = NoEvents | PollFailed | Got Event

fun DrainAvailableAsync :: "Poll list \<Rightarrow> AccessUnit list \<Rightarrow> Encoder \<Rightarrow> Poll list \<times> AccessUnit list \<times> Encoder" where
  "DrainAvailableAsync [] out s = ([], out, s)"
| "DrainAvailableAsync (NoEvents # ps) out s = (ps, out, s)"
| "DrainAvailableAsync (PollFailed # ps) out s = (ps, out, s)"
| "DrainAvailableAsync (Got (HaveOutput res) # ps) out s =
     (case ProcessOutputOnce res out s of (b, out1, s1) \<Rightarrow> DrainAvailableAsync ps out1 s1)"
| "DrainAvailableAsync (Got NeedInput # ps) out s = (ps, out, (tell SawNeed s)\<lparr>pendingNeedInput := True\<rparr>)"
| "DrainAvailableAsync (Got OtherEvent # ps) out s = DrainAvailableAsync ps out s"

text \<open>The blocking wait for a need of input: whether it came; \<open>None\<close> while no event comes.\<close>

fun wait_need :: "Poll list \<Rightarrow> AccessUnit list \<Rightarrow> Encoder \<Rightarrow> (bool \<times> Poll list \<times> AccessUnit list \<times> Encoder) option" where
  "wait_need [] out s = None"
| "wait_need (NoEvents # ps) out s = wait_need ps out s"
| "wait_need (PollFailed # ps) out s = Some (False, ps, out, s)"
| "wait_need (Got (HaveOutput res) # ps) out s = (case ProcessOutputOnce res out s of (b, out1, s1) \<Rightarrow> wait_need ps out1 s1)"
| "wait_need (Got NeedInput # ps) out s = Some (True, ps, out, tell SawNeed s)"
| "wait_need (Got OtherEvent # ps) out s = wait_need ps out s"

definition PumpAsync :: "bytes \<Rightarrow> int \<Rightarrow> Poll list \<Rightarrow> AccessUnit list \<Rightarrow> Encoder \<Rightarrow> (AccessUnit list \<times> Encoder) option" where
  "PumpAsync sample at_time ps0 out0 s0 =
     (case DrainAvailableAsync ps0 out0 s0 of
        (ps1, out1, s1) \<Rightarrow>
          (case (if pendingNeedInput s1 then Some (True, ps1, out1, s1) else wait_need ps1 out1 s1) of
             None \<Rightarrow> None
           | Some (False, ps2, out2, s2) \<Rightarrow> Some (out2, s2)
           | Some (True, ps2, out2, s2) \<Rightarrow>
               Some (snd (DrainAvailableAsync ps2 out2 (tell (Fed sample at_time) (s2\<lparr>pendingNeedInput := False\<rparr>))))))"

fun DrainSync :: "Output list \<Rightarrow> AccessUnit list \<Rightarrow> Encoder \<Rightarrow> AccessUnit list \<times> Encoder" where
  "DrainSync [] out s = (out, s)"
| "DrainSync (res # rs) out s =
     (case ProcessOutputOnce res out s of (b, out1, s1) \<Rightarrow> if b then DrainSync rs out1 s1 else (out1, s1))"

subsection \<open>The operations\<close>

text \<open>A hardware transform if there is one, else a software one; whether it is asynchronous; the two media types.\<close>

record ConfigureAnswer =
  q_hardware :: bool
  q_software :: bool
  q_attributes :: bool
  q_async :: bool
  q_output_type :: bool
  q_input_type :: bool

text \<open>The rate must not be zero: the division would trap.\<close>

definition Configure :: "ConfigureAnswer \<Rightarrow> u32 \<Rightarrow> u32 \<Rightarrow> u32 \<Rightarrow> Encoder \<Rightarrow> (bool \<times> Encoder) option" where
  "Configure q w h rate s0 =
     (if rate = 0 then None
      else
        (let s = s0\<lparr>configured := False, cfg_width := w, cfg_height := h, cfg_fps := rate,
                    frameDuration := 10000000 div uint rate, timestamp := 0, pendingNeedInput := False,
                    spsPpsCache := empty_cache\<rparr>
         in if \<not> q_hardware q \<and> \<not> q_software q then Some (False, s)
            else
              (let s1 = s\<lparr>isAsync := (q_attributes q \<and> q_async q), mft := []\<rparr>
               in if \<not> q_output_type q \<or> \<not> q_input_type q then Some (False, s1)
                  else Some (True, s1\<lparr>configured := True\<rparr>))))"

text \<open>\<^verbatim>\<open>DWORD expected\<close>: 32-bit arithmetic.\<close>

definition expected_size :: "Encoder \<Rightarrow> u32" where
  "expected_size s = cfg_width s * cfg_height s * 3 div 2"

record EncodeAnswer =
  w_polls :: "Poll list"
  w_input :: bool
  w_outputs :: "Output list"

definition EncodeNv12 :: "EncodeAnswer \<Rightarrow> bytes \<Rightarrow> Encoder \<Rightarrow> (AccessUnit list \<times> Encoder) option" where
  "EncodeNv12 a nv12 s =
     (if \<not> configured s then Some ([], s)
      else if length nv12 < unat (expected_size s) then Some ([], s)
      else
        (let sample = take (unat (expected_size s)) nv12; now = timestamp s;
             s1 = s\<lparr>timestamp := timestamp s + frameDuration s\<rparr>;
             s2 = (if forceKeyFrame s1 then (tell ForcedKeyFrame s1)\<lparr>forceKeyFrame := False\<rparr> else s1)
         in if isAsync s2 then PumpAsync sample now (w_polls a) [] s2
            else if w_input a then Some (DrainSync (w_outputs a) [] (tell (Fed sample now) s2))
            else Some ([], tell (Fed sample now) s2)))"

definition RequestKeyFrame :: "Encoder \<Rightarrow> Encoder" where
  "RequestKeyFrame s = s\<lparr>forceKeyFrame := True\<rparr>"

subsection \<open>Credits\<close>

fun credit :: "nat option \<Rightarrow> MftCall \<Rightarrow> nat option" where
  "credit None c = None"
| "credit (Some n) SawNeed = Some (Suc n)"
| "credit (Some n) (Fed b t) = (case n of 0 \<Rightarrow> None | Suc m \<Rightarrow> Some m)"
| "credit (Some n) ForcedKeyFrame = Some n"

definition credits :: "MftCall list \<Rightarrow> nat option" where
  "credits = foldl credit (Some 0)"

lemma credits_snoc [simp]: "credits (cs @ [c]) = credit (credits cs) c"
  by (simp add: credits_def)

lemma credits_Nil [simp]: "credits [] = Some 0"
  by (simp add: credits_def)

text \<open>The pictures fed are whole.\<close>

definition fed_ok :: "u32 \<Rightarrow> MftCall \<Rightarrow> bool" where
  "fed_ok n c = (case c of Fed b t \<Rightarrow> length b = unat n | _ \<Rightarrow> True)"

definition encoder_inv :: "Encoder \<Rightarrow> bool" where
  "encoder_inv s \<longleftrightarrow>
     (if isAsync s then (case credits (mft s) of None \<Rightarrow> False | Some n \<Rightarrow> if pendingNeedInput s then 0 < n else True) else True) \<and>
     (if configured s then list_all (fed_ok (expected_size s)) (mft s) else True)"

definition same_config :: "Encoder \<Rightarrow> Encoder \<Rightarrow> bool" where
  "same_config s s' \<longleftrightarrow> configured s' = configured s \<and> isAsync s' = isAsync s \<and> cfg_width s' = cfg_width s \<and>
     cfg_height s' = cfg_height s"

lemma ExtractFrame_keeps:
  "same_config s (snd (ExtractFrame x out s)) \<and> mft (snd (ExtractFrame x out s)) = mft s \<and>
   pendingNeedInput (snd (ExtractFrame x out s)) = pendingNeedInput s"
  by (simp add: ExtractFrame_def same_config_def Let_def split: option.split prod.split)

lemma ProcessOutputOnce_keeps:
  "ProcessOutputOnce r out s = (b, out', s') \<Longrightarrow>
   same_config s s' \<and> mft s' = mft s \<and> pendingNeedInput s' = pendingNeedInput s"
proof (cases r)
  case (Sample x)
  assume "ProcessOutputOnce r out s = (b, out', s')"
  with Sample ExtractFrame_keeps [of s x out] show ?thesis by (simp add: ProcessOutputOnce_def)
qed (simp_all add: ProcessOutputOnce_def same_config_def)

lemma expected_same: "same_config s s' \<Longrightarrow> expected_size s' = expected_size s"
  by (simp add: same_config_def expected_size_def)

lemma encoder_inv_cong:
  "encoder_inv s \<Longrightarrow> same_config s s' \<Longrightarrow> mft s' = mft s \<Longrightarrow> pendingNeedInput s' = pendingNeedInput s \<Longrightarrow> encoder_inv s'"
  using expected_same [of s s'] by (auto simp: encoder_inv_def same_config_def split: option.splits)

lemma same_config_trans: "same_config r s \<Longrightarrow> same_config s t \<Longrightarrow> same_config r t"
  by (simp add: same_config_def)

lemma ProcessOutputOnce_inv:
  "ProcessOutputOnce r out s = (b, out', s') \<Longrightarrow> encoder_inv s \<Longrightarrow> encoder_inv s' \<and> same_config s s' \<and>
     mft s' = mft s \<and> pendingNeedInput s' = pendingNeedInput s"
  using ProcessOutputOnce_keeps [of r out s b out' s'] encoder_inv_cong [of s s'] by blast

text \<open>Taking note of a need adds a credit, whatever was pending.\<close>

lemma saw_need_inv:
  assumes "encoder_inv s"
  shows "encoder_inv ((tell SawNeed s)\<lparr>pendingNeedInput := b\<rparr>)"
  using assms expected_same [of s "(tell SawNeed s)\<lparr>pendingNeedInput := b\<rparr>"]
  by (auto simp: encoder_inv_def tell_def same_config_def fed_ok_def split: option.splits)

lemma DrainAvailableAsync_inv:
  "DrainAvailableAsync ps out s = (ps', out', s') \<Longrightarrow> encoder_inv s \<Longrightarrow> encoder_inv s' \<and> same_config s s'"
proof (induction ps out s rule: DrainAvailableAsync.induct)
  case (4 res ps out s)
  obtain b out1 s1 where p: "ProcessOutputOnce res out s = (b, out1, s1)" by (metis prod_cases3)
  with 4 ProcessOutputOnce_inv [OF p] show ?case by (auto intro: same_config_trans)
next
  case (5 ps out s)
  then show ?case using saw_need_inv [of s True] by (auto simp: same_config_def tell_def)
qed (auto simp: same_config_def)

text \<open>A need that the wait found is a credit still open.\<close>

definition has_credit :: "Encoder \<Rightarrow> bool" where
  "has_credit s \<longleftrightarrow> (case credits (mft s) of None \<Rightarrow> False | Some n \<Rightarrow> 0 < n)"

lemma wait_need_inv:
  "wait_need ps out s = Some (found, ps', out', s') \<Longrightarrow> encoder_inv s \<Longrightarrow>
   encoder_inv s' \<and> same_config s s' \<and> (found \<longrightarrow> isAsync s \<longrightarrow> has_credit s')"
proof (induction ps out s rule: wait_need.induct)
  case (4 res ps out s)
  obtain b out1 s1 where p: "ProcessOutputOnce res out s = (b, out1, s1)" by (metis prod_cases3)
  from 4 p ProcessOutputOnce_inv [OF p] have "encoder_inv s' \<and> same_config s1 s' \<and> (found \<longrightarrow> isAsync s1 \<longrightarrow> has_credit s')"
    "same_config s s1" by auto
  then show ?case by (auto simp: same_config_def)
next
  case (5 ps out s)
  have "encoder_inv (tell SawNeed s)"
    using saw_need_inv [OF "5.prems"(2), of "pendingNeedInput s"] by (simp add: tell_def)
  with 5 show ?case
    by (auto simp: same_config_def tell_def has_credit_def encoder_inv_def split: option.splits)
qed (auto simp: same_config_def)

lemma feed_inv:
  assumes "encoder_inv s" and "isAsync s \<longrightarrow> has_credit s" and "length b = unat (expected_size s)"
  shows "encoder_inv (tell (Fed b t) (s\<lparr>pendingNeedInput := False\<rparr>))"
proof -
  let ?s = "tell (Fed b t) (s\<lparr>pendingNeedInput := False\<rparr>)"
  have "expected_size ?s = expected_size s" by (simp add: expected_size_def tell_def)
  with assms show ?thesis
    by (auto simp: encoder_inv_def has_credit_def tell_def fed_ok_def split: option.splits nat.splits)
qed

lemma PumpAsync_inv:
  assumes "encoder_inv s" and "isAsync s" and "length sample = unat (expected_size s)" and "PumpAsync sample t ps out s = Some (out', s')"
  shows "encoder_inv s' \<and> same_config s s'"
proof -
  obtain ps1 out1 s1 where d: "DrainAvailableAsync ps out s = (ps1, out1, s1)" by (metis prod_cases3)
  note i1 = DrainAvailableAsync_inv [OF d assms(1)]
  obtain found ps2 out2 s2 where w:
    "(if pendingNeedInput s1 then Some (True, ps1, out1, s1) else wait_need ps1 out1 s1) = Some (found, ps2, out2, s2)"
    using assms(4) by (auto simp: PumpAsync_def d split: option.splits if_splits)
  have i2: "encoder_inv s2" "same_config s s2" "found \<longrightarrow> has_credit s2"
  proof -
    have "encoder_inv s2 \<and> same_config s1 s2 \<and> (found \<longrightarrow> has_credit s2)"
    proof (cases "pendingNeedInput s1")
      case True
      with w i1 assms(2) show ?thesis
        by (auto simp: encoder_inv_def has_credit_def same_config_def split: option.splits)
    next
      case False
      with w wait_need_inv [of ps1 out1 s1 found ps2 out2 s2] i1 assms(2) show ?thesis by (auto simp: same_config_def)
    qed
    with i1 show "encoder_inv s2" "same_config s s2" "found \<longrightarrow> has_credit s2" by (auto intro: same_config_trans)
  qed
  show ?thesis
  proof (cases found)
    case False
    with assms(4) d w i2 show ?thesis by (simp add: PumpAsync_def)
  next
    case True
    let ?f = "tell (Fed sample t) (s2\<lparr>pendingNeedInput := False\<rparr>)"
    have f: "encoder_inv ?f"
      using i2 True assms(3) expected_same [OF i2(2)] by (intro feed_inv) simp_all
    obtain ps3 where "DrainAvailableAsync ps2 out2 ?f = (ps3, out', s')"
      using assms(4) d w True by (cases "DrainAvailableAsync ps2 out2 ?f") (simp add: PumpAsync_def)
    from DrainAvailableAsync_inv [OF this f] i2(2) show ?thesis
      by (auto simp: same_config_def tell_def)
  qed
qed

lemma DrainSync_inv: "encoder_inv s \<Longrightarrow> encoder_inv (snd (DrainSync os out s)) \<and> same_config s (snd (DrainSync os out s))"
proof (induction os out s rule: DrainSync.induct)
  case (2 res rs out s)
  obtain b out1 s1 where p: "ProcessOutputOnce res out s = (b, out1, s1)" by (metis prod_cases3)
  from 2 p ProcessOutputOnce_inv [OF p] show ?case by (auto intro: same_config_trans)
qed (simp add: same_config_def)

lemma EncodeNv12_inv:
  assumes "encoder_inv s" and "EncodeNv12 a nv12 s = Some (out, s')"
  shows "encoder_inv s' \<and> same_config s s'"
proof (cases "configured s \<and> unat (expected_size s) \<le> length nv12")
  case False
  then have "EncodeNv12 a nv12 s = Some ([], s)" by (auto simp: EncodeNv12_def)
  with assms show ?thesis by (simp add: same_config_def)
next
  case True
  let ?sample = "take (unat (expected_size s)) nv12"
  define s1 where "s1 = s\<lparr>timestamp := timestamp s + frameDuration s\<rparr>"
  define s2 where "s2 = (if forceKeyFrame s1 then (tell ForcedKeyFrame s1)\<lparr>forceKeyFrame := False\<rparr> else s1)"
  have c: "same_config s s2" by (simp add: s2_def s1_def same_config_def tell_def)
  have "pendingNeedInput s2 = pendingNeedInput s" "mft s2 = mft s \<or> mft s2 = mft s @ [ForcedKeyFrame]"
    by (simp_all add: s2_def s1_def tell_def)
  then have i2: "encoder_inv s2"
    using assms(1) c expected_same [OF c]
    by (auto simp: encoder_inv_def same_config_def fed_ok_def split: option.splits)
  have len: "length ?sample = unat (expected_size s2)" using True expected_same [OF c] by simp
  have eq: "EncodeNv12 a nv12 s =
      (if isAsync s2 then PumpAsync ?sample (timestamp s) (w_polls a) [] s2
       else if w_input a then Some (DrainSync (w_outputs a) [] (tell (Fed ?sample (timestamp s)) s2))
       else Some ([], tell (Fed ?sample (timestamp s)) s2))"
    unfolding EncodeNv12_def Let_def s1_def [symmetric] s2_def [symmetric] using True by simp
  show ?thesis
  proof (cases "isAsync s2")
    case True
    with assms(2) eq PumpAsync_inv [OF i2 True len, of "timestamp s" "w_polls a" "[]" out s'] c show ?thesis
      by (auto intro: same_config_trans)
  next
    case False
    let ?f = "tell (Fed ?sample (timestamp s)) s2"
    have "expected_size ?f = expected_size s2" by (simp add: expected_size_def tell_def)
    then have f: "encoder_inv ?f" "same_config s2 ?f"
      using i2 len False by (auto simp: encoder_inv_def tell_def fed_ok_def same_config_def)
    from DrainSync_inv [OF f(1), of "w_outputs a" "[]"] f c assms(2) eq False show ?thesis
      by (cases "w_input a") (auto intro: same_config_trans)
  qed
qed

lemma encoder_inv_fresh:
  "encoder_inv (s\<lparr>configured := c, isAsync := a, cfg_width := w, cfg_height := h, cfg_fps := r, frameDuration := d, timestamp := t,
     pendingNeedInput := False, spsPpsCache := k, mft := []\<rparr>)"
  by (simp add: encoder_inv_def)

lemma Configure_inv:
  assumes "Configure q w h r s = Some (ok, s')" and "encoder_inv s"
  shows "encoder_inv s'"
  using assms
  by (auto simp: Configure_def encoder_inv_def Let_def split: if_splits option.splits)

subsection \<open>Key frames\<close>

text \<open>Once the transform has given an SPS and a PPS, in whatever access units.\<close>

definition params_seen :: "Encoder \<Rightarrow> bool" where
  "params_seen s \<longleftrightarrow> (\<exists>seen. cache_tracks (spsPpsCache s) seen \<and> last_of kNalTypeSps seen \<noteq> None \<and> last_of kNalTypePps seen \<noteq> None)"

definition unit_ok :: "AccessUnit \<Rightarrow> bool" where
  "unit_ok u \<longleftrightarrow> (\<exists>nals. annexB_bytes u = BuildAccessUnit nals \<and> decodable nals \<and>
     key_frame u = list_ex (\<lambda>n. nal_type n = kNalTypeIdrSlice) nals)"

definition units_ok :: "AccessUnit list \<Rightarrow> Encoder \<Rightarrow> bool" where
  "units_ok out s \<longleftrightarrow> params_seen s \<and> list_all unit_ok out"

lemma last_of_append: "last_of t seen \<noteq> None \<Longrightarrow> last_of t (seen @ nals) \<noteq> None"
  by (induction nals arbitrary: seen rule: rev_induct) (auto simp flip: append_assoc)

lemma units_ok_cong: "units_ok out s \<Longrightarrow> spsPpsCache s' = spsPpsCache s \<Longrightarrow> units_ok out s'"
  by (simp add: units_ok_def params_seen_def)

lemma ExtractFrame_units:
  assumes "units_ok out s"
  shows "units_ok (fst (ExtractFrame x out s)) (snd (ExtractFrame x out s))"
proof (cases x)
  case (Some data)
  let ?nals = "ScanStartCodes data"
  obtain seen where seen: "cache_tracks (spsPpsCache s) seen" "last_of kNalTypeSps seen \<noteq> None" "last_of kNalTypePps seen \<noteq> None"
    using assms by (auto simp: units_ok_def params_seen_def)
  obtain c fixed where e: "EnsureParameterSets (spsPpsCache s) ?nals = (c, fixed)"
    by (cases "EnsureParameterSets (spsPpsCache s) ?nals")
  note more = last_of_append [OF seen(2), of ?nals] last_of_append [OF seen(3), of ?nals]
  have "decodable fixed" using EnsureParameterSets_decodable [OF seen(1) more] e by simp
  then have u: "unit_ok \<lparr>annexB_bytes = BuildAccessUnit fixed, key_frame = list_ex (\<lambda>n. nal_type n = kNalTypeIdrSlice) fixed\<rparr>"
    unfolding unit_ok_def by (intro exI [of _ fixed]) simp
  have "c = foldl cache_nal (spsPpsCache s) ?nals" using fst_EnsureParameterSets [of "spsPpsCache s" ?nals] e by simp
  then have "params_seen (s\<lparr>spsPpsCache := c\<rparr>)"
    unfolding params_seen_def using cache_tracks_fold [OF seen(1), of ?nals] more by auto
  with u assms show ?thesis by (simp add: ExtractFrame_def Some e Let_def units_ok_def)
qed (use assms in \<open>simp add: ExtractFrame_def\<close>)

lemma ProcessOutputOnce_units: "ProcessOutputOnce r out s = (b, out', s') \<Longrightarrow> units_ok out s \<Longrightarrow> units_ok out' s'"
  using ExtractFrame_units [of out s] by (cases r) (auto simp: ProcessOutputOnce_def, metis fst_conv snd_conv)

lemma tell_cache [simp]: "spsPpsCache (tell c s) = spsPpsCache s"
  by (simp add: tell_def)

lemma Drain_units: "DrainAvailableAsync ps out s = (ps', out', s') \<Longrightarrow> units_ok out s \<Longrightarrow> units_ok out' s'"
proof (induction ps out s rule: DrainAvailableAsync.induct)
  case (4 res ps out s)
  obtain b out1 s1 where p: "ProcessOutputOnce res out s = (b, out1, s1)" by (metis prod_cases3)
  with 4 ProcessOutputOnce_units [OF p] show ?case by auto
qed (auto elim: units_ok_cong)

lemma wait_units: "wait_need ps out s = Some (found, ps', out', s') \<Longrightarrow> units_ok out s \<Longrightarrow> units_ok out' s'"
proof (induction ps out s rule: wait_need.induct)
  case (4 res ps out s)
  obtain b out1 s1 where p: "ProcessOutputOnce res out s = (b, out1, s1)" by (metis prod_cases3)
  with 4 ProcessOutputOnce_units [OF p] show ?case by auto
qed (auto elim: units_ok_cong)

lemma DrainSync_units: "units_ok out s \<Longrightarrow> units_ok (fst (DrainSync rs out s)) (snd (DrainSync rs out s))"
proof (induction rs out s rule: DrainSync.induct)
  case (2 res rs out s)
  obtain b out1 s1 where p: "ProcessOutputOnce res out s = (b, out1, s1)" by (metis prod_cases3)
  with 2 ProcessOutputOnce_units [OF p] show ?case by auto
qed simp

lemma PumpAsync_units:
  assumes "units_ok out s" and "PumpAsync sample t ps out s = Some (out', s')"
  shows "units_ok out' s'"
proof -
  obtain ps1 out1 s1 where d: "DrainAvailableAsync ps out s = (ps1, out1, s1)" by (metis prod_cases3)
  note u1 = Drain_units [OF d assms(1)]
  obtain found ps2 out2 s2 where w:
    "(if pendingNeedInput s1 then Some (True, ps1, out1, s1) else wait_need ps1 out1 s1) = Some (found, ps2, out2, s2)"
    using assms(2) by (auto simp: PumpAsync_def d split: option.splits if_splits)
  then have u2: "units_ok out2 s2" using u1 wait_units [of ps1 out1 s1 found ps2 out2 s2] by (auto split: if_splits)
  let ?f = "tell (Fed sample t) (s2\<lparr>pendingNeedInput := False\<rparr>)"
  have f: "units_ok out2 ?f" using u2 by (rule units_ok_cong) simp
  obtain ps3 out3 s3 where d3: "DrainAvailableAsync ps2 out2 ?f = (ps3, out3, s3)" by (metis prod_cases3)
  from Drain_units [OF d3 f] u2 w d d3 assms(2) show ?thesis by (cases found) (simp_all add: PumpAsync_def)
qed

lemma EncodeNv12_units:
  assumes "params_seen s" and "EncodeNv12 a nv12 s = Some (out, s')"
  shows "units_ok out s'"
proof (cases "configured s \<and> unat (expected_size s) \<le> length nv12")
  case False
  then have "EncodeNv12 a nv12 s = Some ([], s)" by (auto simp: EncodeNv12_def)
  with assms show ?thesis by (simp add: units_ok_def)
next
  case True
  let ?sample = "take (unat (expected_size s)) nv12"
  define s1 where "s1 = s\<lparr>timestamp := timestamp s + frameDuration s\<rparr>"
  define s2 where "s2 = (if forceKeyFrame s1 then (tell ForcedKeyFrame s1)\<lparr>forceKeyFrame := False\<rparr> else s1)"
  have u: "units_ok [] s2" "units_ok [] (tell (Fed ?sample (timestamp s)) s2)"
    using assms(1) by (simp_all add: units_ok_def params_seen_def s2_def s1_def)
  have eq: "EncodeNv12 a nv12 s =
      (if isAsync s2 then PumpAsync ?sample (timestamp s) (w_polls a) [] s2
       else if w_input a then Some (DrainSync (w_outputs a) [] (tell (Fed ?sample (timestamp s)) s2))
       else Some ([], tell (Fed ?sample (timestamp s)) s2))"
    unfolding EncodeNv12_def Let_def s1_def [symmetric] s2_def [symmetric] using True by simp
  show ?thesis
    using assms(2) u PumpAsync_units [OF u(1), of ?sample "timestamp s" "w_polls a" out s'] DrainSync_units [OF u(2), of "w_outputs a"]
    unfolding eq by (auto split: if_splits)
qed

subsection \<open>Properties\<close>

datatype EncoderOp = DoConfigure ConfigureAnswer u32 u32 u32 | DoEncode EncodeAnswer bytes | DoRequestKeyFrame

text \<open>A call that never returns ends the run.\<close>

fun encoder_run :: "EncoderOp list \<Rightarrow> Encoder \<Rightarrow> Encoder option" where
  "encoder_run [] s = Some s"
| "encoder_run (DoConfigure q w h r # ops) s = (case Configure q w h r s of None \<Rightarrow> None | Some (ok, s1) \<Rightarrow> encoder_run ops s1)"
| "encoder_run (DoEncode a nv12 # ops) s = (case EncodeNv12 a nv12 s of None \<Rightarrow> None | Some (out, s1) \<Rightarrow> encoder_run ops s1)"
| "encoder_run (DoRequestKeyFrame # ops) s = encoder_run ops (RequestKeyFrame s)"

lemma RequestKeyFrame_inv: "encoder_inv s \<Longrightarrow> encoder_inv (RequestKeyFrame s)"
  by (erule encoder_inv_cong) (simp_all add: RequestKeyFrame_def same_config_def)

lemma encoder_run_inv: "encoder_run ops s = Some s' \<Longrightarrow> encoder_inv s \<Longrightarrow> encoder_inv s'"
proof (induction ops s rule: encoder_run.induct)
  case (2 q w h r ops s)
  then show ?case using Configure_inv [of q w h r s] by (auto split: option.splits)
next
  case (3 a nv12 ops s)
  then show ?case using EncodeNv12_inv [of s a nv12] by (auto split: option.splits)
next
  case (4 ops s)
  then show ?case using RequestKeyFrame_inv by simp
qed simp

text \<open>C34. For any sequence of calls, whatever the transform answers and in whatever order its events come: an asynchronous
  transform is fed only against a need for input it announced and that was not used yet, every picture fed to a
  configured transform is whole, and once the transform has given an SPS and a PPS every access unit of an encoding
  call can be decoded on its own and is marked as a key frame exactly when it has an IDR slice.\<close>

theorem encoder_respects_the_transform:
  assumes "encoder_run ops Encoder_default = Some s"
  shows "(if isAsync s then credits (mft s) \<noteq> None else True) \<and>
    (if configured s then list_all (fed_ok (expected_size s)) (mft s) else True) \<and>
    (case EncodeNv12 a nv12 s of
       None \<Rightarrow> True
     | Some (out, s') \<Rightarrow> (if params_seen s then list_all unit_ok out else True) \<and> configured s' = configured s)"
proof -
  have i: "encoder_inv s" by (rule encoder_run_inv [OF assms]) (simp add: encoder_inv_def Encoder_default_def)
  have "case EncodeNv12 a nv12 s of
       None \<Rightarrow> True
     | Some (out, s') \<Rightarrow> (if params_seen s then list_all unit_ok out else True) \<and> configured s' = configured s"
  proof (cases "EncodeNv12 a nv12 s")
    case (Some r)
    obtain out s' where r: "r = (out, s')" by (cases r)
    with Some EncodeNv12_inv [OF i, of a nv12 out s'] EncodeNv12_units [of s a nv12 out s'] show ?thesis
      by (simp add: units_ok_def same_config_def)
  qed simp
  moreover have "if isAsync s then credits (mft s) \<noteq> None else True"
    using i by (cases "credits (mft s)") (auto simp: encoder_inv_def split: if_splits)
  moreover have "if configured s then list_all (fed_ok (expected_size s)) (mft s) else True"
    using i by (simp add: encoder_inv_def)
  ultimately show ?thesis by simp
qed

definition sample_configure :: ConfigureAnswer where
  "sample_configure = \<lparr>q_hardware = True, q_software = True, q_attributes = True, q_async = True, q_output_type = True,
     q_input_type = True\<rparr>"

text \<open>Two needs are announced at once, then an access unit and the next need.\<close>

definition sample_encode :: EncodeAnswer where
  "sample_encode = \<lparr>w_polls = [Got NeedInput, Got (HaveOutput (Sample (Some [0, 0, 0, 1, 0x67, 1, 0, 0, 0, 1, 0x68, 2, 0, 0, 0, 1, 0x65, 3]))),
     Got NeedInput, NoEvents], w_input = True, w_outputs = []\<rparr>"

lemma encoder_respects_the_transform_witness:
  "case encoder_run [DoConfigure sample_configure 2 2 60, DoRequestKeyFrame, DoEncode sample_encode [1, 2, 3, 4, 5, 6]] Encoder_default of
     None \<Rightarrow> False
   | Some s \<Rightarrow> isAsync s \<and> credits (mft s) \<noteq> None \<and> list_all (fed_ok (expected_size s)) (mft s)"
proof -
  let ?run = "encoder_run [DoConfigure sample_configure 2 2 60, DoRequestKeyFrame, DoEncode sample_encode [1, 2, 3, 4, 5, 6]] Encoder_default"
  have "case ?run of None \<Rightarrow> False | Some s \<Rightarrow> isAsync s \<and> configured s" by code_simp
  then obtain s where s: "?run = Some s" "isAsync s" "configured s" by (cases ?run) auto
  with encoder_respects_the_transform [OF s(1)] show ?thesis by simp
qed

end
