(* ===== verification/UiModel.thy ===== *)
theory UiModel
  imports Config SenderStatus
begin

text \<open>
  The texts of the control panel (\<^verbatim>\<open>src/src/app/UiModel.cpp\<close>): the titles of the
  connection phases and the advice on failures as the UTF-16 units of the source's literals, the stream
  profiles, and the list of devices as it is shown and read back.  The conversions between UTF-8 and
  UTF-16 are Windows calls: parameters \<open>narrow\<close> and \<open>widen\<close>.
\<close>

subsection \<open>Phases, failures, profiles\<close>

fun ConnectionPhaseTitle :: "ConnectionPhase \<Rightarrow> wstring" where
  "ConnectionPhaseTitle Idle = [0x672A, 0x8FDE, 0x63A5]"
| "ConnectionPhaseTitle Connecting = [0x6B63, 0x5728, 0x8FDE, 0x63A5]"
| "ConnectionPhaseTitle WaitingHello = [0x7B49, 0x5F85, 0x0020, 0x004F, 0x0070, 0x0065, 0x006E, 0x0044, 0x0069, 0x0073, 0x0070, 0x006C, 0x0061,
     0x0079]"
| "ConnectionPhaseTitle PreparingDisplay = [0x6B63, 0x5728, 0x51C6, 0x5907, 0x526F, 0x5C4F]"
| "ConnectionPhaseTitle Streaming = [0x6295, 0x5C4F, 0x4E2D]"
| "ConnectionPhaseTitle Reconnecting = [0x6B63, 0x5728, 0x91CD, 0x8FDE]"
| "ConnectionPhaseTitle Sleeping = [0x0069, 0x0050, 0x0061, 0x0064, 0x0020, 0x5DF2, 0x4F11, 0x7720]"
| "ConnectionPhaseTitle Blocked = [0x7B49, 0x5F85, 0x5206, 0x8FA8, 0x7387, 0x8D44, 0x6E90]"
| "ConnectionPhaseTitle UnsafeNetwork = [0x5DF2, 0x963B, 0x6B62, 0x8FDE, 0x63A5]"
| "ConnectionPhaseTitle Failed = [0x8FDE, 0x63A5, 0x5931, 0x8D25]"

fun help_text :: "FailureReason \<Rightarrow> wstring" where
  "help_text ReceiverUnavailable =
     [0x8BF7, 0x5728, 0x0020, 0x0069, 0x0050, 0x0061, 0x0064, 0x0020, 0x524D, 0x53F0, 0x6253, 0x5F00, 0x0020,
      0x004F, 0x0070, 0x0065, 0x006E, 0x0044, 0x0069, 0x0073, 0x0070, 0x006C, 0x0061, 0x0079, 0x0020, 0x540E,
      0x91CD, 0x8BD5]"
| "help_text OpenDisplayUnavailable =
     [0x8BF7, 0x5728, 0x0020, 0x0069, 0x0050, 0x0061, 0x0064, 0x0020, 0x524D, 0x53F0, 0x6253, 0x5F00, 0x0020,
      0x004F, 0x0070, 0x0065, 0x006E, 0x0044, 0x0069, 0x0073, 0x0070, 0x006C, 0x0061, 0x0079, 0x0020, 0x540E,
      0x91CD, 0x8BD5]"
| "help_text UsbUnavailable =
     [0x8BF7, 0x89E3, 0x9501, 0x0020, 0x0069, 0x0050, 0x0061, 0x0064, 0xFF0C, 0x5E76, 0x786E, 0x8BA4, 0x5DF2,
      0x4FE1, 0x4EFB, 0x6B64, 0x7535, 0x8111]"
| "help_text NetworkUnsafe =
     [0x8BF7, 0x5C06, 0x5F53, 0x524D, 0x7F51, 0x7EDC, 0x8BBE, 0x4E3A, 0x4E13, 0x7528, 0x7F51, 0x7EDC, 0xFF0C,
      0x6216, 0x6539, 0x7528, 0x0020, 0x0055, 0x0053, 0x0042]"
| "help_text DriverUnavailable =
     [0x8BF7, 0x5B89, 0x88C5, 0x6216, 0x68C0, 0x67E5, 0x0020, 0x0050, 0x0061, 0x0072, 0x0073, 0x0065, 0x0063,
      0x0020, 0x0056, 0x0069, 0x0072, 0x0074, 0x0075, 0x0061, 0x006C, 0x0020, 0x0044, 0x0069, 0x0073, 0x0070,
      0x006C, 0x0061, 0x0079, 0x0020, 0x0044, 0x0072, 0x0069, 0x0076, 0x0065, 0x0072]"
| "help_text ResolutionUnavailable =
     [0x8BF7, 0x5B8C, 0x6210, 0x9996, 0x6B21, 0x5206, 0x8FA8, 0x7387, 0x6CE8, 0x518C, 0xFF0C, 0x6216, 0x65AD,
      0x5F00, 0x4E0D, 0x540C, 0x5C3A, 0x5BF8, 0x7684, 0x53E6, 0x4E00, 0x53F0, 0x0020, 0x0069, 0x0050, 0x0061,
      0x0064]"
| "help_text CaptureUnavailable =
     [0x0057, 0x0069, 0x006E, 0x0064, 0x006F, 0x0077, 0x0073, 0x0020, 0x65E0, 0x6CD5, 0x6355, 0x83B7, 0x865A,
      0x62DF, 0x663E, 0x793A, 0x5668, 0xFF0C, 0x8BF7, 0x91CD, 0x65B0, 0x8FDE, 0x63A5]"
| "help_text EncoderUnavailable =
     [0x0048, 0x002E, 0x0032, 0x0036, 0x0034, 0x0020, 0x7F16, 0x7801, 0x5668, 0x4E0D, 0x53EF, 0x7528, 0xFF0C,
      0x8BF7, 0x68C0, 0x67E5, 0x663E, 0x5361, 0x9A71, 0x52A8]"
| "help_text AnotherSender =
     [0x8BF7, 0x9000, 0x51FA, 0x53E6, 0x4E00, 0x4E2A, 0x0020, 0x0069, 0x0050, 0x0061, 0x0064, 0x4E92, 0x8054,
      0x8FDB, 0x7A0B]"
| "help_text InvalidPanel =
     [0x004F, 0x0070, 0x0065, 0x006E, 0x0044, 0x0069, 0x0073, 0x0070, 0x006C, 0x0061, 0x0079, 0x0020, 0x8FD4,
      0x56DE, 0x7684, 0x6570, 0x636E, 0x4E0D, 0x517C, 0x5BB9, 0xFF0C, 0x8BF7, 0x91CD, 0x65B0, 0x6253, 0x5F00,
      0x63A5, 0x6536, 0x7AEF]"
| "help_text ProtocolError =
     [0x004F, 0x0070, 0x0065, 0x006E, 0x0044, 0x0069, 0x0073, 0x0070, 0x006C, 0x0061, 0x0079, 0x0020, 0x8FD4,
      0x56DE, 0x7684, 0x6570, 0x636E, 0x4E0D, 0x517C, 0x5BB9, 0xFF0C, 0x8BF7, 0x91CD, 0x65B0, 0x6253, 0x5F00,
      0x63A5, 0x6536, 0x7AEF]"
| "help_text DeviceIdentityMismatch =
     [0x5730, 0x5740, 0x5DF2, 0x88AB, 0x53E6, 0x4E00, 0x53F0, 0x8BBE, 0x5907, 0x4F7F, 0x7528, 0xFF1B, 0x8BF7,
      0x5237, 0x65B0, 0x53D1, 0x73B0, 0x8BB0, 0x5F55, 0x540E, 0x91CD, 0x8BD5]"
| "help_text TransportError =
     [0x94FE, 0x8DEF, 0x5DF2, 0x4E2D, 0x65AD, 0xFF0C, 0x6B63, 0x5728, 0x91CD, 0x8FDE, 0x539F, 0x901A, 0x9053]"
| "help_text NoFailure =
     [0x70B9, 0x51FB, 0x91CD, 0x8BD5, 0xFF1B, 0x5982, 0x679C, 0x4ECD, 0x5931, 0x8D25, 0xFF0C, 0x53EF, 0x5BFC,
      0x51FA, 0x8BCA, 0x65AD, 0x62A5, 0x544A]"

definition FailureHelpText :: "(string \<Rightarrow> wstring) \<Rightarrow> FailureReason \<Rightarrow> string \<Rightarrow> wstring" where
  "FailureHelpText widen fl detail = (if detail \<noteq> [] then widen detail else help_text fl)"

definition InferStreamProfile :: "int \<Rightarrow> int \<Rightarrow> StreamProfile" where
  "InferStreamProfile f bitrate =
     (if f = 60 \<and> bitrate = 30 then Balanced
      else if f = 60 \<and> bitrate = 15 then LowBandwidth
      else if f = 60 \<and> bitrate = 45 then Sharp
      else Custom)"

subsection \<open>The list of devices\<close>

definition is_break :: "u16 \<Rightarrow> bool" where
  "is_break u \<longleftrightarrow> u = 13 \<or> u = 10"

definition wide_blank :: "u16 \<Rightarrow> bool" where
  "wide_blank u \<longleftrightarrow> u = 32 \<or> u = 9"

definition entry_known :: "string \<Rightarrow> DeviceConfig list \<Rightarrow> bool" where
  "entry_known address ds =
     list_ex (\<lambda>d. lastIpv4 d = address \<or> (bonjourHost d \<noteq> [] \<and> bonjourHost d = address)) ds"

definition entry_name :: "string \<Rightarrow> string" where
  "entry_name entry =
     (case find_first is_blank entry 0 of
        None \<Rightarrow> []
      | Some sep \<Rightarrow> (case find_first (\<lambda>c. \<not> is_blank c) entry sep of None \<Rightarrow> [] | Some i \<Rightarrow> drop i entry))"

text \<open>One line of the text.\<close>

definition add_entry :: "(wstring \<Rightarrow> string) \<Rightarrow> int \<Rightarrow> wstring \<Rightarrow> DeviceConfig list \<Rightarrow> DeviceConfig list" where
  "add_entry narrow defaultPort line ds =
     (case find_first (\<lambda>u. \<not> wide_blank u) line 0 of
        None \<Rightarrow> ds
      | Some i \<Rightarrow>
          (let trimmed = rev (dropWhile wide_blank (rev (drop i line)));
               entry = narrow trimmed;
               addr = (case find_first is_blank entry 0 of None \<Rightarrow> entry | Some sep \<Rightarrow> take sep entry)
           in if addr \<noteq> [] \<and> \<not> entry_known addr ds
              then ds @ [DeviceConfig_default
                     \<lparr>lastIpv4 := addr, dev_port := defaultPort, priority := int (length ds),
                      dev_name := (if entry_name entry = [] then addr else entry_name entry)\<rparr>]
              else ds))"

function entries_loop :: "(wstring \<Rightarrow> string) \<Rightarrow> int \<Rightarrow> wstring \<Rightarrow> nat \<Rightarrow> DeviceConfig list \<Rightarrow> DeviceConfig list" where
  "entries_loop narrow defaultPort w pos ds =
     (if pos \<le> length w then
        (let e = value_or (find_first is_break w pos) (length w);
             ds' = add_entry narrow defaultPort (slice w pos e) ds
         in if e = length w then ds' else entries_loop narrow defaultPort w (Suc e) ds')
      else ds)"
  by pat_completeness auto
termination
proof (relation "measure (\<lambda>(narrow, p, w, pos, ds). Suc (length w) - pos)", goal_cases)
  case (2 narrow defaultPort w pos ds e ds')
  then show ?case
    by (cases "find_first is_break w pos") (auto dest: find_first_Some)
qed simp

declare entries_loop.simps [simp del]

definition ParseDeviceEntriesText :: "(wstring \<Rightarrow> string) \<Rightarrow> wstring \<Rightarrow> int \<Rightarrow> DeviceConfig list" where
  "ParseDeviceEntriesText narrow w defaultPort = entries_loop narrow defaultPort w 0 []"

definition endpoint :: "DeviceConfig \<Rightarrow> string" where
  "endpoint d = (if lastIpv4 d \<noteq> [] then lastIpv4 d else bonjourHost d)"

definition entry_line :: "DeviceConfig \<Rightarrow> string" where
  "entry_line d =
     (let line = (if dev_name d \<noteq> [] \<and> dev_name d \<noteq> endpoint d then endpoint d @ '' '' @ dev_name d else endpoint d)
      in if line = [] then dev_id d else line)"

definition DeviceEntryText :: "(string \<Rightarrow> wstring) \<Rightarrow> DeviceConfig \<Rightarrow> wstring" where
  "DeviceEntryText widen d = widen (entry_line d)"

text \<open>The text of the edit control, as \<^verbatim>\<open>SyncPanelSettingsFromConfig\<close> builds it.\<close>

definition device_list_text :: "(string \<Rightarrow> wstring) \<Rightarrow> DeviceConfig list \<Rightarrow> wstring" where
  "device_list_text widen ds =
     foldl (\<lambda>acc d. (if acc \<noteq> [] then acc @ [13, 10] else acc) @ DeviceEntryText widen d) [] ds"

subsection \<open>Lines\<close>

fun split_breaks :: "wstring \<Rightarrow> wstring list" where
  "split_breaks [] = [[]]"
| "split_breaks (u # us) =
     (if is_break u then [] # split_breaks us
      else (case split_breaks us of [] \<Rightarrow> [[u]] | l # ls \<Rightarrow> (u # l) # ls))"

lemma split_breaks_nonempty [simp]: "split_breaks w \<noteq> []"
  by (induction w) (auto split: list.splits)

lemma split_breaks_first:
  "split_breaks w =
     (let l = takeWhile (\<lambda>u. \<not> is_break u) w; r = dropWhile (\<lambda>u. \<not> is_break u) w
      in if r = [] then [l] else l # split_breaks (tl r))"
  by (induction w) (auto simp: Let_def simp del: dropWhile_eq_Nil_conv split: list.splits)

lemma entries_loop_lines:
  "pos \<le> length w \<Longrightarrow>
     entries_loop narrow p w pos ds = foldl (\<lambda>ds l. add_entry narrow p l ds) ds (split_breaks (drop pos w))"
proof (induction narrow p w pos ds rule: entries_loop.induct)
  case (1 narrow p w pos ds)
  let ?l = "takeWhile (\<lambda>u. \<not> is_break u) (drop pos w)" and ?r = "dropWhile (\<lambda>u. \<not> is_break u) (drop pos w)"
  have stop: "skip_while (\<lambda>u. \<not> is_break u) w pos = pos + length ?l" using 1(2) by (rule skip_while_eq)
  have len: "length ?l + length ?r = length w - pos"
    by (metis length_append length_drop takeWhile_dropWhile_id)
  have sl: "slice w pos (pos + length ?l) = ?l" by (simp add: slice_def takeWhile_eq_take [symmetric])
  have r: "?r = drop (pos + length ?l) w" by (simp add: dropWhile_eq_drop add.commute)
  have e: "value_or (find_first is_break w pos) (length w) = pos + length ?l"
    using stop len 1(2) by (simp add: find_first_def Let_def; linarith)
  show ?case
  proof (cases "?r = []")
    case True
    then have "pos + length ?l = length w" using len 1(2) unfolding True by simp
    then have "entries_loop narrow p w pos ds = add_entry narrow p ?l ds"
      using 1(2) e sl by (subst entries_loop.simps) (simp add: Let_def)
    then show ?thesis using True by (subst split_breaks_first) (simp del: dropWhile_eq_Nil_conv)
  next
    case False
    then have lt: "pos + length ?l < length w" using r by simp
    then have "entries_loop narrow p w pos ds = entries_loop narrow p w (Suc (pos + length ?l)) (add_entry narrow p ?l ds)"
      using 1(2) e sl by (subst entries_loop.simps) (simp add: Let_def)
    also have "\<dots> = foldl (\<lambda>ds l. add_entry narrow p l ds) (add_entry narrow p ?l ds) (split_breaks (drop (Suc (pos + length ?l)) w))"
      using 1(1) [OF 1(2) refl refl] e sl lt by simp
    also have "drop (Suc (pos + length ?l)) w = tl ?r" unfolding r by (simp add: drop_Suc tl_drop)
    finally show ?thesis using False by (subst split_breaks_first) (simp add: Let_def del: dropWhile_eq_Nil_conv)
  qed
qed

lemma split_breaks_at: "is_break u \<Longrightarrow> split_breaks (a @ u # b) = split_breaks a @ split_breaks b"
  by (induction a) (auto split: list.splits)

lemma split_breaks_line: "list_all (\<lambda>u. \<not> is_break u) l \<Longrightarrow> split_breaks l = [l]"
  by (induction l) (simp_all add: is_break_def)

lemma add_entry_Nil [simp]: "add_entry narrow p [] ds = ds"
  by (simp add: add_entry_def find_first_def skip_while.simps [of _ _ 0])

subsection \<open>What is shown is read back\<close>

text \<open>What the conversions of a line keep: the line itself, and where its blanks and line breaks are.\<close>

definition line_kept :: "(wstring \<Rightarrow> string) \<Rightarrow> (string \<Rightarrow> wstring) \<Rightarrow> string \<Rightarrow> bool" where
  "line_kept narrow widen s \<longleftrightarrow>
     narrow (widen s) = s \<and> widen s \<noteq> [] \<and> list_all (\<lambda>u. \<not> is_break u) (widen s) \<and>
     \<not> wide_blank (hd (widen s)) \<and> \<not> wide_blank (last (widen s))"

text \<open>A device that the list shows: an endpoint without blanks, and a name that does not begin with one.\<close>

definition shown :: "DeviceConfig \<Rightarrow> bool" where
  "shown d \<longleftrightarrow> endpoint d \<noteq> [] \<and> list_all (\<lambda>c. \<not> is_blank c) (endpoint d) \<and>
     (case dev_name d of [] \<Rightarrow> True | c # cs \<Rightarrow> \<not> is_blank c)"

definition reread :: "int \<Rightarrow> nat \<Rightarrow> DeviceConfig \<Rightarrow> DeviceConfig" where
  "reread p i d = DeviceConfig_default
     \<lparr>lastIpv4 := endpoint d, dev_port := p, priority := int i,
      dev_name := (if dev_name d = [] then endpoint d else dev_name d)\<rparr>"

lemma rev_dropWhile_last: "w \<noteq> [] \<Longrightarrow> \<not> P (last w) \<Longrightarrow> rev (dropWhile P (rev w)) = w"
  by (cases w rule: rev_cases) simp_all

lemma find_first_none: "list_all (\<lambda>c. \<not> P c) a \<Longrightarrow> find_first P a 0 = None"
  using skip_while_app [of "\<lambda>c. \<not> P c" a "[]" "[]"] by (simp add: find_first_def)

lemma find_first_at: "list_all (\<lambda>c. \<not> P c) a \<Longrightarrow> P c \<Longrightarrow> find_first P (a @ c # cs) 0 = Some (length a)"
  using skip_while_app [of "\<lambda>c. \<not> P c" a "c # cs" "[]"] by (simp add: find_first_def)

lemma add_entry_line:
  assumes "line_kept narrow widen (entry_line d)" and "shown d"
  shows "add_entry narrow p (DeviceEntryText widen d) ds =
     (if entry_known (endpoint d) ds then ds else ds @ [reread p (length ds) d])"
proof -
  let ?w = "widen (entry_line d)"
  obtain u us where w: "?w = u # us" "\<not> wide_blank u" using assms(1) by (cases ?w) (auto simp: line_kept_def)
  then have first: "find_first (\<lambda>u. \<not> wide_blank u) ?w 0 = Some 0"
    by (simp add: find_first_def skip_while.simps [of _ _ 0])
  have trim: "narrow (rev (dropWhile wide_blank (rev (drop 0 ?w)))) = entry_line d"
    using assms(1) rev_dropWhile_last [of ?w wide_blank] by (simp add: line_kept_def)
  show ?thesis
  proof (cases "dev_name d \<noteq> [] \<and> dev_name d \<noteq> endpoint d")
    case True
    then obtain c cs where n: "dev_name d = c # cs" "\<not> is_blank c" using assms(2) by (cases "dev_name d") (auto simp: shown_def)
    have line: "entry_line d = endpoint d @ '' '' @ dev_name d" using True by (simp add: entry_line_def)
    have sep: "find_first is_blank (entry_line d) 0 = Some (length (endpoint d))"
      using assms(2) find_first_at [of is_blank "endpoint d" "CHR '' ''" "dev_name d"]
      unfolding line by (simp add: shown_def is_blank_def)
    have "skip_while is_blank (endpoint d @ '' '' @ dev_name d) (length (endpoint d)) = length (endpoint d) + length '' ''"
      by (rule skip_while_app) (use n in \<open>simp_all add: is_blank_def\<close>)
    then have "entry_name (entry_line d) = dev_name d"
      using sep n unfolding entry_name_def by (simp add: find_first_def line)
    with first trim sep assms(2) True show ?thesis
      by (simp add: add_entry_def DeviceEntryText_def Let_def reread_def shown_def line)
  next
    case False
    then have line: "entry_line d = endpoint d" using assms(2) by (auto simp: entry_line_def shown_def)
    have sep: "find_first is_blank (entry_line d) 0 = None"
      using assms(2) find_first_none [of is_blank "endpoint d"] unfolding line by (simp add: shown_def)
    then have "entry_name (entry_line d) = []" by (simp add: entry_name_def)
    with first trim sep assms(2) False show ?thesis
      by (auto simp: add_entry_def DeviceEntryText_def Let_def reread_def shown_def line)
  qed
qed

lemma device_list_snoc:
  "device_list_text widen (ds @ [d]) =
     (if device_list_text widen ds \<noteq> [] then device_list_text widen ds @ [13, 10] else device_list_text widen ds)
       @ DeviceEntryText widen d"
  by (simp add: device_list_text_def)

definition reread_all :: "int \<Rightarrow> DeviceConfig list \<Rightarrow> DeviceConfig list" where
  "reread_all p ds = map (\<lambda>i. reread p i (ds ! i)) [0..<length ds]"

lemma reread_all_snoc: "reread_all p (ds @ [d]) = reread_all p ds @ [reread p (length ds) d]"
  by (simp add: reread_all_def nth_append)

lemma reread_all_known: "entry_known e (reread_all p ds) \<longleftrightarrow> e \<in> set (map endpoint ds)"
proof (induction ds rule: rev_induct)
  case (snoc d ds)
  have "entry_known e (xs @ ys) \<longleftrightarrow> entry_known e xs \<or> entry_known e ys" for xs ys by (simp add: entry_known_def)
  with snoc show ?case by (auto simp: reread_all_snoc) (auto simp: entry_known_def reread_def DeviceConfig_default_def)
qed (simp add: entry_known_def reread_all_def)

lemma list_text_lines:
  assumes "list_all (\<lambda>d. shown d \<and> line_kept narrow widen (entry_line d)) ds" and "distinct (map endpoint ds)"
  shows "foldl (\<lambda>es l. add_entry narrow p l es) [] (split_breaks (device_list_text widen ds)) = reread_all p ds \<and>
    (ds \<noteq> [] \<longrightarrow> device_list_text widen ds \<noteq> [])"
  using assms
proof (induction ds rule: rev_induct)
  case Nil
  then show ?case by (simp add: device_list_text_def reread_all_def)
next
  case (snoc d ds)
  have d: "line_kept narrow widen (entry_line d)" "shown d" using snoc.prems(1) by simp_all
  then have w: "split_breaks (DeviceEntryText widen d) = [DeviceEntryText widen d]" "DeviceEntryText widen d \<noteq> []"
    by (simp_all add: DeviceEntryText_def line_kept_def split_breaks_line)
  have IH: "foldl (\<lambda>es l. add_entry narrow p l es) [] (split_breaks (device_list_text widen ds)) = reread_all p ds"
    "ds \<noteq> [] \<longrightarrow> device_list_text widen ds \<noteq> []"
    using snoc by simp_all
  have "endpoint d \<notin> set (map endpoint ds)" using snoc.prems(2) by simp
  then have add: "add_entry narrow p (DeviceEntryText widen d) (reread_all p ds) = reread_all p (ds @ [d])"
    using add_entry_line [OF d, of p "reread_all p ds"] reread_all_known [of "endpoint d" p ds]
    by (simp add: reread_all_snoc) (simp add: reread_all_def)
  show ?case
  proof (cases "device_list_text widen ds = []")
    case True
    then have "ds = []" using IH(2) by blast
    with True w add show ?thesis by (simp add: device_list_snoc [of _ "[]", simplified] device_list_text_def reread_all_def)
  next
    case False
    have "split_breaks (device_list_text widen ds @ 13 # 10 # DeviceEntryText widen d) =
        split_breaks (device_list_text widen ds) @ [[], DeviceEntryText widen d]"
      using split_breaks_at [of 13] split_breaks_at [of 10 "[]"] w(1) by (simp add: is_break_def)
    with False w IH add show ?thesis by (simp add: device_list_snoc)
  qed
qed



subsection \<open>What is lost\<close>

text \<open>Everything else of a device comes from the defaults: the port of its own, and the choice not to connect to it by
  itself; a device that has only an identifier comes back with it as its address.\<close>

lemma reread_defaults:
  "dev_port (reread p i d) = p" "autoConnect (reread p i d)" "dev_id (reread p i d) = []" "bonjourHost (reread p i d) = []"
  by (simp_all add: reread_def DeviceConfig_default_def)

lemma preset_is_inferred:
  "InferStreamProfile 60 30 = Balanced" "InferStreamProfile 60 15 = LowBandwidth" "InferStreamProfile 60 45 = Sharp"
  by (simp_all add: InferStreamProfile_def)

lemma title_determines_phase: "ConnectionPhaseTitle a = ConnectionPhaseTitle b \<Longrightarrow> a = b"
  by (cases a; cases b) simp_all

end
