(* ===== verification/Redaction.thy ===== *)
theory Redaction
  imports Prelude "HOL-Library.Sublist"
begin

text \<open>
  The redaction of the diagnostics report (\<^verbatim>\<open>RedactDiagnosticsText\<close> of
  \<^verbatim>\<open>src/src/app/UiModel.cpp\<close> and \<^verbatim>\<open>RedactDiagnostics\<close> of
  \<^verbatim>\<open>src/src/app/TrayApp.cpp\<close>).  The loops edit the text in place and go on behind the
  replacement; each is equal to a pass over the characters, and what the passes leave is what the report shows.
\<close>

subsection \<open>The loops\<close>

text \<open>A replacement of every occurrence of \<open>needle\<close> that goes on \<open>skip\<close> characters behind the start of the
  last one.  It may not end: with a needle of one character that the replacement holds behind \<open>skip\<close>.\<close>

partial_function (option) replace_from :: "string \<Rightarrow> string \<Rightarrow> nat \<Rightarrow> string \<Rightarrow> nat \<Rightarrow> string option" where
  "replace_from needle repl skip str pos =
     (case str_find str needle pos of
        None \<Rightarrow> Some str
      | Some p \<Rightarrow> replace_from needle repl skip (take p str @ repl @ drop (p + length needle) str) (p + skip))"

text \<open>The octet loop: \<open>None\<close> when a character is not a digit.\<close>

fun octet_of :: "string \<Rightarrow> nat \<Rightarrow> nat option" where
  "octet_of [] octet = Some octet"
| "octet_of (c # cs) octet = (if is_digit c then octet_of cs (octet * 10 + digit_val c) else None)"

function ipv4_loop :: "string \<Rightarrow> nat \<Rightarrow> nat \<Rightarrow> bool" where
  "ipv4_loop val start parts =
     (if start \<le> length val then
        (let e = find_first (\<lambda>c. c = CHR ''.'') val start;
             stop = (case e of None \<Rightarrow> length val | Some i \<Rightarrow> i) in
         if stop = start \<or> 3 < stop - start then False
         else (case octet_of (slice val start stop) 0 of
                 None \<Rightarrow> False
               | Some octet \<Rightarrow>
                   (if 255 < octet \<or> 4 < parts + 1 then False
                    else (case e of None \<Rightarrow> parts + 1 = 4 | Some i \<Rightarrow> ipv4_loop val (i + 1) (parts + 1)))))
      else parts = 4)"
  by pat_completeness auto
termination
proof (relation "measure (\<lambda>(val, start, parts). Suc (length val) - start)", goal_cases)
  case (2 val start parts e stop octet i)
  then show ?case using find_first_Some [of "\<lambda>c. c = CHR ''.''" val start i] by auto
qed simp

declare ipv4_loop.simps [simp del]

definition IsIpv4 :: "string \<Rightarrow> bool" where
  "IsIpv4 val = ipv4_loop val 0 0"

definition digit_or_dot :: "char \<Rightarrow> bool" where
  "digit_or_dot c \<longleftrightarrow> is_digit c \<or> c = CHR ''.''"

lemma skip_while_gt: "i < length s \<Longrightarrow> P (s ! i) \<Longrightarrow> i < skip_while P s i"
  using skip_while_ge [of "Suc i" P s] by (simp add: skip_while.simps [of P s i])

function redact_ips :: "string \<Rightarrow> nat \<Rightarrow> string" where
  "redact_ips str start =
     (if start < length str then
        (if \<not> is_digit (str ! start) then redact_ips str (Suc start)
         else
           (let e = skip_while digit_or_dot str start;
                dots = length (filter (\<lambda>c. c = CHR ''.'') (slice str start e)) in
            if dots = 3 \<and> IsIpv4 (slice str start e)
            then redact_ips (take start str @ ''<ip>'' @ drop e str) (start + 4)
            else redact_ips str e))
      else str)"
  by pat_completeness auto

termination
proof (relation "measure (\<lambda>(str, start). length str - start)", goal_cases)
  case (3 str start e dots)
  then show ?case
    using skip_while_gt [of start str digit_or_dot] skip_while_bounds [of start str digit_or_dot]
    by (auto simp: digit_or_dot_def)
next
  case (4 str start e dots)
  then show ?case using skip_while_gt [of start str digit_or_dot] by (auto simp: digit_or_dot_def)
qed auto

declare redact_ips.simps [simp del]

definition usb_scheme :: string where "usb_scheme = ''usbmux://''"

definition in_selector :: "char \<Rightarrow> bool" where
  "in_selector c \<longleftrightarrow> \<not> is_space c \<and> c \<noteq> CHR '']''"

function mask_selectors :: "string \<Rightarrow> nat \<Rightarrow> string" where
  "mask_selectors str pos0 =
     (case str_find str usb_scheme pos0 of
        None \<Rightarrow> str
      | Some pos \<Rightarrow>
          (let e = skip_while in_selector str (pos + 9) in
           mask_selectors (take pos str @ ''usbmux://<device>'' @ drop e str) (pos + 18)))"
  by pat_completeness auto
termination
proof (relation "measure (\<lambda>(str, pos0). length str - pos0)", goal_cases)
  case (2 str pos0 pos e)
  then show ?case
    using str_find_Some [of str usb_scheme pos0 pos] skip_while_ge [of "pos + 9" in_selector str]
    by (auto simp: usb_scheme_def)
qed simp

declare mask_selectors.simps [simp del]

definition RedactDiagnosticsText :: "string \<Rightarrow> string \<Rightarrow> string option" where
  "RedactDiagnosticsText str userProfile =
     map_option (\<lambda>t. mask_selectors (redact_ips t 0) 0)
       (if userProfile \<noteq> [] then replace_from userProfile ''<profile>'' 9 str 0 else Some str)"

text \<open>The caller in the tray masks the profile itself, \<open>None\<close> is an environment without one.\<close>

definition RedactDiagnostics :: "string option \<Rightarrow> string \<Rightarrow> string option" where
  "RedactDiagnostics profile str =
     (case profile of
        None \<Rightarrow> RedactDiagnosticsText str []
      | Some p \<Rightarrow>
          Option.bind (if p \<noteq> [] then replace_from p ''<profile>'' 8 str 0 else Some str)
            (\<lambda>t. RedactDiagnosticsText t []))"

subsection \<open>The passes\<close>

function replace_pass :: "string \<Rightarrow> string \<Rightarrow> string \<Rightarrow> string" where
  "replace_pass n r [] = []"
| "replace_pass n r (c # cs) =
     (if n \<noteq> [] \<and> starts_with n (c # cs) then r @ replace_pass n r (drop (length n) (c # cs))
      else c # replace_pass n r cs)"
  by pat_completeness auto
termination
  by (relation "measure (\<lambda>(n, r, s). length s)") (auto simp: neq_Nil_conv)

function ip_pass :: "string \<Rightarrow> string" where
  "ip_pass [] = []"
| "ip_pass (c # cs) =
     (if \<not> is_digit c then c # ip_pass cs
      else (let run = takeWhile digit_or_dot (c # cs) in
            (if length (filter (\<lambda>c. c = CHR ''.'') run) = 3 \<and> IsIpv4 run then ''<ip>'' else run)
              @ ip_pass (dropWhile digit_or_dot (c # cs))))"
  by pat_completeness auto
termination
  by (relation "measure length") (auto simp: digit_or_dot_def intro: le_imp_less_Suc length_dropWhile_le)

function selector_pass :: "string \<Rightarrow> string" where
  "selector_pass [] = []"
| "selector_pass (c # cs) =
     (if starts_with usb_scheme (c # cs)
      then ''usbmux://<device>'' @ selector_pass (dropWhile in_selector (drop (length usb_scheme) (c # cs)))
      else c # selector_pass cs)"
  by pat_completeness auto
termination
proof (relation "measure length", goal_cases)
  case (2 c cs)
  then show ?case
    using length_dropWhile_le [of in_selector "drop (length usb_scheme) (c # cs)"] by (simp add: starts_with_iff usb_scheme_def)
qed simp_all

text \<open>A pass leaves what lies before the first occurrence and works on what lies behind it.\<close>

lemma replace_pass_find:
  "n \<noteq> [] \<Longrightarrow> replace_pass n r s =
     (case find_sub n s of None \<Rightarrow> s | Some k \<Rightarrow> take k s @ r @ replace_pass n r (drop (k + length n) s))"
  by (induction s) (auto split: option.splits)

lemma selector_pass_find:
  "selector_pass s =
     (case find_sub usb_scheme s of
        None \<Rightarrow> s
      | Some k \<Rightarrow> take k s @ ''usbmux://<device>'' @ selector_pass (dropWhile in_selector (drop (k + length usb_scheme) s)))"
  by (induction s) (auto simp: usb_scheme_def [THEN arg_cong, of "\<lambda>l. l = []"] split: option.splits)

lemma drop_skip_while: "i \<le> length s \<Longrightarrow> drop (skip_while P s i) s = dropWhile P (drop i s)"
  by (simp add: skip_while_eq dropWhile_eq_drop add.commute)

lemma slice_skip_while: "i \<le> length s \<Longrightarrow> slice s i (skip_while P s i) = takeWhile P (drop i s)"
  by (simp add: skip_while_eq slice_def takeWhile_eq_take [symmetric])

lemma replace_from_pass:
  assumes "n \<noteq> []" and "k \<le> length r" and "length r - k < length n"
    and resume: "\<And>u. replace_pass n r (drop k r @ u) = drop k r @ replace_pass n r u"
  shows "pos \<le> length s \<Longrightarrow> replace_from n r k s pos = Some (take pos s @ replace_pass n r (drop pos s))"
proof (induction "length s - pos" arbitrary: s pos rule: less_induct)
  case less
  show ?case
  proof (cases "find_sub n (drop pos s)")
    case None
    with less.prems assms(1) show ?thesis
      by (subst replace_from.simps) (simp add: str_find_def replace_pass_find)
  next
    case (Some j)
    have "j + length n \<le> length s - pos" "0 < length n" using find_sub_Some [OF Some] assms(1) by simp_all
    then have j: "pos + j + length n \<le> length s" "pos + j < length s" using less.prems by linarith+
    let ?t = "take (pos + j) s @ r @ drop (pos + j + length n) s"
    have t: "length ?t - (pos + j + k) < length s - pos" "pos + j + k \<le> length ?t"
      using j assms(2,3) by auto
    have "replace_from n r k ?t (pos + j + k) =
        Some (take (pos + j + k) ?t @ replace_pass n r (drop (pos + j + k) ?t))"
      using less.hyps [OF t] .
    moreover have "take (pos + j + k) ?t = take (pos + j) s @ take k r"
      using j assms(2) by (simp add: min_def)
    moreover have "drop (pos + j + k) ?t = drop k r @ drop (pos + j + length n) s"
      using j assms(2) by simp
    ultimately have "replace_from n r k ?t (pos + j + k) =
        Some ((take (pos + j) s @ take k r) @ drop k r @ replace_pass n r (drop (pos + j + length n) s))"
      by (simp only: resume)
    moreover have "replace_from n r k s pos = replace_from n r k ?t (pos + j + k)"
      using Some less.prems by (subst replace_from.simps) (simp add: str_find_def)
    moreover have "replace_pass n r (drop pos s) = take j (drop pos s) @ r @ replace_pass n r (drop (pos + j + length n) s)"
      using Some assms(1) by (simp add: replace_pass_find [of n r "drop pos s"] ac_simps)
    moreover have "take (pos + j) s = take pos s @ take j (drop pos s)" by (rule take_add)
    moreover have "take k r @ drop k r @ u = r @ u" for u by (simp flip: append_assoc)
    ultimately show ?thesis by simp
  qed
qed

lemma redact_ips_pass: "pos \<le> length s \<Longrightarrow> redact_ips s pos = take pos s @ ip_pass (drop pos s)"
proof (induction s pos rule: redact_ips.induct)
  case (1 str start)
  show ?case
  proof (cases "start < length str")
    case False
    with 1 show ?thesis by (subst redact_ips.simps) simp
  next
    case True
    then have d: "drop start str = str ! start # drop (Suc start) str" by (simp add: Cons_nth_drop_Suc)
    define e where "e = skip_while digit_or_dot str start"
    have e: "start \<le> e" "e \<le> length str" "slice str start e = takeWhile digit_or_dot (drop start str)"
        "drop e str = dropWhile digit_or_dot (drop start str)"
      using True skip_while_bounds [of start str digit_or_dot]
      by (simp_all add: e_def slice_skip_while drop_skip_while)
    have t: "take e str = take start str @ takeWhile digit_or_dot (drop start str)"
      using e(1,3) by (metis le_add_diff_inverse slice_def take_add)
    show ?thesis
    proof (cases "is_digit (str ! start)")
      case False
      with True 1 d show ?thesis by (subst redact_ips.simps) (simp add: take_Suc_conv_app_nth)
    next
      case digit: True
      let ?run = "takeWhile digit_or_dot (drop start str)"
      have pass: "ip_pass (drop start str) =
          (if length (filter (\<lambda>c. c = CHR ''.'') ?run) = 3 \<and> IsIpv4 ?run then ''<ip>'' else ?run) @ ip_pass (drop e str)"
        unfolding e(4) unfolding d by (subst ip_pass.simps) (simp only: Let_def digit not_True_eq_False if_False)
      show ?thesis
      proof (cases "length (filter (\<lambda>c. c = CHR ''.'') ?run) = 3 \<and> IsIpv4 ?run")
        case ip: True
        let ?t = "take start str @ ''<ip>'' @ drop e str"
        have "redact_ips str start = redact_ips ?t (start + 4)"
          using True digit ip e(3) by (subst redact_ips.simps) (simp add: Let_def flip: e_def)
        also have "\<dots> = take (start + 4) ?t @ ip_pass (drop (start + 4) ?t)"
          using "1.IH"(2) [OF True _ e_def refl] digit ip True e(3) by simp
        finally show ?thesis using True ip pass by simp
      next
        case no: False
        have "redact_ips str start = redact_ips str e"
          using True digit no e(3) by (subst redact_ips.simps) (auto simp add: Let_def simp flip: e_def)
        also have "\<dots> = take e str @ ip_pass (drop e str)"
          using "1.IH"(3) [OF True _ e_def refl] digit no e(2,3) by simp
        finally show ?thesis unfolding pass t using no by auto
      qed
    qed
  qed
qed

lemma length_usb_scheme [simp]: "length usb_scheme = 9"
  by (simp add: usb_scheme_def)

lemma selector_pass_sep:
  assumes "\<not> in_selector c"
  shows "selector_pass (c # cs) = c # selector_pass cs"
proof -
  have "c \<noteq> CHR ''u''" using assms by (auto simp: in_selector_def is_space_def)
  then have "\<not> starts_with usb_scheme (c # cs)" by (simp add: usb_scheme_def)
  then show ?thesis by simp
qed

lemma mask_selectors_pass:
  "mask_selectors s pos = (if pos \<le> length s then take pos s @ selector_pass (drop pos s) else s)"
proof (induction s pos rule: mask_selectors.induct)
  case (1 str pos0)
  show ?case
  proof (cases "str_find str usb_scheme pos0")
    case None
    then show ?thesis
      by (subst mask_selectors.simps) (auto simp: str_find_def selector_pass_find [of "drop pos0 str"] split: if_splits)
  next
    case (Some pos)
    then obtain j where j: "find_sub usb_scheme (drop pos0 str) = Some j" "pos = pos0 + j" "pos0 \<le> length str"
      by (auto simp: str_find_def split: if_splits)
    have b: "pos + 9 \<le> length str" using str_find_Some(2) [OF Some] by simp
    define e where "e = skip_while in_selector str (pos + 9)"
    define u where "u = dropWhile in_selector (drop (pos + 9) str)"
    have rest: "drop e str = u" using b by (simp add: e_def u_def drop_skip_while)
    define w where "w = ''usbmux://<device>''"
    let ?t = "take pos str @ w @ u"
    have len: "length (take pos str) = pos" "length w = 17" using b by (simp_all add: w_def)
    have "mask_selectors str pos0 = mask_selectors ?t (pos + 18)"
      using Some rest by (subst mask_selectors.simps) (simp add: Let_def w_def flip: e_def)
    also have "\<dots> = (if pos + 18 \<le> length ?t then take (pos + 18) ?t @ selector_pass (drop (pos + 18) ?t) else ?t)"
      using "1.IH" [OF Some e_def] unfolding rest w_def .
    also have "\<dots> = take pos str @ w @ selector_pass u"
    proof (cases u)
      case Nil
      with len show ?thesis by simp
    next
      case (Cons c cs)
      then have "\<not> in_selector c" unfolding u_def by (metis hd_dropWhile list.distinct(1) list.sel(1))
      from selector_pass_sep [OF this] Cons len show ?thesis by simp
    qed
    also have "\<dots> = take pos0 str @ selector_pass (drop pos0 str)"
      using j(1) unfolding j(2) take_add w_def u_def
      by (simp add: selector_pass_find [of "drop pos0 str"] ac_simps)
    finally show ?thesis using j(3) by simp
  qed
qed

subsection \<open>What is masked\<close>

text \<open>A masked text: brackets around a word stand for a part of the original.\<close>

inductive masks :: "string \<Rightarrow> string \<Rightarrow> bool" where
  masks_Nil: "masks [] []"
| masks_keep: "masks s t \<Longrightarrow> masks (c # s) (c # t)"
| masks_word: "masks s t \<Longrightarrow> CHR '':'' \<notin> set w \<Longrightarrow> masks (old @ s) (CHR ''<'' # w @ CHR ''>'' # t)"

lemma masks_prefix:
  "masks s t \<Longrightarrow> CHR ''<'' \<notin> set w \<Longrightarrow> prefix w t \<Longrightarrow> prefix w s"
proof (induction arbitrary: w rule: masks.induct)
  case (masks_keep s t c)
  then show ?case by (cases w) auto
next
  case (masks_word s t v old)
  then show ?case by (cases w) auto
qed simp

lemma sublist_split:
  "sublist w (a @ c # b) \<Longrightarrow> c \<notin> set w \<Longrightarrow> sublist w a \<or> sublist w b"
  by (auto simp: sublist_append prefix_Cons sublist_Cons_right)

lemma masks_sublist:
  assumes "masks s t" and "CHR ''<'' \<notin> set w" and "CHR ''>'' \<notin> set w" and "CHR '':'' \<in> set w"
  shows "sublist w t \<Longrightarrow> sublist w s"
  using assms
proof (induction rule: masks.induct)
  case (masks_keep s t c)
  then consider "prefix w (c # t)" | "sublist w t" by (auto simp: sublist_Cons_right)
  then show ?case
  proof cases
    case 1
    with masks_prefix [OF masks.masks_keep [OF masks_keep.hyps, of c], of w] masks_keep.prems show ?thesis by blast
  next
    case 2
    with masks_keep show ?thesis by (simp add: sublist_Cons_right)
  qed
next
  case (masks_word s t v old)
  then have "sublist w (v @ CHR ''>'' # t)" using sublist_split [of w "[]" "CHR ''<''"] by (auto dest: set_mono_sublist)
  then have "sublist w t" using sublist_split [of w v "CHR ''>''" t] masks_word by (auto dest: set_mono_sublist)
  with masks_word show ?case by (auto simp: sublist_append)
qed simp

lemma masks_refl: "masks s s"
  by (induction s) (auto intro: masks.intros)

lemma masks_append: "masks s t \<Longrightarrow> masks (r @ s) (r @ t)"
  by (induction r) (auto intro: masks.intros)

lemma replace_pass_here: "n \<noteq> [] \<Longrightarrow> replace_pass n r (n @ u) = r @ replace_pass n r u"
  by (cases n) simp_all

lemma masks_replace_pass:
  assumes "CHR '':'' \<notin> set v"
  shows "masks s (replace_pass n (CHR ''<'' # v @ ''>'') s)"
proof (induction n "CHR ''<'' # v @ ''>''" s rule: replace_pass.induct)
  case (2 n c cs)
  show ?case
  proof (cases "n \<noteq> [] \<and> starts_with n (c # cs)")
    case True
    then obtain rest where "c # cs = n @ rest" by (auto simp: starts_with_iff)
    with 2(1) True masks_word [OF _ assms, of rest _ n] show ?thesis by (simp add: replace_pass_here)
  next
    case False
    with 2(2) show ?thesis by (auto intro: masks_keep)
  qed
qed (auto intro: masks.intros)

lemma masks_ip_pass: "masks s (ip_pass s)"
proof (induction s rule: ip_pass.induct)
  case (2 c cs)
  show ?case
  proof (cases "is_digit c")
    case True
    let ?run = "takeWhile digit_or_dot (c # cs)" and ?rest = "dropWhile digit_or_dot (c # cs)"
    have IH: "masks ?rest (ip_pass ?rest)" using 2(2) True by blast
    have "masks (?run @ ?rest) (?run @ ip_pass ?rest)" by (rule masks_append [OF IH])
    moreover have "masks (?run @ ?rest) (CHR ''<'' # ''ip'' @ CHR ''>'' # ip_pass ?rest)"
      by (rule masks_word [OF IH]) simp
    ultimately show ?thesis using True by (simp only: ip_pass.simps Let_def takeWhile_dropWhile_id) auto
  next
    case False
    with 2(1) show ?thesis by (auto intro: masks_keep)
  qed
qed (auto intro: masks.intros)

lemma masks_selector_pass: "masks s (selector_pass s)"
proof (induction s rule: selector_pass.induct)
  case (2 c cs)
  show ?case
  proof (cases "starts_with usb_scheme (c # cs)")
    case True
    then obtain old where old: "c # cs = usb_scheme @ old" by (auto simp: starts_with_iff)
    let ?rest = "dropWhile in_selector old"
    have "masks ?rest (selector_pass ?rest)" using 2(1) True old by simp
    then have "masks (takeWhile in_selector old @ ?rest) (CHR ''<'' # ''device'' @ CHR ''>'' # selector_pass ?rest)"
      by (rule masks_word) simp
    from masks_append [OF this, of usb_scheme] True old show ?thesis
      by (simp add: selector_pass.simps(2) [of c cs]) (simp add: usb_scheme_def)
  next
    case False
    with 2(2) show ?thesis by (auto intro: masks_keep)
  qed
qed (auto intro: masks.intros)

subsection \<open>What a report shows\<close>

text \<open>An IPv4 address that stands alone: a maximal run of digits and dots, \<open>inside\<close> telling whether the
  character before is one.\<close>

fun shows_ip :: "bool \<Rightarrow> string \<Rightarrow> bool" where
  "shows_ip inside [] = False"
| "shows_ip inside (c # cs) =
     ((\<not> inside \<and> IsIpv4 (takeWhile digit_or_dot (c # cs))) \<or> shows_ip (digit_or_dot c) cs)"

text \<open>A selector that is not the placeholder.\<close>

fun shows_selector :: "string \<Rightarrow> bool" where
  "shows_selector [] = False"
| "shows_selector (c # cs) =
     ((starts_with usb_scheme (c # cs) \<and> \<not> starts_with ''usbmux://<device>'' (c # cs)) \<or> shows_selector cs)"

lemma replace_pass_done:
  assumes "n \<noteq> []" and "CHR ''<'' \<notin> set n" and "CHR ''>'' \<notin> set n" and "CHR '':'' \<in> set n" and "CHR '':'' \<notin> set v"
  shows "\<not> sublist n (replace_pass n (CHR ''<'' # v @ ''>'') s)"
proof (induction s rule: length_induct)
  case (1 s)
  let ?r = "CHR ''<'' # v @ ''>''"
  show ?case
  proof (cases "starts_with n s")
    case True
    then obtain u where u: "s = n @ u" by (auto simp: starts_with_iff)
    have "\<not> sublist n (replace_pass n ?r u)" using 1 u assms(1) by simp
    moreover have "\<not> sublist n v" using assms(4,5) by (auto dest: set_mono_sublist)
    ultimately have "\<not> sublist n (v @ CHR ''>'' # replace_pass n ?r u)"
      using sublist_split [of n v "CHR ''>''" "replace_pass n ?r u"] assms(3) by argo
    moreover have "\<not> sublist n []" using assms(1) by simp
    ultimately have "\<not> sublist n ([] @ CHR ''<'' # v @ CHR ''>'' # replace_pass n ?r u)"
      using sublist_split [of n "[]" "CHR ''<''" "v @ CHR ''>'' # replace_pass n ?r u"] assms(2) by argo
    with u assms(1) show ?thesis by (simp add: replace_pass_here)
  next
    case False
    show ?thesis
    proof (cases s)
      case (Cons c cs)
      have "\<not> sublist n (replace_pass n ?r cs)" using 1 Cons by simp
      moreover have "\<not> prefix n (c # replace_pass n ?r cs)"
        using masks_prefix [OF masks_keep [OF masks_replace_pass [OF assms(5)]], of n c n cs] assms(2) False Cons
        by (auto simp: starts_with_iff prefix_def)
      ultimately show ?thesis using Cons False by (simp add: sublist_Cons_right)
    qed (use assms(1) in simp)
  qed
qed

subsection \<open>IPv4 addresses\<close>

definition octet_text :: "string \<Rightarrow> bool" where
  "octet_text p \<longleftrightarrow> p \<noteq> [] \<and> length p \<le> 3 \<and> (case octet_of p 0 of None \<Rightarrow> False | Some n \<Rightarrow> n \<le> 255)"

text \<open>That many octets with dots between them.\<close>

fun octets_text :: "nat \<Rightarrow> string \<Rightarrow> bool" where
  "octets_text 0 s = False"
| "octets_text (Suc 0) s = octet_text s"
| "octets_text (Suc (Suc n)) s = (\<exists>p q. s = p @ CHR ''.'' # q \<and> octet_text p \<and> octets_text (Suc n) q)"

lemma octet_digits: "octet_of s k \<noteq> None \<Longrightarrow> list_all is_digit s"
  by (induction s arbitrary: k) (auto split: if_splits)

lemma octet_text_digits: "octet_text p \<Longrightarrow> list_all is_digit p"
  using octet_digits [of p 0] by (auto simp: octet_text_def split: option.splits)

abbreviation no_dot :: "char \<Rightarrow> bool" where "no_dot c \<equiv> c \<noteq> CHR ''.''"

lemma octet_no_dot: "octet_text p \<Longrightarrow> list_all no_dot p"
  using octet_text_digits [of p] by (auto simp: list_all_iff is_digit_def)

lemma octets_text_split:
  "octets_text (Suc n) s \<longleftrightarrow>
     octet_text (takeWhile no_dot s) \<and>
     (if dropWhile no_dot s = [] then n = 0 else 0 < n \<and> octets_text n (tl (dropWhile no_dot s)))"
proof (cases n)
  case 0
  have "takeWhile no_dot s = s" "dropWhile no_dot s = []" if "octet_text s"
    using octet_no_dot [OF that] by (simp_all add: list_all_iff)
  moreover have "takeWhile no_dot s = s" if "dropWhile no_dot s = []"
    using that by (metis append.right_neutral takeWhile_dropWhile_id)
  ultimately have "octet_text s \<longleftrightarrow> octet_text (takeWhile no_dot s) \<and> dropWhile no_dot s = []" by metis
  with 0 show ?thesis by (simp del: dropWhile_eq_Nil_conv)
next
  case (Suc m)
  show ?thesis
  proof (cases "dropWhile no_dot s")
    case Nil
    then have "CHR ''.'' \<notin> set s" by auto
    then have "\<not> octets_text (Suc n) s" using Suc by auto
    with Suc Nil show ?thesis by (simp del: octets_text.simps dropWhile_eq_Nil_conv)
  next
    case (Cons d q)
    then have "d = CHR ''.''" using hd_dropWhile [of no_dot s] unfolding Cons by simp
    then have s: "takeWhile no_dot s @ CHR ''.'' # q = s" using takeWhile_dropWhile_id [of no_dot s] unfolding Cons by simp
    have "p = takeWhile no_dot s \<and> q' = q" if "s = p @ CHR ''.'' # q'" "octet_text p" for p q'
    proof -
      have "\<forall>c \<in> set p. no_dot c" using octet_no_dot [OF that(2)] by (simp add: list_all_iff)
      then have "takeWhile no_dot (p @ CHR ''.'' # q') = p" "dropWhile no_dot (p @ CHR ''.'' # q') = CHR ''.'' # q'" by simp_all
      with Cons show ?thesis unfolding that(1) [symmetric] by simp
    qed
    then have "(\<exists>p q'. s = p @ CHR ''.'' # q' \<and> octet_text p \<and> octets_text (Suc m) q') \<longleftrightarrow>
        octet_text (takeWhile no_dot s) \<and> octets_text (Suc m) q" using s by metis
    with Suc Cons show ?thesis by simp
  qed
qed

lemma ipv4_loop_octets:
  "start \<le> length s \<Longrightarrow> parts < 4 \<Longrightarrow> ipv4_loop s start parts \<longleftrightarrow> octets_text (4 - parts) (drop start s)"
proof (induction "4 - parts" arbitrary: start parts)
  case (Suc n)
  note n = Suc.hyps(2) and IH = Suc.hyps(1) and parts = Suc.prems(2)
  let ?p = "takeWhile no_dot (drop start s)"
  have stop: "skip_while no_dot s start = start + length ?p" using Suc.prems(1) by (rule skip_while_eq)
  have e: "find_first (\<lambda>c. c = CHR ''.'') s start =
      (if dropWhile no_dot (drop start s) = [] then None else Some (start + length ?p))"
    using stop length_takeWhile_le [of no_dot "drop start s"] Suc.prems(1)
    by (auto simp: find_first_def dropWhile_eq_drop)
  show ?case
  proof (cases "dropWhile no_dot (drop start s)")
    case Nil
    then have p: "?p = drop start s" by (metis append.right_neutral takeWhile_dropWhile_id)
    have sl: "slice s start (length s) = drop start s" by (simp add: slice_def)
    have "find_first (\<lambda>c. c = CHR ''.'') s start = None" using e unfolding Nil by simp
    then have "ipv4_loop s start parts \<longleftrightarrow> octet_text (drop start s) \<and> parts = 3"
      using Suc.prems sl by (subst ipv4_loop.simps) (auto simp: octet_text_def Let_def split: option.splits)
    then have "ipv4_loop s start parts \<longleftrightarrow> octet_text ?p \<and> parts = 3" unfolding p .
    with octets_text_split [of n "drop start s"] Suc.hyps(2) Nil show ?thesis by (simp del: dropWhile_eq_Nil_conv) arith
  next
    case (Cons d q)
    have len: "start + length ?p < length s"
      using Cons arg_cong [OF takeWhile_dropWhile_id [of no_dot "drop start s"], of length] by simp
    have q: "q = drop (Suc (start + length ?p)) s"
      using Cons by (metis add.commute drop_Suc drop_drop dropWhile_eq_drop list.sel(3) tl_drop)
    have "slice s start (start + length ?p) = ?p" by (simp add: slice_def takeWhile_eq_take [symmetric])
    then have step: "ipv4_loop s start parts \<longleftrightarrow> octet_text ?p \<and> ipv4_loop s (Suc (start + length ?p)) (Suc parts)"
      using Suc.prems Cons e by (subst ipv4_loop.simps) (auto simp: octet_text_def Let_def split: option.splits)
    show ?thesis
    proof (cases n)
      case 0
      then have "parts = 3" using Suc by simp
      then have "\<not> ipv4_loop s (Suc (start + length ?p)) (Suc parts)"
        using len by (subst ipv4_loop.simps) (auto simp: Let_def split: option.splits)
      with step octets_text_split [of n "drop start s"] Cons 0 show ?thesis unfolding Suc.hyps(2) [symmetric] by simp
    next
      case (Suc m)
      have k: "n = 4 - Suc parts" "Suc parts < 4" using n Suc by arith+
      have "ipv4_loop s (Suc (start + length ?p)) (Suc parts) \<longleftrightarrow> octets_text n q"
        using IH [OF k(1) _ k(2), of "Suc (start + length ?p)"] len unfolding q k(1) by simp
      with step octets_text_split [of n "drop start s"] Cons Suc show ?thesis unfolding n [symmetric] by simp
    qed
  qed
qed simp

lemma IsIpv4_octets: "IsIpv4 s \<longleftrightarrow> octets_text 4 s"
  using ipv4_loop_octets [of 0 s 0] by (simp add: IsIpv4_def)

lemma octets_text_dots:
  "octets_text n s \<Longrightarrow> s \<noteq> [] \<and> is_digit (hd s) \<and> length (filter (\<lambda>c. c = CHR ''.'') s) = n - 1"
proof (induction n s rule: octets_text.induct)
  case (2 s)
  then show ?case using octet_text_digits [of s] octet_no_dot [of s]
    by (cases s) (auto simp: octet_text_def list_all_iff filter_empty_conv)
next
  case (3 n s)
  then obtain p q where s: "s = p @ CHR ''.'' # q" "octet_text p" "octets_text (Suc n) q" by auto
  with 3 have "length (filter (\<lambda>c. c = CHR ''.'') q) = n" by auto
  moreover have "filter (\<lambda>c. c = CHR ''.'') p = []" using octet_no_dot [OF s(2)] by (simp add: list_all_iff filter_empty_conv)
  moreover have "p \<noteq> []" "is_digit (hd p)" using s(2) octet_text_digits [OF s(2)] by (cases p; simp add: octet_text_def)+
  ultimately show ?case using s(1) by simp
qed simp

lemma IsIpv4_hd: "IsIpv4 s \<Longrightarrow> s \<noteq> [] \<and> is_digit (hd s) \<and> length (filter (\<lambda>c. c = CHR ''.'') s) = 3"
  unfolding IsIpv4_octets using octets_text_dots [of 4 s] by simp

lemma IsIpv4_Nil [simp]: "\<not> IsIpv4 []"
  using IsIpv4_hd by blast

lemma shows_ip_stop: "s = [] \<or> \<not> digit_or_dot (hd s) \<Longrightarrow> shows_ip b s = shows_ip b' s"
  by (cases s) auto

lemma shows_ip_inside: "list_all digit_or_dot r \<Longrightarrow> shows_ip True (r @ s) = shows_ip True s"
  by (induction r) auto

lemma shows_ip_run:
  assumes "list_all digit_or_dot r" and "r \<noteq> []" and "s = [] \<or> \<not> digit_or_dot (hd s)"
  shows "shows_ip False (r @ s) \<longleftrightarrow> IsIpv4 r \<or> shows_ip False s"
proof -
  obtain c cs where r: "r = c # cs" using assms(2) by (cases r) auto
  have "takeWhile digit_or_dot (r @ s) = r" using assms(1,3) by (cases s) (auto simp: list_all_iff)
  with r assms(1) shows_ip_inside [of cs s] shows_ip_stop [OF assms(3)] show ?thesis by auto
qed

subsection \<open>No address and no selector is left\<close>

lemma digit_not_special: "is_digit c \<Longrightarrow> digit_or_dot c"
  by (simp add: digit_or_dot_def)

lemma scheme_chars [simp]:
  "digit_or_dot (CHR ''u'') = False" "digit_or_dot (CHR ''s'') = False" "digit_or_dot (CHR ''b'') = False"
  "digit_or_dot (CHR ''m'') = False" "digit_or_dot (CHR ''x'') = False" "digit_or_dot (CHR '':'') = False"
  "digit_or_dot (CHR ''/'') = False" "digit_or_dot (CHR ''<'') = False" "digit_or_dot (CHR ''d'') = False"
  "digit_or_dot (CHR ''e'') = False" "digit_or_dot (CHR ''v'') = False" "digit_or_dot (CHR ''i'') = False"
  "digit_or_dot (CHR ''c'') = False" "digit_or_dot (CHR ''>'') = False" "digit_or_dot (CHR ''p'') = False"
  by (simp_all add: digit_or_dot_def is_digit_def)

lemma ip_pass_hd: "\<not> digit_or_dot (hd s) \<Longrightarrow> s \<noteq> [] \<Longrightarrow> ip_pass s \<noteq> [] \<and> hd (ip_pass s) = hd s"
  by (cases s) (auto simp: digit_or_dot_def)

lemma ip_pass_shows: "\<not> shows_ip b (ip_pass s)"
proof (induction s arbitrary: b rule: ip_pass.induct)
  case (2 c cs)
  show ?case
  proof (cases "is_digit c")
    case False
    have "\<not> IsIpv4 (takeWhile digit_or_dot (c # ip_pass cs))"
      using IsIpv4_hd [of "takeWhile digit_or_dot (c # ip_pass cs)"] False by (cases "digit_or_dot c") auto
    with 2(1) [OF False] False show ?thesis by simp
  next
    case True
    define run where "run = takeWhile digit_or_dot (c # cs)"
    define rest where "rest = dropWhile digit_or_dot (c # cs)"
    have run: "list_all digit_or_dot run" "run \<noteq> []"
      using set_takeWhileD [of _ digit_or_dot "c # cs"] digit_not_special [OF True] by (auto simp: run_def list_all_iff)
    have IH: "\<not> shows_ip b (ip_pass rest)" for b using 2(2) True by (simp add: rest_def)
    have rest: "ip_pass rest = [] \<or> \<not> digit_or_dot (hd (ip_pass rest))"
      using hd_dropWhile [of digit_or_dot "c # cs"] ip_pass_hd [of rest] unfolding rest_def [symmetric]
      by (cases "rest = []") simp_all
    have e: "ip_pass (c # cs) = (if length (filter (\<lambda>c. c = CHR ''.'') run) = 3 \<and> IsIpv4 run then ''<ip>'' else run) @ ip_pass rest"
      using True by (simp only: ip_pass.simps Let_def run_def rest_def not_True_eq_False if_False)
    show ?thesis
    proof (cases "length (filter (\<lambda>c. c = CHR ''.'') run) = 3 \<and> IsIpv4 run")
      case True
      have "ip_pass (c # cs) = ''<ip>'' @ ip_pass rest" unfolding e if_P [OF True] ..
      then show ?thesis using IH [of False] by (simp del: ip_pass.simps)
    next
      case False
      then have no: "\<not> IsIpv4 run" using IsIpv4_hd by blast
      have e': "ip_pass (c # cs) = run @ ip_pass rest" using e False by (simp only: if_False)
      show ?thesis
      proof (cases b)
        case True
        with IH [of True] shows_ip_inside [OF run(1)] show ?thesis unfolding e' by simp
      next
        case b: False
        with no IH [of False] shows_ip_run [OF run rest] show ?thesis unfolding e' by simp
      qed
    qed
  qed
qed simp

lemma separator_not_dot: "\<not> in_selector c \<Longrightarrow> \<not> digit_or_dot c"
  by (auto simp: in_selector_def digit_or_dot_def is_space_def is_digit_def)

lemma shows_ip_later: "\<not> digit_or_dot c \<Longrightarrow> shows_ip False s \<Longrightarrow> shows_ip b (pre @ c # s)"
  by (induction pre arbitrary: b) auto

lemma selector_pass_take9: "take 9 (selector_pass s) = take 9 s"
proof (induction s rule: selector_pass.induct)
  case (2 c cs)
  show ?case
  proof (cases "starts_with usb_scheme (c # cs)")
    case True
    then have "take 9 (c # cs) = usb_scheme" by (simp add: starts_with_take)
    then show ?thesis using True by (simp add: selector_pass.simps(2) [of c cs]) (simp add: usb_scheme_def)
  next
    case False
    have "take 8 (selector_pass cs) = take 8 cs" using arg_cong [OF 2(2) [OF False], of "take 8"] by simp
    with False show ?thesis by (simp add: take_Cons')
  qed
qed simp

lemma takeWhile_selector_pass: "takeWhile digit_or_dot (selector_pass s) = takeWhile digit_or_dot s"
proof (induction s rule: selector_pass.induct)
  case (2 c cs)
  show ?case
  proof (cases "starts_with usb_scheme (c # cs)")
    case True
    then have "c = CHR ''u''" by (simp add: usb_scheme_def)
    with True show ?thesis by (simp add: selector_pass.simps(2) [of c cs])
  next
    case False
    with 2(2) show ?thesis by simp
  qed
qed simp

lemma selector_pass_ip: "shows_ip b (selector_pass s) \<Longrightarrow> shows_ip b s"
proof (induction s arbitrary: b rule: selector_pass.induct)
  case (2 c cs)
  show ?case
  proof (cases "starts_with usb_scheme (c # cs)")
    case True
    define rest where "rest = dropWhile in_selector (drop (length usb_scheme) (c # cs))"
    have e: "selector_pass (c # cs) = ''usbmux://<device>'' @ selector_pass rest"
      using True by (simp add: selector_pass.simps(2) [of c cs] rest_def)
    have "shows_ip False (selector_pass rest)" using 2(3) unfolding e by simp
    then have IH: "shows_ip False rest" using 2(1) [OF True] by (simp add: rest_def)
    then obtain d ds where d: "rest = d # ds" by (cases rest) auto
    with hd_dropWhile [of in_selector "drop (length usb_scheme) (c # cs)"] have nd: "\<not> digit_or_dot d"
      unfolding rest_def [symmetric] by (intro separator_not_dot) simp
    with IH d have ds: "shows_ip False ds" by simp
    have "\<exists>pre. c # cs = pre @ rest"
      unfolding rest_def by (metis append.assoc append_take_drop_id takeWhile_dropWhile_id)
    with shows_ip_later [OF nd ds] d show ?thesis by metis
  next
    case False
    with 2(2) [OF False] 2(3) takeWhile_selector_pass [of cs] show ?thesis by auto
  qed
qed simp

lemma selector_pass_shows: "\<not> shows_selector (selector_pass s)"
proof (induction s rule: selector_pass.induct)
  case (2 c cs)
  show ?case
  proof (cases "starts_with usb_scheme (c # cs)")
    case True
    define rest where "rest = dropWhile in_selector (drop (length usb_scheme) (c # cs))"
    have e: "selector_pass (c # cs) = ''usbmux://<device>'' @ selector_pass rest"
      using True by (simp add: selector_pass.simps(2) [of c cs] rest_def)
    have "\<not> shows_selector (selector_pass rest)" using 2(1) [OF True] by (simp add: rest_def)
    then show ?thesis unfolding e by (simp add: usb_scheme_def)
  next
    case False
    then have e: "selector_pass (c # cs) = c # selector_pass cs" by simp
    have "\<not> starts_with usb_scheme (c # selector_pass cs)"
      using False selector_pass_take9 [of "c # cs"] unfolding e starts_with_take length_usb_scheme by simp
    with 2(2) [OF False] show ?thesis unfolding e by simp
  qed
qed simp

text \<open>A profile path has a drive letter and a colon, and no bracket, which Windows does not allow in a name.\<close>

definition profile_path :: "string \<Rightarrow> bool" where
  "profile_path p \<longleftrightarrow> 2 \<le> length p \<and> CHR '':'' \<in> set p \<and> CHR ''<'' \<notin> set p \<and> CHR ''>'' \<notin> set p"

lemma redact_text_pass: "RedactDiagnosticsText t [] = Some (selector_pass (ip_pass t))"
  by (simp add: RedactDiagnosticsText_def redact_ips_pass mask_selectors_pass)

lemma redact_profile_pass:
  assumes "profile_path p"
  shows "replace_from p ''<profile>'' 8 t 0 = Some (replace_pass p ''<profile>'' t)"
proof -
  have "p \<noteq> []" "hd p \<noteq> CHR ''>''" "1 < length p" using assms by (cases p; auto simp: profile_path_def)+
  moreover from this have "replace_pass p ''<profile>'' (drop 8 ''<profile>'' @ u) = drop 8 ''<profile>'' @ replace_pass p ''<profile>'' u" for u
    by (cases p) simp_all
  ultimately show ?thesis using replace_from_pass [of p 8 "''<profile>''" 0 t] by simp
qed


definition sample_profile :: string where
  "sample_profile = ''C:'' @ [CHR 0x5C] @ ''Users'' @ [CHR 0x5C] @ ''T''"


text \<open>What is missed: the selectors of the program begin with \<^verbatim>\<open>usb:\<close> (\<^verbatim>\<open>MakeUsbMuxTarget\<close>), and a
  sender's log lines begin with its target; such a line leaves with the identifier of the device.  An address with
  a dot behind it, as at the end of a sentence, is kept too.\<close>

lemma usb_tag_is_kept:
  "RedactDiagnostics None ''[usb:00008030-001A] up'' = Some ''[usb:00008030-001A] up''"
  unfolding RedactDiagnostics_def option.case redact_text_pass by code_simp

lemma address_before_a_dot_is_kept:
  "RedactDiagnostics None ''lost 192.168.1.42.'' = Some ''lost 192.168.1.42.''"
  unfolding RedactDiagnostics_def option.case redact_text_pass by code_simp

end
