(* ===== verification/Routing.thy ===== *)
theory Routing
  imports Input
begin

text \<open>
  Where windows go: the placement helpers of \<^verbatim>\<open>src/src/app/WindowRouting.cpp\<close> and the
  router of taskbar clicks (\<^verbatim>\<open>src/src/app/TaskbarRouter.h\<close>,
  \<^verbatim>\<open>src/src/app/TaskbarRouter.cpp\<close>).  What Windows tells about a window, a monitor
  or the processes is an argument; what is done to a window is a list of \<open>WindowCall\<close>s.  Times
  are milliseconds, \<open>0\<close> is the empty \<^verbatim>\<open>time_point\<close>.
\<close>

subsection \<open>Routable windows\<close>

record Window =
  is_window :: bool
  is_visible :: bool
  class_name :: wstring
  window_style :: u32
  window_pid :: nat
  has_owner :: bool

definition WS_CHILD :: u32 where "WS_CHILD = 0x40000000"

definition IsShellWindow :: "Window \<Rightarrow> bool" where
  "IsShellWindow w \<longleftrightarrow> class_name w \<in> {wide ''Shell_TrayWnd'', wide ''Shell_SecondaryTrayWnd'', wide ''Progman'',
     wide ''WorkerW'', wide ''TaskListThumbnailWnd''}"

text \<open>\<open>None\<close> is the null handle.\<close>

definition IsRoutableTopLevelWindow :: "Window option \<Rightarrow> bool" where
  "IsRoutableTopLevelWindow h =
     (case h of
        None \<Rightarrow> False
      | Some w \<Rightarrow>
          (if \<not> is_window w \<or> \<not> is_visible w \<or> IsShellWindow w then False
           else and (window_style w) WS_CHILD = 0))"

subsection \<open>Moving a window\<close>

datatype WindowCall = Restore | SetPos int int int int | Maximize

text \<open>The monitor the window is on, the work areas of the nearest monitor and of the target, whether the window is
  maximized, its rectangle once restored, and whether it can be placed.\<close>

record MoveAnswer =
  on_monitor :: "nat option"
  source_work :: "RECT option"
  target_work :: "RECT option"
  maximized :: bool
  restored_rect :: "RECT option"
  placed :: bool

definition clamp_to :: "int \<Rightarrow> int \<Rightarrow> int \<Rightarrow> int" where
  "clamp_to val minimum maximum =
     (let hi = max minimum maximum in if val < minimum then minimum else if hi < val then hi else val)"

text \<open>The rectangle for the target: size first, then the position of the window relative to its work area.\<close>

definition placement :: "RECT \<Rightarrow> RECT \<Rightarrow> RECT \<Rightarrow> int \<times> int \<times> int \<times> int" where
  "placement current source target =
     (let targetWidth = right target - left target; targetHeight = bottom target - upper target;
          w = min (max 1 (right current - left current)) targetWidth;
          h = min (max 1 (bottom current - upper current)) targetHeight;
          relativeX = left current - left source; relativeY = upper current - upper source
      in (clamp_to (left target + relativeX) (left target) (right target - w),
          clamp_to (upper target + relativeY) (upper target) (bottom target - h), w, h))"

definition MoveWindowToMonitor :: "Window option \<Rightarrow> nat option \<Rightarrow> MoveAnswer \<Rightarrow> bool \<times> WindowCall list" where
  "MoveWindowToMonitor window target a =
     (if \<not> IsRoutableTopLevelWindow window \<or> target = None \<or> on_monitor a = target then (False, [])
      else (case (source_work a, target_work a) of
              (Some source, Some work) \<Rightarrow>
                (let calls = (if maximized a then [Restore] else []) in
                 case restored_rect a of
                   None \<Rightarrow> (False, calls)
                 | Some current \<Rightarrow>
                     (case placement current source work of
                        (x, y, w, h) \<Rightarrow>
                          (if \<not> placed a then (False, calls @ [SetPos x y w h])
                           else (True, calls @ [SetPos x y w h] @ (if maximized a then [Maximize] else [])))))
            | _ \<Rightarrow> (False, [])))"

subsection \<open>Waiting for a window\<close>

definition process_window :: "nat \<Rightarrow> Window list \<Rightarrow> Window option" where
  "process_window processId windows =
     find (\<lambda>w. \<not> (window_pid w \<noteq> processId \<or> \<not> IsRoutableTopLevelWindow (Some w) \<or> has_owner w)) windows"

text \<open>The windows of each of the 240 attempts, and what is then told about the one that is found.\<close>

definition MoveProcessWindowToMonitorWhenReady ::
    "nat \<Rightarrow> nat option \<Rightarrow> (Window list \<times> MoveAnswer) list \<Rightarrow> (Window \<times> WindowCall list) list" where
  "MoveProcessWindowToMonitorWhenReady processId target attempts =
     (if processId = 0 \<or> target = None then []
      else concat (map (\<lambda>(windows, a).
             case process_window processId windows of
               None \<Rightarrow> []
             | Some w \<Rightarrow> [(w, snd (MoveWindowToMonitor (Some w) target a))]) (take 240 attempts)))"

text \<open>The foreground window, with the number of its handle, at each of the 160 attempts.\<close>

definition other_foreground :: "nat \<Rightarrow> (nat \<times> Window) option \<Rightarrow> bool" where
  "other_foreground previousForeground f =
     (case f of None \<Rightarrow> False | Some (n, w) \<Rightarrow> n \<noteq> previousForeground \<and> IsRoutableTopLevelWindow (Some w))"

definition MoveForegroundWindowToMonitorWhenReady ::
    "nat \<Rightarrow> nat option \<Rightarrow> ((nat \<times> Window) option \<times> MoveAnswer) list \<Rightarrow> (Window \<times> WindowCall list) option" where
  "MoveForegroundWindowToMonitorWhenReady previousForeground target attempts =
     (if target = None then None
      else (case find (\<lambda>x. other_foreground previousForeground (fst x)) (take 160 attempts) of
              Some (Some (n, w), a) \<Rightarrow> Some (w, snd (MoveWindowToMonitor (Some w) target a))
            | _ \<Rightarrow> None))"

subsection \<open>The taskbar router\<close>

text \<open>Who owns the hook procedures: the static \<^verbatim>\<open>instance_\<close>.\<close>

datatype Instance = Nobody | ThisRouter | OtherRouter

record TaskbarRouter =
  router_instance :: Instance
  mouseHook :: bool
  foregroundHook :: bool
  windowStateHook :: bool
  lastClick :: POINT
  lastClickAt :: int
  routedProcessId :: nat
  routedMonitor :: "nat option"
  routedUntil :: int

definition Router_Stop :: "TaskbarRouter \<Rightarrow> TaskbarRouter" where
  "Router_Stop r = r\<lparr>mouseHook := False, foregroundHook := False, windowStateHook := False,
     router_instance := (if router_instance r = ThisRouter then Nobody else router_instance r)\<rparr>"

text \<open>The three hooks that Windows grants.\<close>

definition Router_Start :: "bool \<times> bool \<times> bool \<Rightarrow> TaskbarRouter \<Rightarrow> bool \<times> TaskbarRouter" where
  "Router_Start granted r =
     (if mouseHook r \<and> foregroundHook r \<and> windowStateHook r then (True, r)
      else if router_instance r = OtherRouter then (False, r)
      else (case granted of
              (m, f, s) \<Rightarrow>
                (let r1 = r\<lparr>router_instance := ThisRouter, mouseHook := m, foregroundHook := f, windowStateHook := s\<rparr>
                 in if m \<and> f \<and> s then (True, r1) else (False, Router_Stop r1))))"

text \<open>The classes of the window under the pointer and of its parents.\<close>

definition IsTaskbarSurfaceAt :: "wstring list \<Rightarrow> bool" where
  "IsTaskbarSurfaceAt classes = list_ex (\<lambda>c. c = wide ''Shell_TrayWnd'' \<or> c = wide ''Shell_SecondaryTrayWnd'') classes"

text \<open>The processes of a snapshot with their parents, \<open>None\<close> when there is none.\<close>

fun family_loop :: "nat \<Rightarrow> (nat \<times> nat) list \<Rightarrow> nat \<Rightarrow> nat \<Rightarrow> nat \<Rightarrow> bool" where
  "family_loop 0 table current processId rootId = False"
| "family_loop (Suc n) table current processId rootId =
     (if current = 0 then False
      else (case map_of table current of
              None \<Rightarrow> False
            | Some parent \<Rightarrow>
                (if parent = 0 \<or> parent = processId then False
                 else if parent = rootId then True
                 else family_loop n table parent processId rootId)))"

definition IsProcessInFamily :: "(nat \<times> nat) list option \<Rightarrow> nat \<Rightarrow> nat \<Rightarrow> bool" where
  "IsProcessInFamily snapshot processId rootProcessId =
     (if processId = 0 \<or> rootProcessId = 0 then False
      else if processId = rootProcessId then True
      else (case snapshot of None \<Rightarrow> False | Some table \<Rightarrow> family_loop 16 table processId processId rootProcessId))"

definition RememberTaskbarClick :: "POINT \<Rightarrow> int \<Rightarrow> TaskbarRouter \<Rightarrow> TaskbarRouter" where
  "RememberTaskbarClick point now r =
     r\<lparr>lastClick := point, lastClickAt := now, routedProcessId := 0, routedMonitor := None, routedUntil := 0\<rparr>"

text \<open>What the hooks report: a primary button pressed over windows of the given classes, or an event of a window with
  its process, the processes and the monitors of that moment.\<close>

record WindowEvent =
  is_foreground :: bool
  whole_window :: bool
  event_window :: "Window option"
  event_time :: int
  event_snapshot :: "(nat \<times> nat) list option"
  monitor_at :: "POINT \<Rightarrow> nat option"

definition MouseHookProc :: "bool \<Rightarrow> wstring list \<Rightarrow> POINT \<Rightarrow> int \<Rightarrow> TaskbarRouter \<Rightarrow> TaskbarRouter" where
  "MouseHookProc left_down classes point now r =
     (if left_down \<and> router_instance r = ThisRouter \<and> IsTaskbarSurfaceAt classes
      then RememberTaskbarClick point now r else r)"

text \<open>The target that the window is moved to.\<close>

definition RouteWindowEvent :: "WindowEvent \<Rightarrow> TaskbarRouter \<Rightarrow> nat option \<times> TaskbarRouter" where
  "RouteWindowEvent e r =
     (case event_window e of
        None \<Rightarrow> (None, r)
      | Some w \<Rightarrow>
          (if \<not> IsRoutableTopLevelWindow (Some w) \<or> window_pid w = 0 then (None, r)
           else
             (let now = event_time e in
              if routedUntil r \<noteq> 0 \<and> now < routedUntil r \<and> IsProcessInFamily (event_snapshot e) (window_pid w) (routedProcessId r)
              then (routedMonitor r, r)
              else if is_foreground e \<and> lastClickAt r \<noteq> 0 \<and> now - lastClickAt r \<le> 2500
              then (let target = monitor_at e (lastClick r);
                        r1 = (if target \<noteq> None
                              then r\<lparr>routedProcessId := window_pid w, routedMonitor := target, routedUntil := now + 12000\<rparr>
                              else r)
                    in (target, r1\<lparr>lastClickAt := 0\<rparr>))
              else (None, r))))"

definition WinEventProc :: "WindowEvent \<Rightarrow> TaskbarRouter \<Rightarrow> nat option \<times> TaskbarRouter" where
  "WinEventProc e r =
     (if router_instance r = ThisRouter \<and> whole_window e then RouteWindowEvent e r else (None, r))"

subsection \<open>Where a moved window lands\<close>

lemma clamp_to_range: "lo \<le> clamp_to v lo hi \<and> clamp_to v lo hi \<le> max lo hi"
  by (auto simp: clamp_to_def Let_def max_def)

lemma axis_inside:
  assumes "lo < hi" and "w = min (max 1 sz) (hi - lo)"
  shows "lo \<le> clamp_to v lo (hi - w)" "clamp_to v lo (hi - w) + w \<le> hi" "1 \<le> w"
  using assms clamp_to_range [of lo v "hi - w"] by linarith+

lemma placement_inside:
  assumes "left work < right work" and "upper work < bottom work" and "placement current source work = (x, y, w, h)"
  shows "left work \<le> x" "x + w \<le> right work" "upper work \<le> y" "y + h \<le> bottom work" "1 \<le> w" "1 \<le> h"
  using axis_inside [OF assms(1) refl] axis_inside [OF assms(2) refl] assms(3)
  unfolding placement_def Let_def prod.inject by blast+

lemma placement_keeps_size:
  assumes "placement current source work = (x, y, w, h)"
    and "1 \<le> right current - left current" "right current - left current \<le> right work - left work"
    and "1 \<le> bottom current - upper current" "bottom current - upper current \<le> bottom work - upper work"
  shows "w = right current - left current" "h = bottom current - upper current"
  using assms by (auto simp: placement_def Let_def)

text \<open>The rectangles that a list of calls gives a window.\<close>

definition positions :: "WindowCall list \<Rightarrow> (int \<times> int \<times> int \<times> int) list" where
  "positions calls = concat (map (\<lambda>c. case c of SetPos x y w h \<Rightarrow> [(x, y, w, h)] | _ \<Rightarrow> []) calls)"

definition inside_work :: "RECT \<Rightarrow> int \<times> int \<times> int \<times> int \<Rightarrow> bool" where
  "inside_work work = (\<lambda>(x, y, w, h). left work \<le> x \<and> x + w \<le> right work \<and> upper work \<le> y \<and> y + h \<le> bottom work \<and>
     1 \<le> w \<and> 1 \<le> h)"


definition sample_window :: Window where
  "sample_window = \<lparr>is_window = True, is_visible = True, class_name = wide ''Chrome'', window_style = 0x10CF0000,
     window_pid = 42, has_owner = False\<rparr>"

definition sample_move :: MoveAnswer where
  "sample_move = \<lparr>on_monitor = Some 1, source_work = Some \<lparr>left = 0, upper = 0, right = 1920, bottom = 1040\<rparr>,
     target_work = Some \<lparr>left = 1920, upper = 0, right = 4652, bottom = 2000\<rparr>, maximized = True,
     restored_rect = Some \<lparr>left = - 8, upper = 900, right = 3000, bottom = 1500\<rparr>, placed = True\<rparr>"


lemma sample_move_value:
  "MoveWindowToMonitor (Some sample_window) (Some 2) sample_move = (True, [Restore, SetPos 1920 900 2732 600, Maximize])"
  by code_simp

text \<open>When a maximized window cannot be placed it is left restored.\<close>

lemma refused_move_unmaximizes:
  "MoveWindowToMonitor (Some sample_window) (Some 2) (sample_move\<lparr>placed := False\<rparr>) =
     (False, [Restore, SetPos 1920 900 2732 600])"
  by code_simp

lemma foreground_wait_is_bounded:
  assumes "MoveForegroundWindowToMonitorWhenReady prev target attempts = Some (w, calls)"
  shows "\<exists>i n. i < 160 \<and> i < length attempts \<and> fst (attempts ! i) = Some (n, w) \<and>
    other_foreground prev (Some (n, w)) \<and> (\<forall>j < i. \<not> other_foreground prev (fst (attempts ! j)))"
proof -
  let ?P = "\<lambda>x. other_foreground prev (fst x)"
  obtain n a where "find ?P (take 160 attempts) = Some (Some (n, w), a)"
    using assms unfolding MoveForegroundWindowToMonitorWhenReady_def
    by (cases "find ?P (take 160 attempts)") (auto split: if_splits option.splits prod.splits)
  then obtain i where i: "i < length (take 160 attempts)" "?P (take 160 attempts ! i)"
      "take 160 attempts ! i = (Some (n, w), a)" "\<forall>j < i. \<not> ?P (take 160 attempts ! j)"
    unfolding find_Some_iff by metis
  then show ?thesis by (intro exI [of _ i] exI [of _ n]) simp
qed

subsection \<open>Why a window is moved\<close>

datatype HookEvent = MouseDown bool "wstring list" POINT int | WindowMoved WindowEvent

definition hook_step :: "TaskbarRouter \<Rightarrow> HookEvent \<Rightarrow> TaskbarRouter" where
  "hook_step r e = (case e of MouseDown l classes p t \<Rightarrow> MouseHookProc l classes p t r | WindowMoved w \<Rightarrow> snd (WinEventProc w r))"

text \<open>A click on a taskbar at most 2.5 s before: its point.\<close>

definition clicked :: "HookEvent list \<Rightarrow> int \<Rightarrow> POINT \<Rightarrow> bool" where
  "clicked es now p \<longleftrightarrow> (\<exists>classes t. MouseDown True classes p t \<in> set es \<and> IsTaskbarSurfaceAt classes \<and> now - t \<le> 2500)"

text \<open>An activation by such a click: the process that came to the foreground, the monitor and the time.\<close>

definition activated :: "HookEvent list \<Rightarrow> nat \<Rightarrow> nat \<Rightarrow> int \<Rightarrow> bool" where
  "activated es pid m t \<longleftrightarrow>
     (\<exists>pre e post w p. es = pre @ WindowMoved e # post \<and> is_foreground e \<and> event_window e = Some w \<and>
        window_pid w = pid \<and> event_time e = t \<and> clicked pre t p \<and> monitor_at e p = Some m)"

definition router_inv :: "HookEvent list \<Rightarrow> TaskbarRouter \<Rightarrow> bool" where
  "router_inv es r \<longleftrightarrow>
     (lastClickAt r \<noteq> 0 \<longrightarrow> (\<exists>classes. MouseDown True classes (lastClick r) (lastClickAt r) \<in> set es \<and> IsTaskbarSurfaceAt classes)) \<and>
     (routedUntil r \<noteq> 0 \<longrightarrow> (\<exists>m. routedMonitor r = Some m \<and> activated es (routedProcessId r) m (routedUntil r - 12000)))"

lemma activated_snoc: "activated es pid m t \<Longrightarrow> activated (es @ [e]) pid m t"
  unfolding activated_def by (metis append.assoc append_Cons)

lemma router_inv_snoc: "router_inv es r \<Longrightarrow> router_inv (es @ [e]) r"
  unfolding router_inv_def using activated_snoc by fastforce

text \<open>Why an event makes its window move: it is the activation itself, or it belongs to the activated family.\<close>

definition asked_for :: "HookEvent list \<Rightarrow> WindowEvent \<Rightarrow> nat \<Rightarrow> bool" where
  "asked_for es e m \<longleftrightarrow>
     (\<exists>w. event_window e = Some w \<and> IsRoutableTopLevelWindow (Some w) \<and>
        ((\<exists>p. is_foreground e \<and> clicked es (event_time e) p \<and> monitor_at e p = Some m) \<or>
         (\<exists>pid t. activated es pid m t \<and> event_time e < t + 12000 \<and> IsProcessInFamily (event_snapshot e) (window_pid w) pid)))"

lemma RouteWindowEvent_cases:
  assumes inv: "router_inv es r" and e: "event_window e = Some w"
  obtains (ignored) "RouteWindowEvent e r = (None, r)"
  | (followed) m where "RouteWindowEvent e r = (Some m, r)" "asked_for es e m"
  | (nowhere) "RouteWindowEvent e r = (None, r\<lparr>lastClickAt := 0\<rparr>)"
  | (routed) m where "RouteWindowEvent e r = (Some m, r\<lparr>routedProcessId := window_pid w, routedMonitor := Some m,
        routedUntil := event_time e + 12000, lastClickAt := 0\<rparr>)"
      "asked_for es e m" "activated (es @ [WindowMoved e]) (window_pid w) m (event_time e)"
proof (cases "IsRoutableTopLevelWindow (Some w) \<and> window_pid w \<noteq> 0")
  case False
  then show ?thesis using e by (intro ignored) (auto simp: RouteWindowEvent_def)
next
  case ok: True
  show ?thesis
  proof (cases "routedUntil r \<noteq> 0 \<and> event_time e < routedUntil r \<and>
      IsProcessInFamily (event_snapshot e) (window_pid w) (routedProcessId r)")
    case True
    obtain m where m: "routedMonitor r = Some m" "activated es (routedProcessId r) m (routedUntil r - 12000)"
      using inv True by (auto simp: router_inv_def)
    show ?thesis
    proof (rule followed)
      show "RouteWindowEvent e r = (Some m, r)" using e ok True m(1) by (simp add: RouteWindowEvent_def)
      show "asked_for es e m" unfolding asked_for_def using e ok True m(2) by force
    qed
  next
    case no: False
    show ?thesis
    proof (cases "is_foreground e \<and> lastClickAt r \<noteq> 0 \<and> event_time e - lastClickAt r \<le> 2500")
      case True
      then have c: "clicked es (event_time e) (lastClick r)"
        using inv unfolding router_inv_def clicked_def by blast
      show ?thesis
      proof (cases "monitor_at e (lastClick r)")
        case None
        with e ok no True show ?thesis by (intro nowhere) (auto simp: RouteWindowEvent_def Let_def)
      next
        case (Some m)
        show ?thesis
        proof (rule routed)
          show "RouteWindowEvent e r = (Some m, r\<lparr>routedProcessId := window_pid w, routedMonitor := Some m,
              routedUntil := event_time e + 12000, lastClickAt := 0\<rparr>)"
            using e ok no True Some by (auto simp: RouteWindowEvent_def Let_def)
          show "asked_for es e m" unfolding asked_for_def using e ok True Some c by blast
          show "activated (es @ [WindowMoved e]) (window_pid w) m (event_time e)"
            unfolding activated_def using e True Some c by blast
        qed
      qed
    next
      case False
      with e ok no show ?thesis by (intro ignored) (auto simp: RouteWindowEvent_def Let_def)
    qed
  qed
qed

lemma hook_step_inv:
  assumes "router_inv es r"
  shows "router_inv (es @ [e]) (hook_step r e)"
proof -
  note i = router_inv_snoc [OF assms, of e]
  show ?thesis
  proof (cases e)
    case (MouseDown l classes p t)
    with i show ?thesis
      by (auto simp: hook_step_def MouseHookProc_def RememberTaskbarClick_def router_inv_def)
  next
    case (WindowMoved w)
    show ?thesis
    proof (cases "event_window w")
      case None
      with i WindowMoved show ?thesis by (simp add: hook_step_def WinEventProc_def RouteWindowEvent_def)
    next
      case (Some win)
      show ?thesis
        by (rule RouteWindowEvent_cases [OF assms Some])
          (use i WindowMoved in \<open>auto simp: hook_step_def WinEventProc_def router_inv_def\<close>)
    qed
  qed
qed

definition fresh_router :: "TaskbarRouter \<Rightarrow> bool" where
  "fresh_router r \<longleftrightarrow> lastClickAt r = 0 \<and> routedUntil r = 0"

lemma hook_steps_inv: "fresh_router r \<Longrightarrow> router_inv es (foldl hook_step r es)"
proof (induction es rule: rev_induct)
  case (snoc e es)
  then show ?case using hook_step_inv by simp
qed (simp add: router_inv_def fresh_router_def)

text \<open>C39. A window is moved only because the user asked for it: whatever clicks and window events came before, an event
  moves its window only when that is a normal top-level window that either came to the foreground at most
  2.5 s after a click on a taskbar, and then to the monitor under that click, or belongs, less than 12 s later,
  to the family of the process that such an activation brought up, and then to the same monitor.\<close>

theorem windows_move_only_when_asked:
  assumes "fresh_router r" and "fst (WinEventProc e (foldl hook_step r es)) = Some m"
  shows "asked_for es e m"
proof -
  have i: "router_inv es (foldl hook_step r es)" by (rule hook_steps_inv) fact
  have m: "fst (RouteWindowEvent e (foldl hook_step r es)) = Some m"
    using assms(2) by (simp add: WinEventProc_def split: if_splits)
  then obtain w where "event_window e = Some w" by (cases "event_window e") (auto simp: RouteWindowEvent_def)
  from RouteWindowEvent_cases [OF i this] m show ?thesis by (metis fst_conv option.distinct(1) option.inject)
qed

definition sample_router :: TaskbarRouter where
  "sample_router = \<lparr>router_instance = ThisRouter, mouseHook = True, foregroundHook = True, windowStateHook = True,
     lastClick = \<lparr>pt_x = 0, pt_y = 0\<rparr>, lastClickAt = 0, routedProcessId = 0, routedMonitor = None, routedUntil = 0\<rparr>"

definition sample_event :: "bool \<Rightarrow> nat \<Rightarrow> int \<Rightarrow> WindowEvent" where
  "sample_event fg pid t = \<lparr>is_foreground = fg, whole_window = True, event_window = Some (sample_window\<lparr>window_pid := pid\<rparr>),
     event_time = t, event_snapshot = Some [(50, 42), (42, 4)], monitor_at = (\<lambda>p. if 1920 \<le> pt_x p then Some 2 else Some 1)\<rparr>"

definition sample_hooks :: "HookEvent list" where
  "sample_hooks = [MouseDown True [wide ''MSTaskListWClass'', wide ''Shell_SecondaryTrayWnd''] \<lparr>pt_x = 2000, pt_y = 1990\<rparr> 1000,
     WindowMoved (sample_event True 42 1500)]"

theorem windows_move_only_when_asked_witness: "asked_for sample_hooks (sample_event False 50 9000) 2"
  by (rule windows_move_only_when_asked [of sample_router]) (simp add: fresh_router_def sample_router_def, code_simp)

text \<open>A member of the family has the root among its ancestors.\<close>

lemma family_loop_ancestor:
  "family_loop n table current pid rootId \<Longrightarrow> (current, rootId) \<in> {(c, p). map_of table c = Some p}\<^sup>+"
proof (induction n table current pid rootId rule: family_loop.induct)
  case (2 n table current pid rootId)
  then obtain p where "map_of table current = Some p" "p = rootId \<or> family_loop n table p pid rootId" "p \<noteq> 0" "p \<noteq> pid" "current \<noteq> 0"
    by (auto split: if_splits option.splits)
  with 2(1) [of p] show ?case
    by (cases "p = rootId") (auto intro: r_into_trancl trancl_into_trancl2 split: if_splits)
qed simp

text \<open>The hooks are all set or all gone, and gone when the router stops.\<close>

lemma hooks_all_or_none:
  "fst (Router_Start g r) \<Longrightarrow> mouseHook (snd (Router_Start g r)) \<and> foregroundHook (snd (Router_Start g r)) \<and> windowStateHook (snd (Router_Start g r))"
  "\<not> fst (Router_Start g r) \<Longrightarrow> router_instance r \<noteq> OtherRouter \<Longrightarrow>
     snd (Router_Start g r) = Router_Stop (r\<lparr>router_instance := ThisRouter\<rparr>)"
  by (auto simp: Router_Start_def Router_Stop_def Let_def split: if_splits prod.splits)

end
