(* ===== verification/DisplayCatalog.thy ===== *)
theory DisplayCatalog
  imports Input
begin

text \<open>
  The attached monitors (\<^verbatim>\<open>src/src/display/DisplayCatalog.cpp\<close>).  What
  \<^verbatim>\<open>GetMonitorInfo\<close> tells about each monitor that Windows enumerates is an argument, \<open>None\<close>
  where it fails.
\<close>

record MonitorInfo =
  szDevice :: wstring
  rcMonitor :: RECT
  dwFlags :: u32

record AttachedDisplay =
  deviceName :: wstring
  display_bounds :: RECT
  primary :: bool

definition MONITORINFOF_PRIMARY :: u32 where "MONITORINFOF_PRIMARY = 1"

definition CollectMonitor :: "AttachedDisplay list \<Rightarrow> MonitorInfo option \<Rightarrow> AttachedDisplay list" where
  "CollectMonitor displays info =
     (case info of
        None \<Rightarrow> displays
      | Some i \<Rightarrow> displays @ [\<lparr>deviceName = szDevice i, display_bounds = rcMonitor i,
                             primary = (and (dwFlags i) MONITORINFOF_PRIMARY \<noteq> 0)\<rparr>])"

definition EnumerateAttachedDisplays :: "MonitorInfo option list \<Rightarrow> AttachedDisplay list" where
  "EnumerateAttachedDisplays monitors = foldl CollectMonitor [] monitors"

text \<open>\<^verbatim>\<open>_wcsicmp\<close> in the C locale, on texts up to their first null.\<close>

definition wide_lower :: "u16 \<Rightarrow> u16" where
  "wide_lower u = (if 65 \<le> u \<and> u \<le> 90 then u + 32 else u)"

definition c_wide :: "wstring \<Rightarrow> wstring" where
  "c_wide w = takeWhile (\<lambda>u. u \<noteq> 0) w"

definition wcsicmp_equal :: "wstring \<Rightarrow> wstring \<Rightarrow> bool" where
  "wcsicmp_equal a b \<longleftrightarrow> map wide_lower (c_wide a) = map wide_lower (c_wide b)"

definition FindAttachedDisplay :: "MonitorInfo option list \<Rightarrow> wstring \<Rightarrow> AttachedDisplay option" where
  "FindAttachedDisplay monitors name = find (\<lambda>d. wcsicmp_equal (deviceName d) name) (EnumerateAttachedDisplays monitors)"

text \<open>A display that is found is attached and has the name up to the case of its letters, and none is missed.\<close>

lemma EnumerateAttachedDisplays_set:
  "d \<in> set (EnumerateAttachedDisplays monitors) \<longleftrightarrow>
     (\<exists>m. Some m \<in> set monitors \<and> d = \<lparr>deviceName = szDevice m, display_bounds = rcMonitor m,
        primary = (and (dwFlags m) MONITORINFOF_PRIMARY \<noteq> 0)\<rparr>)"
  unfolding EnumerateAttachedDisplays_def
  by (induction monitors rule: rev_induct) (auto simp: CollectMonitor_def split: option.splits)

lemma FindAttachedDisplay_spec:
  "case FindAttachedDisplay monitors name of
     None \<Rightarrow> (\<forall>m. Some m \<in> set monitors \<longrightarrow> \<not> wcsicmp_equal (szDevice m) name)
   | Some d \<Rightarrow> wcsicmp_equal (deviceName d) name \<and> (\<exists>m. Some m \<in> set monitors \<and> szDevice m = deviceName d \<and> rcMonitor m = display_bounds d)"
proof (cases "FindAttachedDisplay monitors name")
  case None
  then have "\<forall>d \<in> set (EnumerateAttachedDisplays monitors). \<not> wcsicmp_equal (deviceName d) name"
    by (auto simp: FindAttachedDisplay_def find_None_iff)
  then show ?thesis unfolding None option.case by (force simp: EnumerateAttachedDisplays_set)
next
  case (Some d)
  then have "d \<in> set (EnumerateAttachedDisplays monitors)" "wcsicmp_equal (deviceName d) name"
    unfolding FindAttachedDisplay_def find_Some_iff by (metis nth_mem)+
  with Some show ?thesis by (auto simp: EnumerateAttachedDisplays_set)
qed

end
