(* ===== verification/CommandLine.thy ===== *)
theory CommandLine
  imports DisplayCatalog Panel
begin

text \<open>
  The command line (\<^verbatim>\<open>src/src/main.cpp\<close>): the resolution it accepts, which action the
  arguments choose, where the log goes, and the exit code.  \<^verbatim>\<open>unsigned long\<close> has 32 bits.
\<close>

subsection \<open>Resolutions\<close>

text \<open>\<^verbatim>\<open>std::strtoul(text, &end, 10)\<close>: the characters taken, the value, and whether it
  is out of range.  A sign is taken, and a minus negates the value modulo the width.\<close>

definition strtoul_10 :: "string \<Rightarrow> nat \<times> u32 \<times> bool" where
  "strtoul_10 t =
     (let i = skip_while is_space t 0;
          signed = (i < length t \<and> (t ! i = CHR ''+'' \<or> t ! i = CHR ''-''));
          neg = (i < length t \<and> t ! i = CHR ''-'');
          j = (if signed then Suc i else i);
          k = skip_while is_digit t j;
          v = digits_val (slice t j k)
      in if k = j then (0, 0, False)
         else if 2 ^ 32 \<le> v then (k, - 1, True)
         else (k, (if neg then - of_nat v else of_nat v), False))"

text \<open>\<open>None\<close> is the null pointer.\<close>

definition parseAxis :: "string option \<Rightarrow> u32 option" where
  "parseAxis txt_opt =
     (case txt_opt of
        None \<Rightarrow> None
      | Some t \<Rightarrow>
          (if t = [] then None
           else (case strtoul_10 t of
                   (taken, parsed, erange) \<Rightarrow>
                     (if erange \<or> taken = 0 \<or> taken \<noteq> length t \<or> parsed < 320 \<or> 8192 < parsed \<or> and parsed 1 \<noteq> 0
                      then None else Some parsed))))"

definition ParseSafeResolution :: "string option \<Rightarrow> string option \<Rightarrow> (u32 \<times> u32) option" where
  "ParseSafeResolution widthText heightText =
     (case parseAxis widthText of
        None \<Rightarrow> None
      | Some width \<Rightarrow>
          (case parseAxis heightText of
             None \<Rightarrow> None
           | Some height \<Rightarrow> if unat width * unat height \<le> 8192 * 4096 then Some (width, height) else None))"

definition MaskDeviceId :: "string \<Rightarrow> string" where
  "MaskDeviceId u =
     (if length u \<le> 8 then ''USB iPad'' else ''USB iPad '' @ take 4 u @ ''...'' @ drop (length u - 4) u)"

subsection \<open>The action\<close>

datatype Launch =
  Usage | RegisterResolution u32 u32 | RefusedMaintenance | BrowseMdns | ListDisplays | ListUsb |
  CaptureExisting wstring string | Resume "string list" | PreviewUi | Headless string | Desktop

text \<open>\<open>args\<close> are the arguments behind the program's name.\<close>

definition command_of :: "string list \<Rightarrow> string" where
  "command_of args = (if args \<noteq> [] then args ! 0 else [])"

definition one_off :: "string list \<Rightarrow> bool" where
  "one_off args \<longleftrightarrow> command_of args \<in> {''--register-resolution'', ''--cleanup-monitors'', ''--remove-display'',
     ''--browse-mdns'', ''--list-displays'', ''--list-usb''}"

definition log_file :: "string list \<Rightarrow> bool \<Rightarrow> nat \<Rightarrow> string option" where
  "log_file args consoleAttached pid =
     (if \<not> one_off args \<or> \<not> consoleAttached
      then (let trayMode = (args = [] \<or> command_of args = ''--resume'' \<or> command_of args = ''--preview-ui'')
            in Some (if trayMode then ''log.txt'' else ''log-'' @ show_nat pid @ ''.txt''))
      else None)"

definition register_command :: "string list \<Rightarrow> Launch" where
  "register_command args =
     (let argc = length args + 1 in
      if argc \<noteq> 4 then Usage
      else (case ParseSafeResolution (if 2 < argc then Some (args ! 1) else None) (if 3 < argc then Some (args ! 2) else None) of
              None \<Rightarrow> Usage
            | Some (w, h) \<Rightarrow> RegisterResolution w h))"

definition other_command :: "string list \<Rightarrow> Launch" where
  "other_command args =
     (let command = command_of args; argc = length args + 1 in
      if command = ''--remove-display'' then RefusedMaintenance
      else if command = ''--browse-mdns'' then BrowseMdns
      else if command = ''--cleanup-monitors'' then RefusedMaintenance
      else if command = ''--list-displays'' then ListDisplays
      else if command = ''--list-usb'' then ListUsb
      else if command = ''--capture-existing'' then
        (if argc \<noteq> 4 then Usage else CaptureExisting (wide (args ! 1)) (args ! 2))
      else if command = ''--resume'' then Resume (drop 1 args)
      else if command = ''--preview-ui'' then PreviewUi
      else if 2 \<le> argc then Headless (args ! 0)
      else Desktop)"

definition dispatch :: "string list \<Rightarrow> Launch" where
  "dispatch args = (if command_of args = ''--register-resolution'' then register_command args else other_command args)"

text \<open>The exit code: what the registration, the self check, the USB list and the tray give, once the sockets are
  initialised.\<close>

record RunAnswer =
  sockets_started :: bool
  registered :: bool
  self_checked :: bool
  usb_count :: nat
  tray_code :: int

definition exit_code :: "Launch \<Rightarrow> RunAnswer \<Rightarrow> int" where
  "exit_code l a =
     (if \<not> sockets_started a then 1
      else (case l of
              Usage \<Rightarrow> 2
            | RegisterResolution w h \<Rightarrow> if registered a then 0 else 1
            | RefusedMaintenance \<Rightarrow> 2
            | BrowseMdns \<Rightarrow> if self_checked a then 0 else 1
            | ListUsb \<Rightarrow> if usb_count a = 0 then 1 else 0
            | Resume addresses \<Rightarrow> tray_code a
            | PreviewUi \<Rightarrow> tray_code a
            | Desktop \<Rightarrow> tray_code a
            | _ \<Rightarrow> 0))"

subsection \<open>Only safe resolutions are registered\<close>

lemma parseAxis_range:
  assumes "parseAxis t = Some v"
  shows "320 \<le> unat v" "unat v \<le> 8192" "even (unat v)"
proof -
  have v: "\<not> v < 320" "\<not> 8192 < v" "and v 1 = 0"
    using assms by (auto simp: parseAxis_def split: option.splits if_splits prod.splits)
  then show "320 \<le> unat v" "unat v \<le> 8192" by (simp_all add: word_less_nat_alt)
  have "unat (and v 1) = unat v mod 2" by (simp add: and_one_eq unat_mod)
  with v(3) show "even (unat v)" by (simp add: even_iff_mod_2_eq_zero)
qed

lemma if_neq: "A \<noteq> x \<Longrightarrow> B \<noteq> x \<Longrightarrow> (if P then A else B) \<noteq> x"
  by simp

lemma other_is_no_registration: "other_command args \<noteq> RegisterResolution w h"
  unfolding other_command_def Let_def by (intro if_neq) simp_all

lemma maintenance_is_refused:
  "command_of args = ''--remove-display'' \<Longrightarrow> dispatch args = RefusedMaintenance"
  "command_of args = ''--cleanup-monitors'' \<Longrightarrow> dispatch args = RefusedMaintenance"
  by (simp_all add: dispatch_def other_command_def)

lemma registration_is_safe:
  assumes "dispatch args = RegisterResolution w h"
  shows "command_of args = ''--register-resolution''" "length args = 3"
    "320 \<le> unat w" "unat w \<le> 8192" "even (unat w)" "320 \<le> unat h" "unat h \<le> 8192" "even (unat h)"
    "unat w * unat h \<le> 8192 * 4096"
proof -
  show c: "command_of args = ''--register-resolution''"
    using assms other_is_no_registration unfolding dispatch_def by (metis (full_types))
  then have r: "register_command args = RegisterResolution w h" using assms by (simp only: dispatch_def if_True refl)
  show l: "length args = 3" using r by (simp add: register_command_def Let_def split: if_splits)
  have "ParseSafeResolution (Some (args ! 1)) (Some (args ! 2)) = Some (w, h)"
    using r l by (auto simp: register_command_def split: option.splits prod.splits)
  then have p: "parseAxis (Some (args ! 1)) = Some w" "parseAxis (Some (args ! 2)) = Some h" "unat w * unat h \<le> 8192 * 4096"
    by (auto simp: ParseSafeResolution_def split: option.splits if_splits)
  then show "320 \<le> unat w" "unat w \<le> 8192" "even (unat w)" "320 \<le> unat h" "unat h \<le> 8192" "even (unat h)"
    "unat w * unat h \<le> 8192 * 4096"
    using parseAxis_range [OF p(1)] parseAxis_range [OF p(2)] by simp_all
qed

lemma normalized_size:
  assumes "NormalizePanelSize rw rh = Some (w, h)"
  shows "320 \<le> unat w \<and> unat w \<le> 8192 \<and> even (unat w) \<and> 320 \<le> unat h \<and> unat h \<le> 8192 \<and> even (unat h) \<and>
    unat w * unat h \<le> 8192 * 4096"
proof -
  have r: "320 \<le> rw" "rw \<le> 8192" "320 \<le> rh" "rh \<le> 8192" "rw * rh \<le> 8192 * 4096"
    "uint w = rw - rw mod 2" "uint h = rh - rh mod 2" "320 \<le> uint w" "320 \<le> uint h"
    using panel_size_is_even_and_bounded [of rw rh] assms by simp_all
  have u: "uint w \<le> rw" "uint h \<le> rh" "even (uint w)" "even (uint h)" using r(1,3,6,7) by simp_all
  have "uint w * uint h \<le> rw * rh" using u(1,2) r(1,8,9) by (intro mult_mono) linarith+
  with r(5) have "int (unat w * unat h) \<le> 8192 * 4096" by simp
  moreover have "int (unat w) = uint w" "int (unat h) = uint h" by simp_all
  ultimately show ?thesis using r(2,4,8,9) u by presburger
qed

lemma parseAxis_show:
  assumes "320 \<le> unat v" "unat v \<le> 8192" "even (unat v)"
  shows "parseAxis (Some (show_nat (unat (v :: u32)))) = Some v"
proof -
  let ?t = "show_nat (unat v)"
  have t: "?t \<noteq> []" "is_digit (?t ! 0)"
    using show_nat_nonempty [of "unat v"] show_nat_digits [of "unat v"] by (cases ?t; simp)+
  have i: "skip_while is_space ?t 0 = 0" using t by (simp add: skip_while.simps [of _ _ 0])
  have sg: "?t ! 0 \<noteq> CHR ''+''" "?t ! 0 \<noteq> CHR ''-''" using t(2) by (auto simp: is_digit_def)
  have k: "skip_while is_digit ?t 0 = length ?t" using skip_while_app [of is_digit ?t "[]" "[]"] by simp
  have "strtoul_10 ?t = (length ?t, v, False)"
    using i sg k t(1) assms(2) by (simp add: strtoul_10_def Let_def slice_def)
  moreover have "and v 1 = 0"
  proof -
    have "unat (and v 1) = unat v mod 2" by (simp add: and_one_eq unat_mod)
    with assms(3) have "unat (and v 1) = 0" by (simp add: even_iff_mod_2_eq_zero)
    then show ?thesis by (simp add: unat_eq_0)
  qed
  ultimately show ?thesis using assms t by (simp add: parseAxis_def word_less_nat_alt)
qed

text \<open>The elevated copy that registers a resolution accepts exactly what the sender asks it for: every panel size that
  the sender takes from a hello, written as the copy's command line, is dispatched to the registration of that very
  size; and whatever the arguments are, only even sizes from 320 to 8192 with no more pixels than 8192 by 4096
  are ever registered.\<close>

lemma elevated_copy_registers_the_panel:
  "(case NormalizePanelSize rw rh of
      None \<Rightarrow> True
    | Some (w, h) \<Rightarrow>
        dispatch [''--register-resolution'', show_nat (unat w), show_nat (unat h)] = RegisterResolution w h) \<and>
   (case dispatch args of
      RegisterResolution w h \<Rightarrow>
        command_of args = ''--register-resolution'' \<and> length args = 3 \<and> 320 \<le> unat w \<and> unat w \<le> 8192 \<and> even (unat w) \<and>
        320 \<le> unat h \<and> unat h \<le> 8192 \<and> even (unat h) \<and> unat w * unat h \<le> 8192 * 4096
    | _ \<Rightarrow> True)"
proof (intro conjI)
  show "case NormalizePanelSize rw rh of None \<Rightarrow> True
    | Some (w, h) \<Rightarrow> dispatch [''--register-resolution'', show_nat (unat w), show_nat (unat h)] = RegisterResolution w h"
  proof (cases "NormalizePanelSize rw rh")
    case (Some wh)
    obtain w h where wh: "wh = (w, h)" by force
    have n: "320 \<le> unat w" "unat w \<le> 8192" "even (unat w)" "320 \<le> unat h" "unat h \<le> 8192" "even (unat h)"
        "unat w * unat h \<le> 8192 * 4096"
      using normalized_size [OF Some [unfolded wh]] by simp_all
    have "ParseSafeResolution (Some (show_nat (unat w))) (Some (show_nat (unat h))) = Some (w, h)"
      using parseAxis_show [OF n(1-3)] parseAxis_show [OF n(4-6)] n(7) by (simp add: ParseSafeResolution_def)
    then have "register_command [''--register-resolution'', show_nat (unat w), show_nat (unat h)] = RegisterResolution w h"
      by (simp add: register_command_def)
    then show ?thesis using Some wh by (simp add: dispatch_def command_of_def)
  qed simp
  show "case dispatch args of
      RegisterResolution w h \<Rightarrow>
        command_of args = ''--register-resolution'' \<and> length args = 3 \<and> 320 \<le> unat w \<and> unat w \<le> 8192 \<and> even (unat w) \<and>
        320 \<le> unat h \<and> unat h \<le> 8192 \<and> even (unat h) \<and> unat w * unat h \<le> 8192 * 4096
    | _ \<Rightarrow> True"
  proof (cases "dispatch args")
    case (RegisterResolution w h)
    from registration_is_safe [OF this] show ?thesis unfolding RegisterResolution by simp
  qed simp_all
qed


text \<open>A negative number of the right size is accepted as well, because it wraps.\<close>

lemma negative_size_is_accepted: "parseAxis (Some ''-4294965376'') = Some 1920"
  by (simp add: parseAxis_def strtoul_10_def skip_while.simps is_space_def is_digit_def Let_def slice_def digits_val_def digit_val_def)

text \<open>The log of a tray is never the log of a headless sender.\<close>

lemma logs_are_apart: "log_file args c pid = Some ''log.txt'' \<Longrightarrow> args = [] \<or> command_of args \<in> {''--resume'', ''--preview-ui''}"
proof -
  assume l: "log_file args c pid = Some ''log.txt''"
  have "args = [] \<or> command_of args = ''--resume'' \<or> command_of args = ''--preview-ui''"
  proof (rule ccontr)
    assume "\<not> ?thesis"
    then show False using l by (simp add: log_file_def Let_def split: if_splits)
  qed
  then show ?thesis by blast
qed

text \<open>A masked identifier shows at most eight of its characters.\<close>

lemma mask_hides: "\<exists>a b. MaskDeviceId u \<in> {''USB iPad'', ''USB iPad '' @ a @ ''...'' @ b} \<and> length a \<le> 4 \<and> length b \<le> 4 \<and> a @ b \<noteq> u"
proof (cases "length u \<le> 8")
  case True
  then show ?thesis by (intro exI [of _ "if u = [] then ''x'' else []"] exI [of _ "[]"]) (simp add: MaskDeviceId_def)
next
  case False
  then have "length (take 4 u @ drop (length u - 4) u) < length u" by simp
  then have "take 4 u @ drop (length u - 4) u \<noteq> u" by (metis less_irrefl)
  with False show ?thesis by (intro exI [of _ "take 4 u"] exI [of _ "drop (length u - 4) u"]) (simp add: MaskDeviceId_def)
qed

end
