(* ===== verification/TrayState.thy ===== *)
theory TrayState
  imports SenderLife DeviceCoordinator Mdns UsbMux UiModel
begin

text \<open>
  The tray process (\<^verbatim>\<open>src/src/app/TrayApp.cpp\<close>): its context with the senders it owns, what
  their worker threads do to it, and how the target of a device is found.  Times of the steady clock are
  milliseconds.  The notices of the panel are left out.
\<close>

subsection \<open>The context\<close>

datatype ConnectionTransport = NoTransport | Wifi | Usb

record StartupConnectionAttempt =
  sc_transport :: ConnectionTransport
  fallbackUsed :: bool
  started :: int
  wifiOrder :: "nat list"
  wifiPosition :: nat
  activeDeviceIndex :: "nat option"
  waitingNext :: bool
  waitingTransportStop :: bool

definition StartupConnectionAttempt_default :: StartupConnectionAttempt where
  "StartupConnectionAttempt_default =
     \<lparr>sc_transport = NoTransport, fallbackUsed = False, started = 0, wifiOrder = [], wifiPosition = 0,
      activeDeviceIndex = None, waitingNext = False, waitingTransportStop = False\<rparr>"

definition kStartupConnectionAttemptTimeout :: int where "kStartupConnectionAttemptTimeout = 8000"

datatype CommandType = StartCommand | StopCommand | RetryCommand | SwitchCommand

record DeviceCommand =
  command_type :: CommandType
  command_index :: "nat option"

datatype AutoConnectMessage = NoMessage | AllCandidatesFailed | NoFallbackConnection | StoppedForGlobalFailure

text \<open>What a call of \<^verbatim>\<open>Start\<close> that launches a worker passes to it.\<close>

record LaunchedWorker =
  launch_target :: string
  launch_port :: int
  launch_settings :: StreamSettings
  launch_device :: string

text \<open>The members that the connections depend on; \<open>saves\<close> and \<open>launches\<close> log the calls of
  \<^verbatim>\<open>Config::Save\<close> and the workers that were launched.\<close>

record TrayContext =
  apps :: "SenderApp list"
  retiredApps :: "SenderApp list"
  cfg :: Config
  discovered :: "string smap"
  discoveryCache :: "DiscoveryRecord list"
  usbDevices :: "UsbMuxDevice list"
  lastUsbRefresh :: int
  usbApp :: "SenderApp option"
  activeUsbTarget :: string
  panelAutoReconnect :: bool
  panelRequirePrivateNetwork :: bool
  panelStreamProfile :: StreamProfile
  startupConnection :: StartupConnectionAttempt
  deviceFlow :: DeviceCoordinator
  commands :: "DeviceCommand list"
  switchingTo :: "nat option"
  switching :: bool
  restartAfterStop :: "nat list"
  restartUsbTarget :: string
  autoConnectMessage :: AutoConnectMessage
  saves :: "Config list"
  launches :: "LaunchedWorker list"

text \<open>The initialisers of the members, with the settings that were loaded.\<close>

definition TrayContext_default :: "Config \<Rightarrow> TrayContext" where
  "TrayContext_default c =
     \<lparr>apps = [], retiredApps = [], cfg = c, discovered = [], discoveryCache = [], usbDevices = [], lastUsbRefresh = 0,
      usbApp = None, activeUsbTarget = [], panelAutoReconnect = False, panelRequirePrivateNetwork = True,
      panelStreamProfile = Balanced, startupConnection = StartupConnectionAttempt_default, deviceFlow = Reset,
      commands = [], switchingTo = None, switching = False, restartAfterStop = [], restartUsbTarget = [],
      autoConnectMessage = NoMessage, saves = [], launches = []\<rparr>"

abbreviation set_transport :: "ConnectionTransport \<Rightarrow> TrayContext \<Rightarrow> TrayContext" where
  "set_transport t ctx \<equiv> ctx\<lparr>startupConnection := (startupConnection ctx)\<lparr>sc_transport := t\<rparr>\<rparr>"

definition save_config :: "TrayContext \<Rightarrow> TrayContext" where
  "save_config ctx = ctx\<lparr>saves := saves ctx @ [cfg ctx]\<rparr>"

subsection \<open>The worker threads\<close>

text \<open>A worker changes its status while it lives, and it returns.  Workers of other objects and other changes of an
  object are the owner's.\<close>

datatype Slot = UsbSlot | AppSlot nat | RetiredSlot nat

datatype WorkerStep = Returns Slot | Reports Slot SenderApp

definition live_report :: "SenderApp \<Rightarrow> SenderApp \<Rightarrow> SenderApp" where
  "live_report st s =
     (if worker s = Live
      then st\<lparr>running := running s, stopRequested := stopRequested s, attempt := attempt s, worker := worker s\<rparr> else s)"

definition returned :: "SenderApp \<Rightarrow> SenderApp" where
  "returned s = (if worker s = Live then worker_returns s else s)"

fun on_slot :: "(SenderApp \<Rightarrow> SenderApp) \<Rightarrow> Slot \<Rightarrow> TrayContext \<Rightarrow> TrayContext" where
  "on_slot f UsbSlot ctx = ctx\<lparr>usbApp := map_option f (usbApp ctx)\<rparr>"
| "on_slot f (AppSlot i) ctx = (if i < length (apps ctx) then ctx\<lparr>apps := (apps ctx)[i := f (apps ctx ! i)]\<rparr> else ctx)"
| "on_slot f (RetiredSlot i) ctx =
     (if i < length (retiredApps ctx) then ctx\<lparr>retiredApps := (retiredApps ctx)[i := f (retiredApps ctx ! i)]\<rparr> else ctx)"

fun worker_step :: "WorkerStep \<Rightarrow> TrayContext \<Rightarrow> TrayContext" where
  "worker_step (Returns sl) ctx = on_slot returned sl ctx"
| "worker_step (Reports sl st) ctx = on_slot (live_report st) sl ctx"

definition worker_steps :: "WorkerStep list \<Rightarrow> TrayContext \<Rightarrow> TrayContext" where
  "worker_steps ws ctx = fold worker_step ws ctx"

text \<open>\<^verbatim>\<open>Stop\<close> waits for the worker, which returns; \<^verbatim>\<open>Start\<close> on an object with
  \<open>life_inv\<close> never waits.  The transport of a session is \<^verbatim>\<open>"wifi"\<close> by default, and no caller
  passes another one.\<close>

definition Stop_and_wait :: "int \<Rightarrow> SenderApp \<Rightarrow> SenderApp" where
  "Stop_and_wait now s = value_or (Stop now (returned (RequestStop s))) s"

definition Start_now :: "int \<Rightarrow> string \<Rightarrow> SenderApp \<Rightarrow> SenderApp" where
  "Start_now now expectedId s = value_or (Start now expectedId ''wifi'' s) s"

text \<open>What a handler is told: the clocks, the devices that Apple's service lists, and what the workers do while it
  waits for one of them.\<close>

record TrayAnswer =
  t_now :: int
  t_seconds :: int
  t_usb :: "UsbMuxDevice list"
  t_waits :: "WorkerStep list"

subsection \<open>Senders and settings\<close>

definition AnyStreaming :: "TrayContext \<Rightarrow> bool" where
  "AnyStreaming ctx \<longleftrightarrow>
     (case usbApp ctx of Some a \<Rightarrow> state a = StateStreaming | None \<Rightarrow> False) \<or>
     list_ex (\<lambda>a. state a = StateStreaming) (apps ctx)"

definition usb_running :: "TrayContext \<Rightarrow> bool" where
  "usb_running ctx \<longleftrightarrow> (case usbApp ctx of Some a \<Rightarrow> running a | None \<Rightarrow> False)"

definition AnyRunning :: "TrayContext \<Rightarrow> bool" where
  "AnyRunning ctx \<longleftrightarrow> usb_running ctx \<or> list_ex running (apps ctx)"

definition RebuildSenders :: "TrayContext \<Rightarrow> TrayContext" where
  "RebuildSenders ctx =
     ctx\<lparr>usbApp := None, activeUsbTarget := (if usbApp ctx = None then activeUsbTarget ctx else []),
         apps := map (\<lambda>d. SenderApp_default) (devices (cfg ctx))\<rparr>"

definition MakeStreamSettings :: "Config \<Rightarrow> bool \<Rightarrow> StreamSettings" where
  "MakeStreamSettings c usb =
     (let bitrate = (word_of_int (bitrateMbps c) :: u32); rate = (word_of_int (Config.fps c) :: u32) in
      StreamSettings_default
        \<lparr>SenderStatus.fps := (if usb then min rate 60 else rate),
         bitrateBps := (if usb then max bitrate 80 else bitrate) * 1000000,
         SenderStatus.requirePrivateNetwork := Config.requirePrivateNetwork c\<rparr>)"

definition RefreshUsbDevices :: "TrayAnswer \<Rightarrow> bool \<Rightarrow> TrayContext \<Rightarrow> TrayContext" where
  "RefreshUsbDevices a force ctx =
     (if \<not> force \<and> t_now a - lastUsbRefresh ctx < 2000 then ctx
      else ctx\<lparr>lastUsbRefresh := t_now a, usbDevices := t_usb a\<rparr>)"

subsection \<open>Discovery and targets\<close>

definition ReceiverLabel :: "DiscoveryRecord \<Rightarrow> string" where
  "ReceiverLabel r =
     (let generic = rec_instance r \<in> {[], ''iPad'', ''iPhone'', ''OpenDisplay''} in
      if \<not> generic then rec_instance r
      else
        (let host = rec_host r; n = length host - length ''.local'';
             h = (if length ''.local'' < length host \<and> drop n host = ''.local'' then take n host else host)
         in if h = [] then rec_instance r else h))"

text \<open>One pass of the discovery thread.\<close>

definition RunDiscovery_pass :: "DiscoveryRecord list \<Rightarrow> int \<Rightarrow> TrayContext \<Rightarrow> TrayContext" where
  "RunDiscovery_pass answers now ctx =
     (let cache = Expire now (Merge answers now (discoveryCache ctx)) in
      ctx\<lparr>discoveryCache := cache,
          discovered := foldl (\<lambda>m r. if online r \<and> address r \<noteq> [] then smap_put (address r) (ReceiverLabel r) m else m)
            [] (Records cache)\<rparr>)"

text \<open>\<^verbatim>\<open>SplitDevice(...).address\<close> is \<open>endpoint\<close>.\<close>

definition entry_label :: "DeviceConfig \<Rightarrow> string" where
  "entry_label d = (if dev_name d = [] then endpoint d else dev_name d)"

definition same_receiver :: "DeviceConfig \<Rightarrow> DiscoveryRecord \<Rightarrow> bool" where
  "same_receiver d r \<longleftrightarrow>
     (address r = lastIpv4 d \<or> rec_host r = bonjourHost d) \<or> (dev_name d \<noteq> [] \<and> ReceiverLabel r = dev_name d)"

fun match_loop :: "DeviceConfig \<Rightarrow> DiscoveryRecord list \<Rightarrow> DiscoveryRecord option \<Rightarrow> DiscoveryRecord option" where
  "match_loop d [] acc = acc"
| "match_loop d (r # rs) acc =
     (if online r \<and> same_receiver d r
      then (if acc \<noteq> None \<and> rec_id (the acc) \<noteq> rec_id r then None else match_loop d rs (Some r))
      else match_loop d rs acc)"

definition by_identity :: "DiscoveryRecord option \<Rightarrow> string" where
  "by_identity r =
     (case r of
        None \<Rightarrow> []
      | Some r \<Rightarrow>
          (if \<not> online r then [] else if address r \<noteq> [] then address r
           else if addresses r \<noteq> [] then hd (addresses r) else rec_host r))"

definition by_match :: "DiscoveryRecord option \<Rightarrow> string" where
  "by_match r = (case r of None \<Rightarrow> [] | Some r \<Rightarrow> if address r \<noteq> [] then address r else rec_host r)"

definition ResolveDeviceTarget :: "TrayContext \<Rightarrow> nat \<Rightarrow> string" where
  "ResolveDeviceTarget ctx i =
     (if length (devices (cfg ctx)) \<le> i then []
      else
        (let d = devices (cfg ctx) ! i;
             target = (if dev_id d \<noteq> [] then by_identity (FindById (dev_id d) (discoveryCache ctx))
                       else by_match (match_loop d (Records (discoveryCache ctx)) None))
         in if target \<noteq> [] then target else endpoint d))"

definition DevicePort :: "TrayContext \<Rightarrow> nat \<Rightarrow> int" where
  "DevicePort ctx i =
     (let d = devices (cfg ctx) ! i; configured = dev_port d in
      case (if dev_id d \<noteq> [] then FindById (dev_id d) (discoveryCache ctx) else None) of
        Some r \<Rightarrow>
          (if online r \<and> rec_port r \<noteq> 0 then uint (rec_port r)
           else if configured = 0 then Config.port (cfg ctx) else configured)
      | None \<Rightarrow> if configured = 0 then Config.port (cfg ctx) else configured)"

text \<open>What to call a device, before it is widened.\<close>

definition DeviceLabel :: "TrayContext \<Rightarrow> nat \<Rightarrow> string" where
  "DeviceLabel ctx i =
     (let d = devices (cfg ctx) ! i in
      if entry_label d \<noteq> endpoint d then entry_label d
      else
        (let known = (if dev_id d \<noteq> [] then FindById (dev_id d) (discoveryCache ctx) else None) in
         if known \<noteq> None \<and> ReceiverLabel (the known) \<noteq> [] then ReceiverLabel (the known)
         else value_or (map_of (discovered ctx) (endpoint d)) (endpoint d)))"

definition PreferredUsbTarget :: "TrayContext \<Rightarrow> string option" where
  "PreferredUsbTarget ctx =
     (if usbDevices ctx = [] then None
      else
        (case find (\<lambda>target. lastUsbTarget (cfg ctx) \<noteq> [] \<and> target = lastUsbTarget (cfg ctx))
               (map (\<lambda>d. MakeUsbMuxTarget (udid d)) (usbDevices ctx)) of
           Some target \<Rightarrow> Some target
         | None \<Rightarrow>
             (if length (usbDevices ctx) = 1 then Some (MakeUsbMuxTarget (udid (hd (usbDevices ctx)))) else None)))"

end
