(* ===== verification/TraySessions.thy ===== *)
theory TraySessions
  imports TrayState
begin

text \<open>
  The decisions of the tray on which sender to start and stop (\<^verbatim>\<open>src/src/app/TrayApp.cpp\<close>):
  USB and Wi-Fi sessions, the automatic connection with its candidates and its one fallback, and the queue of
  the user's commands.  A function that returns a truth value returns it with the context.
\<close>

subsection \<open>Sessions\<close>

definition StopUsbSession :: "TrayAnswer \<Rightarrow> TrayContext \<Rightarrow> TrayContext" where
  "StopUsbSession a ctx =
     (if usbApp ctx = None then ctx
      else (worker_steps (t_waits a) (ctx\<lparr>usbApp := map_option RequestStop (usbApp ctx)\<rparr>))
             \<lparr>usbApp := None, activeUsbTarget := []\<rparr>)"

definition StopConfiguredSenders :: "TrayAnswer \<Rightarrow> TrayContext \<Rightarrow> TrayContext" where
  "StopConfiguredSenders a ctx =
     (let c = worker_steps (t_waits a) ctx in c\<lparr>apps := map (Stop_and_wait (t_now a)) (apps c)\<rparr>)"

definition RequestStopConfiguredSenders :: "TrayContext \<Rightarrow> TrayContext" where
  "RequestStopConfiguredSenders ctx = ctx\<lparr>apps := map RequestStop (apps ctx)\<rparr>"

definition request_stop_usb :: "TrayContext \<Rightarrow> TrayContext" where
  "request_stop_usb ctx = ctx\<lparr>usbApp := map_option RequestStop (usbApp ctx)\<rparr>"

text \<open>A new object for the cable session, started.\<close>

definition launch_usb :: "TrayAnswer \<Rightarrow> string \<Rightarrow> TrayContext \<Rightarrow> TrayContext" where
  "launch_usb a target ctx =
     ctx\<lparr>activeUsbTarget := target, usbApp := Some (Start_now (t_now a) [] SenderApp_default),
         launches := launches ctx @ [\<lparr>launch_target = target, launch_port = Config.port (cfg ctx),
           launch_settings = MakeStreamSettings (cfg ctx) True, launch_device = []\<rparr>]\<rparr>"

definition StartUsbSession :: "TrayAnswer \<Rightarrow> string \<Rightarrow> TrayContext \<Rightarrow> TrayContext" where
  "StartUsbSession a target ctx = launch_usb a target (StopUsbSession a (StopConfiguredSenders a ctx))"

text \<open>\<^verbatim>\<open>Start\<close> on the sender of a configured device; it does nothing while the worker runs.\<close>

definition start_device :: "TrayAnswer \<Rightarrow> string \<Rightarrow> nat \<Rightarrow> TrayContext \<Rightarrow> TrayContext" where
  "start_device a target i ctx =
     (let s = apps ctx ! i; expectedId = dev_id (devices (cfg ctx) ! i) in
      ctx\<lparr>apps := (apps ctx)[i := Start_now (t_now a) expectedId s],
          launches := launches ctx @ (if running s then []
            else [\<lparr>launch_target = target, launch_port = DevicePort ctx i,
                   launch_settings = MakeStreamSettings (cfg ctx) False, launch_device = expectedId\<rparr>])\<rparr>)"

definition IsWifiStreaming :: "TrayContext \<Rightarrow> bool" where
  "IsWifiStreaming ctx \<longleftrightarrow> list_ex (\<lambda>s. state s = StateStreaming) (apps ctx)"

fun IsTransportStreaming :: "TrayContext \<Rightarrow> ConnectionTransport \<Rightarrow> bool" where
  "IsTransportStreaming ctx Usb = (case usbApp ctx of Some s \<Rightarrow> state s = StateStreaming | None \<Rightarrow> False)"
| "IsTransportStreaming ctx Wifi = IsWifiStreaming ctx"
| "IsTransportStreaming ctx NoTransport = False"

definition StartWifiSession :: "TrayAnswer \<Rightarrow> TrayContext \<Rightarrow> bool \<times> TrayContext" where
  "StartWifiSession a ctx =
     (if apps ctx = [] then (False, ctx)
      else
        (let c0 = StopUsbSession a ctx;
             begun = Begin (devices (cfg c0)) (preferredDeviceId (cfg c0));
             c1 = c0\<lparr>deviceFlow := fst begun\<rparr>;
             order = dev_order (deviceFlow c1)
         in if order = [] then (False, c1)
            else
              (let c2 = c1\<lparr>startupConnection := (startupConnection c1)
                     \<lparr>wifiOrder := order, wifiPosition := 0, activeDeviceIndex := Some (hd order)\<rparr>\<rparr>;
                   i = the (snd begun);
                   target = ResolveDeviceTarget c2 i
               in if target = [] then (False, c2) else (True, start_device a target i c2))))"

definition StartWifiCandidate :: "TrayAnswer \<Rightarrow> nat \<Rightarrow> TrayContext \<Rightarrow> bool \<times> TrayContext" where
  "StartWifiCandidate a orderPosition ctx =
     (if length (wifiOrder (startupConnection ctx)) \<le> orderPosition then (False, ctx)
      else
        (let i = wifiOrder (startupConnection ctx) ! orderPosition in
         if length (apps ctx) \<le> i then (False, ctx)
         else
           (let target = ResolveDeviceTarget ctx i in
            if target = [] then (False, ctx)
            else
              (True, start_device a target i
                 (ctx\<lparr>startupConnection := (startupConnection ctx)
                    \<lparr>wifiPosition := orderPosition, activeDeviceIndex := Some i, waitingNext := False,
                     started := t_now a\<rparr>\<rparr>)))))"

fun StartTransportAttempt :: "TrayAnswer \<Rightarrow> ConnectionTransport \<Rightarrow> TrayContext \<Rightarrow> bool \<times> TrayContext" where
  "StartTransportAttempt a Usb ctx =
     (case PreferredUsbTarget ctx of None \<Rightarrow> (False, ctx) | Some target \<Rightarrow> (True, StartUsbSession a target ctx))"
| "StartTransportAttempt a Wifi ctx = StartWifiSession a ctx"
| "StartTransportAttempt a NoTransport ctx = (False, ctx)"

fun StopTransportAttempt :: "TrayAnswer \<Rightarrow> ConnectionTransport \<Rightarrow> TrayContext \<Rightarrow> TrayContext" where
  "StopTransportAttempt a Usb ctx = StopUsbSession a ctx"
| "StopTransportAttempt a Wifi ctx = StopConfiguredSenders a ctx"
| "StopTransportAttempt a NoTransport ctx = ctx"

fun RequestStopTransportAttempt :: "ConnectionTransport \<Rightarrow> TrayContext \<Rightarrow> TrayContext" where
  "RequestStopTransportAttempt Usb ctx = request_stop_usb ctx"
| "RequestStopTransportAttempt Wifi ctx = RequestStopConfiguredSenders ctx"
| "RequestStopTransportAttempt NoTransport ctx = ctx"

fun OtherTransport :: "ConnectionTransport \<Rightarrow> ConnectionTransport" where
  "OtherTransport Usb = Wifi"
| "OtherTransport Wifi = Usb"
| "OtherTransport NoTransport = NoTransport"

subsection \<open>What is remembered of a success\<close>

definition remember_wifi :: "TrayAnswer \<Rightarrow> nat \<Rightarrow> TrayContext \<Rightarrow> TrayContext" where
  "remember_wifi a i ctx =
     (let c = cfg ctx; d = devices c ! i; addr = ResolveDeviceTarget ctx i; learned = session_device (apps ctx ! i);
          changed0 = (lastConnectionTransport c \<noteq> ''wifi'' \<or> lastWifiAddress c \<noteq> addr);
          learns = (dev_id d = [] \<and> learned \<noteq> []);
          d1 = (if learns then d\<lparr>dev_id := learned\<rparr> else d);
          seen = (lastSeen d1 = 0 \<or> 3600 \<le> t_seconds a - lastSeen d1);
          d2 = (if seen then d1\<lparr>lastSeen := t_seconds a\<rparr> else d1);
          found = (if dev_id d2 \<noteq> [] then FindById (dev_id d2) (discoveryCache ctx) else None);
          moved = (found \<noteq> None \<and> rec_host (the found) \<noteq> [] \<and> rec_host (the found) \<noteq> bonjourHost d2);
          d3 = (if moved then d2\<lparr>bonjourHost := rec_host (the found)\<rparr> else d2)
      in if changed0 \<or> learns \<or> seen \<or> moved
         then save_config (ctx\<lparr>cfg := c\<lparr>lastConnectionTransport := ''wifi'', lastWifiAddress := addr,
                devices := (devices c)[i := d3\<lparr>lastIpv4 := addr\<rparr>]\<rparr>\<rparr>)
         else ctx)"

definition RememberSuccessfulTransport :: "TrayAnswer \<Rightarrow> TrayContext \<Rightarrow> TrayContext" where
  "RememberSuccessfulTransport a ctx =
     (if IsTransportStreaming ctx Usb
      then (if lastConnectionTransport (cfg ctx) \<noteq> ''usb'' \<or> lastUsbTarget (cfg ctx) \<noteq> activeUsbTarget ctx
            then save_config (ctx\<lparr>cfg := (cfg ctx)\<lparr>lastConnectionTransport := ''usb'', lastUsbTarget := activeUsbTarget ctx\<rparr>\<rparr>)
            else ctx)
      else
        (case find (\<lambda>i. state (apps ctx ! i) = StateStreaming) [0..<min (length (apps ctx)) (length (devices (cfg ctx)))] of
           None \<Rightarrow> ctx
         | Some i \<Rightarrow> remember_wifi a i ctx))"

subsection \<open>The automatic connection\<close>

definition attempt_begun :: "TrayAnswer \<Rightarrow> ConnectionTransport \<Rightarrow> bool \<Rightarrow> TrayContext \<Rightarrow> TrayContext" where
  "attempt_begun a t fallback ctx =
     ctx\<lparr>startupConnection := (startupConnection ctx)\<lparr>sc_transport := t, fallbackUsed := fallback, started := t_now a\<rparr>\<rparr>"

definition preferred_transport :: "TrayContext \<Rightarrow> ConnectionTransport" where
  "preferred_transport ctx =
     (if lastConnectionTransport (cfg ctx) = ''usb'' then Usb
      else if lastConnectionTransport (cfg ctx) = ''wifi'' then Wifi
      else if PreferredUsbTarget ctx \<noteq> None then Usb else Wifi)"

definition BeginStartupAutoConnect :: "TrayAnswer \<Rightarrow> TrayContext \<Rightarrow> TrayContext" where
  "BeginStartupAutoConnect a ctx =
     (let c0 = (RefreshUsbDevices a True ctx)
            \<lparr>autoConnectMessage := NoMessage, startupConnection := StartupConnectionAttempt_default\<rparr>;
          preferred = preferred_transport c0
      in case StartTransportAttempt a preferred c0 of
           (True, c1) \<Rightarrow> attempt_begun a preferred False c1
         | (False, c1) \<Rightarrow>
             (case StartTransportAttempt a (OtherTransport preferred) c1 of
                (True, c2) \<Rightarrow> attempt_begun a (OtherTransport preferred) True c2
              | (False, c2) \<Rightarrow> c2))"

definition report_streaming :: "TrayContext \<Rightarrow> TrayContext" where
  "report_streaming ctx =
     (let c0 = ctx\<lparr>autoConnectMessage := NoMessage\<rparr> in
      case (sc_transport (startupConnection ctx), activeDeviceIndex (startupConnection ctx)) of
        (Wifi, Some i) \<Rightarrow>
          (if i < length (devices (cfg ctx))
           then c0\<lparr>deviceFlow := ReportStreaming (dev_id (devices (cfg ctx) ! i)) (deviceFlow c0)\<rparr> else c0)
      | _ \<Rightarrow> c0)"

definition advance_streaming :: "TrayAnswer \<Rightarrow> TrayContext \<Rightarrow> TrayContext" where
  "advance_streaming a ctx = set_transport NoTransport (RememberSuccessfulTransport a (report_streaming ctx))"

text \<open>The transport has been asked to stop: when it is down, the one fallback.\<close>

definition advance_stopping :: "TrayAnswer \<Rightarrow> TrayContext \<Rightarrow> TrayContext" where
  "advance_stopping a ctx =
     (let failed = sc_transport (startupConnection ctx) in
      if (if failed = Usb then usb_running ctx else list_ex running (apps ctx)) then ctx
      else
        (let c0 = StopTransportAttempt a failed ctx;
             c1 = c0\<lparr>startupConnection := (startupConnection c0)\<lparr>waitingTransportStop := False\<rparr>\<rparr>
         in if fallbackUsed (startupConnection c1)
            then (set_transport NoTransport c1)\<lparr>autoConnectMessage := AllCandidatesFailed\<rparr>
            else
              (case StartTransportAttempt a (OtherTransport failed) c1 of
                 (True, c2) \<Rightarrow> attempt_begun a (OtherTransport failed) True c2
               | (False, c2) \<Rightarrow> (set_transport NoTransport c2)\<lparr>autoConnectMessage := NoFallbackConnection\<rparr>)))"

definition global_failure :: "ConnectionSnapshot \<Rightarrow> bool" where
  "global_failure snapshot \<longleftrightarrow>
     snap_phase snapshot = UnsafeNetwork \<or>
     snap_failure snapshot \<in> {DriverUnavailable, ResolutionUnavailable, CaptureUnavailable, EncoderUnavailable, AnotherSender}"

definition timed_out :: "TrayAnswer \<Rightarrow> TrayContext \<Rightarrow> bool" where
  "timed_out a ctx \<longleftrightarrow> kStartupConnectionAttemptTimeout \<le> t_now a - started (startupConnection ctx)"

definition stop_active :: "DeviceFailureClass \<Rightarrow> nat \<Rightarrow> TrayContext \<Rightarrow> TrayContext" where
  "stop_active cls i ctx =
     ctx\<lparr>deviceFlow := fst (ReportFailure cls (deviceFlow ctx)), apps := (apps ctx)[i := RequestStop (apps ctx ! i)]\<rparr>"

text \<open>The walk over the candidates; \<open>True\<close> returns from \<^verbatim>\<open>AdvanceStartupAutoConnect\<close>.\<close>

definition advance_candidate :: "TrayAnswer \<Rightarrow> nat \<Rightarrow> TrayContext \<Rightarrow> bool \<times> TrayContext" where
  "advance_candidate a i ctx =
     (let active = apps ctx ! i; snapshot = Snapshot (t_now a) active;
          sc = startupConnection ctx; nxt = wifiPosition sc + 1
      in if global_failure snapshot
         then (True, (set_transport NoTransport (stop_active Global i ctx))\<lparr>autoConnectMessage := StoppedForGlobalFailure\<rparr>)
         else if waitingNext sc
         then
           (if running active then (True, ctx)
            else
              (case StartWifiCandidate a nxt ctx of
                 (True, c) \<Rightarrow> (True, c)
               | (False, c) \<Rightarrow> (False, c\<lparr>startupConnection := (startupConnection c)\<lparr>waitingNext := False\<rparr>\<rparr>)))
         else if snap_phase snapshot = Failed \<or> timed_out a ctx
         then
           (let c = stop_active Device i ctx in
            if nxt < length (wifiOrder sc)
            then (True, c\<lparr>startupConnection := (startupConnection c)\<lparr>waitingNext := True\<rparr>\<rparr>)
            else if running (apps c ! i) then (True, c) else (False, c))
         else (False, ctx))"

definition AdvanceStartupAutoConnect :: "TrayAnswer \<Rightarrow> TrayContext \<Rightarrow> TrayContext" where
  "AdvanceStartupAutoConnect a ctx =
     (let t = sc_transport (startupConnection ctx) in
      if t = NoTransport then ctx
      else if IsTransportStreaming ctx t then advance_streaming a ctx
      else if waitingTransportStop (startupConnection ctx) then advance_stopping a ctx
      else
        (case (case (t, activeDeviceIndex (startupConnection ctx)) of
                 (Wifi, Some i) \<Rightarrow> if i < length (apps ctx) then advance_candidate a i ctx else (False, ctx)
               | _ \<Rightarrow> (False, ctx)) of
           (True, c) \<Rightarrow> c
         | (False, c) \<Rightarrow>
             (if \<not> timed_out a c then c
              else
                (let c1 = RequestStopTransportAttempt (sc_transport (startupConnection c)) c in
                 c1\<lparr>startupConnection := (startupConnection c1)\<lparr>waitingTransportStop := True\<rparr>\<rparr>))))"

subsection \<open>Resuming and commands\<close>

definition RunningAddresses :: "TrayContext \<Rightarrow> string list" where
  "RunningAddresses ctx =
     map (\<lambda>i. endpoint (devices (cfg ctx) ! i))
       (filter (\<lambda>i. running (apps ctx ! i)) [0..<min (length (apps ctx)) (length (devices (cfg ctx)))])"

definition StartAddresses :: "TrayAnswer \<Rightarrow> string list \<Rightarrow> TrayContext \<Rightarrow> TrayContext" where
  "StartAddresses a wanted ctx =
     fold (\<lambda>i c. let addr = endpoint (devices (cfg c) ! i) in
             if addr \<in> set wanted then start_device a addr i c else c) [0..<length (apps ctx)] ctx"

definition QueueDeviceCommand :: "CommandType \<Rightarrow> nat option \<Rightarrow> TrayContext \<Rightarrow> TrayContext" where
  "QueueDeviceCommand type index ctx =
     (if type \<noteq> StopCommand \<and> (case index of None \<Rightarrow> True | Some i \<Rightarrow> length (devices (cfg ctx)) \<le> i) then ctx
      else if type = SwitchCommand \<and> switchingTo ctx \<noteq> None \<and> switchingTo ctx = index then ctx
      else
        (let asked = (if type = SwitchCommand then RequestSwitch (the index) (deviceFlow ctx) else (deviceFlow ctx, True));
             c = ctx\<lparr>deviceFlow := fst asked\<rparr>; new = \<lparr>command_type = type, command_index = index\<rparr>
         in if \<not> snd asked then c
            else if new \<in> set (commands c) then c
            else c\<lparr>commands := commands c @ [new]\<rparr>))"

text \<open>Sessions that a change of the settings interrupts are started again when they are down.\<close>

definition restart_pending :: "TrayContext \<Rightarrow> bool" where
  "restart_pending ctx \<longleftrightarrow> restartAfterStop ctx \<noteq> [] \<or> restartUsbTarget ctx \<noteq> []"

definition restart_apps :: "TrayAnswer \<Rightarrow> nat list \<Rightarrow> TrayContext \<Rightarrow> TrayContext" where
  "restart_apps a indices ctx =
     fold (\<lambda>i c. if i < length (apps c) then start_device a (ResolveDeviceTarget c i) i c else c) indices ctx"

definition process_restart :: "TrayAnswer \<Rightarrow> TrayContext \<Rightarrow> TrayContext" where
  "process_restart a ctx =
     (if list_ex (\<lambda>i. i < length (apps ctx) \<and> running (apps ctx ! i)) (restartAfterStop ctx) \<or> usb_running ctx then ctx
      else
        (let c = restart_apps a (restartAfterStop ctx) ctx;
             c1 = (if restartUsbTarget c \<noteq> [] then launch_usb a (restartUsbTarget c) c else c)
         in c1\<lparr>restartAfterStop := [], restartUsbTarget := [], switching := False\<rparr>))"

definition process_switch :: "TrayAnswer \<Rightarrow> TrayContext \<Rightarrow> TrayContext" where
  "process_switch a ctx =
     (if AnyRunning ctx then ctx
      else
        (let c = (if usbApp ctx = None then ctx else ctx\<lparr>usbApp := None, activeUsbTarget := []\<rparr>);
             c1 = (case switchingTo c of
                     Some i \<Rightarrow>
                       (if i < length (apps c) \<and> ResolveDeviceTarget c i \<noteq> []
                        then start_device a (ResolveDeviceTarget c i) i c else c)
                   | None \<Rightarrow> c)
         in c1\<lparr>switching := False, switchingTo := None, deviceFlow := CompleteSwitch False (deviceFlow c1)\<rparr>))"

definition process_command :: "DeviceCommand \<Rightarrow> TrayContext \<Rightarrow> TrayContext" where
  "process_command command ctx =
     (let c = set_transport NoTransport ctx;
          c1 = (if command_type command = StopCommand then c\<lparr>deviceFlow := Reset\<rparr> else c);
          c2 = RequestStopConfiguredSenders (request_stop_usb c1)
      in c2\<lparr>switching := True,
            switchingTo := (if command_type command = StopCommand then None else command_index command)\<rparr>)"

definition ProcessDeviceCommands :: "TrayAnswer \<Rightarrow> TrayContext \<Rightarrow> TrayContext" where
  "ProcessDeviceCommands a ctx0 =
     (let ctx = ctx0\<lparr>retiredApps := filter running (retiredApps ctx0)\<rparr> in
      if switching ctx then (if restart_pending ctx then process_restart a ctx else process_switch a ctx)
      else
        (case commands ctx of
           [] \<Rightarrow> ctx
         | command # rest \<Rightarrow> process_command command (ctx\<lparr>commands := rest\<rparr>)))"

end
