(* ===== verification/TrayEvents.thy ===== *)
theory TrayEvents
  imports TraySessions
begin

text \<open>
  What the tray does on each message of its windows (\<^verbatim>\<open>src/src/app/TrayApp.cpp\<close>): the
  buttons of the panel, the entries of the menu, the timer, the settings, the start and the end of the process.
  One handler runs at a time on the thread of the windows; the workers run between the handlers, while a handler
  waits for them, and between the parts of the timer's handler.
\<close>

subsection \<open>The settings of the panel\<close>

definition SyncPanelSettingsFromConfig :: "TrayContext \<Rightarrow> TrayContext" where
  "SyncPanelSettingsFromConfig ctx =
     ctx\<lparr>panelAutoReconnect := autoReconnect (cfg ctx),
         panelRequirePrivateNetwork := Config.requirePrivateNetwork (cfg ctx),
         panelStreamProfile := streamProfile (cfg ctx)\<rparr>"

text \<open>Which sender of the old list serves a device of the new one; the senders already taken are \<open>used\<close>.\<close>

definition old_match :: "DeviceConfig list \<Rightarrow> nat \<Rightarrow> nat list \<Rightarrow> DeviceConfig \<Rightarrow> nat option" where
  "old_match oldDevices oldApps used d =
     find (\<lambda>old. old \<notin> set used \<and>
             ((dev_id d \<noteq> [] \<and> dev_id d = dev_id (oldDevices ! old)) \<or> endpoint d = endpoint (oldDevices ! old)))
       [0..<min (length oldDevices) oldApps]"

record ApplyState =
  used_apps :: "nat list"
  new_apps :: "SenderApp list"
  restarts :: "nat list"

definition apply_device ::
    "DeviceConfig list \<Rightarrow> SenderApp list \<Rightarrow> DeviceConfig list \<Rightarrow> string list \<Rightarrow> bool \<Rightarrow> nat \<Rightarrow> ApplyState \<Rightarrow> ApplyState" where
  "apply_device oldDevices oldApps devs reconnect restartActive nxt st =
     (case old_match oldDevices (length oldApps) (used_apps st) (devs ! nxt) of
        Some m \<Rightarrow>
          (let endpointChanged = (endpoint (devs ! nxt) \<noteq> endpoint (oldDevices ! m));
               stops = (running (oldApps ! m) \<and> (restartActive \<or> endpointChanged))
           in st\<lparr>used_apps := m # used_apps st,
                 new_apps := new_apps st @ [if stops then RequestStop (oldApps ! m) else oldApps ! m],
                 restarts := restarts st @ (if stops then [nxt] else [])\<rparr>)
      | None \<Rightarrow>
          st\<lparr>new_apps := new_apps st @ [SenderApp_default],
             restarts := restarts st @
               (if nxt < length oldDevices \<and> endpoint (oldDevices ! nxt) \<in> set reconnect then [nxt] else [])\<rparr>)"

definition ApplyAndRestart :: "DeviceConfig list \<Rightarrow> string list \<Rightarrow> bool \<Rightarrow> TrayContext \<Rightarrow> TrayContext" where
  "ApplyAndRestart oldDevices reconnect restartActive ctx =
     (let oldApps = apps ctx; devs = devices (cfg ctx);
          st = fold (apply_device oldDevices oldApps devs reconnect restartActive) [0..<length devs]
                 \<lparr>used_apps = [], new_apps = [], restarts = restartAfterStop ctx\<rparr>;
          unused = filter (\<lambda>i. i \<notin> set (used_apps st)) [0..<length oldApps];
          c = ctx\<lparr>apps := new_apps st, restartAfterStop := restarts st,
                  retiredApps := retiredApps ctx @ map (\<lambda>i. RequestStop (oldApps ! i)) unused\<rparr>;
          c1 = (if restartActive \<and> usb_running c
                then request_stop_usb (c\<lparr>restartUsbTarget := activeUsbTarget c\<rparr>) else c)
      in if restart_pending c1
         then c1\<lparr>restartAfterStop := remdups (sort (restartAfterStop c1)), switching := True, switchingTo := None\<rparr>
         else c1)"

text \<open>What is in the fields of the dialog, and whether the settings can be saved.\<close>

record PanelInput =
  in_devices :: wstring
  in_port :: "u32 option"
  in_fps :: "u32 option"
  in_bitrate :: "u32 option"
  save_succeeds :: bool

definition fields_valid :: "PanelInput \<Rightarrow> bool" where
  "fields_valid p \<longleftrightarrow>
     (case in_port p of None \<Rightarrow> False | Some v \<Rightarrow> v \<noteq> 0 \<and> v \<le> 65535) \<and>
     (case in_fps p of None \<Rightarrow> False | Some v \<Rightarrow> 30 \<le> v \<and> v \<le> 120) \<and>
     (case in_bitrate p of None \<Rightarrow> False | Some v \<Rightarrow> 5 \<le> v \<and> v \<le> 100)"

definition keep_identity :: "DeviceConfig list \<Rightarrow> DeviceConfig \<Rightarrow> DeviceConfig" where
  "keep_identity oldDevices edited =
     (case find (\<lambda>old. lastIpv4 old = lastIpv4 edited \<or> (bonjourHost old \<noteq> [] \<and> bonjourHost old = bonjourHost edited)) oldDevices of
        None \<Rightarrow> edited
      | Some old \<Rightarrow>
          edited\<lparr>dev_id := dev_id old, bonjourHost := bonjourHost old, preferredTransport := preferredTransport old,
                 lastSeen := lastSeen old, macHint := macHint old\<rparr>)"

definition edited_config :: "(wstring \<Rightarrow> string) \<Rightarrow> PanelInput \<Rightarrow> TrayContext \<Rightarrow> Config" where
  "edited_config narrow p ctx =
     (let newPort = uint (the (in_port p)); newFps = uint (the (in_fps p)); newBitrate = uint (the (in_bitrate p)) in
      (cfg ctx)\<lparr>devices := map (keep_identity (devices (cfg ctx))) (ParseDeviceEntriesText narrow (in_devices p) newPort),
                Config.port := newPort, Config.fps := newFps, bitrateMbps := newBitrate,
                streamProfile := InferStreamProfile newFps newBitrate,
                autoReconnect := panelAutoReconnect ctx, Config.requirePrivateNetwork := panelRequirePrivateNetwork ctx\<rparr>)"

definition quality_changed :: "Config \<Rightarrow> Config \<Rightarrow> bool" where
  "quality_changed old new \<longleftrightarrow>
     Config.port new \<noteq> Config.port old \<or> Config.fps new \<noteq> Config.fps old \<or> bitrateMbps new \<noteq> bitrateMbps old \<or>
     Config.requirePrivateNetwork new \<noteq> Config.requirePrivateNetwork old"

definition SavePanelSettings :: "(wstring \<Rightarrow> string) \<Rightarrow> PanelInput \<Rightarrow> TrayContext \<Rightarrow> bool \<times> TrayContext" where
  "SavePanelSettings narrow p ctx =
     (if \<not> fields_valid p then (False, ctx)
      else
        (let old = cfg ctx; reconnect = RunningAddresses ctx;
             c = save_config (ctx\<lparr>cfg := edited_config narrow p ctx, panelStreamProfile := streamProfile (edited_config narrow p ctx)\<rparr>)
         in if \<not> save_succeeds p
            then (False, SyncPanelSettingsFromConfig
                    (c\<lparr>cfg := (cfg c)\<lparr>devices := devices old, Config.port := Config.port old, Config.fps := Config.fps old,
                         bitrateMbps := bitrateMbps old, Config.requirePrivateNetwork := Config.requirePrivateNetwork old,
                         autoReconnect := autoReconnect old, streamProfile := streamProfile old\<rparr>\<rparr>))
            else
              (let c1 = (if devices (cfg c) \<noteq> devices old \<or> quality_changed old (cfg c)
                         then ApplyAndRestart (devices old) reconnect (quality_changed old (cfg c)) c else c)
               in (True, SyncPanelSettingsFromConfig c1))))"

definition SetLauncherMode :: "LauncherMode \<Rightarrow> TrayContext \<Rightarrow> TrayContext" where
  "SetLauncherMode m ctx = save_config (ctx\<lparr>cfg := (cfg ctx)\<lparr>launcherMode := m, showLauncher := (m \<noteq> Hidden)\<rparr>\<rparr>)"

subsection \<open>The list of devices\<close>

definition renumber :: "DeviceConfig list \<Rightarrow> DeviceConfig list" where
  "renumber ds = map (\<lambda>i. (ds ! i)\<lparr>priority := int i\<rparr>) [0..<length ds]"

text \<open>The device that is selected in the list of discovered ones, by its address.\<close>

definition AddSelectedDiscoveredDevice :: "string option \<Rightarrow> TrayContext \<Rightarrow> bool \<times> TrayContext" where
  "AddSelectedDiscoveredDevice selected ctx =
     (case selected of
        None \<Rightarrow> (False, ctx)
      | Some addr \<Rightarrow>
          (if list_ex (\<lambda>d. endpoint d = addr) (devices (cfg ctx)) then (True, ctx)
           else
             (let name = value_or (map_of (discovered ctx) addr) [];
                  rec = find (\<lambda>r. address r = addr) (Records (discoveryCache ctx));
                  newId = (case rec of None \<Rightarrow> [] | Some r \<Rightarrow> rec_id r);
                  host = (case rec of None \<Rightarrow> [] | Some r \<Rightarrow> rec_host r);
                  newPort = (case rec of None \<Rightarrow> Config.port (cfg ctx)
                             | Some r \<Rightarrow> if rec_port r \<noteq> 0 then uint (rec_port r) else Config.port (cfg ctx));
                  ds = devices (cfg ctx);
                  stable = (if newId \<noteq> [] then find (\<lambda>i. dev_id (ds ! i) = newId) [0..<length ds] else None)
              in case stable of
                   Some i \<Rightarrow>
                     (True, SyncPanelSettingsFromConfig (save_config (ctx\<lparr>cfg := (cfg ctx)
                        \<lparr>devices := ds[i := (ds ! i)\<lparr>lastIpv4 := addr, bonjourHost := host, dev_port := newPort,
                            dev_name := (if name \<noteq> [] then name else dev_name (ds ! i))\<rparr>]\<rparr>\<rparr>)))
                 | None \<Rightarrow>
                     (let d = DeviceConfig_default\<lparr>dev_id := newId, dev_name := (if name = [] then addr else name),
                            lastIpv4 := addr, bonjourHost := host, dev_port := newPort, priority := int (length ds)\<rparr>;
                          c = save_config (ctx\<lparr>cfg := (cfg ctx)\<lparr>devices := ds @ [d]\<rparr>\<rparr>)
                      in (True, SyncPanelSettingsFromConfig (c\<lparr>apps := apps c @ [SenderApp_default]\<rparr>))))))"

definition DeviceDefault :: "nat \<Rightarrow> TrayContext \<Rightarrow> TrayContext" where
  "DeviceDefault i ctx =
     (if i < length (devices (cfg ctx)) \<and> dev_id (devices (cfg ctx) ! i) \<noteq> []
      then save_config (ctx\<lparr>cfg := (cfg ctx)\<lparr>preferredDeviceId := dev_id (devices (cfg ctx) ! i)\<rparr>\<rparr>) else ctx)"

definition swapped :: "nat \<Rightarrow> 'a list \<Rightarrow> 'a list" where
  "swapped i xs = xs[i := xs ! (i - 1), i - 1 := xs ! i]"

definition DeviceUp :: "nat \<Rightarrow> TrayContext \<Rightarrow> TrayContext" where
  "DeviceUp i ctx =
     (if 0 < i \<and> i < length (devices (cfg ctx))
      then SyncPanelSettingsFromConfig (save_config
             (ctx\<lparr>cfg := (cfg ctx)\<lparr>devices := renumber (swapped i (devices (cfg ctx)))\<rparr>, apps := swapped i (apps ctx)\<rparr>))
      else ctx)"

definition without :: "nat \<Rightarrow> 'a list \<Rightarrow> 'a list" where
  "without i xs = take i xs @ drop (Suc i) xs"

definition DeviceRemove :: "nat \<Rightarrow> TrayContext \<Rightarrow> TrayContext" where
  "DeviceRemove i ctx =
     (if i < length (devices (cfg ctx))
      then
        (let removedId = dev_id (devices (cfg ctx) ! i) in
         SyncPanelSettingsFromConfig (save_config
           (ctx\<lparr>retiredApps := retiredApps ctx @ [RequestStop (apps ctx ! i)], apps := without i (apps ctx),
                cfg := (cfg ctx)\<lparr>devices := renumber (without i (devices (cfg ctx))),
                  preferredDeviceId := (if removedId \<noteq> [] \<and> preferredDeviceId (cfg ctx) = removedId then []
                                        else preferredDeviceId (cfg ctx))\<rparr>\<rparr>)))
      else ctx)"

subsection \<open>The connection buttons\<close>

definition TogglePanelConnection :: "TrayAnswer \<Rightarrow> TrayContext \<Rightarrow> TrayContext" where
  "TogglePanelConnection a ctx =
     (if AnyRunning ctx then QueueDeviceCommand StopCommand None ctx else BeginStartupAutoConnect a ctx)"

text \<open>The row that is selected in the list of devices, if there is one.\<close>

definition RetryOrSwitchPanelConnection :: "TrayAnswer \<Rightarrow> nat option \<Rightarrow> TrayContext \<Rightarrow> TrayContext" where
  "RetryOrSwitchPanelConnection a selected ctx =
     (if 1 < length (devices (cfg ctx)) \<and> selected \<noteq> None then QueueDeviceCommand SwitchCommand selected ctx
      else
        (let usbActive = usb_running ctx; wifiActive = list_ex running (apps ctx); c = set_transport NoTransport ctx in
         if usbActive \<and> devices (cfg c) \<noteq> [] then snd (StartWifiSession a c)
         else if wifiActive
         then
           (let c1 = RefreshUsbDevices a True c in
            case PreferredUsbTarget c1 of
              Some target \<Rightarrow> StartUsbSession a target c1
            | None \<Rightarrow> QueueDeviceCommand RetryCommand
                (Some (value_or (find (\<lambda>i. running (apps c1 ! i)) [0..<length (apps c1)]) 0)) c1)
         else if usbActive then StartUsbSession a (activeUsbTarget c) (StopUsbSession a c)
         else BeginStartupAutoConnect a c))"

definition MenuUsb :: "TrayAnswer \<Rightarrow> nat \<Rightarrow> TrayContext \<Rightarrow> TrayContext" where
  "MenuUsb a k ctx =
     (if k < length (usbDevices ctx)
      then
        (let c = set_transport NoTransport ctx; target = MakeUsbMuxTarget (udid (usbDevices c ! k)) in
         if usbApp c \<noteq> None \<and> target = activeUsbTarget c then StopUsbSession a c else StartUsbSession a target c)
      else ctx)"

definition MenuDisconnectUsb :: "TrayAnswer \<Rightarrow> TrayContext \<Rightarrow> TrayContext" where
  "MenuDisconnectUsb a ctx = StopUsbSession a (set_transport NoTransport ctx)"

definition MenuDevice :: "nat \<Rightarrow> TrayContext \<Rightarrow> TrayContext" where
  "MenuDevice i ctx =
     (if i < length (apps ctx)
      then (if running (apps ctx ! i) then QueueDeviceCommand StopCommand None ctx
            else QueueDeviceCommand SwitchCommand (Some i) ctx)
      else ctx)"

definition MenuConnectAll :: "TrayAnswer \<Rightarrow> TrayContext \<Rightarrow> TrayContext" where
  "MenuConnectAll a ctx =
     (let c = StopUsbSession a (set_transport NoTransport ctx) in
      fold (\<lambda>i c. start_device a (ResolveDeviceTarget c i) i c) [0..<length (apps c)] c)"

text \<open>The restart as administrator: whether the path of the program is known, and whether the copy is up; then
  this process ends.\<close>

definition WM_DESTROY :: "TrayAnswer \<Rightarrow> TrayContext \<Rightarrow> TrayContext" where
  "WM_DESTROY a ctx = StopConfiguredSenders a (StopUsbSession a ctx)"

definition MenuRunAsAdmin :: "TrayAnswer \<Rightarrow> bool \<Rightarrow> bool \<Rightarrow> TrayContext \<Rightarrow> TrayContext" where
  "MenuRunAsAdmin a pathKnown copyUp ctx =
     (let resumeOnFailure = RunningAddresses ctx; c = StopConfiguredSenders a (StopUsbSession a ctx) in
      if \<not> pathKnown then StartAddresses a resumeOnFailure c
      else if copyUp then WM_DESTROY a c
      else if resumeOnFailure \<noteq> [] then StartAddresses a resumeOnFailure c else c)"

subsection \<open>The timer and the process\<close>

text \<open>Workers run between the parts of the handler.\<close>

definition WM_TIMER :: "TrayAnswer \<Rightarrow> WorkerStep list \<times> WorkerStep list \<Rightarrow> TrayContext \<Rightarrow> TrayContext" where
  "WM_TIMER a between ctx =
     RememberSuccessfulTransport a (worker_steps (snd between)
       (AdvanceStartupAutoConnect a (worker_steps (fst between)
         (ProcessDeviceCommands a (RefreshUsbDevices a False ctx)))))"

definition RunTray :: "TrayAnswer \<Rightarrow> string list option \<Rightarrow> Config \<Rightarrow> TrayContext" where
  "RunTray a resumeAddresses loaded =
     (let kept = filter (\<lambda>d. \<not> IsUsbMuxTarget (endpoint d)) (devices loaded);
          ctx = TrayContext_default (loaded\<lparr>devices := kept\<rparr>);
          ctx1 = RebuildSenders (if length kept \<noteq> length (devices loaded) then save_config ctx else ctx)
      in case resumeAddresses of
           Some resumed \<Rightarrow> StartAddresses a resumed ctx1
         | None \<Rightarrow> if autoReconnect (cfg ctx1) then BeginStartupAutoConnect a ctx1 else ctx1)"

datatype TrayEvent =
  Worker WorkerStep | DiscoveryPass "DiscoveryRecord list" | Timer "WorkerStep list" "WorkerStep list"
| Toggle | RetryOrSwitch "nat option" | SaveSettings PanelInput | AddDiscovered "string option"
| ConnectRow nat | DefaultRow nat | UpRow nat | RemoveRow nat
| UsbEntry nat | DisconnectUsb | DeviceEntry nat | ConnectAll | Disconnect | RunAsAdmin bool bool
| LauncherModeCard LauncherMode | ThemeButton | TaskbarEntry | AutoReconnectToggle | PrivateNetworkToggle
| CancelSettings | ProfileCard StreamProfile | OpenMenu | Destroy

fun handle :: "(wstring \<Rightarrow> string) \<Rightarrow> TrayAnswer \<Rightarrow> TrayEvent \<Rightarrow> TrayContext \<Rightarrow> TrayContext" where
  "handle narrow a (Worker w) ctx = worker_step w ctx"
| "handle narrow a (DiscoveryPass answers) ctx = RunDiscovery_pass answers (t_now a) ctx"
| "handle narrow a (Timer w1 w2) ctx = WM_TIMER a (w1, w2) ctx"
| "handle narrow a Toggle ctx = TogglePanelConnection a ctx"
| "handle narrow a (RetryOrSwitch sel) ctx = RetryOrSwitchPanelConnection a sel ctx"
| "handle narrow a (SaveSettings p) ctx = snd (SavePanelSettings narrow p ctx)"
| "handle narrow a (AddDiscovered sel) ctx = snd (AddSelectedDiscoveredDevice sel ctx)"
| "handle narrow a (ConnectRow i) ctx = QueueDeviceCommand SwitchCommand (Some i) ctx"
| "handle narrow a (DefaultRow i) ctx = DeviceDefault i ctx"
| "handle narrow a (UpRow i) ctx = DeviceUp i ctx"
| "handle narrow a (RemoveRow i) ctx = DeviceRemove i ctx"
| "handle narrow a (UsbEntry k) ctx = MenuUsb a k ctx"
| "handle narrow a DisconnectUsb ctx = MenuDisconnectUsb a ctx"
| "handle narrow a (DeviceEntry i) ctx = MenuDevice i ctx"
| "handle narrow a ConnectAll ctx = MenuConnectAll a ctx"
| "handle narrow a Disconnect ctx = QueueDeviceCommand StopCommand None ctx"
| "handle narrow a (RunAsAdmin pathKnown copyUp) ctx = MenuRunAsAdmin a pathKnown copyUp ctx"
| "handle narrow a (LauncherModeCard m) ctx = SetLauncherMode m ctx"
| "handle narrow a ThemeButton ctx = save_config (ctx\<lparr>cfg := (cfg ctx)\<lparr>darkTheme := \<not> darkTheme (cfg ctx)\<rparr>\<rparr>)"
| "handle narrow a TaskbarEntry ctx = save_config (ctx\<lparr>cfg := (cfg ctx)\<lparr>taskbarRouting := \<not> taskbarRouting (cfg ctx)\<rparr>\<rparr>)"
| "handle narrow a AutoReconnectToggle ctx = ctx\<lparr>panelAutoReconnect := \<not> panelAutoReconnect ctx\<rparr>"
| "handle narrow a PrivateNetworkToggle ctx = ctx\<lparr>panelRequirePrivateNetwork := \<not> panelRequirePrivateNetwork ctx\<rparr>"
| "handle narrow a CancelSettings ctx = SyncPanelSettingsFromConfig ctx"
| "handle narrow a (ProfileCard p) ctx = ctx\<lparr>panelStreamProfile := p\<rparr>"
| "handle narrow a OpenMenu ctx = RefreshUsbDevices a True ctx"
| "handle narrow a Destroy ctx = WM_DESTROY a ctx"

definition handles :: "(wstring \<Rightarrow> string) \<Rightarrow> (TrayAnswer \<times> TrayEvent) list \<Rightarrow> TrayContext \<Rightarrow> TrayContext" where
  "handles narrow es ctx = fold (\<lambda>(a, e). handle narrow a e) es ctx"

end
