(* ===== verification/TrayFrame.thy ===== *)
theory TrayFrame
  imports TrayEvents
begin

text \<open>
  What the operations of the tray leave alone, and what they do to the senders that run: the frame lemmas that
  the invariants of the sessions share.
\<close>

lemma pair_case: "(case p of (True, c) \<Rightarrow> f c | (False, c) \<Rightarrow> g c) = (if fst p then f (snd p) else g (snd p))"
  by (cases p; cases "fst p") simp_all

subsection \<open>Which senders run\<close>

definition up :: "TrayContext \<Rightarrow> nat set" where
  "up ctx = {i. i < length (apps ctx) \<and> running (apps ctx ! i)}"

lemma up_empty: "up ctx = {} \<longleftrightarrow> \<not> list_ex running (apps ctx)"
  by (auto simp: up_def list_ex_length)

lemma up_cong: "apps c = apps ctx \<Longrightarrow> up c = up ctx"
  by (simp add: up_def)

lemma usb_running_cong: "usbApp c = usbApp ctx \<Longrightarrow> usb_running c = usb_running ctx"
  by (simp add: usb_running_def)

lemma AnyRunning_iff: "AnyRunning ctx \<longleftrightarrow> usb_running ctx \<or> up ctx \<noteq> {}"
  by (simp add: AnyRunning_def up_empty)

lemma running_request [simp]: "running (RequestStop s) = running s"
  by (simp add: RequestStop_def)

lemma running_default [simp]: "\<not> running SenderApp_default"
  by (simp add: SenderApp_default_def)

lemma Stop_and_wait_simps [simp]: "\<not> running (Stop_and_wait now s)" "life_inv (Stop_and_wait now s)"
proof -
  have "worker (returned (RequestStop s)) \<noteq> Live" by (simp add: returned_def worker_returns_def)
  with Stop_cases [of "returned (RequestStop s)" now]
  obtain s' where "Stop now (returned (RequestStop s)) = Some s'" "worker s' = NoThread" "\<not> running s'"
    by (auto split: option.splits)
  then show "\<not> running (Stop_and_wait now s)" "life_inv (Stop_and_wait now s)"
    by (simp_all add: Stop_and_wait_def life_inv_def)
qed

lemma Start_now_life [intro]: "life_inv s \<Longrightarrow> life_inv (Start_now now e s)"
  using Start_cases [of s now e "''wifi''"] by (auto simp: Start_now_def life_inv_def)

lemma Start_now_runs: "life_inv s \<Longrightarrow> running (Start_now now e s)"
  using Start_cases [of s now e "''wifi''"] by (auto simp: Start_now_def)

lemma life_default [simp]: "life_inv SenderApp_default"
  by (simp add: life_inv_def SenderApp_default_def)

lemma life_request [simp]: "life_inv (RequestStop s) = life_inv s"
  by (simp add: life_inv_def RequestStop_def)

lemma life_returned [simp]: "life_inv s \<Longrightarrow> life_inv (returned s)"
  by (simp add: life_inv_def returned_def worker_returns_def)

lemma life_report [simp]: "life_inv s \<Longrightarrow> life_inv (live_report st s)"
  by (simp add: life_inv_def live_report_def)

lemma returned_runs: "running (returned s) \<Longrightarrow> running s"
  by (simp add: returned_def worker_returns_def split: if_splits)

lemma report_runs [simp]: "running (live_report st s) = running s"
  by (simp add: live_report_def)

subsection \<open>Only senders change\<close>

text \<open>Everything but the senders: \<open>same_control\<close>.  The workers may end, and none begins: \<open>calmer\<close>.\<close>

definition same_control :: "TrayContext \<Rightarrow> TrayContext \<Rightarrow> bool" where
  "same_control ctx c \<longleftrightarrow> (\<exists>xs ys u. c = ctx\<lparr>apps := xs, retiredApps := ys, usbApp := u\<rparr>)"

lemma same_controlD:
  assumes "same_control ctx c"
  shows "cfg c = cfg ctx" "startupConnection c = startupConnection ctx" "deviceFlow c = deviceFlow ctx"
    "commands c = commands ctx" "switchingTo c = switchingTo ctx" "switching c = switching ctx"
    "restartAfterStop c = restartAfterStop ctx" "restartUsbTarget c = restartUsbTarget ctx"
    "activeUsbTarget c = activeUsbTarget ctx" "discoveryCache c = discoveryCache ctx" "discovered c = discovered ctx"
    "usbDevices c = usbDevices ctx" "launches c = launches ctx" "saves c = saves ctx"
    "autoConnectMessage c = autoConnectMessage ctx"
proof -
  obtain xs ys u where "c = ctx\<lparr>apps := xs, retiredApps := ys, usbApp := u\<rparr>" using assms by (auto simp: same_control_def)
  then show "cfg c = cfg ctx"
    "startupConnection c = startupConnection ctx"
    "deviceFlow c = deviceFlow ctx"
    "commands c = commands ctx"
    "switchingTo c = switchingTo ctx"
    "switching c = switching ctx"
    "restartAfterStop c = restartAfterStop ctx"
    "restartUsbTarget c = restartUsbTarget ctx"
    "activeUsbTarget c = activeUsbTarget ctx"
    "discoveryCache c = discoveryCache ctx"
    "discovered c = discovered ctx"
    "usbDevices c = usbDevices ctx"
    "launches c = launches ctx"
    "saves c = saves ctx"
    "autoConnectMessage c = autoConnectMessage ctx"
    by simp_all
qed

lemma same_controlI: "same_control ctx (ctx\<lparr>apps := xs\<rparr>)" "same_control ctx (ctx\<lparr>retiredApps := ys\<rparr>)"
  "same_control ctx (ctx\<lparr>usbApp := u\<rparr>)"
proof -
  have "ctx\<lparr>apps := xs\<rparr> = ctx\<lparr>apps := xs, retiredApps := retiredApps ctx, usbApp := usbApp ctx\<rparr>"
    "ctx\<lparr>retiredApps := ys\<rparr> = ctx\<lparr>apps := apps ctx, retiredApps := ys, usbApp := usbApp ctx\<rparr>"
    "ctx\<lparr>usbApp := u\<rparr> = ctx\<lparr>apps := apps ctx, retiredApps := retiredApps ctx, usbApp := u\<rparr>"
    by simp_all
  then show "same_control ctx (ctx\<lparr>apps := xs\<rparr>)" "same_control ctx (ctx\<lparr>retiredApps := ys\<rparr>)"
    "same_control ctx (ctx\<lparr>usbApp := u\<rparr>)"
    unfolding same_control_def by blast+
qed

lemma same_control_refl [simp]: "same_control ctx ctx"
  using same_controlI(1) [of ctx "apps ctx"] by simp

lemma same_control_trans: "same_control a b \<Longrightarrow> same_control b c \<Longrightarrow> same_control a c"
proof -
  assume "same_control a b" "same_control b c"
  then obtain xs ys u xs' ys' u' where b: "b = a\<lparr>apps := xs, retiredApps := ys, usbApp := u\<rparr>"
    and c: "c = b\<lparr>apps := xs', retiredApps := ys', usbApp := u'\<rparr>"
    unfolding same_control_def by blast
  have "c = a\<lparr>apps := xs', retiredApps := ys', usbApp := u'\<rparr>" unfolding c b by simp
  then show "same_control a c" unfolding same_control_def by blast
qed

definition calmer :: "TrayContext \<Rightarrow> TrayContext \<Rightarrow> bool" where
  "calmer ctx c \<longleftrightarrow> length (apps c) = length (apps ctx) \<and> up c \<subseteq> up ctx \<and> (usb_running c \<longrightarrow> usb_running ctx)"

lemma calmer_refl [simp]: "calmer ctx ctx"
  by (simp add: calmer_def)

lemma calmer_trans: "calmer a b \<Longrightarrow> calmer b c \<Longrightarrow> calmer a c"
  by (auto simp: calmer_def)

lemma calmerD:
  assumes "calmer ctx c"
  shows "length (apps c) = length (apps ctx)" "up c \<subseteq> up ctx" "usb_running c \<Longrightarrow> usb_running ctx"
  using assms by (auto simp: calmer_def)

lemma calmer_cong: "calmer ctx c \<Longrightarrow> apps c' = apps c \<Longrightarrow> usbApp c' = usbApp c \<Longrightarrow> calmer ctx c'"
  using up_cong [of c' c] usb_running_cong [of c' c] by (simp add: calmer_def)

lemma on_slot_calmer:
  assumes "\<And>s. running (f s) \<Longrightarrow> running s"
  shows "calmer ctx (on_slot f sl ctx)" "same_control ctx (on_slot f sl ctx)"
proof -
  show "calmer ctx (on_slot f sl ctx)"
    using assms by (cases sl) (auto simp: calmer_def up_def usb_running_def nth_list_update split: option.splits if_splits)
  show "same_control ctx (on_slot f sl ctx)" by (cases sl) (simp_all add: same_controlI)
qed

lemma worker_step_frame: "calmer ctx (worker_step w ctx)" "same_control ctx (worker_step w ctx)"
proof -
  note f = on_slot_calmer [OF returned_runs, where ctx = ctx] on_slot_calmer [OF report_runs [THEN iffD1], where ctx = ctx]
  show "calmer ctx (worker_step w ctx)" by (cases w) (simp_all only: worker_step.simps f)
  show "same_control ctx (worker_step w ctx)" by (cases w) (simp_all only: worker_step.simps f)
qed

lemma worker_steps_frame: "calmer ctx (worker_steps ws ctx)" "same_control ctx (worker_steps ws ctx)"
proof -
  have "calmer ctx (fold worker_step ws ctx) \<and> same_control ctx (fold worker_step ws ctx)"
    by (induction ws arbitrary: ctx) (auto intro: calmer_trans same_control_trans worker_step_frame)
  then show "calmer ctx (worker_steps ws ctx)" "same_control ctx (worker_steps ws ctx)"
    by (simp_all add: worker_steps_def)
qed

lemma worker_steps_usb: "usbApp ctx = None \<Longrightarrow> usbApp (worker_steps ws ctx) = None"
proof -
  have "usbApp ctx = None \<Longrightarrow> usbApp (on_slot f sl ctx) = None" for f sl ctx by (cases sl) auto
  then have "usbApp ctx = None \<Longrightarrow> usbApp (worker_step w ctx) = None" for w ctx by (cases w) simp_all
  then show "usbApp ctx = None \<Longrightarrow> usbApp (worker_steps ws ctx) = None"
    unfolding worker_steps_def by (induction ws arbitrary: ctx) simp_all
qed

subsection \<open>The operations\<close>

text \<open>The fields that decide on sessions, besides the senders.\<close>

definition control_of :: "TrayContext \<Rightarrow>
    StartupConnectionAttempt \<times> bool \<times> nat option \<times> nat list \<times> string \<times> Config \<times> DeviceCommand list" where
  "control_of ctx = (startupConnection ctx, switching ctx, switchingTo ctx, restartAfterStop ctx, restartUsbTarget ctx, cfg ctx,
     commands ctx)"

lemma control_ofD:
  assumes "control_of c = control_of ctx"
  shows "startupConnection c = startupConnection ctx" "switching c = switching ctx" "switchingTo c = switchingTo ctx"
    "restartAfterStop c = restartAfterStop ctx" "restartUsbTarget c = restartUsbTarget ctx" "cfg c = cfg ctx"
    "commands c = commands ctx" "restart_pending c = restart_pending ctx"
  using assms by (auto simp: control_of_def restart_pending_def)

lemma same_control_of: "same_control ctx c \<Longrightarrow> control_of c = control_of ctx"
  by (simp add: control_of_def same_controlD)

lemma StopUsbSession_frame:
  "usbApp (StopUsbSession a ctx) = None" "\<not> usb_running (StopUsbSession a ctx)" "calmer ctx (StopUsbSession a ctx)"
  "control_of (StopUsbSession a ctx) = control_of ctx" "launches (StopUsbSession a ctx) = launches ctx"
  "discoveryCache (StopUsbSession a ctx) = discoveryCache ctx" "usbDevices (StopUsbSession a ctx) = usbDevices ctx"
proof -
  let ?r = "ctx\<lparr>usbApp := map_option RequestStop (usbApp ctx)\<rparr>"
  show u: "usbApp (StopUsbSession a ctx) = None" by (simp add: StopUsbSession_def)
  then show n: "\<not> usb_running (StopUsbSession a ctx)" by (simp add: usb_running_def)
  have "length (apps (StopUsbSession a ctx)) = length (apps ctx)" "up (StopUsbSession a ctx) \<subseteq> up ctx"
    using worker_steps_frame(1) [of ?r "t_waits a"] by (auto simp: StopUsbSession_def calmer_def up_def)
  with n show "calmer ctx (StopUsbSession a ctx)" by (simp add: calmer_def)
  show "control_of (StopUsbSession a ctx) = control_of ctx" "launches (StopUsbSession a ctx) = launches ctx"
    "discoveryCache (StopUsbSession a ctx) = discoveryCache ctx" "usbDevices (StopUsbSession a ctx) = usbDevices ctx"
    using same_controlD [OF worker_steps_frame(2) [of ?r "t_waits a"]]
    by (simp_all add: StopUsbSession_def control_of_def)
qed

lemma StopConfiguredSenders_frame:
  "up (StopConfiguredSenders a ctx) = {}" "calmer ctx (StopConfiguredSenders a ctx)"
  "control_of (StopConfiguredSenders a ctx) = control_of ctx" "launches (StopConfiguredSenders a ctx) = launches ctx"
  "discoveryCache (StopConfiguredSenders a ctx) = discoveryCache ctx"
proof -
  let ?w = "worker_steps (t_waits a) ctx"
  show u: "up (StopConfiguredSenders a ctx) = {}" by (auto simp: StopConfiguredSenders_def Let_def up_def)
  show "calmer ctx (StopConfiguredSenders a ctx)"
    using worker_steps_frame(1) [of ctx "t_waits a"] u
    by (auto simp: calmer_def StopConfiguredSenders_def Let_def usb_running_def)
  show "control_of (StopConfiguredSenders a ctx) = control_of ctx" "launches (StopConfiguredSenders a ctx) = launches ctx"
    "discoveryCache (StopConfiguredSenders a ctx) = discoveryCache ctx"
    using same_controlD [OF worker_steps_frame(2) [of ctx "t_waits a"]]
    by (simp_all add: StopConfiguredSenders_def Let_def control_of_def)
qed

lemma StartUsbSession_frame:
  "up (StartUsbSession a target ctx) = {}" "length (apps (StartUsbSession a target ctx)) = length (apps ctx)"
  "control_of (StartUsbSession a target ctx) = control_of ctx"
  "length (launches (StartUsbSession a target ctx)) = length (launches ctx) + 1"
proof -
  let ?s = "StopConfiguredSenders a ctx" let ?u = "StopUsbSession a ?s"
  have f: "up ?u = {}" "length (apps ?u) = length (apps ctx)" "control_of ?u = control_of ctx" "launches ?u = launches ctx"
    using StopUsbSession_frame(3-5) [where a = a and ctx = ?s] StopConfiguredSenders_frame [where a = a and ctx = ctx] by (auto simp: calmer_def)
  then show "up (StartUsbSession a target ctx) = {}" "length (apps (StartUsbSession a target ctx)) = length (apps ctx)"
    "control_of (StartUsbSession a target ctx) = control_of ctx"
    "length (launches (StartUsbSession a target ctx)) = length (launches ctx) + 1"
    by (simp_all add: StartUsbSession_def launch_usb_def up_def control_of_def)
qed

lemma start_device_frame:
  "up (start_device a target i ctx) \<subseteq> insert i (up ctx)" "length (apps (start_device a target i ctx)) = length (apps ctx)"
  "control_of (start_device a target i ctx) = control_of ctx" "usbApp (start_device a target i ctx) = usbApp ctx"
  "length (launches (start_device a target i ctx)) \<le> length (launches ctx) + 1"
  "length (launches ctx) \<le> length (launches (start_device a target i ctx))"
  by (auto simp: start_device_def Let_def up_def control_of_def nth_list_update split: if_splits)

lemma request_stop_frame:
  "calmer ctx (RequestStopConfiguredSenders ctx)" "same_control ctx (RequestStopConfiguredSenders ctx)"
  "calmer ctx (request_stop_usb ctx)" "same_control ctx (request_stop_usb ctx)"
  by (auto simp: RequestStopConfiguredSenders_def request_stop_usb_def calmer_def same_controlI up_def usb_running_def
      split: option.splits)

text \<open>How a session over the network starts, with the state after each of its steps.\<close>

lemma StartWifiSession_eq:
  assumes "c0 = StopUsbSession a ctx" and "Begin (devices (cfg c0)) (preferredDeviceId (cfg c0)) = (flow, chosen)"
    and "c1 = c0\<lparr>deviceFlow := flow\<rparr>"
    and "c2 = c1\<lparr>startupConnection := (startupConnection c1)\<lparr>wifiOrder := dev_order flow, wifiPosition := 0,
           activeDeviceIndex := Some (hd (dev_order flow))\<rparr>\<rparr>"
  shows "StartWifiSession a ctx =
    (if apps ctx = [] then (False, ctx) else if dev_order flow = [] then (False, c1)
     else if ResolveDeviceTarget c2 (hd (dev_order flow)) = [] then (False, c2)
     else (True, start_device a (ResolveDeviceTarget c2 (hd (dev_order flow))) (hd (dev_order flow)) c2))"
proof -
  have "dev_order flow \<noteq> [] \<Longrightarrow> the chosen = hd (dev_order flow)" using Begin_cases [OF assms(2)] by simp
  moreover have "deviceFlow c1 = flow" by (simp add: assms(3))
  ultimately show ?thesis
    by (simp add: StartWifiSession_def Let_def assms(2) assms(1) [symmetric] assms(3) [symmetric] assms(4))
qed

subsection \<open>What is saved\<close>

lemma save_config_frame [simp]:
  "apps (save_config c) = apps c" "retiredApps (save_config c) = retiredApps c" "usbApp (save_config c) = usbApp c"
  "cfg (save_config c) = cfg c" "startupConnection (save_config c) = startupConnection c" "deviceFlow (save_config c) = deviceFlow c"
  "commands (save_config c) = commands c" "switchingTo (save_config c) = switchingTo c" "switching (save_config c) = switching c"
  "restartAfterStop (save_config c) = restartAfterStop c" "restartUsbTarget (save_config c) = restartUsbTarget c"
  "launches (save_config c) = launches c" "activeUsbTarget (save_config c) = activeUsbTarget c"
  "panelAutoReconnect (save_config c) = panelAutoReconnect c"
  "panelRequirePrivateNetwork (save_config c) = panelRequirePrivateNetwork c" "discoveryCache (save_config c) = discoveryCache c"
  by (simp_all add: save_config_def)

text \<open>Remembering a success changes the settings alone, and keeps the number of devices.\<close>

definition settings_only :: "TrayContext \<Rightarrow> TrayContext \<Rightarrow> bool" where
  "settings_only ctx c \<longleftrightarrow> (\<exists>st sv. c = ctx\<lparr>cfg := st, saves := sv\<rparr> \<and> length (devices st) = length (devices (cfg ctx)))"

lemma settings_onlyD:
  assumes "settings_only ctx c"
  shows "apps c = apps ctx" "retiredApps c = retiredApps ctx" "usbApp c = usbApp ctx" "startupConnection c = startupConnection ctx"
    "deviceFlow c = deviceFlow ctx" "commands c = commands ctx" "switchingTo c = switchingTo ctx" "switching c = switching ctx"
    "restartAfterStop c = restartAfterStop ctx" "restartUsbTarget c = restartUsbTarget ctx" "launches c = launches ctx"
    "length (devices (cfg c)) = length (devices (cfg ctx))"
proof -
  obtain st sv where "c = ctx\<lparr>cfg := st, saves := sv\<rparr>" "length (devices st) = length (devices (cfg ctx))"
    using assms by (auto simp: settings_only_def)
  then show "apps c = apps ctx" "retiredApps c = retiredApps ctx" "usbApp c = usbApp ctx" "startupConnection c = startupConnection ctx"
    "deviceFlow c = deviceFlow ctx" "commands c = commands ctx" "switchingTo c = switchingTo ctx" "switching c = switching ctx"
    "restartAfterStop c = restartAfterStop ctx" "restartUsbTarget c = restartUsbTarget ctx" "launches c = launches ctx"
    "length (devices (cfg c)) = length (devices (cfg ctx))"
    by simp_all
qed

lemma settings_only_refl [simp]: "settings_only ctx ctx"
proof -
  have "ctx = ctx\<lparr>cfg := cfg ctx, saves := saves ctx\<rparr>" by simp
  then show ?thesis unfolding settings_only_def by blast
qed

lemma settings_only_save:
  "length (devices st) = length (devices (cfg ctx)) \<Longrightarrow> settings_only ctx (save_config (ctx\<lparr>cfg := st\<rparr>))"
proof -
  assume l: "length (devices st) = length (devices (cfg ctx))"
  have "save_config (ctx\<lparr>cfg := st\<rparr>) = ctx\<lparr>cfg := st, saves := saves ctx @ [st]\<rparr>" by (simp add: save_config_def)
  with l show ?thesis unfolding settings_only_def by blast
qed

lemma RememberSuccessfulTransport_settings: "settings_only ctx (RememberSuccessfulTransport a ctx)"
proof -
  have "settings_only ctx (remember_wifi a i ctx)" for i
    unfolding remember_wifi_def Let_def by (simp add: settings_only_save split: if_split)
  then show ?thesis
    unfolding RememberSuccessfulTransport_def by (simp add: settings_only_save split: option.split)
qed

end
