(* ===== verification/TrayOwner.thy ===== *)
theory TrayOwner
  imports TrayFrame
begin

text \<open>
  What holds of the tray's senders after every event, whatever the user does: there is one per configured
  device, none is ever started or stopped in a way that its thread does not allow, and what has been retired is
  on its way out.
\<close>

definition senders_ok :: "TrayContext \<Rightarrow> bool" where
  "senders_ok ctx \<longleftrightarrow> (\<forall>s \<in> set (apps ctx). life_inv s) \<and> (\<forall>s. usbApp ctx = Some s \<longrightarrow> life_inv s) \<and>
     (\<forall>s \<in> set (retiredApps ctx). life_inv s \<and> (running s \<longrightarrow> stopRequested s))"

definition aligned :: "TrayContext \<Rightarrow> bool" where
  "aligned ctx \<longleftrightarrow> length (apps ctx) = length (devices (cfg ctx))"

definition owned :: "TrayContext \<Rightarrow> bool" where
  "owned ctx \<longleftrightarrow> aligned ctx \<and> senders_ok ctx"

named_theorems owned_intros

lemma owned_cong:
  "owned ctx \<Longrightarrow> apps c = apps ctx \<Longrightarrow> usbApp c = usbApp ctx \<Longrightarrow> retiredApps c = retiredApps ctx \<Longrightarrow>
   length (devices (cfg c)) = length (devices (cfg ctx)) \<Longrightarrow> owned c"
  by (simp add: owned_def aligned_def senders_ok_def)

lemma owned_settings: "owned ctx \<Longrightarrow> settings_only ctx c \<Longrightarrow> owned c"
  using settings_onlyD [of ctx c] by (auto intro: owned_cong)

lemma owned_save [simp]: "owned (save_config ctx) = owned ctx"
  by (simp add: owned_def aligned_def senders_ok_def)

lemma all_update: "\<forall>x \<in> set xs. P x \<Longrightarrow> (i < length xs \<Longrightarrow> P y) \<Longrightarrow> \<forall>x \<in> set (xs[i := y]). P x"
  by (cases "i < length xs") (auto simp: list_update_beyond dest: set_update_subset_insert [THEN subsetD])

lemma ownedI:
  "length (apps c) = length (devices (cfg c)) \<Longrightarrow> \<forall>s \<in> set (apps c). life_inv s \<Longrightarrow> (\<And>s. usbApp c = Some s \<Longrightarrow> life_inv s) \<Longrightarrow>
   \<forall>s \<in> set (retiredApps c). life_inv s \<and> (running s \<longrightarrow> stopRequested s) \<Longrightarrow> owned c"
  by (simp add: owned_def aligned_def senders_ok_def)

lemma ownedD:
  assumes "owned c"
  shows "length (apps c) = length (devices (cfg c))" "\<forall>s \<in> set (apps c). life_inv s" "usbApp c = Some s \<Longrightarrow> life_inv s"
    "\<forall>s \<in> set (retiredApps c). life_inv s \<and> (running s \<longrightarrow> stopRequested s)"
  using assms by (simp_all add: owned_def aligned_def senders_ok_def)

subsection \<open>Workers\<close>

lemma owned_on_slot:
  assumes "owned ctx" and "\<And>s. life_inv s \<Longrightarrow> life_inv (f s)"
    and "\<And>s. (running s \<longrightarrow> stopRequested s) \<Longrightarrow> running (f s) \<longrightarrow> stopRequested (f s)"
  shows "owned (on_slot f sl ctx)"
proof (cases sl)
  case UsbSlot
  show ?thesis unfolding UsbSlot on_slot.simps using ownedD [OF assms(1)] assms(2) by (intro ownedI) auto
next
  case (AppSlot i)
  have "\<forall>s \<in> set ((apps ctx)[i := f (apps ctx ! i)]). life_inv s"
    using ownedD(2) [OF assms(1)] assms(2) by (intro all_update) simp_all
  then have "owned (ctx\<lparr>apps := (apps ctx)[i := f (apps ctx ! i)]\<rparr>)" using ownedD [OF assms(1)] by (intro ownedI) simp_all
  then show ?thesis using assms(1) by (simp add: AppSlot)
next
  case (RetiredSlot i)
  have "\<forall>s \<in> set ((retiredApps ctx)[i := f (retiredApps ctx ! i)]). life_inv s \<and> (running s \<longrightarrow> stopRequested s)"
    using ownedD(4) [OF assms(1)] assms(2,3) by (intro all_update) simp_all
  then have "owned (ctx\<lparr>retiredApps := (retiredApps ctx)[i := f (retiredApps ctx ! i)]\<rparr>)"
    using ownedD [OF assms(1)] by (intro ownedI) simp_all
  then show ?thesis using assms(1) by (simp add: RetiredSlot)
qed

lemma owned_workers [owned_intros]: "owned ctx \<Longrightarrow> owned (worker_steps ws ctx)"
proof -
  have "owned c \<Longrightarrow> owned (worker_step w c)" for w c
    by (cases w; simp; rule owned_on_slot) (simp_all add: returned_def worker_returns_def live_report_def life_inv_def)
  then show "owned ctx \<Longrightarrow> owned (worker_steps ws ctx)"
    unfolding worker_steps_def by (induction ws arbitrary: ctx) simp_all
qed

subsection \<open>Sessions\<close>

lemma owned_request_usb [owned_intros]: "owned ctx \<Longrightarrow> owned (request_stop_usb ctx)"
  by (auto simp: request_stop_usb_def owned_def aligned_def senders_ok_def)

lemma owned_StopUsb [owned_intros]: "owned ctx \<Longrightarrow> owned (StopUsbSession a ctx)"
proof (cases "usbApp ctx = None")
  case False
  assume "owned ctx"
  then have "owned (worker_steps (t_waits a) (request_stop_usb ctx))" by (intro owned_intros)
  moreover have "owned c \<Longrightarrow> owned (c\<lparr>usbApp := None, activeUsbTarget := []\<rparr>)" for c
    by (simp add: owned_def aligned_def senders_ok_def)
  ultimately show ?thesis using False unfolding StopUsbSession_def request_stop_usb_def by (simp del: not_None_eq)
qed (simp add: StopUsbSession_def)

lemma owned_StopConfigured [owned_intros]: "owned ctx \<Longrightarrow> owned (StopConfiguredSenders a ctx)"
  using owned_workers [of ctx "t_waits a"]
  by (auto simp: StopConfiguredSenders_def Let_def owned_def aligned_def senders_ok_def)

lemma owned_RequestStop [owned_intros]: "owned ctx \<Longrightarrow> owned (RequestStopConfiguredSenders ctx)"
  by (auto simp: RequestStopConfiguredSenders_def owned_def aligned_def senders_ok_def)

lemma owned_launch_usb [owned_intros]: "owned ctx \<Longrightarrow> owned (launch_usb a target ctx)"
  by (auto simp: launch_usb_def owned_def aligned_def senders_ok_def)

lemma owned_start_device [owned_intros]: "owned ctx \<Longrightarrow> owned (start_device a target i ctx)"
proof -
  assume o: "owned ctx"
  let ?x = "Start_now (t_now a) (dev_id (devices (cfg ctx) ! i)) (apps ctx ! i)"
  have "\<forall>s \<in> set ((apps ctx)[i := ?x]). life_inv s"
    using ownedD(2) [OF o] by (intro all_update) (auto intro: Start_now_life)
  then show ?thesis using ownedD [OF o] by (intro ownedI) (simp_all add: start_device_def Let_def)
qed

lemma owned_StartUsb [owned_intros]: "owned ctx \<Longrightarrow> owned (StartUsbSession a target ctx)"
  unfolding StartUsbSession_def by (intro owned_intros)

text \<open>Fields that no sender depends on.\<close>

lemma owned_fields [simp]:
  "owned (ctx\<lparr>startupConnection := sc\<rparr>) = owned ctx" "owned (ctx\<lparr>deviceFlow := f\<rparr>) = owned ctx"
  "owned (ctx\<lparr>autoConnectMessage := m\<rparr>) = owned ctx" "owned (ctx\<lparr>commands := k\<rparr>) = owned ctx"
  "owned (ctx\<lparr>switching := b\<rparr>) = owned ctx" "owned (ctx\<lparr>switchingTo := st\<rparr>) = owned ctx"
  "owned (ctx\<lparr>restartAfterStop := l\<rparr>) = owned ctx" "owned (ctx\<lparr>restartUsbTarget := u\<rparr>) = owned ctx"
  "owned (ctx\<lparr>panelAutoReconnect := p\<rparr>) = owned ctx" "owned (ctx\<lparr>panelRequirePrivateNetwork := q\<rparr>) = owned ctx"
  "owned (ctx\<lparr>panelStreamProfile := pr\<rparr>) = owned ctx" "owned (ctx\<lparr>discovered := d\<rparr>) = owned ctx"
  "owned (ctx\<lparr>discoveryCache := dc\<rparr>) = owned ctx" "owned (ctx\<lparr>usbDevices := ud\<rparr>) = owned ctx"
  "owned (ctx\<lparr>lastUsbRefresh := lr\<rparr>) = owned ctx"
  by (simp_all add: owned_def aligned_def senders_ok_def)

lemma owned_if: "owned c \<Longrightarrow> owned c' \<Longrightarrow> owned (if b then c else c')"
  by simp

lemma owned_snd_if: "owned (snd c) \<Longrightarrow> owned (snd c') \<Longrightarrow> owned (snd (if b then c else c'))"
  by simp

lemma owned_StartWifi [owned_intros]: "owned ctx \<Longrightarrow> owned (snd (StartWifiSession a ctx))"
  unfolding StartWifiSession_def Let_def by (intro owned_snd_if) (simp_all add: owned_intros)

lemma owned_StartTransport [owned_intros]: "owned ctx \<Longrightarrow> owned (snd (StartTransportAttempt a t ctx))"
  by (cases t) (simp_all add: owned_intros split: option.split)

lemma owned_StopTransport [owned_intros]: "owned ctx \<Longrightarrow> owned (StopTransportAttempt a t ctx)"
  by (cases t) (simp_all add: owned_intros)

lemma owned_Candidate [owned_intros]: "owned ctx \<Longrightarrow> owned (snd (StartWifiCandidate a pos ctx))"
  unfolding StartWifiCandidate_def Let_def by (intro owned_snd_if) (simp_all add: owned_intros)

lemma owned_Refresh [owned_intros]: "owned ctx \<Longrightarrow> owned (RefreshUsbDevices a f ctx)"
  by (simp add: RefreshUsbDevices_def)

lemma owned_begun [simp]: "owned (attempt_begun a t fb ctx) = owned ctx"
  by (simp add: attempt_begun_def)

lemma owned_attempt: "owned c \<Longrightarrow> owned (attempt_begun a t fb c)"
  by simp

lemma owned_Begin [owned_intros]: "owned ctx \<Longrightarrow> owned (BeginStartupAutoConnect a ctx)"
proof -
  assume "owned ctx"
  then have "owned ((RefreshUsbDevices a True ctx)\<lparr>autoConnectMessage := NoMessage, startupConnection := StartupConnectionAttempt_default\<rparr>)"
    by (simp add: owned_Refresh)
  then show ?thesis
    unfolding BeginStartupAutoConnect_def Let_def pair_case
    by (intro owned_if owned_attempt owned_StartTransport)
qed

lemma owned_report [owned_intros]: "owned ctx \<Longrightarrow> owned (report_streaming ctx)"
  by (simp add: report_streaming_def Let_def split: ConnectionTransport.split option.split)

lemma owned_Remember [owned_intros]: "owned ctx \<Longrightarrow> owned (RememberSuccessfulTransport a ctx)"
  by (rule owned_settings [OF _ RememberSuccessfulTransport_settings])

lemma owned_advance_streaming: "owned ctx \<Longrightarrow> owned (advance_streaming a ctx)"
  unfolding advance_streaming_def by (simp add: owned_intros)

lemma owned_advance_stopping: "owned ctx \<Longrightarrow> owned (advance_stopping a ctx)"
proof -
  assume o: "owned ctx"
  define c0 where "c0 = StopTransportAttempt a (sc_transport (startupConnection ctx)) ctx"
  define c1 where "c1 = c0\<lparr>startupConnection := (startupConnection c0)\<lparr>waitingTransportStop := False\<rparr>\<rparr>"
  have c1: "owned c1" using o by (simp add: c1_def c0_def owned_StopTransport)
  have m: "owned ((set_transport NoTransport c)\<lparr>autoConnectMessage := x\<rparr>)" if "owned c" for c x using that by simp
  show ?thesis
    unfolding advance_stopping_def Let_def c0_def [symmetric] c1_def [symmetric] pair_case
    using o c1 by (intro owned_if owned_attempt owned_StartTransport m)
qed

lemma owned_stop_active [owned_intros]: "owned ctx \<Longrightarrow> owned (stop_active cls i ctx)"
proof -
  assume o: "owned ctx"
  have "\<forall>s \<in> set ((apps ctx)[i := RequestStop (apps ctx ! i)]). life_inv s"
    using ownedD(2) [OF o] by (intro all_update) simp_all
  then show ?thesis using ownedD [OF o] by (intro ownedI) (simp_all add: stop_active_def)
qed

lemma owned_advance_candidate [owned_intros]: "owned ctx \<Longrightarrow> owned (snd (advance_candidate a i ctx))"
proof -
  assume o: "owned ctx"
  then have k: "owned (snd (StartWifiCandidate a p ctx))" "owned (stop_active cls i ctx)" for p cls by (simp_all add: owned_intros)
  have snd_case: "snd (case q of (True, c) \<Rightarrow> (True, c) | (False, c) \<Rightarrow> (False, f c)) = (if fst q then snd q else f (snd q))"
    for q :: "bool \<times> TrayContext" and f by (cases q; cases "fst q") simp_all
  show ?thesis
    unfolding advance_candidate_def Let_def using o k by (simp add: snd_case)
qed

lemma owned_Advance [owned_intros]: "owned ctx \<Longrightarrow> owned (AdvanceStartupAutoConnect a ctx)"
proof -
  assume o: "owned ctx"
  define q where "q = (case (sc_transport (startupConnection ctx), activeDeviceIndex (startupConnection ctx)) of
      (Wifi, Some i) \<Rightarrow> if i < length (apps ctx) then advance_candidate a i ctx else (False, ctx) | _ \<Rightarrow> (False, ctx))"
  have q: "owned (snd q)"
    using o owned_advance_candidate [OF o] by (simp add: q_def split: ConnectionTransport.split option.split)
  have r: "owned (RequestStopTransportAttempt t (snd q))" for t
    using q by (cases t) (simp_all add: owned_intros)
  show ?thesis
    unfolding AdvanceStartupAutoConnect_def Let_def q_def [symmetric] pair_case
    using o q r by (simp add: owned_advance_streaming owned_advance_stopping)
qed

subsection \<open>Commands\<close>

lemma owned_fold_start: "owned ctx \<Longrightarrow> owned (fold (\<lambda>i c. if P i c then start_device a (t i c) i c else c) is ctx)"
  by (induction "is" arbitrary: ctx) (simp_all add: owned_start_device)

lemma owned_Process [owned_intros]: "owned ctx \<Longrightarrow> owned (ProcessDeviceCommands a ctx)"
proof -
  assume "owned ctx"
  then have o: "owned (ctx\<lparr>retiredApps := filter running (retiredApps ctx)\<rparr>)"
    using ownedD [of ctx] by (intro ownedI) simp_all
  have restart: "owned (process_restart a c)" if "owned c" for c
    using that owned_fold_start [where P = "\<lambda>i c. i < length (apps c)" and a = a and t = "\<lambda>i c. ResolveDeviceTarget c i", OF that]
    by (simp add: process_restart_def restart_apps_def Let_def owned_launch_usb)
  have down: "owned (c\<lparr>usbApp := None, activeUsbTarget := []\<rparr>)" if "owned c" for c
    using ownedD [OF that] by (intro ownedI) simp_all
  have switch: "owned (process_switch a c)" if "owned c" for c
    using that down [OF that] by (simp add: process_switch_def Let_def owned_start_device split: option.split)
  have command: "owned (process_command k c)" if "owned c" for k c
    using that by (simp add: process_command_def Let_def owned_RequestStop owned_request_usb)
  show ?thesis
    unfolding ProcessDeviceCommands_def Let_def using o restart [OF o] switch [OF o] by (simp add: command split: list.split)
qed

lemma owned_Queue [owned_intros]: "owned ctx \<Longrightarrow> owned (QueueDeviceCommand ty k ctx)"
  by (simp add: QueueDeviceCommand_def Let_def)

lemma owned_Start_addresses [owned_intros]: "owned ctx \<Longrightarrow> owned (StartAddresses a w ctx)"
  unfolding StartAddresses_def Let_def
  by (rule owned_fold_start [where P = "\<lambda>i c. endpoint (devices (cfg c) ! i) \<in> set w" and t = "\<lambda>i c. endpoint (devices (cfg c) ! i)"])

subsection \<open>Settings and the list of devices\<close>

lemma owned_Sync [simp]: "owned (SyncPanelSettingsFromConfig ctx) = owned ctx"
  by (simp add: SyncPanelSettingsFromConfig_def)

lemma old_match_range: "old_match oldDevices n used d = Some m \<Longrightarrow> m < n \<and> m < length oldDevices \<and> m \<notin> set used"
  by (auto simp: old_match_def find_Some_iff)

lemma stop_is_requested: "stopRequested (RequestStop s)"
  by (simp add: RequestStop_def)

text \<open>The new list: one sender per device, each an old one or a fresh one.\<close>

lemma apply_devices_new:
  assumes "\<forall>s \<in> set oldApps. life_inv s" and "\<forall>s \<in> set (new_apps st). life_inv s"
  shows "length (new_apps (fold (apply_device oldDevices oldApps devs reconnect act) is st)) = length (new_apps st) + length is \<and>
    (\<forall>s \<in> set (new_apps (fold (apply_device oldDevices oldApps devs reconnect act) is st)). life_inv s)"
  using assms(2)
proof (induction "is" arbitrary: st)
  case (Cons i "is")
  let ?st = "apply_device oldDevices oldApps devs reconnect act i st"
  have "length (new_apps ?st) = Suc (length (new_apps st)) \<and> (\<forall>s \<in> set (new_apps ?st). life_inv s)"
  proof (cases "old_match oldDevices (length oldApps) (used_apps st) (devs ! i)")
    case (Some m)
    then have "life_inv (oldApps ! m)" using old_match_range [OF Some] assms(1) by simp
    then show ?thesis using Some Cons.prems by (simp add: apply_device_def Let_def)
  qed (use Cons.prems in \<open>simp add: apply_device_def\<close>)
  with Cons.IH [of ?st] show ?case by simp
qed simp

lemma owned_Apply:
  assumes "\<forall>s \<in> set (apps ctx). life_inv s" and "\<And>s. usbApp ctx = Some s \<Longrightarrow> life_inv s"
    and "\<forall>s \<in> set (retiredApps ctx). life_inv s \<and> (running s \<longrightarrow> stopRequested s)"
  shows "owned (ApplyAndRestart oldDevices reconnect act ctx)"
proof -
  define st where "st = fold (apply_device oldDevices (apps ctx) (devices (cfg ctx)) reconnect act) [0..<length (devices (cfg ctx))]
      \<lparr>used_apps = [], new_apps = [], restarts = restartAfterStop ctx\<rparr>"
  define unused where "unused = filter (\<lambda>i. i \<notin> set (used_apps st)) [0..<length (apps ctx)]"
  define c where "c = ctx\<lparr>apps := new_apps st, restartAfterStop := restarts st,
      retiredApps := retiredApps ctx @ map (\<lambda>i. RequestStop (apps ctx ! i)) unused\<rparr>"
  have "length (new_apps st) = length (devices (cfg ctx)) \<and> (\<forall>s \<in> set (new_apps st). life_inv s)"
    using apply_devices_new [OF assms(1), of "\<lparr>used_apps = [], new_apps = [], restarts = restartAfterStop ctx\<rparr>"]
    by (simp add: st_def)
  moreover have "\<forall>i \<in> set unused. life_inv (apps ctx ! i)" using assms(1) by (simp add: unused_def)
  ultimately have "owned c" using assms(2,3)
    by (intro ownedI) (auto simp: c_def stop_is_requested)
  then show ?thesis
    unfolding ApplyAndRestart_def Let_def st_def [symmetric] unused_def [symmetric] c_def [symmetric]
    by (simp add: owned_request_usb)
qed

lemma owned_SavePanel: "owned ctx \<Longrightarrow> owned (snd (SavePanelSettings narrow p ctx))"
proof -
  assume o: "owned ctx"
  define c where "c = save_config (ctx\<lparr>cfg := edited_config narrow p ctx,
      panelStreamProfile := streamProfile (edited_config narrow p ctx)\<rparr>)"
  have k: "apps c = apps ctx" "usbApp c = usbApp ctx" "retiredApps c = retiredApps ctx" "cfg c = edited_config narrow p ctx"
    by (simp_all add: c_def)
  have applied: "owned (ApplyAndRestart od rc act c)" for od rc act
    by (rule owned_Apply) (use ownedD [OF o] k in simp_all)
  have rolled: "owned (c\<lparr>cfg := st\<rparr>)" if "length (devices st) = length (devices (cfg ctx))" for st
    by (rule owned_cong [OF o]) (use k that in simp_all)
  have same: "owned c" if "devices (cfg c) = devices (cfg ctx)"
    by (rule owned_cong [OF o]) (use k that in simp_all)
  show ?thesis
    unfolding SavePanelSettings_def Let_def c_def [symmetric]
    using o applied rolled same by (simp add: owned_snd_if)
qed

lemma owned_AddSelected: "owned ctx \<Longrightarrow> owned (snd (AddSelectedDiscoveredDevice sel ctx))"
proof -
  assume o: "owned ctx"
  have upd: "owned (ctx\<lparr>cfg := (cfg ctx)\<lparr>devices := (devices (cfg ctx))[i := d]\<rparr>\<rparr>)" for i d
    by (rule owned_cong [OF o]) simp_all
  have add: "owned ((save_config (ctx\<lparr>cfg := (cfg ctx)\<lparr>devices := devices (cfg ctx) @ [d]\<rparr>\<rparr>))\<lparr>apps := apps ctx @ [SenderApp_default]\<rparr>)" for d
    using ownedD [OF o] by (intro ownedI) auto
  show ?thesis
    unfolding AddSelectedDiscoveredDevice_def Let_def using o by (simp add: upd add split: option.split)
qed

lemma length_renumber [simp]: "length (renumber ds) = length ds"
  by (simp add: renumber_def)

lemma swapped_set: "0 < i \<Longrightarrow> i < length xs \<Longrightarrow> length (swapped i xs) = length xs \<and> set (swapped i xs) = set xs"
  by (simp add: swapped_def set_swap)

lemma without_facts: "i < length xs \<Longrightarrow> length (without i xs) = length xs - 1 \<and> set (without i xs) \<subseteq> set xs"
  by (auto simp: without_def dest: in_set_takeD in_set_dropD)

lemma owned_Up: "owned ctx \<Longrightarrow> owned (DeviceUp i ctx)"
proof (cases "0 < i \<and> i < length (devices (cfg ctx))")
  case True
  assume o: "owned ctx"
  have "length (swapped i (apps ctx)) = length (apps ctx)" "set (swapped i (apps ctx)) = set (apps ctx)"
    "length (swapped i (devices (cfg ctx))) = length (devices (cfg ctx))"
    using swapped_set [of i "apps ctx"] swapped_set [of i "devices (cfg ctx)"] True ownedD(1) [OF o] by simp_all
  then have "owned (ctx\<lparr>cfg := (cfg ctx)\<lparr>devices := renumber (swapped i (devices (cfg ctx)))\<rparr>, apps := swapped i (apps ctx)\<rparr>)"
    using ownedD [OF o] by (intro ownedI) simp_all
  then show ?thesis using True by (simp add: DeviceUp_def)
qed (auto simp: DeviceUp_def)

lemma owned_Remove: "owned ctx \<Longrightarrow> owned (DeviceRemove i ctx)"
proof (cases "i < length (devices (cfg ctx))")
  case True
  assume o: "owned ctx"
  have w: "length (without i (apps ctx)) = length (without i (devices (cfg ctx)))" "set (without i (apps ctx)) \<subseteq> set (apps ctx)"
    using without_facts [of i "apps ctx"] without_facts [of i "devices (cfg ctx)"] True ownedD(1) [OF o] by simp_all
  have "life_inv (RequestStop (apps ctx ! i))" "stopRequested (RequestStop (apps ctx ! i))"
    using True ownedD(1,2) [OF o] by (simp_all add: RequestStop_def life_inv_def)
  then have "owned (ctx\<lparr>retiredApps := retiredApps ctx @ [RequestStop (apps ctx ! i)], apps := without i (apps ctx),
      cfg := (cfg ctx)\<lparr>devices := renumber (without i (devices (cfg ctx))), preferredDeviceId := x\<rparr>\<rparr>)" for x
    using ownedD [OF o] w by (intro ownedI) auto
  then show ?thesis using True by (simp add: DeviceRemove_def Let_def)
qed (simp add: DeviceRemove_def)

subsection \<open>Every message\<close>

lemma owned_transport: "owned ctx \<Longrightarrow> owned (set_transport t ctx)"
  by simp

lemma owned_Toggle: "owned ctx \<Longrightarrow> owned (TogglePanelConnection a ctx)"
  by (simp add: TogglePanelConnection_def owned_intros)

lemma owned_Retry: "owned ctx \<Longrightarrow> owned (RetryOrSwitchPanelConnection a sel ctx)"
proof -
  assume o: "owned ctx"
  then have t: "owned (set_transport NoTransport ctx)" by simp
  show ?thesis
    unfolding RetryOrSwitchPanelConnection_def Let_def
    using o t by (simp add: owned_intros split: option.split)
qed

lemma owned_DESTROY: "owned ctx \<Longrightarrow> owned (WM_DESTROY a ctx)"
  unfolding WM_DESTROY_def by (intro owned_intros)

lemma owned_TIMER: "owned ctx \<Longrightarrow> owned (WM_TIMER a b ctx)"
  unfolding WM_TIMER_def by (intro owned_intros)

lemma owned_ConnectAll: "owned ctx \<Longrightarrow> owned (MenuConnectAll a ctx)"
proof -
  assume o: "owned ctx"
  have "owned (StopUsbSession a (set_transport NoTransport ctx))" using o by (intro owned_intros owned_transport)
  from owned_fold_start [where P = "\<lambda>i c. True" and a = a and t = "\<lambda>i c. ResolveDeviceTarget c i", OF this]
  show ?thesis by (simp add: MenuConnectAll_def Let_def)
qed

lemma owned_handle: "owned ctx \<Longrightarrow> owned (handle narrow a e ctx)"
proof (cases e)
  case (Worker w)
  assume "owned ctx"
  then have "owned (worker_steps [w] ctx)" by (rule owned_workers)
  then show ?thesis by (simp add: Worker worker_steps_def)
next
  case (RunAsAdmin known copy)
  assume o: "owned ctx"
  have "owned (StopConfiguredSenders a (StopUsbSession a ctx))" using o by (intro owned_intros)
  then show ?thesis by (simp add: RunAsAdmin MenuRunAsAdmin_def Let_def owned_Start_addresses owned_DESTROY)
next
  case (UsbEntry k)
  assume "owned ctx"
  then show ?thesis by (simp add: UsbEntry MenuUsb_def Let_def owned_intros)
next
  case (ThemeButton)
  assume "owned ctx"
  then have "owned (ctx\<lparr>cfg := (cfg ctx)\<lparr>darkTheme := \<not> darkTheme (cfg ctx)\<rparr>\<rparr>)" by (rule owned_cong) simp_all
  then show ?thesis by (simp add: ThemeButton)
next
  case TaskbarEntry
  assume "owned ctx"
  then have "owned (ctx\<lparr>cfg := (cfg ctx)\<lparr>taskbarRouting := \<not> taskbarRouting (cfg ctx)\<rparr>\<rparr>)" by (rule owned_cong) simp_all
  then show ?thesis by (simp add: TaskbarEntry)
next
  case (LauncherModeCard m)
  assume "owned ctx"
  then have "owned (ctx\<lparr>cfg := (cfg ctx)\<lparr>launcherMode := m, showLauncher := (m \<noteq> Hidden)\<rparr>\<rparr>)" by (rule owned_cong) simp_all
  then show ?thesis by (simp add: LauncherModeCard SetLauncherMode_def)
next
  case (DefaultRow i)
  assume o: "owned ctx"
  then have "owned (ctx\<lparr>cfg := (cfg ctx)\<lparr>preferredDeviceId := d\<rparr>\<rparr>)" for d by (rule owned_cong) simp_all
  with o show ?thesis by (simp add: DefaultRow DeviceDefault_def)
qed (simp_all add: owned_intros owned_Toggle owned_Retry owned_SavePanel owned_AddSelected owned_Up owned_Remove
    owned_DESTROY owned_TIMER owned_ConnectAll MenuDisconnectUsb_def MenuDevice_def RunDiscovery_pass_def Let_def)

lemma owned_handles: "owned ctx \<Longrightarrow> owned (handles narrow es ctx)"
  unfolding handles_def by (induction es arbitrary: ctx) (auto simp: owned_handle)

lemma owned_RunTray: "owned (RunTray a resume loaded)"
proof -
  define ctx where "ctx = TrayContext_default (loaded\<lparr>devices := filter (\<lambda>d. \<not> IsUsbMuxTarget (endpoint d)) (devices loaded)\<rparr>)"
  have "owned (RebuildSenders c)" if "c \<in> {ctx, save_config ctx}" for c
    using that by (intro ownedI) (auto simp: RebuildSenders_def ctx_def TrayContext_default_def)
  then have "owned (RebuildSenders ctx)" "owned (RebuildSenders (save_config ctx))" by simp_all
  then show ?thesis
    unfolding RunTray_def Let_def ctx_def [symmetric] by (simp add: owned_intros split: option.split)
qed

definition all_senders :: "TrayContext \<Rightarrow> SenderApp list" where
  "all_senders ctx = apps ctx @ (case usbApp ctx of None \<Rightarrow> [] | Some s \<Rightarrow> [s]) @ retiredApps ctx"

text \<open>C5. Whatever the user does, whatever the network answers and however the workers run in between: the tray keeps
  exactly one sender per configured device, in the order of the list; a sender runs exactly while its worker thread
  lives, so no \<^verbatim>\<open>Start\<close> of the tray ever waits for a thread or overwrites one; and every sender
  whose device was removed either has ended or has been asked to stop.\<close>

theorem every_sender_has_its_device:
  assumes "ctx = handles narrow es (RunTray a resume loaded)"
  shows "length (apps ctx) = length (devices (cfg ctx)) \<and>
    (\<forall>s \<in> set (all_senders ctx). (running s \<longleftrightarrow> worker s = Live) \<and> Start now e tr s \<noteq> None) \<and>
    (\<forall>s \<in> set (retiredApps ctx). running s \<longrightarrow> stopRequested s)"
proof -
  note o = ownedD [OF owned_handles [OF owned_RunTray], of narrow es a resume loaded, folded assms]
  have "\<forall>s \<in> set (all_senders ctx). life_inv s"
    using o(2-4) by (auto simp: all_senders_def split: option.splits)
  then have "\<forall>s \<in> set (all_senders ctx). (running s \<longleftrightarrow> worker s = Live) \<and> Start now e tr s \<noteq> None"
    using Start_cases [where now = now and e = e and tr = tr] unfolding life_inv_def by blast
  then show ?thesis using o(1,4) by blast
qed

text \<open>Two devices of which the first is tried at once, and removed while its worker runs.\<close>

definition sample_device :: "string \<Rightarrow> DeviceConfig" where
  "sample_device addr = DeviceConfig_default\<lparr>lastIpv4 := addr\<rparr>"

definition sample_settings :: Config where
  "sample_settings = Config_default\<lparr>devices := [sample_device ''192.168.1.2'', sample_device ''192.168.1.3'']\<rparr>"

definition at_time :: "int \<Rightarrow> TrayAnswer" where
  "at_time t = \<lparr>t_now = t, t_seconds = 0, t_usb = [], t_waits = []\<rparr>"

lemma every_sender_has_its_device_witness:
  "let ctx = handles (\<lambda>w. []) [(at_time 5, RemoveRow 0)] (RunTray (at_time 0) None sample_settings) in
   length (apps ctx) = 1 \<and> map worker (retiredApps ctx) = [Live] \<and> list_all stopRequested (retiredApps ctx)"
proof -
  define ctx where "ctx = handles (\<lambda>w. []) [(at_time 5, RemoveRow 0)] (RunTray (at_time 0) None sample_settings)"
  have "length (devices (cfg ctx)) = 1" "map running (retiredApps ctx) = [True]"
    unfolding ctx_def by code_simp+
  with every_sender_has_its_device [OF ctx_def, of 0 "[]" "[]"] show ?thesis
    unfolding ctx_def [symmetric] Let_def by (auto simp: all_senders_def)
qed

end
