(* ===== verification/TrayCable.thy ===== *)
theory TrayCable
  imports TrayOwner
begin

text \<open>
  The cable and the network never carry sessions at the same time: the invariant of the tray's events, the
  events for which it needs the user to wait, and what happens when the user does not.
\<close>

subsection \<open>The invariant\<close>

definition restarts_of :: "TrayContext \<Rightarrow> nat list \<times> string \<times> bool" where
  "restarts_of ctx = (restartAfterStop ctx, restartUsbTarget ctx, switching ctx)"

abbreviation attempt_of :: "TrayContext \<Rightarrow> ConnectionTransport" where
  "attempt_of ctx \<equiv> sc_transport (startupConnection ctx)"

definition one_medium :: "TrayContext \<Rightarrow> bool" where
  "one_medium ctx \<longleftrightarrow> \<not> (usb_running ctx \<and> up ctx \<noteq> {})"

definition apart :: "TrayContext \<Rightarrow> bool" where
  "apart ctx \<longleftrightarrow> one_medium ctx \<and> (attempt_of ctx = Wifi \<longrightarrow> \<not> usb_running ctx) \<and>
     (restartUsbTarget ctx \<noteq> [] \<longrightarrow> restartAfterStop ctx = [] \<and> up ctx = {} \<and> attempt_of ctx = NoTransport) \<and>
     (restart_pending ctx \<longrightarrow> switching ctx)"

lemma apartD:
  assumes "apart ctx"
  shows "one_medium ctx" "attempt_of ctx = Wifi \<Longrightarrow> \<not> usb_running ctx"
    "restartUsbTarget ctx \<noteq> [] \<Longrightarrow> restartAfterStop ctx = []" "restartUsbTarget ctx \<noteq> [] \<Longrightarrow> up ctx = {}"
    "attempt_of ctx \<noteq> NoTransport \<Longrightarrow> restartUsbTarget ctx = []" "restart_pending ctx \<Longrightarrow> switching ctx"
  using assms by (auto simp: apart_def)

lemma apart_if: "(b \<Longrightarrow> apart c) \<Longrightarrow> (\<not> b \<Longrightarrow> apart c') \<Longrightarrow> apart (if b then c else c')"
  by simp

lemma restarts_ofD:
  "restarts_of c = restarts_of ctx \<Longrightarrow> restartAfterStop c = restartAfterStop ctx \<and> restartUsbTarget c = restartUsbTarget ctx \<and>
     switching c = switching ctx \<and> restart_pending c = restart_pending ctx"
  by (auto simp: restarts_of_def restart_pending_def)

lemma control_restarts: "control_of c = control_of ctx \<Longrightarrow> restarts_of c = restarts_of ctx"
  by (simp add: control_of_def restarts_of_def)

text \<open>Fewer senders, and no attempt that was not there.\<close>

lemma apart_calmer:
  assumes "apart ctx" and "calmer ctx c" and "restarts_of c = restarts_of ctx" and "attempt_of c \<in> {attempt_of ctx, NoTransport}"
  shows "apart c"
  using assms(1) calmerD [OF assms(2)] restarts_ofD [OF assms(3)] assms(4)
  by (auto simp: apart_def one_medium_def)

lemma apart_same:
  assumes "apart ctx" and "apps c = apps ctx" and "usbApp c = usbApp ctx" and "restarts_of c = restarts_of ctx"
    and "attempt_of c \<in> {attempt_of ctx, NoTransport}"
  shows "apart c"
  by (rule apart_calmer [OF assms(1) _ assms(4,5)]) (simp add: calmer_def up_cong [OF assms(2)] usb_running_cong [OF assms(3)] assms(2))

subsection \<open>Starting\<close>

lemma StartWifiSession_frame:
  assumes "StartWifiSession a ctx = (ok, c)"
  shows "restarts_of c = restarts_of ctx" "attempt_of c = attempt_of ctx" "length (apps c) = length (apps ctx)"
    "ok \<Longrightarrow> \<not> usb_running c" "ok \<Longrightarrow> \<exists>i. activeDeviceIndex (startupConnection c) = Some i \<and> up c \<subseteq> insert i (up ctx)"
    "\<not> ok \<Longrightarrow> calmer ctx c" "cfg c = cfg ctx" "commands c = commands ctx"
proof -
  define c0 where "c0 = StopUsbSession a ctx"
  note f = StopUsbSession_frame [where a = a and ctx = ctx, folded c0_def]
  obtain flow chosen where b: "Begin (devices (cfg c0)) (preferredDeviceId (cfg c0)) = (flow, chosen)" by force
  define i where "i = hd (dev_order flow)"
  define c1 where "c1 = c0\<lparr>deviceFlow := flow\<rparr>"
  define c2 where "c2 = c1\<lparr>startupConnection := (startupConnection c1)\<lparr>wifiOrder := dev_order flow, wifiPosition := 0,
      activeDeviceIndex := Some i\<rparr>\<rparr>"
  have eq: "StartWifiSession a ctx =
      (if apps ctx = [] then (False, ctx) else if dev_order flow = [] then (False, c1)
       else if ResolveDeviceTarget c2 i = [] then (False, c2)
       else (True, start_device a (ResolveDeviceTarget c2 i) i c2))"
    unfolding i_def by (rule StartWifiSession_eq [OF c0_def b c1_def]) (simp add: c2_def i_def)
  note e = calmerD [OF f(3)] control_ofD [OF f(4)]
  have k: "apps c1 = apps c0" "usbApp c1 = usbApp c0" "apps c2 = apps c0" "usbApp c2 = usbApp c0"
    "restarts_of c1 = restarts_of c0" "restarts_of c2 = restarts_of c0" "cfg c1 = cfg c0" "cfg c2 = cfg c0"
    "commands c1 = commands c0" "commands c2 = commands c0"
    "attempt_of c1 = attempt_of c0" "attempt_of c2 = attempt_of c0" "activeDeviceIndex (startupConnection c2) = Some i"
    by (simp_all add: c1_def c2_def restarts_of_def)
  have s: "calmer ctx c1" "calmer ctx c2" "\<not> usb_running c1" "\<not> usb_running c2"
    using f(2) k(1-4) usb_running_cong [of c1 c0] usb_running_cong [of c2 c0] by (simp_all add: calmer_cong [OF f(3)])
  have r: "restarts_of c0 = restarts_of ctx" by (rule control_restarts) (rule f(4))
  consider (none) "ok = False" "c = ctx" | (order) "ok = False" "c = c1" | (target) "ok = False" "c = c2"
    | (go) t where "ok" "c = start_device a t i c2"
    using assms unfolding eq by (auto split: if_splits)
  then have "restarts_of c = restarts_of ctx \<and> attempt_of c = attempt_of ctx \<and> length (apps c) = length (apps ctx) \<and>
      (ok \<longrightarrow> \<not> usb_running c) \<and>
      (ok \<longrightarrow> (\<exists>i. activeDeviceIndex (startupConnection c) = Some i \<and> up c \<subseteq> insert i (up ctx))) \<and>
      (\<not> ok \<longrightarrow> calmer ctx c) \<and> cfg c = cfg ctx \<and> commands c = commands ctx"
  proof cases
    case go
    note g = start_device_frame [where a = a and target = t and i = i and ctx = c2]
    note h = control_ofD [OF g(3)]
    have "up c \<subseteq> insert i (up ctx)" using g(1) calmerD(2) [OF s(2)] go(2) by blast
    moreover have "\<not> usb_running c" unfolding go(2) using s(4) usb_running_cong [OF g(4)] by simp
    moreover have "restarts_of c = restarts_of c2" unfolding go(2) by (rule control_restarts) (rule g(3))
    ultimately show ?thesis using go g(2) h(1,6,7) e k r by simp
  qed (use e k r s in simp_all)
  then show "restarts_of c = restarts_of ctx" "attempt_of c = attempt_of ctx" "length (apps c) = length (apps ctx)"
    "ok \<Longrightarrow> \<not> usb_running c" "ok \<Longrightarrow> \<exists>i. activeDeviceIndex (startupConnection c) = Some i \<and> up c \<subseteq> insert i (up ctx)"
    "\<not> ok \<Longrightarrow> calmer ctx c" "cfg c = cfg ctx" "commands c = commands ctx"
    by blast+
qed

lemma StartTransportAttempt_frame:
  assumes "StartTransportAttempt a t ctx = (ok, c)"
  shows "restarts_of c = restarts_of ctx" "attempt_of c = attempt_of ctx" "length (apps c) = length (apps ctx)"
    "cfg c = cfg ctx" "commands c = commands ctx" "ok \<Longrightarrow> t = Wifi \<Longrightarrow> \<not> usb_running c" "\<not> ok \<Longrightarrow> calmer ctx c"
    "ok \<Longrightarrow> one_medium c" "ok \<Longrightarrow> t = Usb \<Longrightarrow> up c = {}"
proof -
  have "restarts_of c = restarts_of ctx \<and> attempt_of c = attempt_of ctx \<and> length (apps c) = length (apps ctx) \<and>
      cfg c = cfg ctx \<and> commands c = commands ctx \<and> (ok \<longrightarrow> t = Wifi \<longrightarrow> \<not> usb_running c) \<and> (\<not> ok \<longrightarrow> calmer ctx c) \<and>
      (ok \<longrightarrow> one_medium c) \<and> (ok \<longrightarrow> t = Usb \<longrightarrow> up c = {})"
  proof (cases t)
    case Wifi
    then have w: "StartWifiSession a ctx = (ok, c)" using assms by simp
    from StartWifiSession_frame [OF w] Wifi show ?thesis by (simp add: one_medium_def)
  next
    case Usb
    show ?thesis
    proof (cases "PreferredUsbTarget ctx")
      case (Some target)
      then have c: "ok" "c = StartUsbSession a target ctx" using assms Usb by simp_all
      note f = StartUsbSession_frame [where a = a and target = target and ctx = ctx]
      have "restarts_of c = restarts_of ctx" unfolding c by (rule control_restarts) (rule f(3))
      with c f(1,2) control_ofD [OF f(3)] Usb show ?thesis by (simp add: one_medium_def)
    qed (use assms Usb in simp)
  qed (use assms in simp)
  then show "restarts_of c = restarts_of ctx" "attempt_of c = attempt_of ctx" "length (apps c) = length (apps ctx)"
    "cfg c = cfg ctx" "commands c = commands ctx" "ok \<Longrightarrow> t = Wifi \<Longrightarrow> \<not> usb_running c" "\<not> ok \<Longrightarrow> calmer ctx c"
    "ok \<Longrightarrow> one_medium c" "ok \<Longrightarrow> t = Usb \<Longrightarrow> up c = {}"
    by blast+
qed

lemma attempt_begun_frame:
  "apps (attempt_begun a t fb c) = apps c" "usbApp (attempt_begun a t fb c) = usbApp c"
  "restarts_of (attempt_begun a t fb c) = restarts_of c" "attempt_of (attempt_begun a t fb c) = t"
  by (simp_all add: attempt_begun_def restarts_of_def)

text \<open>An attempt that could be started, when no cable session waits to be restarted.\<close>

lemma attempt_apart:
  assumes "StartTransportAttempt a t ctx = (ok, c)" and ok and "restartUsbTarget ctx = []" and "restart_pending ctx \<longrightarrow> switching ctx"
  shows "apart (attempt_begun a t fb c)"
proof -
  note f = StartTransportAttempt_frame [OF assms(1)] and b = attempt_begun_frame [where a = a and t = t and fb = fb and c = c]
  note r = restarts_ofD [OF b(3) [unfolded f(1)]]
  have "one_medium (attempt_begun a t fb c)" using f(8) assms(2) up_cong [OF b(1)] usb_running_cong [OF b(2)] by (simp add: one_medium_def)
  moreover have "t = Wifi \<longrightarrow> \<not> usb_running (attempt_begun a t fb c)" using f(6) assms(2) usb_running_cong [OF b(2)] by auto
  ultimately show ?thesis using assms(3,4) r b(4) by (simp add: apart_def)
qed

lemma BeginStartupAutoConnect_apart:
  assumes "apart ctx" and "\<not> restart_pending ctx"
  shows "apart (BeginStartupAutoConnect a ctx)"
proof -
  define c0 where "c0 = (RefreshUsbDevices a True ctx)\<lparr>autoConnectMessage := NoMessage, startupConnection := StartupConnectionAttempt_default\<rparr>"
  have c0: "apps c0 = apps ctx" "usbApp c0 = usbApp ctx" "restarts_of c0 = restarts_of ctx" "attempt_of c0 = NoTransport"
    by (simp_all add: c0_def RefreshUsbDevices_def restarts_of_def StartupConnectionAttempt_default_def)
  have i0: "apart c0" by (rule apart_same [OF assms(1) c0(1-3)]) (simp add: c0(4))
  have p0: "restartUsbTarget c0 = []" "restart_pending c0 \<longrightarrow> switching c0"
    using restarts_ofD [OF c0(3)] assms(2) by (auto simp: restart_pending_def)
  obtain ok c1 where s1: "StartTransportAttempt a (preferred_transport c0) c0 = (ok, c1)" by force
  note f1 = StartTransportAttempt_frame [OF s1]
  obtain ok2 c2 where s2: "StartTransportAttempt a (OtherTransport (preferred_transport c0)) c1 = (ok2, c2)" by force
  note f2 = StartTransportAttempt_frame [OF s2]
  have eq: "BeginStartupAutoConnect a ctx = (if ok then attempt_begun a (preferred_transport c0) False c1
      else if ok2 then attempt_begun a (OtherTransport (preferred_transport c0)) True c2 else c2)"
    unfolding BeginStartupAutoConnect_def Let_def c0_def [symmetric] s1 by (cases ok; cases ok2) (simp_all add: s2)
  show ?thesis
  proof (cases ok)
    case True
    with eq attempt_apart [OF s1 True p0] True show ?thesis by simp
  next
    case False
    have p1: "restartUsbTarget c1 = []" "restart_pending c1 \<longrightarrow> switching c1" using restarts_ofD [OF f1(1)] p0 by simp_all
    show ?thesis
    proof (cases ok2)
      case True
      with eq False attempt_apart [OF s2 True p1] True show ?thesis by simp
    next
      case no: False
      have "calmer c0 c2" "restarts_of c2 = restarts_of c0" "attempt_of c2 = attempt_of c0"
        using calmer_trans [OF f1(7) [OF False] f2(7) [OF no]] f1(1,2) f2(1,2) by simp_all
      then have "apart c2" using i0 by (intro apart_calmer [OF i0]) simp_all
      with eq False no show ?thesis by simp
    qed
  qed
qed

subsection \<open>The timer\<close>

lemma apart_settings: "apart ctx \<Longrightarrow> settings_only ctx c \<Longrightarrow> apart c"
  using settings_onlyD [of ctx c] by (auto intro!: apart_same [of ctx c] simp: restarts_of_def)

lemma apart_workers: "apart ctx \<Longrightarrow> apart (worker_steps ws ctx)"
  using worker_steps_frame [of ctx ws] control_ofD [OF same_control_of [OF worker_steps_frame(2) [of ctx ws]]]
  by (intro apart_calmer [of ctx "worker_steps ws ctx"]) (simp_all add: restarts_of_def)

lemma report_streaming_frame:
  "apps (report_streaming ctx) = apps ctx" "usbApp (report_streaming ctx) = usbApp ctx"
  "startupConnection (report_streaming ctx) = startupConnection ctx" "restarts_of (report_streaming ctx) = restarts_of ctx"
  "cfg (report_streaming ctx) = cfg ctx" "launches (report_streaming ctx) = launches ctx" "retiredApps (report_streaming ctx) = retiredApps ctx"
  by (simp_all add: report_streaming_def Let_def restarts_of_def split: ConnectionTransport.split option.split)

lemma advance_streaming_frame:
  "apps (advance_streaming a ctx) = apps ctx" "usbApp (advance_streaming a ctx) = usbApp ctx"
  "attempt_of (advance_streaming a ctx) = NoTransport" "restarts_of (advance_streaming a ctx) = restarts_of ctx"
  "length (devices (cfg (advance_streaming a ctx))) = length (devices (cfg ctx))"
  "launches (advance_streaming a ctx) = launches ctx" "retiredApps (advance_streaming a ctx) = retiredApps ctx"
  using settings_onlyD [OF RememberSuccessfulTransport_settings [of "report_streaming ctx" a]] report_streaming_frame [of ctx]
  by (simp_all add: advance_streaming_def restarts_of_def)

lemma StopTransportAttempt_frame:
  "calmer ctx (StopTransportAttempt a t ctx)" "control_of (StopTransportAttempt a t ctx) = control_of ctx"
  "launches (StopTransportAttempt a t ctx) = launches ctx"
  using StopUsbSession_frame [where a = a and ctx = ctx] StopConfiguredSenders_frame [where a = a and ctx = ctx]
  by (cases t; simp)+

lemma advance_stopping_apart:
  assumes i: "apart ctx" and t: "attempt_of ctx \<noteq> NoTransport"
  shows "apart (advance_stopping a ctx)"
proof -
  define failed where "failed = attempt_of ctx"
  define c0 where "c0 = StopTransportAttempt a failed ctx"
  define c1 where "c1 = c0\<lparr>startupConnection := (startupConnection c0)\<lparr>waitingTransportStop := False\<rparr>\<rparr>"
  note f = StopTransportAttempt_frame [where a = a and t = failed and ctx = ctx, folded c0_def]
  have k: "apps c1 = apps c0" "usbApp c1 = usbApp c0" "restarts_of c1 = restarts_of c0" "attempt_of c1 = attempt_of c0"
    by (simp_all add: c1_def restarts_of_def)
  note ctl = control_ofD [OF f(2)]
  have i1: "apart c1" using k ctl control_restarts [OF f(2)] by (intro apart_calmer [OF i calmer_cong [OF f(1)]]) simp_all
  have none: "restartUsbTarget c1 = []" using apartD(5) [OF i1] k(4) ctl(1) t by simp
  obtain ok c2 where s: "StartTransportAttempt a (OtherTransport failed) c1 = (ok, c2)" by force
  note g = StartTransportAttempt_frame [OF s]
  have eq: "advance_stopping a ctx =
      (if (if failed = Usb then usb_running ctx else list_ex running (apps ctx)) then ctx
       else if fallbackUsed (startupConnection c1) then (set_transport NoTransport c1)\<lparr>autoConnectMessage := AllCandidatesFailed\<rparr>
       else if ok then attempt_begun a (OtherTransport failed) True c2
       else (set_transport NoTransport c2)\<lparr>autoConnectMessage := NoFallbackConnection\<rparr>)"
    unfolding advance_stopping_def Let_def failed_def [symmetric] c0_def [symmetric] c1_def [symmetric] s
    by (cases ok) simp_all
  have over: "apart ((set_transport NoTransport c1)\<lparr>autoConnectMessage := AllCandidatesFailed\<rparr>)"
    by (rule apart_same [OF i1]) (simp_all add: restarts_of_def)
  have fallback: "apart (attempt_begun a (OtherTransport failed) True c2)" if ok
    by (rule attempt_apart [OF s that none]) (use apartD(6) [OF i1] in blast)
  have no_fallback: "apart ((set_transport NoTransport c2)\<lparr>autoConnectMessage := NoFallbackConnection\<rparr>)" if "\<not> ok"
    using g(1,2) by (intro apart_calmer [OF i1 calmer_cong [OF g(7) [OF that]]]) (simp_all add: restarts_of_def)
  show ?thesis unfolding eq by (intro apart_if) (rule i over fallback no_fallback; assumption)+
qed

text \<open>A sender of the network is started while the cable is down.\<close>

lemma start_device_apart:
  assumes "apart ctx" and "\<not> usb_running ctx" and "restartUsbTarget ctx = []"
  shows "apart (start_device a target i ctx)" "\<not> usb_running (start_device a target i ctx)"
    "restartUsbTarget (start_device a target i ctx) = []"
proof -
  note f = start_device_frame [where a = a and target = target and i = i and ctx = ctx]
  note h = control_ofD [OF f(3)] and u = usb_running_cong [OF f(4)]
  show "apart (start_device a target i ctx)" using assms h u by (auto simp: apart_def one_medium_def)
  show "\<not> usb_running (start_device a target i ctx)" "restartUsbTarget (start_device a target i ctx) = []"
    using assms h u by simp_all
qed

lemma stop_active_frame:
  "calmer ctx (stop_active cls i ctx)" "restarts_of (stop_active cls i ctx) = restarts_of ctx"
  "startupConnection (stop_active cls i ctx) = startupConnection ctx" "cfg (stop_active cls i ctx) = cfg ctx"
  "length (apps (stop_active cls i ctx)) = length (apps ctx)" "launches (stop_active cls i ctx) = launches ctx"
  "usbApp (stop_active cls i ctx) = usbApp ctx"
proof -
  have "running ((apps ctx)[i := RequestStop (apps ctx ! i)] ! x) = running (apps ctx ! x)" for x
    by (cases "i < length (apps ctx)"; cases "i = x") (simp_all add: list_update_beyond)
  then show "calmer ctx (stop_active cls i ctx)" by (simp add: stop_active_def calmer_def up_def usb_running_def)
qed (simp_all add: stop_active_def restarts_of_def)

text \<open>Only what it starts changes the senders.\<close>

lemma StartWifiCandidate_cases:
  assumes "StartWifiCandidate a pos ctx = (ok, c)"
  shows "if ok then \<exists>t. pos < length (wifiOrder (startupConnection ctx)) \<and>
           c = start_device a t (wifiOrder (startupConnection ctx) ! pos) (ctx\<lparr>startupConnection := (startupConnection ctx)
             \<lparr>wifiPosition := pos, activeDeviceIndex := Some (wifiOrder (startupConnection ctx) ! pos), waitingNext := False,
              started := t_now a\<rparr>\<rparr>)
         else c = ctx"
  using assms by (auto simp: StartWifiCandidate_def Let_def split: if_splits)

lemma apart_sc:
  assumes "apart ctx" and "sc_transport sc \<in> {attempt_of ctx, NoTransport}"
  shows "apart (ctx\<lparr>startupConnection := sc\<rparr>)"
  using assms by (intro apart_same [OF assms(1)]) (simp_all add: restarts_of_def)

lemma apart_message [simp]: "apart (c\<lparr>autoConnectMessage := m\<rparr>) = apart c"
  by (simp add: apart_def one_medium_def up_def usb_running_def restart_pending_def)

lemma advance_candidate_apart:
  assumes i: "apart ctx" and t: "attempt_of ctx = Wifi" and c: "advance_candidate a j ctx = (over, c)"
  shows "apart c" "attempt_of c \<in> {Wifi, NoTransport}"
proof -
  have u: "\<not> usb_running ctx" "restartUsbTarget ctx = []" using apartD [OF i] t by simp_all
  have stop: "apart (stop_active cls j ctx)" for cls
    using stop_active_frame(1-3) [where ctx = ctx and cls = cls and i = j] by (intro apart_calmer [OF i]) simp_all
  obtain ok c' where s: "StartWifiCandidate a (wifiPosition (startupConnection ctx) + 1) ctx = (ok, c')" by force
  note w = StartWifiCandidate_cases [OF s]
  have cand: "apart c' \<and> attempt_of c' = Wifi"
  proof (cases ok)
    case True
    with w obtain t' k sc where k: "c' = start_device a t' k (ctx\<lparr>startupConnection := sc\<rparr>)" and sc: "sc_transport sc = Wifi"
      using t by force
    have "apart (ctx\<lparr>startupConnection := sc\<rparr>)" using sc t by (intro apart_sc [OF i]) simp
    then have "apart c'" unfolding k by (rule start_device_apart) (simp_all add: u usb_running_def [of "ctx\<lparr>startupConnection := sc\<rparr>"] usb_running_def [of ctx, symmetric])
    moreover have "attempt_of c' = Wifi"
      using sc control_ofD(1) [OF start_device_frame(3) [where a = a and target = t' and i = k and ctx = "ctx\<lparr>startupConnection := sc\<rparr>"]]
      by (simp add: k)
    ultimately show ?thesis by simp
  qed (use w i t in simp)
  have "apart c \<and> attempt_of c \<in> {Wifi, NoTransport}"
    using c stop cand t i stop_active_frame(3) [where ctx = ctx and i = j]
    unfolding advance_candidate_def Let_def s
    by (auto split: if_splits bool.splits intro!: apart_sc)
  then show "apart c" "attempt_of c \<in> {Wifi, NoTransport}" by blast+
qed

lemma RequestStopTransportAttempt_frame:
  "calmer ctx (RequestStopTransportAttempt t ctx)" "same_control ctx (RequestStopTransportAttempt t ctx)"
  using request_stop_frame by (cases t; simp)+

lemma advance_timeout_apart:
  assumes "apart c" and "c1 = RequestStopTransportAttempt t c"
  shows "apart (c1\<lparr>startupConnection := (startupConnection c1)\<lparr>waitingTransportStop := True\<rparr>\<rparr>)"
proof -
  note f = RequestStopTransportAttempt_frame [of c t, folded assms(2)]
  have "apart c1" using control_ofD [OF same_control_of [OF f(2)]] by (intro apart_calmer [OF assms(1) f(1)]) (simp_all add: restarts_of_def)
  then show ?thesis by (intro apart_sc) simp_all
qed

lemma AdvanceStartupAutoConnect_apart:
  assumes i: "apart ctx"
  shows "apart (AdvanceStartupAutoConnect a ctx)"
proof -
  define t where "t = attempt_of ctx"
  obtain over c where st: "(case (t, activeDeviceIndex (startupConnection ctx)) of
        (Wifi, Some i) \<Rightarrow> if i < length (apps ctx) then advance_candidate a i ctx else (False, ctx) | _ \<Rightarrow> (False, ctx)) = (over, c)"
    by fastforce
  have c: "apart c"
  proof (cases "t = Wifi \<and> (\<exists>j. activeDeviceIndex (startupConnection ctx) = Some j \<and> j < length (apps ctx))")
    case True
    then obtain j where "advance_candidate a j ctx = (over, c)" using st by auto
    then show ?thesis using advance_candidate_apart(1) [OF i] True by (simp add: t_def)
  next
    case False
    then have "c = ctx" using st by (auto split: ConnectionTransport.splits option.splits if_splits)
    then show ?thesis using i by simp
  qed
  have eq: "AdvanceStartupAutoConnect a ctx =
      (if t = NoTransport then ctx else if IsTransportStreaming ctx t then advance_streaming a ctx
       else if waitingTransportStop (startupConnection ctx) then advance_stopping a ctx
       else if over then c else if \<not> timed_out a c then c
       else (RequestStopTransportAttempt (attempt_of c) c)\<lparr>startupConnection :=
              (startupConnection (RequestStopTransportAttempt (attempt_of c) c))\<lparr>waitingTransportStop := True\<rparr>\<rparr>)"
    unfolding AdvanceStartupAutoConnect_def Let_def t_def [symmetric] st by (cases over) simp_all
  have stream: "apart (advance_streaming a ctx)"
    using advance_streaming_frame [where a = a and ctx = ctx] by (intro apart_same [OF i]) simp_all
  show ?thesis
    unfolding eq using advance_timeout_apart [OF c refl] advance_stopping_apart [OF i] stream c i
    by (auto simp: t_def [symmetric] intro!: apart_if)
qed

subsection \<open>Commands\<close>

lemma restart_apps_apart:
  assumes "apart ctx" and "\<not> usb_running ctx" and "restartUsbTarget ctx = []"
  shows "apart (restart_apps a is ctx) \<and> \<not> usb_running (restart_apps a is ctx) \<and> restartUsbTarget (restart_apps a is ctx) = []"
  using assms unfolding restart_apps_def by (induction "is" arbitrary: ctx) (simp_all add: start_device_apart)

lemma launch_usb_apart:
  assumes "up ctx = {}" and "attempt_of ctx \<noteq> Wifi" and "restartUsbTarget ctx = []" and "restart_pending ctx \<longrightarrow> switching ctx"
  shows "apart (launch_usb a target ctx)"
  using assms by (simp add: apart_def one_medium_def launch_usb_def up_def restart_pending_def)

lemma ProcessDeviceCommands_apart:
  assumes i0: "apart ctx0"
  shows "apart (ProcessDeviceCommands a ctx0)"
proof -
  define ctx where "ctx = ctx0\<lparr>retiredApps := filter running (retiredApps ctx0)\<rparr>"
  have i: "apart ctx" by (rule apart_same [OF i0]) (simp_all add: ctx_def restarts_of_def)
  have restart: "apart (process_restart a ctx)"
  proof (cases "restartUsbTarget ctx = []")
    case True
    have "apart (restart_apps a (restartAfterStop ctx) ctx) \<and> restartUsbTarget (restart_apps a (restartAfterStop ctx) ctx) = []"
      if "\<not> usb_running ctx" using restart_apps_apart [OF i that True] by blast
    moreover have "apart (c\<lparr>restartAfterStop := [], restartUsbTarget := [], switching := False\<rparr>)" if "apart c" for c
      using that by (auto simp: apart_def one_medium_def up_def usb_running_def restart_pending_def)
    ultimately show ?thesis using i by (simp add: process_restart_def Let_def)
  next
    case False
    note d = apartD(3,4) [OF i False]
    have t: "attempt_of ctx = NoTransport" using apartD(5) [OF i] False by blast
    show ?thesis using i d t False
      by (simp add: process_restart_def restart_apps_def launch_usb_def apart_def one_medium_def up_def restart_pending_def)
  qed
  have switch: "apart (process_switch a ctx)" if np: "\<not> restart_pending ctx"
  proof (cases "AnyRunning ctx")
    case False
    define c where "c = (if usbApp ctx = None then ctx else ctx\<lparr>usbApp := None, activeUsbTarget := []\<rparr>)"
    have "apart c" using i False
      by (auto simp: c_def AnyRunning_iff apart_def one_medium_def up_def usb_running_def restart_pending_def)
    moreover have "\<not> usb_running c" "restartUsbTarget c = []" "\<not> restart_pending c"
      using False np by (auto simp: c_def AnyRunning_iff usb_running_def restart_pending_def)
    ultimately have s: "apart (start_device a x y c)" "\<not> restart_pending (start_device a x y c)" "apart c" "\<not> restart_pending c" for x y
      using start_device_apart(1) [of c] control_ofD(8) [OF start_device_frame(3)] by simp_all
    have fin: "apart (d\<lparr>switching := False, switchingTo := None, deviceFlow := f\<rparr>)" if "apart d" "\<not> restart_pending d" for d f
      using that by (simp add: apart_def one_medium_def up_def usb_running_def restart_pending_def)
    show ?thesis
      unfolding process_switch_def Let_def c_def [symmetric] using False s by (simp split: option.split add: fin)
  qed (use i in \<open>simp add: process_switch_def\<close>)
  have command: "apart (process_command k (ctx\<lparr>commands := rest\<rparr>))" for k rest
  proof -
    have "apart d" if "apps d = map RequestStop (apps ctx)" "usbApp d = map_option RequestStop (usbApp ctx)"
        "restartAfterStop d = restartAfterStop ctx" "restartUsbTarget d = restartUsbTarget ctx" "switching d" "attempt_of d = NoTransport" for d
    proof -
      have "up d = up ctx" "usb_running d = usb_running ctx" using that(1,2) by (auto simp: up_def usb_running_def split: option.split)
      with i that(3-6) show ?thesis by (simp add: apart_def one_medium_def)
    qed
    then show ?thesis by (simp add: process_command_def Let_def RequestStopConfiguredSenders_def request_stop_usb_def)
  qed
  show ?thesis
    unfolding ProcessDeviceCommands_def Let_def ctx_def [symmetric] using restart switch command i
    by (simp split: list.split)
qed

lemma WM_TIMER_apart: "apart ctx \<Longrightarrow> apart (WM_TIMER a b ctx)"
proof -
  assume "apart ctx"
  then have "apart (RefreshUsbDevices a False ctx)"
    by (rule apart_same) (simp_all add: RefreshUsbDevices_def restarts_of_def)
  then show ?thesis unfolding WM_TIMER_def
    by (intro apart_settings [OF _ RememberSuccessfulTransport_settings] apart_workers AdvanceStartupAutoConnect_apart
        ProcessDeviceCommands_apart)
qed

subsection \<open>The messages\<close>

lemma apart_StopUsb: "apart ctx \<Longrightarrow> apart (StopUsbSession a ctx)"
  using control_restarts [OF StopUsbSession_frame(4)] control_ofD(1) [OF StopUsbSession_frame(4)]
  by (intro apart_calmer [OF _ StopUsbSession_frame(3)]) simp_all

lemma apart_StopConfigured: "apart ctx \<Longrightarrow> apart (StopConfiguredSenders a ctx)"
  using control_restarts [OF StopConfiguredSenders_frame(3)] control_ofD(1) [OF StopConfiguredSenders_frame(3)]
  by (intro apart_calmer [OF _ StopConfiguredSenders_frame(2)]) simp_all

lemma apart_StartUsb:
  assumes "apart ctx" and "attempt_of ctx = NoTransport"
  shows "apart (StartUsbSession a target ctx)"
proof -
  note f = StartUsbSession_frame [where a = a and target = target and ctx = ctx]
  note h = control_ofD [OF f(3)]
  show ?thesis using assms f(1) h by (auto simp: apart_def one_medium_def)
qed

lemma apart_Queue: "apart ctx \<Longrightarrow> apart (QueueDeviceCommand ty k ctx)"
  by (rule apart_same [of ctx]) (simp_all add: QueueDeviceCommand_def Let_def restarts_of_def)

lemma apart_quiet: "apart ctx \<Longrightarrow> apart (set_transport NoTransport ctx)"
  by (rule apart_sc) simp_all

lemma apart_Refresh: "apart ctx \<Longrightarrow> apart (RefreshUsbDevices a f ctx)"
  by (rule apart_same [of ctx]) (simp_all add: RefreshUsbDevices_def restarts_of_def)

lemma apart_StartWifi:
  assumes "apart ctx" and "restartUsbTarget ctx = []"
  shows "apart (snd (StartWifiSession a ctx))"
proof -
  obtain ok c where s: "StartWifiSession a ctx = (ok, c)" by force
  note f = StartWifiSession_frame [OF s] and r = restarts_ofD [OF StartWifiSession_frame(1) [OF s]]
  show ?thesis
  proof (cases ok)
    case True
    then show ?thesis using assms f(2,4) r s by (auto simp: apart_def one_medium_def)
  next
    case False
    show ?thesis using apart_calmer [OF assms(1) f(6) [OF False] f(1)] f(2) s by simp
  qed
qed

lemma apart_Retry:
  assumes "apart ctx" and "\<not> restart_pending ctx"
  shows "apart (RetryOrSwitchPanelConnection a sel ctx)"
proof -
  define c where "c = set_transport NoTransport ctx"
  have c: "apart c" "attempt_of c = NoTransport" "restartUsbTarget c = []" "\<not> restart_pending c"
    using apart_quiet [OF assms(1)] assms(2) by (simp_all add: c_def restart_pending_def)
  define c1 where "c1 = RefreshUsbDevices a True c"
  have c1: "apart c1" "attempt_of c1 = NoTransport" unfolding c1_def using apart_Refresh [OF c(1)] c(2) by (blast, simp add: RefreshUsbDevices_def)
  have u: "apart (StopUsbSession a c)" "attempt_of (StopUsbSession a c) = NoTransport"
    using apart_StopUsb [OF c(1)] control_ofD(1) [OF StopUsbSession_frame(4) [of a c]] c(2) by simp_all
  show ?thesis
    unfolding RetryOrSwitchPanelConnection_def Let_def c_def [symmetric] c1_def [symmetric]
    using apart_Queue [OF assms(1)] apart_StartWifi [OF c(1,3)] apart_StartUsb [OF c1] apart_Queue [OF c1(1)]
      apart_StartUsb [OF u] BeginStartupAutoConnect_apart [OF c(1,4)]
    by (simp split: option.split)
qed

lemma apart_fold_start:
  assumes "apart ctx" and "\<not> usb_running ctx" and "restartUsbTarget ctx = []"
  shows "apart (fold (\<lambda>i c. if P i c then start_device a (t i c) i c else c) is ctx)"
  using assms by (induction "is" arbitrary: ctx) (simp_all add: start_device_apart)

lemma apart_ConnectAll:
  assumes "apart ctx" and "\<not> restart_pending ctx"
  shows "apart (MenuConnectAll a ctx)"
proof -
  define c where "c = StopUsbSession a (set_transport NoTransport ctx)"
  have "restartUsbTarget c = []"
    using control_ofD(5) [OF StopUsbSession_frame(4) [of a "set_transport NoTransport ctx"]] assms(2)
    by (simp add: c_def restart_pending_def)
  moreover have "apart c" "\<not> usb_running c"
    unfolding c_def by (intro apart_StopUsb apart_quiet assms(1)) (rule StopUsbSession_frame(2))
  ultimately show ?thesis
    using apart_fold_start [where P = "\<lambda>i c. True" and a = a and t = "\<lambda>i c. ResolveDeviceTarget c i" and ctx = c]
    by (simp add: MenuConnectAll_def Let_def c_def [symmetric])
qed

lemma RunningAddresses_none: "up ctx = {} \<Longrightarrow> RunningAddresses ctx = []"
  by (auto simp: RunningAddresses_def up_def filter_empty_conv)

lemma apart_RunAsAdmin:
  assumes "apart ctx"
  shows "apart (MenuRunAsAdmin a known copy ctx)"
proof -
  define c where "c = StopConfiguredSenders a (StopUsbSession a ctx)"
  have c: "apart c" unfolding c_def by (intro apart_StopConfigured apart_StopUsb assms)
  have u: "\<not> usb_running c"
    using StopUsbSession_frame(2) calmerD(3) [OF StopConfiguredSenders_frame(2) [of "StopUsbSession a ctx" a]] unfolding c_def by blast
  have r: "restartUsbTarget c = restartUsbTarget ctx"
    using control_ofD(5) [OF StopConfiguredSenders_frame(3) [of a "StopUsbSession a ctx"]]
      control_ofD(5) [OF StopUsbSession_frame(4) [of a ctx]] by (simp add: c_def)
  have "apart (StartAddresses a (RunningAddresses ctx) c)"
  proof (cases "restartUsbTarget ctx = []")
    case True
    then show ?thesis
      using apart_fold_start [OF c u, where P = "\<lambda>i d. endpoint (devices (cfg d) ! i) \<in> set (RunningAddresses ctx)"
          and t = "\<lambda>i d. endpoint (devices (cfg d) ! i)"] r by (simp add: StartAddresses_def Let_def)
  next
    case False
    have nil: "fold (\<lambda>i c. c) l d = d" for l :: "nat list" and d :: TrayContext by (induction l) simp_all
    show ?thesis using RunningAddresses_none [OF apartD(4) [OF assms False]] c by (simp add: StartAddresses_def nil)
  qed
  then show ?thesis
    using c by (simp add: MenuRunAsAdmin_def Let_def c_def [symmetric] WM_DESTROY_def apart_StopConfigured apart_StopUsb)
qed

text \<open>Fewer senders of the network, and nothing else.\<close>

lemma apart_fewer:
  assumes "apart ctx" and "set (apps c) \<subseteq> set (apps ctx)" and "usbApp c = usbApp ctx" and "restarts_of c = restarts_of ctx"
    and "startupConnection c = startupConnection ctx"
  shows "apart c"
proof -
  have "up c = {}" if "up ctx = {}"
    using assms(2) that by (auto simp: up_empty list_ex_iff)
  then show ?thesis
    using assms(1,5) usb_running_cong [OF assms(3)] restarts_ofD [OF assms(4)] by (auto simp: apart_def one_medium_def)
qed

lemma apart_Up: "apart ctx \<Longrightarrow> owned ctx \<Longrightarrow> apart (DeviceUp i ctx)"
proof (cases "0 < i \<and> i < length (devices (cfg ctx))")
  case True
  assume i: "apart ctx" and o: "owned ctx"
  have "set (swapped i (apps ctx)) = set (apps ctx)" using swapped_set [of i "apps ctx"] True ownedD(1) [OF o] by simp
  then show ?thesis
    using True by (intro apart_fewer [OF i]) (simp_all add: DeviceUp_def SyncPanelSettingsFromConfig_def restarts_of_def)
qed (auto simp: DeviceUp_def)

lemma apart_Remove: "apart ctx \<Longrightarrow> owned ctx \<Longrightarrow> apart (DeviceRemove i ctx)"
proof (cases "i < length (devices (cfg ctx))")
  case True
  assume i: "apart ctx" and o: "owned ctx"
  have "set (without i (apps ctx)) \<subseteq> set (apps ctx)" using without_facts [of i "apps ctx"] True ownedD(1) [OF o] by simp
  then show ?thesis
    using True by (intro apart_fewer [OF i]) (simp_all add: DeviceRemove_def Let_def SyncPanelSettingsFromConfig_def restarts_of_def)
qed (simp add: DeviceRemove_def)

text \<open>The new list takes over what ran, and asks for restarts only of what ran.\<close>

lemma apply_devices_idle:
  assumes "\<forall>s \<in> set oldApps. \<not> running s" and "reconnect = []" and "\<forall>s \<in> set (new_apps st). \<not> running s"
  shows "(\<forall>s \<in> set (new_apps (fold (apply_device oldDevices oldApps devs reconnect act) is st)). \<not> running s) \<and>
    restarts (fold (apply_device oldDevices oldApps devs reconnect act) is st) = restarts st"
  using assms(3)
proof (induction "is" arbitrary: st)
  case (Cons i "is")
  let ?st = "apply_device oldDevices oldApps devs reconnect act i st"
  have "(\<forall>s \<in> set (new_apps ?st). \<not> running s) \<and> restarts ?st = restarts st"
  proof (cases "old_match oldDevices (length oldApps) (used_apps st) (devs ! i)")
    case (Some m)
    then have "\<not> running (oldApps ! m)" using old_match_range [OF Some] assms(1) by simp
    then show ?thesis using Some Cons.prems by (simp add: apply_device_def Let_def)
  qed (use Cons.prems assms(2) in \<open>simp add: apply_device_def\<close>)
  with Cons.IH [of ?st] show ?case by simp
qed simp

lemma Apply_idle:
  assumes "up ctx = {}" and "reconnect = []" and "restartAfterStop ctx = []"
  shows "up (ApplyAndRestart od reconnect act ctx) = {}" "restartAfterStop (ApplyAndRestart od reconnect act ctx) = []"
proof -
  define st where "st = fold (apply_device od (apps ctx) (devices (cfg ctx)) reconnect act) [0..<length (devices (cfg ctx))]
      \<lparr>used_apps = [], new_apps = [], restarts = restartAfterStop ctx\<rparr>"
  have "\<forall>s \<in> set (apps ctx). \<not> running s" using assms(1) by (auto simp: up_empty list_ex_iff)
  from apply_devices_idle [OF this assms(2), of "\<lparr>used_apps = [], new_apps = [], restarts = restartAfterStop ctx\<rparr>"]
  have st: "\<forall>s \<in> set (new_apps st). \<not> running s" "restarts st = []" by (simp_all add: st_def assms(3))
  then have "apps (ApplyAndRestart od reconnect act ctx) = new_apps st" "restartAfterStop (ApplyAndRestart od reconnect act ctx) = []"
    unfolding ApplyAndRestart_def Let_def st_def [symmetric] by (simp_all add: request_stop_usb_def)
  with st(1) show "up (ApplyAndRestart od reconnect act ctx) = {}" "restartAfterStop (ApplyAndRestart od reconnect act ctx) = []"
    by (auto simp: up_empty list_ex_iff)
qed

lemma Apply_frame:
  "usb_running (ApplyAndRestart od reconnect act ctx) = usb_running ctx"
  "startupConnection (ApplyAndRestart od reconnect act ctx) = startupConnection ctx"
  "restart_pending (ApplyAndRestart od reconnect act ctx) \<Longrightarrow> switching (ApplyAndRestart od reconnect act ctx)"
  "\<not> usb_running ctx \<Longrightarrow> restartUsbTarget (ApplyAndRestart od reconnect act ctx) = restartUsbTarget ctx"
  unfolding ApplyAndRestart_def Let_def
  by (auto simp: usb_running_def request_stop_usb_def restart_pending_def split: option.splits)

lemma apart_Apply:
  assumes "apart ctx" and "\<not> restart_pending ctx" and "attempt_of ctx = NoTransport" and "up ctx = {} \<longrightarrow> reconnect = []"
  shows "apart (ApplyAndRestart od reconnect act ctx)"
proof (cases "up ctx = {}")
  case True
  note n = Apply_idle [OF True, where reconnect = reconnect and od = od and act = act] and f = Apply_frame [where od = od and reconnect = reconnect and act = act and ctx = ctx]
  show ?thesis using n assms True f(2,3) by (simp add: apart_def one_medium_def restart_pending_def)
next
  case False
  then have u: "\<not> usb_running ctx" using apartD(1) [OF assms(1)] by (auto simp: one_medium_def)
  show ?thesis using u assms(2,3) Apply_frame [where od = od and reconnect = reconnect and act = act and ctx = ctx] by (auto simp: apart_def one_medium_def restart_pending_def)
qed

lemma apart_SavePanel:
  assumes i: "apart ctx" and np: "\<not> restart_pending ctx" and t: "attempt_of ctx = NoTransport"
  shows "apart (snd (SavePanelSettings narrow p ctx))"
proof -
  define c where "c = save_config (ctx\<lparr>cfg := edited_config narrow p ctx,
      panelStreamProfile := streamProfile (edited_config narrow p ctx)\<rparr>)"
  have k: "apps c = apps ctx" "usbApp c = usbApp ctx" "restarts_of c = restarts_of ctx" "startupConnection c = startupConnection ctx"
    by (simp_all add: c_def restarts_of_def)
  have c: "apart c" by (rule apart_same [OF i k(1-3)]) (simp add: k)
  have rolled: "apart (c\<lparr>cfg := st\<rparr>)" for st by (rule apart_same [OF c]) (simp_all add: restarts_of_def)
  have "up c = {} \<longrightarrow> RunningAddresses ctx = []" using RunningAddresses_none up_cong [OF k(1)] by simp
  then have applied: "apart (ApplyAndRestart od (RunningAddresses ctx) act c)" for od act
    by (intro apart_Apply [OF c]) (use restarts_ofD [OF k(3)] np t k(4) in simp_all)
  have sync: "apart (SyncPanelSettingsFromConfig d)" if "apart d" for d
    by (rule apart_same [OF that]) (simp_all add: SyncPanelSettingsFromConfig_def restarts_of_def)
  show ?thesis
    unfolding SavePanelSettings_def Let_def c_def [symmetric] using i c rolled applied by (simp add: sync)
qed

lemma apart_AddSelected: "apart ctx \<Longrightarrow> apart (snd (AddSelectedDiscoveredDevice sel ctx))"
proof -
  assume i: "apart ctx"
  have upd: "apart (SyncPanelSettingsFromConfig (save_config (ctx\<lparr>cfg := st\<rparr>)))" for st
    by (rule apart_same [OF i]) (simp_all add: SyncPanelSettingsFromConfig_def restarts_of_def)
  have add: "apart (SyncPanelSettingsFromConfig ((save_config (ctx\<lparr>cfg := st\<rparr>))\<lparr>apps := apps ctx @ [SenderApp_default]\<rparr>))" for st
  proof -
    let ?d = "SyncPanelSettingsFromConfig ((save_config (ctx\<lparr>cfg := st\<rparr>))\<lparr>apps := apps ctx @ [SenderApp_default]\<rparr>)"
    have "apps ?d = apps ctx @ [SenderApp_default]" "usbApp ?d = usbApp ctx" "restarts_of ?d = restarts_of ctx"
      "startupConnection ?d = startupConnection ctx"
      by (simp_all add: SyncPanelSettingsFromConfig_def restarts_of_def)
    moreover from this have "up ?d = up ctx" by (auto simp: up_def nth_append less_Suc_eq)
    ultimately show ?thesis using i usb_running_cong [of ?d ctx] restarts_ofD [of ?d ctx] by (simp add: apart_def one_medium_def)
  qed
  show ?thesis unfolding AddSelectedDiscoveredDevice_def Let_def using i by (simp add: upd add split: option.split)
qed

text \<open>The buttons that the user leaves alone: while interrupted sessions wait for their restart, those that start
  sessions; and the settings are not saved while an automatic connection is being made.\<close>

fun patient :: "TrayContext \<Rightarrow> TrayEvent \<Rightarrow> bool" where
  "patient ctx Toggle = (\<not> restart_pending ctx)"
| "patient ctx (RetryOrSwitch sel) = (\<not> restart_pending ctx)"
| "patient ctx ConnectAll = (\<not> restart_pending ctx)"
| "patient ctx (SaveSettings p) = (\<not> restart_pending ctx \<and> attempt_of ctx = NoTransport)"
| "patient ctx e = True"

fun patiently :: "(wstring \<Rightarrow> string) \<Rightarrow> (TrayAnswer \<times> TrayEvent) list \<Rightarrow> TrayContext \<Rightarrow> bool" where
  "patiently narrow [] ctx = True"
| "patiently narrow ((a, e) # es) ctx = (patient ctx e \<and> patiently narrow es (handle narrow a e ctx))"

lemma apart_handle:
  assumes i: "apart ctx" and o: "owned ctx" and p: "patient ctx e"
  shows "apart (handle narrow a e ctx)"
proof (cases e)
  case (Worker w)
  have "apart (worker_steps [w] ctx)" by (rule apart_workers [OF i])
  then show ?thesis by (simp add: Worker worker_steps_def)
next
  case Toggle
  then show ?thesis using p i by (simp add: TogglePanelConnection_def apart_Queue BeginStartupAutoConnect_apart)
next
  case (UsbEntry k)
  have q: "apart (set_transport NoTransport ctx)" by (rule apart_quiet [OF i])
  then show ?thesis
    using i apart_StartUsb [OF q] apart_StopUsb [OF q] by (simp add: UsbEntry MenuUsb_def Let_def)
next
  case DisconnectUsb
  then show ?thesis using apart_StopUsb [OF apart_quiet [OF i]] by (simp add: MenuDisconnectUsb_def)
next
  case (DeviceEntry k)
  then show ?thesis using i by (simp add: MenuDevice_def apart_Queue)
next
  case Destroy
  then show ?thesis using i by (simp add: WM_DESTROY_def apart_StopConfigured apart_StopUsb)
next
  case (DefaultRow k)
  then show ?thesis by (simp add: DeviceDefault_def i, intro impI apart_same [OF i]) (simp_all add: restarts_of_def)
next
  case (LauncherModeCard m)
  show ?thesis by (rule apart_same [OF i]) (simp_all add: LauncherModeCard SetLauncherMode_def restarts_of_def)
next
  case ThemeButton
  show ?thesis by (rule apart_same [OF i]) (simp_all add: ThemeButton restarts_of_def)
next
  case TaskbarEntry
  show ?thesis by (rule apart_same [OF i]) (simp_all add: TaskbarEntry restarts_of_def)
next
  case AutoReconnectToggle
  show ?thesis by (rule apart_same [OF i]) (simp_all add: AutoReconnectToggle restarts_of_def)
next
  case PrivateNetworkToggle
  show ?thesis by (rule apart_same [OF i]) (simp_all add: PrivateNetworkToggle restarts_of_def)
next
  case CancelSettings
  show ?thesis by (rule apart_same [OF i]) (simp_all add: CancelSettings SyncPanelSettingsFromConfig_def restarts_of_def)
next
  case (ProfileCard pr)
  show ?thesis by (rule apart_same [OF i]) (simp_all add: ProfileCard restarts_of_def)
next
  case (DiscoveryPass answers)
  show ?thesis by (rule apart_same [OF i]) (simp_all add: DiscoveryPass RunDiscovery_pass_def Let_def restarts_of_def)
qed (use i o p in \<open>simp_all add: WM_TIMER_apart apart_Retry apart_SavePanel apart_AddSelected apart_Queue apart_Up apart_Remove
    apart_ConnectAll apart_RunAsAdmin apart_Refresh\<close>)

lemma apart_handles: "apart ctx \<Longrightarrow> owned ctx \<Longrightarrow> patiently narrow es ctx \<Longrightarrow> apart (handles narrow es ctx)"
proof (induction es arbitrary: ctx)
  case (Cons x es)
  obtain a e where x: "x = (a, e)" by force
  show ?case
    using Cons.IH [of "handle narrow a e ctx"] Cons.prems apart_handle owned_handle by (simp add: x handles_def)
qed (simp add: handles_def)

lemma apart_RunTray: "apart (RunTray a resume loaded)"
proof -
  define ctx where "ctx = TrayContext_default (loaded\<lparr>devices := filter (\<lambda>d. \<not> IsUsbMuxTarget (endpoint d)) (devices loaded)\<rparr>)"
  define c where "c = RebuildSenders (if length (filter (\<lambda>d. \<not> IsUsbMuxTarget (endpoint d)) (devices loaded)) \<noteq> length (devices loaded)
      then save_config ctx else ctx)"
  have k: "apps c = map (\<lambda>d. SenderApp_default) (devices (cfg c))" "usbApp c = None" "restartAfterStop c = []" "restartUsbTarget c = []"
    "attempt_of c = NoTransport"
    by (simp_all add: c_def RebuildSenders_def ctx_def TrayContext_default_def StartupConnectionAttempt_default_def)
  then have c: "apart c" "\<not> usb_running c" "\<not> restart_pending c"
    by (auto simp: apart_def one_medium_def usb_running_def restart_pending_def)
  have "apart (StartAddresses a w c)" for w
    using apart_fold_start [OF c(1,2) k(4), where P = "\<lambda>i d. endpoint (devices (cfg d) ! i) \<in> set w"
        and t = "\<lambda>i d. endpoint (devices (cfg d) ! i)"] by (simp add: StartAddresses_def Let_def)
  then show ?thesis
    unfolding RunTray_def Let_def ctx_def [symmetric] c_def [symmetric]
    using c BeginStartupAutoConnect_apart [OF c(1,3)] by (simp split: option.split)
qed


text \<open>A cable that is plugged in while the first device is tried over the network; the user switches over to it.\<close>

definition cable :: UsbMuxDevice where "cable = \<lparr>deviceId = 7, udid = ''00008030''\<rparr>"

definition with_cable :: "int \<Rightarrow> TrayAnswer" where
  "with_cable t = (at_time t)\<lparr>t_usb := [cable]\<rparr>"

definition sample_events :: "(TrayAnswer \<times> TrayEvent) list" where
  "sample_events = [(with_cable 3000, Timer [] []), (with_cable 3500, UsbEntry 0), (with_cable 4000, Timer [] []),
     (with_cable 4500, RetryOrSwitch None), (with_cable 5000, RetryOrSwitch None)]"


subsection \<open>An impatient user\<close>

definition ascii :: "wstring \<Rightarrow> string" where "ascii w = map (\<lambda>u. char_of (unat u)) w"

definition new_bitrate :: PanelInput where
  "new_bitrate = \<lparr>in_devices = wide ''192.168.1.2'', in_port = Some 9000, in_fps = Some 60, in_bitrate = Some 45,
     save_succeeds = True\<rparr>"

definition one_device :: Config where
  "one_device = Config_default\<lparr>devices := [sample_device ''192.168.1.2''], lastConnectionTransport := ''usb''\<rparr>"

text \<open>The settings are saved while the cable is tried.  The worker that they stop ends between the two parts of a tick, so
  that the automatic connection falls back to the network and the restart then brings the cable back: both run.\<close>

lemma saving_during_an_attempt_doubles:
  "let ctx = handles ascii [(with_cable 1000, SaveSettings new_bitrate), (with_cable 8000, Timer [] []),
       (with_cable 9000, Timer [Returns UsbSlot] []), (with_cable 10000, Timer [] [])] (RunTray (with_cable 0) None one_device)
   in usb_running ctx \<and> list_ex running (apps ctx)"
  by code_simp

text \<open>A session over the cable streams, its settings are saved, its worker ends, and the user
  presses the connection button before the next tick.  Nothing runs then, so it connects.\<close>

lemma connecting_before_the_restart_doubles:
  "let ctx = handles ascii [(with_cable 1000, Worker (Reports UsbSlot (SenderApp_default\<lparr>state := StateStreaming\<rparr>))),
       (with_cable 1500, Timer [] []), (with_cable 2000, SaveSettings new_bitrate), (with_cable 2100, Worker (Returns UsbSlot)),
       (at_time 2200, Toggle), (with_cable 3000, Timer [] [])] (RunTray (with_cable 0) None one_device)
   in usb_running ctx \<and> list_ex running (apps ctx)"
  by code_simp

end
