(* ===== verification/TrayStartup.thy ===== *)
theory TrayStartup
  imports TrayCable
begin

text \<open>
  The automatic connection is one bounded walk: however long the timer runs and whatever the workers report, it
  starts at most one session per device and one over the cable.  The measure is what the walk may still start.
\<close>

definition may_start :: "TrayContext \<Rightarrow> nat" where
  "may_start ctx =
     (let sc = startupConnection ctx in
      case sc_transport sc of
        NoTransport \<Rightarrow> 0
      | Wifi \<Rightarrow> (length (wifiOrder sc) - Suc (wifiPosition sc)) + (if fallbackUsed sc then 0 else 1)
      | Usb \<Rightarrow> (if fallbackUsed sc then 0 else length (devices (cfg ctx))))"

text \<open>Nothing but the walk is under way, and it stays within \<open>n\<close> sessions.\<close>

definition walking :: "nat \<Rightarrow> TrayContext \<Rightarrow> bool" where
  "walking n ctx \<longleftrightarrow> \<not> switching ctx \<and> commands ctx = [] \<and> length (launches ctx) + may_start ctx \<le> n"

lemma may_start_simps:
  "sc_transport (startupConnection ctx) = NoTransport \<Longrightarrow> may_start ctx = 0"
  "sc_transport (startupConnection ctx) = Wifi \<Longrightarrow> may_start ctx = (length (wifiOrder (startupConnection ctx)) -
     Suc (wifiPosition (startupConnection ctx))) + (if fallbackUsed (startupConnection ctx) then 0 else 1)"
  "sc_transport (startupConnection ctx) = Usb \<Longrightarrow>
     may_start ctx = (if fallbackUsed (startupConnection ctx) then 0 else length (devices (cfg ctx)))"
  by (simp_all add: may_start_def Let_def)

lemma walking_same:
  assumes "walking n ctx" and "switching c = switching ctx" and "commands c = commands ctx"
    and "launches c = launches ctx" and "startupConnection c = startupConnection ctx"
    and "length (devices (cfg c)) = length (devices (cfg ctx))"
  shows "walking n c"
proof -
  have "may_start c = may_start ctx" using assms(5,6) by (simp add: may_start_def Let_def split: ConnectionTransport.split)
  with assms show ?thesis by (simp add: walking_def)
qed

lemma walking_ended:
  assumes "walking n ctx" and "switching c = switching ctx" and "commands c = commands ctx"
    and "launches c = launches ctx" and "attempt_of c = NoTransport"
  shows "walking n c"
  using assms may_start_simps(1) [of c] by (simp add: walking_def)

subsection \<open>What an attempt starts\<close>

lemma order_length: "length (connect_order devs p) \<le> length devs"
proof -
  obtain rest where "connect_order devs p = preferred_order devs p @ rest" and d: "distinct (connect_order devs p)"
    and s: "set (connect_order devs p) = {i. i < length devs \<and> autoConnect (devs ! i)}"
    by (rule connect_order_props)
  have "length (connect_order devs p) = card (set (connect_order devs p))" using d by (simp add: distinct_card)
  also have "\<dots> \<le> card {..<length devs}" by (rule card_mono) (auto simp: s)
  finally show ?thesis by simp
qed

lemma StartWifiSession_launches:
  assumes "StartWifiSession a ctx = (ok, c)"
  shows "length (launches c) \<le> length (launches ctx) + (if ok then 1 else 0)" "switching c = switching ctx"
    "ok \<Longrightarrow> wifiPosition (startupConnection c) = 0 \<and> wifiOrder (startupConnection c) \<noteq> [] \<and>
       length (wifiOrder (startupConnection c)) \<le> length (devices (cfg ctx))"
    "fallbackUsed (startupConnection c) = fallbackUsed (startupConnection ctx)"
proof -
  define c0 where "c0 = StopUsbSession a ctx"
  note f = StopUsbSession_frame [where a = a and ctx = ctx, folded c0_def] and e = control_ofD [OF StopUsbSession_frame(4) [of a ctx, folded c0_def]]
  obtain flow chosen where b: "Begin (devices (cfg c0)) (preferredDeviceId (cfg c0)) = (flow, chosen)" by force
  note bc = Begin_cases [OF b]
  define c1 where "c1 = c0\<lparr>deviceFlow := flow\<rparr>"
  define c2 where "c2 = c1\<lparr>startupConnection := (startupConnection c1)\<lparr>wifiOrder := dev_order flow, wifiPosition := 0,
      activeDeviceIndex := Some (hd (dev_order flow))\<rparr>\<rparr>"
  note eq = StartWifiSession_eq [OF c0_def b c1_def c2_def]
  have len: "length (dev_order flow) \<le> length (devices (cfg ctx))"
    using bc order_length [of "devices (cfg ctx)" "preferredDeviceId (cfg ctx)"] e(6) by simp
  have k: "launches c1 = launches ctx" "launches c2 = launches ctx" "switching c1 = switching ctx" "switching c2 = switching ctx"
    "wifiOrder (startupConnection c2) = dev_order flow" "wifiPosition (startupConnection c2) = 0"
    "fallbackUsed (startupConnection c1) = fallbackUsed (startupConnection ctx)"
    "fallbackUsed (startupConnection c2) = fallbackUsed (startupConnection ctx)"
    using f(5) e by (simp_all add: c1_def c2_def)
  consider (none) "\<not> ok" "c = ctx" | (order) "\<not> ok" "c = c1" | (target) "\<not> ok" "c = c2"
    | (go) t i where "ok" "c = start_device a t i c2" "dev_order flow \<noteq> []"
    using assms unfolding eq by (auto split: if_splits)
  then have "length (launches c) \<le> length (launches ctx) + (if ok then 1 else 0) \<and> switching c = switching ctx \<and>
    (ok \<longrightarrow> wifiPosition (startupConnection c) = 0 \<and> wifiOrder (startupConnection c) \<noteq> [] \<and>
       length (wifiOrder (startupConnection c)) \<le> length (devices (cfg ctx))) \<and>
    fallbackUsed (startupConnection c) = fallbackUsed (startupConnection ctx)"
  proof cases
    case go
    note g = start_device_frame [where a = a and target = t and i = i and ctx = c2]
    show ?thesis using go g(5) control_ofD [OF g(3)] k len by simp
  qed (use k in simp_all)
  then show "length (launches c) \<le> length (launches ctx) + (if ok then 1 else 0)" "switching c = switching ctx"
    "ok \<Longrightarrow> wifiPosition (startupConnection c) = 0 \<and> wifiOrder (startupConnection c) \<noteq> [] \<and>
       length (wifiOrder (startupConnection c)) \<le> length (devices (cfg ctx))"
    "fallbackUsed (startupConnection c) = fallbackUsed (startupConnection ctx)"
    by blast+
qed

text \<open>An attempt that begins over \<open>t\<close> with or without a fallback left.\<close>

definition worth :: "ConnectionTransport \<Rightarrow> bool \<Rightarrow> nat \<Rightarrow> nat" where
  "worth t fb n = (case t of NoTransport \<Rightarrow> 0 | Wifi \<Rightarrow> n + (if fb then 0 else 1) | Usb \<Rightarrow> 1 + (if fb then 0 else n))"

lemma attempt_launches:
  assumes "StartTransportAttempt a t ctx = (ok, c)"
  shows "switching c = switching ctx" "\<not> ok \<Longrightarrow> length (launches c) \<le> length (launches ctx)"
    "ok \<Longrightarrow> length (launches c) + may_start (attempt_begun a t fb c) \<le> length (launches ctx) + worth t fb (length (devices (cfg ctx)))"
proof -
  have "switching c = switching ctx \<and> (\<not> ok \<longrightarrow> length (launches c) \<le> length (launches ctx)) \<and>
    (ok \<longrightarrow> length (launches c) + may_start (attempt_begun a t fb c) \<le> length (launches ctx) + worth t fb (length (devices (cfg ctx))))"
  proof (cases t)
    case Wifi
    then have s: "StartWifiSession a ctx = (ok, c)" using assms by simp
    note f = StartWifiSession_launches [OF s]
    have "may_start (attempt_begun a t fb c) = (length (wifiOrder (startupConnection c)) - Suc (wifiPosition (startupConnection c))) +
        (if fb then 0 else 1)" by (simp add: Wifi may_start_def Let_def attempt_begun_def)
    moreover have "\<exists>m. length (wifiOrder (startupConnection c)) = Suc m \<and> wifiPosition (startupConnection c) = 0 \<and>
        Suc m \<le> length (devices (cfg ctx))" if ok
      using f(3) [OF that] by (cases "wifiOrder (startupConnection c)") simp_all
    ultimately show ?thesis using f(1,2) by (cases ok) (auto simp: Wifi worth_def)
  next
    case Usb
    show ?thesis
    proof (cases "PreferredUsbTarget ctx")
      case (Some target)
      then have c: "ok" "c = StartUsbSession a target ctx" using assms Usb by simp_all
      note f = StartUsbSession_frame [where a = a and target = target and ctx = ctx]
      show ?thesis using c f(4) control_ofD [OF f(3)] by (simp add: Usb worth_def may_start_def Let_def attempt_begun_def)
    qed (use assms Usb in simp)
  qed (use assms in simp)
  then show "switching c = switching ctx" "\<not> ok \<Longrightarrow> length (launches c) \<le> length (launches ctx)"
    "ok \<Longrightarrow> length (launches c) + may_start (attempt_begun a t fb c) \<le> length (launches ctx) + worth t fb (length (devices (cfg ctx)))"
    by blast+
qed

lemma worth_bound: "worth t fb n \<le> n + 1"
  by (cases t) (auto simp: worth_def)

lemma Begin_walking:
  assumes "\<not> switching ctx" and "commands ctx = []"
  shows "walking (length (launches ctx) + length (devices (cfg ctx)) + 1) (BeginStartupAutoConnect a ctx)"
proof -
  define c0 where "c0 = (RefreshUsbDevices a True ctx)\<lparr>autoConnectMessage := NoMessage, startupConnection := StartupConnectionAttempt_default\<rparr>"
  have c0: "switching c0 = switching ctx" "commands c0 = commands ctx" "launches c0 = launches ctx" "cfg c0 = cfg ctx" "attempt_of c0 = NoTransport"
    by (simp_all add: c0_def RefreshUsbDevices_def StartupConnectionAttempt_default_def)
  define t where "t = preferred_transport c0"
  obtain ok c1 where s1: "StartTransportAttempt a t c0 = (ok, c1)" by force
  obtain ok2 c2 where s2: "StartTransportAttempt a (OtherTransport t) c1 = (ok2, c2)" by force
  note f1 = StartTransportAttempt_frame [OF s1] attempt_launches [OF s1] and f2 = StartTransportAttempt_frame [OF s2] attempt_launches [OF s2]
  have eq: "BeginStartupAutoConnect a ctx = (if ok then attempt_begun a t False c1
      else if ok2 then attempt_begun a (OtherTransport t) True c2 else c2)"
    unfolding BeginStartupAutoConnect_def Let_def c0_def [symmetric] t_def [symmetric] s1 by (cases ok; cases ok2) (simp_all add: s2)
  have b: "switching (attempt_begun a t' fb c) = switching c" "commands (attempt_begun a t' fb c) = commands c"
    "launches (attempt_begun a t' fb c) = launches c" for t' fb c by (simp_all add: attempt_begun_def)
  show ?thesis
  proof (cases ok)
    case True
    then show ?thesis
      using f1(5,10) f1(12) [where fb = False] assms c0 worth_bound [of t False "length (devices (cfg ctx))"] by (simp add: eq walking_def b)
  next
    case no: False
    show ?thesis
    proof (cases ok2)
      case True
      then show ?thesis
        using no f1(4,5,10,11) f2(5,10) f2(12) [where fb = True] assms c0 worth_bound [of "OtherTransport t" True "length (devices (cfg ctx))"]
        by (simp add: eq walking_def b)
    next
      case False
      then show ?thesis
        using no f1(2,5,10,11) f2(2,5,10,11) assms c0 may_start_simps(1) [of c2] by (simp add: eq walking_def)
    qed
  qed
qed

subsection \<open>The timer\<close>

lemma walking_settings:
  assumes "walking n ctx" and "settings_only ctx c"
  shows "walking n c"
  using settings_onlyD [OF assms(2)] by (intro walking_same [OF assms(1)]) simp_all

lemma walking_control:
  assumes "walking n ctx" and "control_of c = control_of ctx" and "launches c = launches ctx"
  shows "walking n c"
  using control_ofD [OF assms(2)] assms(3) by (intro walking_same [OF assms(1)]) simp_all

lemma walking_senders: "walking n ctx \<Longrightarrow> same_control ctx c \<Longrightarrow> walking n c"
  by (rule walking_control [OF _ same_control_of same_controlD(13)])

lemma walking_workers: "walking n ctx \<Longrightarrow> walking n (worker_steps ws ctx)"
  by (rule walking_senders [OF _ worker_steps_frame(2)])

lemma walking_Refresh: "walking n ctx \<Longrightarrow> walking n (RefreshUsbDevices a f ctx)"
  by (rule walking_same [of n ctx]) (simp_all add: RefreshUsbDevices_def)

lemma walking_streaming: "walking n ctx \<Longrightarrow> walking n (advance_streaming a ctx)"
proof -
  assume w: "walking n ctx"
  have "walking n (report_streaming ctx)"
    by (rule walking_same [OF w]) (simp_all add: report_streaming_def Let_def split: ConnectionTransport.split option.split)
  then have "walking n (RememberSuccessfulTransport a (report_streaming ctx))"
    by (rule walking_settings) (rule RememberSuccessfulTransport_settings)
  then show ?thesis unfolding advance_streaming_def by (rule walking_ended) simp_all
qed

lemma walking_if: "(b \<Longrightarrow> walking n c) \<Longrightarrow> (\<not> b \<Longrightarrow> walking n c') \<Longrightarrow> walking n (if b then c else c')"
  by simp

text \<open>The one fallback is paid for: an attempt with a fallback left may still start what the other transport may.\<close>

lemma fallback_worth:
  "attempt_of ctx \<noteq> NoTransport \<Longrightarrow> \<not> fallbackUsed (startupConnection ctx) \<Longrightarrow>
   worth (OtherTransport (attempt_of ctx)) True (length (devices (cfg ctx))) \<le> may_start ctx"
  by (cases "attempt_of ctx") (simp_all add: worth_def may_start_def Let_def)

lemma walking_stopping:
  assumes w: "walking n ctx" and t: "attempt_of ctx \<noteq> NoTransport"
  shows "walking n (advance_stopping a ctx)"
proof -
  define failed where "failed = attempt_of ctx"
  define c0 where "c0 = StopTransportAttempt a failed ctx"
  define c1 where "c1 = c0\<lparr>startupConnection := (startupConnection c0)\<lparr>waitingTransportStop := False\<rparr>\<rparr>"
  note f = StopTransportAttempt_frame [where a = a and t = failed and ctx = ctx, folded c0_def] and e = control_ofD [OF StopTransportAttempt_frame(2) [of a failed ctx, folded c0_def]]
  have k: "switching c1 = switching ctx" "commands c1 = commands ctx" "launches c1 = launches ctx" "attempt_of c1 = failed"
    "fallbackUsed (startupConnection c1) = fallbackUsed (startupConnection ctx)" "cfg c1 = cfg ctx"
    using f(3) e by (simp_all add: c1_def failed_def)
  obtain ok c2 where s: "StartTransportAttempt a (OtherTransport failed) c1 = (ok, c2)" by force
  note g = StartTransportAttempt_frame [OF s] attempt_launches [OF s]
  have eq: "advance_stopping a ctx =
      (if (if failed = Usb then usb_running ctx else list_ex running (apps ctx)) then ctx
       else if fallbackUsed (startupConnection c1) then (set_transport NoTransport c1)\<lparr>autoConnectMessage := AllCandidatesFailed\<rparr>
       else if ok then attempt_begun a (OtherTransport failed) True c2
       else (set_transport NoTransport c2)\<lparr>autoConnectMessage := NoFallbackConnection\<rparr>)"
    unfolding advance_stopping_def Let_def failed_def [symmetric] c0_def [symmetric] c1_def [symmetric] s
    by (cases ok) simp_all
  have over: "walking n ((set_transport NoTransport c1)\<lparr>autoConnectMessage := AllCandidatesFailed\<rparr>)"
    by (rule walking_ended [OF w]) (simp_all add: k)
  have less: "length (launches c2) \<le> n" if "\<not> ok"
    using w g(11) that k(3) by (simp add: walking_def)
  have none: "walking n ((set_transport NoTransport c2)\<lparr>autoConnectMessage := NoFallbackConnection\<rparr>)" if "\<not> ok"
    using w less [OF that] g(5,10) k by (simp add: walking_def may_start_simps(1))
  have next_one: "walking n (attempt_begun a (OtherTransport failed) True c2)" if "ok" "\<not> fallbackUsed (startupConnection c1)"
  proof -
    have "worth (OtherTransport failed) True (length (devices (cfg c1))) \<le> may_start ctx"
      using fallback_worth [OF t] that(2) k(5,6) by (simp add: failed_def)
    then show ?thesis using w g(5,10) g(12) [where fb = True, OF that(1)] k by (simp add: walking_def attempt_begun_def)
  qed
  show ?thesis unfolding eq by (intro walking_if) (rule w over none next_one; assumption)+
qed

lemma walking_stop_active: "walking n ctx \<Longrightarrow> walking n (stop_active cls i ctx)"
  by (rule walking_same [of n ctx]) (simp_all add: stop_active_def)

lemma walking_flags:
  "walking n ctx \<Longrightarrow> walking n (ctx\<lparr>startupConnection := (startupConnection ctx)\<lparr>waitingNext := b\<rparr>\<rparr>)"
  "walking n ctx \<Longrightarrow> walking n (ctx\<lparr>startupConnection := (startupConnection ctx)\<lparr>waitingTransportStop := b\<rparr>\<rparr>)"
proof -
  have "may_start (ctx\<lparr>startupConnection := (startupConnection ctx)\<lparr>waitingNext := b\<rparr>\<rparr>) = may_start ctx"
    "may_start (ctx\<lparr>startupConnection := (startupConnection ctx)\<lparr>waitingTransportStop := b\<rparr>\<rparr>) = may_start ctx"
    by (simp_all add: may_start_def Let_def split: ConnectionTransport.split)
  then show "walking n ctx \<Longrightarrow> walking n (ctx\<lparr>startupConnection := (startupConnection ctx)\<lparr>waitingNext := b\<rparr>\<rparr>)"
    "walking n ctx \<Longrightarrow> walking n (ctx\<lparr>startupConnection := (startupConnection ctx)\<lparr>waitingTransportStop := b\<rparr>\<rparr>)"
    by (simp_all add: walking_def)
qed

lemma walking_candidate:
  assumes w: "walking n ctx" and t: "attempt_of ctx = Wifi" and s: "StartWifiCandidate a (wifiPosition (startupConnection ctx) + 1) ctx = (ok, c)"
  shows "walking n c"
proof (cases ok)
  case True
  define p where "p = wifiPosition (startupConnection ctx) + 1"
  from StartWifiCandidate_cases [OF s] True obtain t' where p: "p < length (wifiOrder (startupConnection ctx))"
    and c: "c = start_device a t' (wifiOrder (startupConnection ctx) ! p) (ctx\<lparr>startupConnection := (startupConnection ctx)
         \<lparr>wifiPosition := p, activeDeviceIndex := Some (wifiOrder (startupConnection ctx) ! p), waitingNext := False, started := t_now a\<rparr>\<rparr>)"
    by (auto simp: p_def)
  define d where "d = ctx\<lparr>startupConnection := (startupConnection ctx)
         \<lparr>wifiPosition := p, activeDeviceIndex := Some (wifiOrder (startupConnection ctx) ! p), waitingNext := False, started := t_now a\<rparr>\<rparr>"
  note g = start_device_frame [where a = a and target = t' and i = "wifiOrder (startupConnection ctx) ! p" and ctx = d]
  have "may_start d + 1 = may_start ctx" using p t by (simp add: d_def may_start_simps(2) p_def)
  moreover have "may_start c = may_start d" using control_ofD [OF g(3)] by (simp add: c d_def [symmetric] may_start_def Let_def split: ConnectionTransport.split)
  ultimately show ?thesis using w g(5) control_ofD [OF g(3)] by (simp add: walking_def c d_def [symmetric]) (simp add: d_def)
next
  case False
  then show ?thesis using StartWifiCandidate_cases [OF s] w by simp
qed

lemma walking_advance_candidate:
  assumes w: "walking n ctx" and t: "attempt_of ctx = Wifi"
  shows "walking n (snd (advance_candidate a i ctx))"
proof -
  obtain ok c where s: "StartWifiCandidate a (wifiPosition (startupConnection ctx) + 1) ctx = (ok, c)" by force
  note c = walking_candidate [OF w t s]
  have st: "walking n (stop_active cls i ctx)" for cls by (rule walking_stop_active [OF w])
  have global: "walking n ((set_transport NoTransport (stop_active cls i ctx))\<lparr>autoConnectMessage := m\<rparr>)" for cls m
    by (rule walking_ended [OF st]) simp_all
  show ?thesis
    unfolding advance_candidate_def Let_def s using w c st global
    by (simp add: walking_flags split: bool.split)
qed

lemma walking_Advance:
  assumes w: "walking n ctx"
  shows "walking n (AdvanceStartupAutoConnect a ctx)"
proof -
  define q where "q = (case (attempt_of ctx, activeDeviceIndex (startupConnection ctx)) of
      (Wifi, Some i) \<Rightarrow> if i < length (apps ctx) then advance_candidate a i ctx else (False, ctx) | _ \<Rightarrow> (False, ctx))"
  have q: "walking n (snd q)"
    using w walking_advance_candidate [OF w] by (auto simp: q_def split: ConnectionTransport.split option.split)
  have r: "walking n (RequestStopTransportAttempt t (snd q))" for t
    by (rule walking_senders [OF q RequestStopTransportAttempt_frame(2)])
  show ?thesis
    unfolding AdvanceStartupAutoConnect_def Let_def q_def [symmetric] pair_case
    using w q r by (simp add: walking_streaming walking_stopping walking_flags)
qed

lemma walking_Process: "walking n ctx \<Longrightarrow> walking n (ProcessDeviceCommands a ctx)"
  by (auto simp: ProcessDeviceCommands_def Let_def walking_def may_start_def split: ConnectionTransport.split)

lemma walking_TIMER: "walking n ctx \<Longrightarrow> walking n (WM_TIMER a b ctx)"
  unfolding WM_TIMER_def
  by (intro walking_settings [OF _ RememberSuccessfulTransport_settings] walking_workers walking_Advance walking_Process walking_Refresh)

text \<open>What happens by itself.\<close>

fun by_itself :: "TrayEvent \<Rightarrow> bool" where
  "by_itself (Worker w) = True"
| "by_itself (Timer w1 w2) = True"
| "by_itself (DiscoveryPass answers) = True"
| "by_itself e = False"

lemma walking_handle: "walking n ctx \<Longrightarrow> by_itself e \<Longrightarrow> walking n (handle narrow a e ctx)"
proof (cases e)
  case (Worker w)
  assume "walking n ctx"
  from walking_workers [OF this, of "[w]"] show ?thesis by (simp add: Worker worker_steps_def)
next
  case (DiscoveryPass answers)
  assume "walking n ctx"
  then show ?thesis by (rule walking_same) (simp_all add: DiscoveryPass RunDiscovery_pass_def Let_def)
qed (simp_all add: walking_TIMER)

lemma walking_handles: "walking n ctx \<Longrightarrow> list_all (\<lambda>(a, e). by_itself e) es \<Longrightarrow> walking n (handles narrow es ctx)"
  unfolding handles_def by (induction es arbitrary: ctx) (auto simp: walking_handle)


definition failing_walk :: "(TrayAnswer \<times> TrayEvent) list" where
  "failing_walk = [(at_time 9000, Timer [] []), (at_time 9500, Worker (Returns (AppSlot 0))), (at_time 10000, Timer [] []),
     (at_time 19000, Timer [] []), (at_time 19500, Worker (Returns (AppSlot 1))), (at_time 20000, Timer [] []),
     (with_cable 23000, Timer [] [])]"


subsection \<open>A device without an address\<close>

text \<open>A candidate that cannot be resolved ends the walk, and the candidates behind it are never tried.\<close>

definition with_unknown :: Config where
  "with_unknown = Config_default\<lparr>devices := [sample_device ''192.168.1.2'', (sample_device [])\<lparr>dev_id := ''5C2B9E14''\<rparr>,
     sample_device ''192.168.1.3'']\<rparr>"

lemma unknown_candidate_ends_the_walk:
  "let ctx = handles (\<lambda>w. []) (failing_walk @ [(at_time 30000, Timer [] []), (at_time 39000, Timer [] [])])
       (RunTray (at_time 0) None (with_unknown\<lparr>lastConnectionTransport := ''wifi''\<rparr>))
   in map launch_target (launches ctx) = [''192.168.1.2''] \<and> wifiOrder (startupConnection ctx) = [0, 1, 2] \<and>
      attempt_of ctx = NoTransport \<and> autoConnectMessage ctx = NoFallbackConnection"
  by code_simp

end
