(* ===== verification/TraySettings.thy ===== *)
theory TraySettings
  imports TrayOwner ConfigFile
begin

text \<open>
  The settings while the tray runs: they stay within their ranges through every change, so that every worker is
  started with numbers that its types hold; and a change that cannot be saved is taken back.
\<close>

subsection \<open>Ranges\<close>

definition in_ranges :: "Config \<Rightarrow> bool" where
  "in_ranges c \<longleftrightarrow> 1 \<le> Config.port c \<and> Config.port c \<le> 65535 \<and> 30 \<le> Config.fps c \<and> Config.fps c \<le> 120 \<and>
     5 \<le> bitrateMbps c \<and> bitrateMbps c \<le> 100 \<and> (showLauncher c \<longleftrightarrow> launcherMode c \<noteq> Hidden) \<and>
     (\<forall>d \<in> set (devices c). 1 \<le> dev_port d \<and> dev_port d \<le> 65535)"

definition launch_ok :: "LaunchedWorker \<Rightarrow> bool" where
  "launch_ok l \<longleftrightarrow> 1 \<le> launch_port l \<and> launch_port l \<le> 65535 \<and>
     30 \<le> uint (SenderStatus.fps (launch_settings l)) \<and> uint (SenderStatus.fps (launch_settings l)) \<le> 120 \<and>
     5000000 \<le> uint (bitrateBps (launch_settings l)) \<and> uint (bitrateBps (launch_settings l)) \<le> 100000000"

lemma wf_in_ranges: "wf_config c \<Longrightarrow> in_ranges c"
  by (auto simp: wf_config_def in_ranges_def wf_device_def list_all_iff)

text \<open>No conversion to 32 bits and no multiplication wraps.\<close>

lemma settings_fit:
  assumes "in_ranges c"
  shows "30 \<le> uint (SenderStatus.fps (MakeStreamSettings c usb))" "uint (SenderStatus.fps (MakeStreamSettings c usb)) \<le> 120"
    "5000000 \<le> uint (bitrateBps (MakeStreamSettings c usb))" "uint (bitrateBps (MakeStreamSettings c usb)) \<le> 100000000"
proof -
  have u: "uint (word_of_int n :: u32) = n" if "0 \<le> n" "n \<le> 120" for n using that by (simp add: uint_word_of_int)
  have r: "30 \<le> Config.fps c" "Config.fps c \<le> 120" "5 \<le> bitrateMbps c" "bitrateMbps c \<le> 100"
    using assms by (simp_all add: in_ranges_def)
  define b :: u32 where "b = (if usb then max (word_of_int (bitrateMbps c)) 80 else word_of_int (bitrateMbps c))"
  have b: "5 \<le> uint b \<and> uint b \<le> 100" using r u [of "bitrateMbps c"] by (auto simp: b_def max_def word_le_def)
  have "uint (b * 1000000) = uint b * 1000000" using b by (simp add: uint_word_ariths)
  with b show "5000000 \<le> uint (bitrateBps (MakeStreamSettings c usb))" "uint (bitrateBps (MakeStreamSettings c usb)) \<le> 100000000"
    by (simp_all add: MakeStreamSettings_def Let_def b_def)
  show "30 \<le> uint (SenderStatus.fps (MakeStreamSettings c usb))" "uint (SenderStatus.fps (MakeStreamSettings c usb)) \<le> 120"
    using r u [of "Config.fps c"] by (auto simp: MakeStreamSettings_def Let_def min_def word_le_def)
qed

lemma port_word: "w \<noteq> 0 \<Longrightarrow> 1 \<le> uint w \<and> uint w \<le> 65535" for w :: u16
proof -
  assume "w \<noteq> 0"
  then have "uint w \<noteq> 0" "uint w < 65536" using uint_lt2p [of w] by (simp_all add: uint_0_iff)
  with uint_ge_0 [of w] show ?thesis by linarith
qed

lemma port_fits:
  assumes "in_ranges (cfg ctx)" and "i < length (devices (cfg ctx))"
  shows "1 \<le> DevicePort ctx i" "DevicePort ctx i \<le> 65535"
proof -
  have "1 \<le> dev_port (devices (cfg ctx) ! i) \<and> dev_port (devices (cfg ctx) ! i) \<le> 65535"
    using assms by (simp add: in_ranges_def)
  then have "1 \<le> DevicePort ctx i \<and> DevicePort ctx i \<le> 65535"
    using assms(1) port_word by (simp add: DevicePort_def Let_def in_ranges_def split: option.split)
  then show "1 \<le> DevicePort ctx i" "DevicePort ctx i \<le> 65535" by simp_all
qed

subsection \<open>The invariant\<close>

definition ranged :: "TrayContext \<Rightarrow> bool" where
  "ranged ctx \<longleftrightarrow> owned ctx \<and> in_ranges (cfg ctx) \<and> (\<forall>c \<in> set (saves ctx). in_ranges c) \<and> (\<forall>l \<in> set (launches ctx). launch_ok l)"

named_theorems ranged_intros

lemma rangedD:
  assumes "ranged ctx"
  shows "owned ctx" "in_ranges (cfg ctx)" "\<forall>c \<in> set (saves ctx). in_ranges c" "\<forall>l \<in> set (launches ctx). launch_ok l"
    "length (apps ctx) = length (devices (cfg ctx))"
  using assms ownedD(1) [of ctx] by (simp_all add: ranged_def)

lemma ranged_cong: "ranged ctx \<Longrightarrow> owned c \<Longrightarrow> cfg c = cfg ctx \<Longrightarrow> saves c = saves ctx \<Longrightarrow> launches c = launches ctx \<Longrightarrow> ranged c"
  by (simp add: ranged_def)

lemma ranged_same: "ranged ctx \<Longrightarrow> owned c \<Longrightarrow> same_control ctx c \<Longrightarrow> ranged c"
  by (erule ranged_cong) (simp_all add: same_controlD)

lemma ranged_save: "ranged ctx \<Longrightarrow> owned c \<Longrightarrow> in_ranges (cfg c) \<Longrightarrow> saves c = saves ctx \<Longrightarrow> launches c = launches ctx \<Longrightarrow>
    ranged (save_config c)"
  by (simp add: ranged_def) (simp add: save_config_def)

lemma ranged_workers [ranged_intros]: "ranged ctx \<Longrightarrow> ranged (worker_steps ws ctx)"
  using ranged_same [OF _ owned_workers worker_steps_frame(2)] rangedD(1) by blast

lemma ranged_fields [simp]:
  "ranged (ctx\<lparr>startupConnection := sc\<rparr>) = ranged ctx" "ranged (ctx\<lparr>deviceFlow := f\<rparr>) = ranged ctx"
  "ranged (ctx\<lparr>autoConnectMessage := m\<rparr>) = ranged ctx" "ranged (ctx\<lparr>commands := k\<rparr>) = ranged ctx"
  "ranged (ctx\<lparr>switching := b\<rparr>) = ranged ctx" "ranged (ctx\<lparr>switchingTo := st\<rparr>) = ranged ctx"
  "ranged (ctx\<lparr>restartAfterStop := l\<rparr>) = ranged ctx" "ranged (ctx\<lparr>restartUsbTarget := u\<rparr>) = ranged ctx"
  "ranged (ctx\<lparr>panelAutoReconnect := p\<rparr>) = ranged ctx" "ranged (ctx\<lparr>panelRequirePrivateNetwork := q\<rparr>) = ranged ctx"
  "ranged (ctx\<lparr>panelStreamProfile := pr\<rparr>) = ranged ctx" "ranged (ctx\<lparr>discovered := d\<rparr>) = ranged ctx"
  "ranged (ctx\<lparr>discoveryCache := dc\<rparr>) = ranged ctx" "ranged (ctx\<lparr>usbDevices := ud\<rparr>) = ranged ctx"
  "ranged (ctx\<lparr>lastUsbRefresh := lr\<rparr>) = ranged ctx"
  by (simp_all add: ranged_def)

lemma ranged_down: "ranged c \<Longrightarrow> ranged (c\<lparr>usbApp := None, activeUsbTarget := []\<rparr>)"
  using ownedD [of c] by (auto simp: ranged_def intro: ownedI)

subsection \<open>Sessions\<close>

lemma ranged_request_usb [ranged_intros]: "ranged ctx \<Longrightarrow> ranged (request_stop_usb ctx)"
  using ranged_same [OF _ owned_request_usb request_stop_frame(4)] rangedD(1) by blast

lemma ranged_RequestStop [ranged_intros]: "ranged ctx \<Longrightarrow> ranged (RequestStopConfiguredSenders ctx)"
  using ranged_same [OF _ owned_RequestStop request_stop_frame(2)] rangedD(1) by blast

lemma ranged_StopUsb [ranged_intros]: "ranged ctx \<Longrightarrow> ranged (StopUsbSession a ctx)"
proof -
  assume "ranged ctx"
  then have "ranged (worker_steps (t_waits a) (request_stop_usb ctx))" by (intro ranged_intros)
  from ranged_down [OF this] \<open>ranged ctx\<close> show ?thesis
    unfolding StopUsbSession_def request_stop_usb_def by simp
qed

lemma ranged_StopConfigured [ranged_intros]: "ranged ctx \<Longrightarrow> ranged (StopConfiguredSenders a ctx)"
proof -
  assume r: "ranged ctx"
  have w: "ranged (worker_steps (t_waits a) ctx)" using r by (intro ranged_intros)
  have "owned (StopConfiguredSenders a ctx)" using rangedD(1) [OF r] by (rule owned_StopConfigured)
  with w show ?thesis by (rule ranged_cong) (simp_all add: StopConfiguredSenders_def Let_def)
qed

lemma ranged_launch_usb [ranged_intros]: "ranged ctx \<Longrightarrow> ranged (launch_usb a target ctx)"
proof -
  assume r: "ranged ctx"
  have "launch_ok \<lparr>launch_target = target, launch_port = Config.port (cfg ctx), launch_settings = MakeStreamSettings (cfg ctx) True,
      launch_device = []\<rparr>"
    using settings_fit [OF rangedD(2) [OF r], of True] rangedD(2) [OF r] by (simp add: launch_ok_def in_ranges_def)
  moreover have "owned (launch_usb a target ctx)" using rangedD(1) [OF r] by (rule owned_launch_usb)
  ultimately show ?thesis using rangedD [OF r] by (auto simp: ranged_def launch_usb_def)
qed

lemma ranged_StartUsb [ranged_intros]: "ranged ctx \<Longrightarrow> ranged (StartUsbSession a target ctx)"
  unfolding StartUsbSession_def by (intro ranged_intros)

lemma ranged_start_device [ranged_intros]:
  assumes r: "ranged ctx" and i: "i < length (devices (cfg ctx))"
  shows "ranged (start_device a target i ctx)"
proof -
  have "launch_ok \<lparr>launch_target = target, launch_port = DevicePort ctx i, launch_settings = MakeStreamSettings (cfg ctx) False,
      launch_device = x\<rparr>" for x
    using settings_fit [OF rangedD(2) [OF r], of False] port_fits [OF rangedD(2) [OF r] i] by (simp add: launch_ok_def)
  moreover have "owned (start_device a target i ctx)" using rangedD(1) [OF r] by (rule owned_start_device)
  ultimately show ?thesis using rangedD [OF r] by (auto simp: ranged_def start_device_def Let_def)
qed

subsection \<open>The automatic connection\<close>

lemma ranged_if: "ranged c \<Longrightarrow> ranged c' \<Longrightarrow> ranged (if b then c else c')"
  by simp

lemma ranged_snd_if: "ranged (snd c) \<Longrightarrow> ranged (snd c') \<Longrightarrow> ranged (snd (if b then c else c'))"
  by simp

lemma ranged_StartWifi [ranged_intros]:
  assumes r: "ranged ctx"
  shows "ranged (snd (StartWifiSession a ctx))"
proof -
  define c0 where "c0 = StopUsbSession a ctx"
  have c0: "ranged c0" using r unfolding c0_def by (intro ranged_intros)
  obtain flow chosen where b: "Begin (devices (cfg c0)) (preferredDeviceId (cfg c0)) = (flow, chosen)" by force
  have i: "hd (dev_order flow) < length (devices (cfg c0))" if "dev_order flow \<noteq> []"
  proof -
    have "hd (dev_order flow) \<in> set (connect_order (devices (cfg c0)) (preferredDeviceId (cfg c0)))"
      using Begin_cases [OF b] that by (metis hd_in_set)
    then show ?thesis using connect_order_props by (metis (no_types, lifting) mem_Collect_eq)
  qed
  define c1 where "c1 = c0\<lparr>deviceFlow := flow\<rparr>"
  define c2 where "c2 = c1\<lparr>startupConnection := (startupConnection c1)\<lparr>wifiOrder := dev_order flow, wifiPosition := 0,
      activeDeviceIndex := Some (hd (dev_order flow))\<rparr>\<rparr>"
  have c12: "ranged c1" "ranged c2" "cfg c2 = cfg c0" using c0 by (simp_all add: c1_def c2_def)
  have go: "ranged (start_device a t (hd (dev_order flow)) c2)" if "dev_order flow \<noteq> []" for t
    using c12 i [OF that] by (intro ranged_start_device) simp_all
  show ?thesis unfolding StartWifiSession_eq [OF c0_def b c1_def c2_def] using r c12 go by simp
qed

lemma ranged_StartTransport [ranged_intros]: "ranged ctx \<Longrightarrow> ranged (snd (StartTransportAttempt a t ctx))"
  by (cases t) (simp_all add: ranged_intros split: option.split)

lemma ranged_StopTransport [ranged_intros]: "ranged ctx \<Longrightarrow> ranged (StopTransportAttempt a t ctx)"
  by (cases t) (simp_all add: ranged_intros)

lemma ranged_Candidate [ranged_intros]:
  assumes r: "ranged ctx"
  shows "ranged (snd (StartWifiCandidate a pos ctx))"
proof -
  have "ranged (start_device a t i (ctx\<lparr>startupConnection := sc\<rparr>))" if "i < length (apps ctx)" for t i sc
    using r that rangedD(5) [OF r] by (intro ranged_start_device) simp_all
  with r show ?thesis unfolding StartWifiCandidate_def Let_def by simp
qed

lemma ranged_Refresh [ranged_intros]: "ranged ctx \<Longrightarrow> ranged (RefreshUsbDevices a f ctx)"
  by (simp add: RefreshUsbDevices_def)

lemma ranged_attempt: "ranged c \<Longrightarrow> ranged (attempt_begun a t fb c)"
  by (simp add: attempt_begun_def)

lemma ranged_Begin [ranged_intros]: "ranged ctx \<Longrightarrow> ranged (BeginStartupAutoConnect a ctx)"
proof -
  assume "ranged ctx"
  then have "ranged ((RefreshUsbDevices a True ctx)\<lparr>autoConnectMessage := NoMessage, startupConnection := StartupConnectionAttempt_default\<rparr>)"
    by (simp add: ranged_Refresh)
  then show ?thesis
    unfolding BeginStartupAutoConnect_def Let_def pair_case
    by (intro ranged_if ranged_attempt ranged_StartTransport)
qed

text \<open>What is remembered of a success keeps the ranges.\<close>

lemma ranges_update:
  "in_ranges c \<Longrightarrow> (1 \<le> dev_port d \<and> dev_port d \<le> 65535) \<Longrightarrow> in_ranges (c\<lparr>devices := (devices c)[i := d]\<rparr>)"
  by (auto simp: in_ranges_def dest!: set_update_subset_insert [THEN subsetD])

lemma ranges_fields [simp]:
  "in_ranges (c\<lparr>lastConnectionTransport := x\<rparr>) = in_ranges c" "in_ranges (c\<lparr>lastWifiAddress := x\<rparr>) = in_ranges c"
  "in_ranges (c\<lparr>lastUsbTarget := x\<rparr>) = in_ranges c" "in_ranges (c\<lparr>preferredDeviceId := x\<rparr>) = in_ranges c"
  "in_ranges (c\<lparr>darkTheme := b\<rparr>) = in_ranges c" "in_ranges (c\<lparr>taskbarRouting := b\<rparr>) = in_ranges c"
  by (simp_all add: in_ranges_def)

lemma if_or: "R g \<Longrightarrow> (if b then g else c) = c \<or> R (if b then g else c)"
  by simp

lemma remember_wifi_form:
  "remember_wifi a i ctx = ctx \<or>
   (\<exists>x d. remember_wifi a i ctx = save_config (ctx\<lparr>cfg := (cfg ctx)\<lparr>lastConnectionTransport := ''wifi'', lastWifiAddress := x,
        devices := (devices (cfg ctx))[i := d]\<rparr>\<rparr>) \<and> dev_port d = dev_port (devices (cfg ctx) ! i))"
  unfolding remember_wifi_def Let_def by (rule if_or, intro exI, rule conjI, rule refl, simp)

lemma ranged_Remember [ranged_intros]:
  assumes r: "ranged ctx"
  shows "ranged (RememberSuccessfulTransport a ctx)"
proof -
  have o: "owned (RememberSuccessfulTransport a ctx)" using rangedD(1) [OF r] by (intro owned_intros)
  have saved: "ranged (save_config (ctx\<lparr>cfg := st\<rparr>))" if "in_ranges st" "length (devices st) = length (devices (cfg ctx))" for st
    using r that owned_settings [OF rangedD(1) [OF r] settings_only_save [of st]] by (intro ranged_save) simp_all
  have w: "ranged (remember_wifi a i ctx)" if i: "i < length (devices (cfg ctx))" for i
  proof -
    have "1 \<le> dev_port (devices (cfg ctx) ! i) \<and> dev_port (devices (cfg ctx) ! i) \<le> 65535"
      using rangedD(2) [OF r] i by (simp add: in_ranges_def)
    then have "ranged (save_config (ctx\<lparr>cfg := (cfg ctx)\<lparr>lastConnectionTransport := x, lastWifiAddress := y,
        devices := (devices (cfg ctx))[i := d]\<rparr>\<rparr>))" if "dev_port d = dev_port (devices (cfg ctx) ! i)" for x y d
      using that ranges_update [of "(cfg ctx)\<lparr>lastConnectionTransport := x, lastWifiAddress := y\<rparr>" d i] rangedD(2) [OF r]
      by (intro saved) simp_all
    then show ?thesis using remember_wifi_form [of a i ctx] r by auto
  qed
  have u: "ranged (save_config (ctx\<lparr>cfg := (cfg ctx)\<lparr>lastConnectionTransport := x, lastUsbTarget := y\<rparr>\<rparr>))" for x y
    using rangedD(2) [OF r] by (intro saved) simp_all
  show ?thesis
    unfolding RememberSuccessfulTransport_def using r u w by (auto simp: find_Some_iff split: option.split)
qed

lemma ranged_report [ranged_intros]: "ranged ctx \<Longrightarrow> ranged (report_streaming ctx)"
  by (simp add: report_streaming_def Let_def split: ConnectionTransport.split option.split)

lemma ranged_advance_streaming: "ranged ctx \<Longrightarrow> ranged (advance_streaming a ctx)"
  unfolding advance_streaming_def by (simp add: ranged_intros)

lemma ranged_advance_stopping: "ranged ctx \<Longrightarrow> ranged (advance_stopping a ctx)"
proof -
  assume o: "ranged ctx"
  define c0 where "c0 = StopTransportAttempt a (sc_transport (startupConnection ctx)) ctx"
  define c1 where "c1 = c0\<lparr>startupConnection := (startupConnection c0)\<lparr>waitingTransportStop := False\<rparr>\<rparr>"
  have c1: "ranged c1" using o by (simp add: c1_def c0_def ranged_StopTransport)
  have m: "ranged ((set_transport NoTransport c)\<lparr>autoConnectMessage := x\<rparr>)" if "ranged c" for c x using that by simp
  show ?thesis
    unfolding advance_stopping_def Let_def c0_def [symmetric] c1_def [symmetric] pair_case
    using o c1 by (intro ranged_if ranged_attempt ranged_StartTransport m)
qed

lemma ranged_stop_active [ranged_intros]: "ranged ctx \<Longrightarrow> ranged (stop_active cls i ctx)"
proof -
  assume r: "ranged ctx"
  have "owned (stop_active cls i ctx)" using rangedD(1) [OF r] by (intro owned_intros)
  with r show ?thesis by (rule ranged_cong) (simp_all add: stop_active_def)
qed

lemma snd_case: "snd (case q of (True, c) \<Rightarrow> (True, c) | (False, c) \<Rightarrow> (False, f c)) = (if fst q then snd q else f (snd q))"
  by (cases q; cases "fst q") simp_all

lemma ranged_advance_candidate [ranged_intros]: "ranged ctx \<Longrightarrow> ranged (snd (advance_candidate a i ctx))"
  unfolding advance_candidate_def Let_def by (simp add: snd_case ranged_intros)

lemma ranged_Advance [ranged_intros]: "ranged ctx \<Longrightarrow> ranged (AdvanceStartupAutoConnect a ctx)"
proof -
  assume o: "ranged ctx"
  define q where "q = (case (sc_transport (startupConnection ctx), activeDeviceIndex (startupConnection ctx)) of
      (Wifi, Some i) \<Rightarrow> if i < length (apps ctx) then advance_candidate a i ctx else (False, ctx) | _ \<Rightarrow> (False, ctx))"
  have q: "ranged (snd q)"
    using o ranged_advance_candidate [OF o] by (simp add: q_def split: ConnectionTransport.split option.split)
  have r: "ranged (RequestStopTransportAttempt t (snd q))" for t
    using q by (cases t) (simp_all add: ranged_intros)
  show ?thesis
    unfolding AdvanceStartupAutoConnect_def Let_def q_def [symmetric] pair_case
    using o q r by (simp add: ranged_advance_streaming ranged_advance_stopping)
qed

subsection \<open>Commands\<close>

lemma ranged_fold_start:
  assumes "ranged ctx" and "\<And>c. ranged c \<Longrightarrow> control_of c = control_of ctx \<Longrightarrow> \<forall>i \<in> set is. P i c \<longrightarrow> i < length (devices (cfg c))"
  shows "ranged (fold (\<lambda>i c. if P i c then start_device a (t i c) i c else c) is ctx)"
proof -
  have "ranged (fold (\<lambda>i c. if P i c then start_device a (t i c) i c else c) js c)"
    if "set js \<subseteq> set is" "ranged c" "control_of c = control_of ctx" for js c
    using that
  proof (induction js arbitrary: c)
    case (Cons i js)
    have "ranged (start_device a (t i c) i c)" if "P i c"
      using assms(2) [OF Cons.prems(2,3)] that Cons.prems(1,2) by (intro ranged_start_device) auto
    moreover have "control_of (start_device a (t i c) i c) = control_of ctx"
      using start_device_frame(3) [of a "t i c" i c] Cons.prems(3) by simp
    ultimately show ?case using Cons by simp
  qed simp
  then show ?thesis using assms(1) by blast
qed

lemma ranged_length: "ranged c \<Longrightarrow> length (apps c) = length (devices (cfg c))"
  by (rule rangedD(5))

lemma ranged_Process [ranged_intros]: "ranged ctx \<Longrightarrow> ranged (ProcessDeviceCommands a ctx)"
proof -
  assume r: "ranged ctx"
  have "owned (ctx\<lparr>retiredApps := filter running (retiredApps ctx)\<rparr>)"
    using ownedD [OF rangedD(1) [OF r]] by (intro ownedI) simp_all
  then have o: "ranged (ctx\<lparr>retiredApps := filter running (retiredApps ctx)\<rparr>)" by (rule ranged_cong [OF r]) simp_all
  have restart: "ranged (process_restart a c)" if "ranged c" for c
  proof -
    have "ranged (restart_apps a is c)" for "is"
      unfolding restart_apps_def by (rule ranged_fold_start [OF that]) (simp add: ranged_length)
    then show ?thesis using that by (simp add: process_restart_def Let_def ranged_launch_usb)
  qed
  have switch: "ranged (process_switch a c)" if "ranged c" for c
    using that ranged_down [OF that]
    by (simp add: process_switch_def Let_def ranged_length ranged_start_device split: option.split)
  have command: "ranged (process_command k c)" if "ranged c" for k c
    using that by (simp add: process_command_def Let_def ranged_RequestStop ranged_request_usb)
  show ?thesis
    unfolding ProcessDeviceCommands_def Let_def using o restart [OF o] switch [OF o] by (simp add: command split: list.split)
qed

lemma ranged_Queue [ranged_intros]: "ranged ctx \<Longrightarrow> ranged (QueueDeviceCommand ty k ctx)"
  by (simp add: QueueDeviceCommand_def Let_def)

lemma ranged_Start_addresses [ranged_intros]: "ranged ctx \<Longrightarrow> ranged (StartAddresses a w ctx)"
  unfolding StartAddresses_def Let_def
  by (rule ranged_fold_start [where P = "\<lambda>i c. endpoint (devices (cfg c) ! i) \<in> set w" and t = "\<lambda>i c. endpoint (devices (cfg c) ! i)"])
    (auto simp: ranged_length dest: control_ofD(6))

subsection \<open>Changes of the settings\<close>

lemma ranged_Sync [simp]: "ranged (SyncPanelSettingsFromConfig ctx) = ranged ctx"
  by (simp add: SyncPanelSettingsFromConfig_def)

lemma parsed_ports:
  "\<forall>d \<in> set ds. dev_port d = p \<Longrightarrow> \<forall>d \<in> set (entries_loop narrow p w pos ds). dev_port d = p"
proof (induction narrow p w pos ds rule: entries_loop.induct)
  case (1 narrow p w pos ds)
  have a: "\<forall>d \<in> set (add_entry narrow p l ds). dev_port d = p" for l
    using 1(2) by (auto simp: add_entry_def Let_def split: option.split)
  show ?case using 1(1) [OF _ refl refl] 1(2) a by (subst entries_loop.simps) (simp add: Let_def)
qed

lemma edited_in_ranges:
  assumes "in_ranges (cfg ctx)" and "fields_valid p"
  shows "in_ranges (edited_config narrow p ctx)"
proof -
  obtain n f b where v: "in_port p = Some n" "in_fps p = Some f" "in_bitrate p = Some b" "n \<noteq> 0" "n \<le> 65535"
    "30 \<le> f" "f \<le> 120" "5 \<le> b" "b \<le> 100"
    using assms(2) by (auto simp: fields_valid_def split: option.splits)
  have "uint n \<noteq> 0" using v(4) by (simp add: uint_0_iff)
  then have "1 \<le> uint n" using uint_ge_0 [of n] by linarith
  moreover have "uint n \<le> 65535" using v(5) by (simp add: word_le_def)
  ultimately have n: "1 \<le> uint n" "uint n \<le> 65535" by simp_all
  have k: "dev_port (keep_identity old d) = dev_port d" for old d by (simp add: keep_identity_def split: option.split)
  have "\<forall>d \<in> set (ParseDeviceEntriesText narrow w (uint n)). dev_port d = uint n" for w
    unfolding ParseDeviceEntriesText_def by (rule parsed_ports) simp
  then have "\<forall>d \<in> set (devices (edited_config narrow p ctx)). 1 \<le> dev_port d \<and> dev_port d \<le> 65535"
    using n by (auto simp: edited_config_def Let_def v k)
  then show ?thesis
    using assms(1) n v(6-9) by (simp add: in_ranges_def edited_config_def Let_def v word_le_def)
qed

lemma Apply_keeps: "cfg (ApplyAndRestart od rc act c) = cfg c" "saves (ApplyAndRestart od rc act c) = saves c"
  "launches (ApplyAndRestart od rc act c) = launches c"
  by (simp_all add: ApplyAndRestart_def Let_def request_stop_usb_def)

lemma ranged_SavePanel: "ranged ctx \<Longrightarrow> ranged (snd (SavePanelSettings narrow p ctx))"
proof (cases "fields_valid p")
  case True
  assume r: "ranged ctx"
  have o: "owned (snd (SavePanelSettings narrow p ctx))" using rangedD(1) [OF r] by (rule owned_SavePanel)
  note e = edited_in_ranges [OF rangedD(2) [OF r] True, of narrow] and d = rangedD [OF r]
  have old: "in_ranges ((edited_config narrow p ctx)\<lparr>devices := devices (cfg ctx), Config.port := Config.port (cfg ctx),
      Config.fps := Config.fps (cfg ctx), bitrateMbps := bitrateMbps (cfg ctx), Config.requirePrivateNetwork := q,
      autoReconnect := ar, streamProfile := sp\<rparr>)" for q ar sp
    using d(2) e by (simp add: in_ranges_def)
  define c where "c = snd (SavePanelSettings narrow p ctx)"
  have s: "saves c = saves ctx @ [edited_config narrow p ctx]" and l: "launches c = launches ctx"
    and g: "in_ranges (cfg c)"
    using True e old unfolding c_def SavePanelSettings_def Let_def
    by (simp_all add: SyncPanelSettingsFromConfig_def Apply_keeps save_config_def)
  show ?thesis unfolding c_def [symmetric] ranged_def using o s l g d e by (simp add: c_def)
qed (simp add: SavePanelSettings_def)

lemma ranged_AddSelected:
  assumes r: "ranged ctx"
  shows "ranged (snd (AddSelectedDiscoveredDevice sel ctx))"
proof (cases sel)
  case (Some addr)
  note d = rangedD [OF r]
  have upd: "ranged (save_config (ctx\<lparr>cfg := (cfg ctx)\<lparr>devices := (devices (cfg ctx))[i := x]\<rparr>\<rparr>))"
    if "1 \<le> dev_port x \<and> dev_port x \<le> 65535" for i x
  proof -
    have "in_ranges ((cfg ctx)\<lparr>devices := (devices (cfg ctx))[i := x]\<rparr>)" using d(2) that by (rule ranges_update)
    then show ?thesis by (intro ranged_save [OF r] owned_cong [OF d(1)]) simp_all
  qed
  have add: "ranged ((save_config (ctx\<lparr>cfg := (cfg ctx)\<lparr>devices := devices (cfg ctx) @ [x]\<rparr>\<rparr>))\<lparr>apps := apps ctx @ [SenderApp_default]\<rparr>)"
    if "1 \<le> dev_port x \<and> dev_port x \<le> 65535" for x
  proof -
    have "in_ranges ((cfg ctx)\<lparr>devices := devices (cfg ctx) @ [x]\<rparr>)" using d(2) that by (auto simp: in_ranges_def)
    moreover have "owned ((save_config (ctx\<lparr>cfg := (cfg ctx)\<lparr>devices := devices (cfg ctx) @ [x]\<rparr>\<rparr>))\<lparr>apps := apps ctx @ [SenderApp_default]\<rparr>)"
      using ownedD [OF d(1)] by (intro ownedI) auto
    ultimately show ?thesis using d by (simp add: ranged_def) (simp add: save_config_def)
  qed
  define rec where "rec = find (\<lambda>r. address r = addr) (Records (discoveryCache ctx))"
  define q where "q = (case rec of None \<Rightarrow> Config.port (cfg ctx)
      | Some r \<Rightarrow> if rec_port r \<noteq> 0 then uint (rec_port r) else Config.port (cfg ctx))"
  have q: "1 \<le> q \<and> q \<le> 65535"
    using d(2) port_word by (auto simp: q_def in_ranges_def split: option.split)
  have add': "ranged (c\<lparr>apps := apps c @ [SenderApp_default]\<rparr>)"
    if "c = save_config (ctx\<lparr>cfg := (cfg ctx)\<lparr>devices := devices (cfg ctx) @ [x]\<rparr>\<rparr>)" "1 \<le> dev_port x \<and> dev_port x \<le> 65535" for c x
    using add [OF that(2)] by (simp add: that(1))
  have option: "ranged (snd (case x of None \<Rightarrow> g | Some i \<Rightarrow> f i))" if "\<And>i. ranged (snd (f i))" "ranged (snd g)"
    for x :: "nat option" and f and g :: "bool \<times> TrayContext"
    using that by (cases x) simp_all
  show ?thesis
    unfolding AddSelectedDiscoveredDevice_def Some option.case Let_def rec_def [symmetric] q_def [symmetric]
  proof (intro ranged_snd_if option, goal_cases)
    case 1
    show ?case using r by simp
  next
    case (2 i)
    show ?case unfolding snd_conv ranged_Sync by (rule upd) (simp add: q)
  next
    case 3
    show ?case unfolding snd_conv ranged_Sync by (rule add' [OF refl]) (simp add: q)
  qed
qed (use r in \<open>simp add: AddSelectedDiscoveredDevice_def\<close>)

lemma renumber_ports: "\<forall>d \<in> set ds. 1 \<le> dev_port d \<and> dev_port d \<le> 65535 \<Longrightarrow>
    \<forall>d \<in> set (renumber ds). 1 \<le> dev_port d \<and> dev_port d \<le> 65535"
  by (auto simp: renumber_def)

lemma ranged_devices:
  assumes "ranged ctx" and "set ds \<subseteq> set (devices (cfg ctx))" and "owned c" and "cfg c = (cfg ctx)\<lparr>devices := renumber ds, preferredDeviceId := x\<rparr>"
    and "saves c = saves ctx" and "launches c = launches ctx"
  shows "ranged (save_config c)"
proof -
  have "\<forall>d \<in> set ds. 1 \<le> dev_port d \<and> dev_port d \<le> 65535"
    using rangedD(2) [OF assms(1)] assms(2) by (auto simp: in_ranges_def)
  from renumber_ports [OF this] have "in_ranges (cfg c)"
    using rangedD(2) [OF assms(1)] unfolding assms(4) by (simp add: in_ranges_def)
  with assms show ?thesis by (simp add: ranged_save)
qed

lemma ranged_Up: "ranged ctx \<Longrightarrow> ranged (DeviceUp i ctx)"
proof (cases "0 < i \<and> i < length (devices (cfg ctx))")
  case True
  assume r: "ranged ctx"
  have o: "owned (DeviceUp i ctx)" using rangedD(1) [OF r] by (rule owned_Up)
  have s: "set (swapped i (devices (cfg ctx))) = set (devices (cfg ctx))" using True by (simp add: swapped_set)
  show ?thesis using ranged_devices [OF r, of "swapped i (devices (cfg ctx))" _ "preferredDeviceId (cfg ctx)"] True o s
    by (simp add: DeviceUp_def)
qed (auto simp: DeviceUp_def)

lemma ranged_Remove: "ranged ctx \<Longrightarrow> ranged (DeviceRemove i ctx)"
proof (cases "i < length (devices (cfg ctx))")
  case True
  assume r: "ranged ctx"
  have o: "owned (DeviceRemove i ctx)" using rangedD(1) [OF r] by (rule owned_Remove)
  have s: "set (without i (devices (cfg ctx))) \<subseteq> set (devices (cfg ctx))" using without_facts [OF True] by simp
  show ?thesis using ranged_devices [OF r s] True o by (simp add: DeviceRemove_def Let_def)
qed (simp add: DeviceRemove_def)

subsection \<open>Every message\<close>

lemma ranged_Retry: "ranged ctx \<Longrightarrow> ranged (RetryOrSwitchPanelConnection a sel ctx)"
proof -
  assume o: "ranged ctx"
  then have t: "ranged (set_transport NoTransport ctx)" by simp
  show ?thesis
    unfolding RetryOrSwitchPanelConnection_def Let_def
    using o t by (simp add: ranged_intros split: option.split)
qed

lemma ranged_DESTROY: "ranged ctx \<Longrightarrow> ranged (WM_DESTROY a ctx)"
  unfolding WM_DESTROY_def by (intro ranged_intros)

lemma ranged_TIMER: "ranged ctx \<Longrightarrow> ranged (WM_TIMER a b ctx)"
  unfolding WM_TIMER_def by (intro ranged_intros)

lemma ranged_ConnectAll: "ranged ctx \<Longrightarrow> ranged (MenuConnectAll a ctx)"
proof -
  assume o: "ranged ctx"
  then have r: "ranged (StopUsbSession a (set_transport NoTransport ctx))" by (intro ranged_StopUsb) simp
  then have "ranged (fold (\<lambda>i c. if True then start_device a (ResolveDeviceTarget c i) i c else c)
      [0..<length (apps (StopUsbSession a (set_transport NoTransport ctx)))] (StopUsbSession a (set_transport NoTransport ctx)))"
    using ranged_length [OF r] by (intro ranged_fold_start) (auto dest: control_ofD(6))
  then show ?thesis by (simp add: MenuConnectAll_def Let_def)
qed

lemma ranged_setting:
  assumes "ranged ctx" and "in_ranges st" and "length (devices st) = length (devices (cfg ctx))"
  shows "ranged (save_config (ctx\<lparr>cfg := st\<rparr>))"
  using assms owned_settings [OF rangedD(1) [OF assms(1)] settings_only_save [OF assms(3)]] by (intro ranged_save) simp_all

lemma ranged_handle: "ranged ctx \<Longrightarrow> ranged (handle narrow a e ctx)"
proof (cases e)
  case (Worker w)
  assume "ranged ctx"
  then have "ranged (worker_steps [w] ctx)" by (rule ranged_workers)
  then show ?thesis by (simp add: Worker worker_steps_def)
next
  case (RunAsAdmin known copy)
  assume o: "ranged ctx"
  have "ranged (StopConfiguredSenders a (StopUsbSession a ctx))" using o by (intro ranged_intros)
  then show ?thesis by (simp add: RunAsAdmin MenuRunAsAdmin_def Let_def ranged_Start_addresses ranged_DESTROY)
next
  case (UsbEntry k)
  assume "ranged ctx"
  then show ?thesis by (simp add: UsbEntry MenuUsb_def Let_def ranged_intros)
next
  case (ThemeButton)
  assume r: "ranged ctx"
  show ?thesis unfolding ThemeButton handle.simps using rangedD(2) [OF r] by (intro ranged_setting r) simp_all
next
  case TaskbarEntry
  assume r: "ranged ctx"
  show ?thesis unfolding TaskbarEntry handle.simps using rangedD(2) [OF r] by (intro ranged_setting r) simp_all
next
  case (LauncherModeCard m)
  assume r: "ranged ctx"
  show ?thesis unfolding LauncherModeCard handle.simps SetLauncherMode_def
    using rangedD(2) [OF r] by (intro ranged_setting r) (simp_all add: in_ranges_def)
next
  case (DefaultRow i)
  assume r: "ranged ctx"
  have "ranged (save_config (ctx\<lparr>cfg := (cfg ctx)\<lparr>preferredDeviceId := d\<rparr>\<rparr>))" for d
    using rangedD(2) [OF r] by (intro ranged_setting r) simp_all
  with r show ?thesis by (simp add: DefaultRow DeviceDefault_def)
next
  case Toggle
  assume "ranged ctx"
  then show ?thesis by (simp add: Toggle TogglePanelConnection_def ranged_intros)
qed (simp_all add: ranged_intros ranged_Retry ranged_SavePanel ranged_AddSelected ranged_Up ranged_Remove
    ranged_DESTROY ranged_TIMER ranged_ConnectAll MenuDisconnectUsb_def MenuDevice_def RunDiscovery_pass_def Let_def)

lemma ranged_handles: "ranged ctx \<Longrightarrow> ranged (handles narrow es ctx)"
  unfolding handles_def by (induction es arbitrary: ctx) (auto simp: ranged_handle)

lemma ranged_RunTray:
  assumes "in_ranges loaded"
  shows "ranged (RunTray a resume loaded)"
proof -
  define ctx where "ctx = TrayContext_default (loaded\<lparr>devices := filter (\<lambda>d. \<not> IsUsbMuxTarget (endpoint d)) (devices loaded)\<rparr>)"
  have "in_ranges (cfg ctx)" using assms by (auto simp: ctx_def TrayContext_default_def in_ranges_def)
  moreover have "owned (RebuildSenders c)" if "c \<in> {ctx, save_config ctx}" for c
    using that by (intro ownedI) (auto simp: RebuildSenders_def ctx_def TrayContext_default_def)
  ultimately have "ranged (RebuildSenders c)" if "c \<in> {ctx, save_config ctx}" for c
    using that by (auto simp: ranged_def RebuildSenders_def save_config_def) (simp_all add: ctx_def TrayContext_default_def)
  then have "ranged (RebuildSenders ctx)" "ranged (RebuildSenders (save_config ctx))" by simp_all
  then show ?thesis
    unfolding RunTray_def Let_def ctx_def [symmetric] by (simp add: ranged_intros split: option.split)
qed

subsection \<open>Properties\<close>

lemma loaded_in_ranges: "in_ranges (fst (Load dir_ok env appData fs))"
proof -
  have d: "wf_config Config_default" by code_simp
  have "wf_config (LoadFromFile fs p)" for p
    using d by (auto simp: LoadFromFile_def try_file_def bind_eq_Some_conv intro: TryParseConfig_wf split: option.split)
  with d show ?thesis by (auto simp: Load_def Let_def intro: wf_in_ranges)
qed

text \<open>C15. Whatever the settings file holds, whatever the user enters and whatever receivers announce: every worker that
  the tray starts gets a port from 1 to 65535, 30 to 120 pictures and 5 to 100 million bits a second, with no
  wrap-around on the way to 32 bits, and every settings file that it writes is within the ranges that the reader
  accepts.\<close>

theorem sessions_start_in_range:
  assumes "ctx = handles narrow es (RunTray a resume (fst (Load dir_ok env appData fs)))"
  shows "(\<forall>l \<in> set (launches ctx). launch_ok l) \<and> (\<forall>c \<in> set (cfg ctx # saves ctx). in_ranges c)"
  using rangedD [OF ranged_handles [OF ranged_RunTray [OF loaded_in_ranges]]] unfolding assms by simp

definition edge_input :: PanelInput where
  "edge_input = \<lparr>in_devices = wide ''192.168.1.2'', in_port = Some 65535, in_fps = Some 30, in_bitrate = Some 100,
     save_succeeds = True\<rparr>"

definition narrow_ascii :: "wstring \<Rightarrow> string" where "narrow_ascii w = map (\<lambda>u. char_of (unat u)) w"

definition edge_events :: "(TrayAnswer \<times> TrayEvent) list" where
  "edge_events = [(at_time 1000, SaveSettings edge_input), (at_time 2000, ConnectRow 0), (at_time 3000, Timer [] []),
     (at_time 4000, Timer [] [])]"

lemma sessions_start_in_range_witness:
  "let ctx = handles narrow_ascii edge_events (RunTray (at_time 0) None (fst (Load True
        \<lparr>create_ok = True, written = 0, write_ok = True, flush_ok = True, backup_deleted = True, replace_result = Replaced, move_ok = True\<rparr>
        None (\<lambda>p. None))))
   in map launch_port (launches ctx) = [65535] \<and> list_all launch_ok (launches ctx)"
proof -
  define env where "env = \<lparr>create_ok = True, written = 0, write_ok = True, flush_ok = True, backup_deleted = True,
      replace_result = Replaced, move_ok = True\<rparr>"
  define ctx where "ctx = handles narrow_ascii edge_events (RunTray (at_time 0) None (fst (Load True env None (\<lambda>p. None))))"
  have "fst (Load True env None (\<lambda>p. None)) = Config_default" by (simp add: Load_def)
  then have e: "ctx = handles narrow_ascii edge_events (RunTray (at_time 0) None Config_default)" by (simp add: ctx_def)
  have "map launch_port (launches ctx) = [65535]" unfolding e by code_simp
  with sessions_start_in_range [OF ctx_def] show ?thesis
    unfolding ctx_def [symmetric] env_def [symmetric] Let_def list_all_iff by blast
qed

text \<open>C12. Settings that are rejected or cannot be written are taken back whole: the configuration in force is the
  one before, no sender is stopped, started or retired, nothing is queued to restart, and the switches of the
  panel show the configuration again when it was the write that failed.  Settings that are accepted are the ones
  written last.\<close>

theorem failed_save_changes_nothing:
  assumes "SavePanelSettings narrow p ctx = (ok, c)"
  shows "if ok then fields_valid p \<and> save_succeeds p \<and> last (saves c) = cfg c
    else cfg c = cfg ctx \<and> apps c = apps ctx \<and> usbApp c = usbApp ctx \<and> retiredApps c = retiredApps ctx \<and>
      launches c = launches ctx \<and> commands c = commands ctx \<and> switching c = switching ctx \<and> restart_pending c = restart_pending ctx \<and>
      (fields_valid p \<longrightarrow> panelAutoReconnect c = autoReconnect (cfg ctx) \<and>
         panelRequirePrivateNetwork c = Config.requirePrivateNetwork (cfg ctx) \<and> panelStreamProfile c = streamProfile (cfg ctx))"
proof (cases "fields_valid p \<and> save_succeeds p")
  case True
  then have "ok" "c = snd (SavePanelSettings narrow p ctx)" using assms by (auto simp: SavePanelSettings_def Let_def)
  then show ?thesis using True
    by (simp add: SavePanelSettings_def Let_def SyncPanelSettingsFromConfig_def Apply_keeps save_config_def)
next
  case False
  have "cfg ctx = (edited_config narrow p ctx)\<lparr>devices := devices (cfg ctx), Config.port := Config.port (cfg ctx),
      Config.fps := Config.fps (cfg ctx), bitrateMbps := bitrateMbps (cfg ctx),
      Config.requirePrivateNetwork := Config.requirePrivateNetwork (cfg ctx), autoReconnect := autoReconnect (cfg ctx),
      streamProfile := streamProfile (cfg ctx)\<rparr>"
    by (simp add: edited_config_def Let_def)
  moreover have "\<not> ok" "c = snd (SavePanelSettings narrow p ctx)" using assms False by (auto simp: SavePanelSettings_def Let_def split: if_splits)
  ultimately show ?thesis using False
    by (auto simp: SavePanelSettings_def Let_def SyncPanelSettingsFromConfig_def save_config_def restart_pending_def)
qed

lemma failed_save_changes_nothing_witness:
  "let c = snd (SavePanelSettings narrow_ascii (edge_input\<lparr>save_succeeds := False\<rparr>) (RunTray (at_time 0) None sample_settings))
   in cfg c = sample_settings \<and> length (saves c) = 1 \<and> map running (apps c) = [True, False]"
proof -
  obtain ok c where r: "SavePanelSettings narrow_ascii (edge_input\<lparr>save_succeeds := False\<rparr>)
      (RunTray (at_time 0) None sample_settings) = (ok, c)" by force
  have "\<not> fst (SavePanelSettings narrow_ascii (edge_input\<lparr>save_succeeds := False\<rparr>) (RunTray (at_time 0) None sample_settings))"
    "length (saves (snd (SavePanelSettings narrow_ascii (edge_input\<lparr>save_succeeds := False\<rparr>)
      (RunTray (at_time 0) None sample_settings)))) = 1"
    "cfg (RunTray (at_time 0) None sample_settings) = sample_settings"
    "map running (apps (RunTray (at_time 0) None sample_settings)) = [True, False]" by code_simp+
  with failed_save_changes_nothing [OF r] show ?thesis unfolding r Let_def by simp
qed

end
