(* ===== verification/LauncherItems.thy ===== *)
theory LauncherItems
  imports Input "HOL-Library.Multiset"
begin

text \<open>
  The shortcuts of the launcher panel (\<^verbatim>\<open>src/src/app/DisplayLauncher.cpp\<close>): which entries of the
  desktop it shows, in which order, and where each one is drawn and hit.  What the shell answers is an
  argument; icons are left out.
\<close>

subsection \<open>Entries of the desktop\<close>

definition kMaximumItems :: nat where "kMaximumItems = 120"

record LauncherItem =
  item_path :: wstring
  launchPath :: wstring
  launchParameters :: wstring
  launchDirectory :: wstring
  item_label :: wstring
  desktopPosition :: "POINT option"

record DesktopPosition =
  pos_path :: wstring
  pos_label :: wstring
  pos_point :: POINT

text \<open>A shell link as it is loaded: its target, whether the target can be read and exists, and the rest.\<close>

record LinkAnswer =
  link_loaded :: bool
  path_read :: bool
  link_target :: wstring
  target_exists :: bool
  link_arguments :: wstring
  link_directory :: wstring

text \<open>The case tables of the C library and of Windows, the links and the \<^verbatim>\<open>URL\<close> entries of
  internet shortcuts.\<close>

record Shell =
  to_lower :: "u16 \<Rightarrow> u16"
  to_upper :: "u16 \<Rightarrow> u16"
  shortcut :: "wstring \<Rightarrow> LinkAnswer option"
  url_of :: "wstring \<Rightarrow> wstring"

definition find_last :: "('a \<Rightarrow> bool) \<Rightarrow> 'a list \<Rightarrow> nat option" where
  "find_last P xs = map_option (\<lambda>i. length xs - Suc i) (find_first P (rev xs) 0)"

definition LowerExtension :: "Shell \<Rightarrow> wstring \<Rightarrow> wstring" where
  "LowerExtension sh name =
     (case find_last (\<lambda>u. u = 0x2E) name of None \<Rightarrow> [] | Some dot \<Rightarrow> map (to_lower sh) (drop dot name))"

definition HasLaunchableExtension :: "Shell \<Rightarrow> wstring \<Rightarrow> bool" where
  "HasLaunchableExtension sh name =
     (case find_last (\<lambda>u. u = 0x2E) name of
        None \<Rightarrow> False
      | Some dot \<Rightarrow> map (to_lower sh) (drop dot name) \<in> {wide ''.lnk'', wide ''.url'', wide ''.exe''})"

definition LabelForPath :: "wstring \<Rightarrow> wstring" where
  "LabelForPath path =
     (let name = (case find_last (\<lambda>u. u = 0x5C \<or> u = 0x2F) path of None \<Rightarrow> path | Some slash \<Rightarrow> drop (slash + 1) path);
          stem = (case find_last (\<lambda>u. u = 0x2E) name of None \<Rightarrow> name | Some dot \<Rightarrow> take dot name)
      in if stem = [] then [0x5E94, 0x7528] else stem)"

text \<open>\<^verbatim>\<open>CompareStringOrdinal\<close> without regard to case.\<close>

definition same_text :: "Shell \<Rightarrow> wstring \<Rightarrow> wstring \<Rightarrow> bool" where
  "same_text sh a b \<longleftrightarrow> map (to_upper sh) a = map (to_upper sh) b"

fun units_less :: "wstring \<Rightarrow> wstring \<Rightarrow> bool" where
  "units_less _ [] = False"
| "units_less [] (y # ys) = True"
| "units_less (x # xs) (y # ys) = (x < y \<or> (x = y \<and> units_less xs ys))"

definition text_less :: "Shell \<Rightarrow> wstring \<Rightarrow> wstring \<Rightarrow> bool" where
  "text_less sh a b = units_less (map (to_upper sh) a) (map (to_upper sh) b)"

definition ConfigureShortcutLaunch :: "Shell \<Rightarrow> LauncherItem \<Rightarrow> bool \<times> LauncherItem" where
  "ConfigureShortcutLaunch sh item =
     (case shortcut sh (item_path item) of
        None \<Rightarrow> (False, item)
      | Some l \<Rightarrow>
          (let targetRead = (link_loaded l \<and> path_read l \<and> link_target l \<noteq> [] \<and> target_exists l) in
           (targetRead,
            if targetRead
            then item\<lparr>launchPath := link_target l, launchParameters := link_arguments l, launchDirectory := link_directory l\<rparr>
            else item)))"

definition IsUsableInternetShortcut :: "Shell \<Rightarrow> wstring \<Rightarrow> bool" where
  "IsUsableInternetShortcut sh path =
     (let url = url_of sh path in
      if url = [] then False
      else str_find url (wide ''://'') 0 \<noteq> None \<or> starts_with (wide ''mailto:'') url \<or> starts_with (wide ''shell:'') url)"

definition new_item :: "wstring \<Rightarrow> wstring \<Rightarrow> LauncherItem" where
  "new_item path label = \<lparr>item_path = path, launchPath = path, launchParameters = [], launchDirectory = [],
     item_label = label, desktopPosition = None\<rparr>"

definition AddDesktopItem :: "Shell \<Rightarrow> wstring \<Rightarrow> bool \<Rightarrow> LauncherItem list \<Rightarrow> LauncherItem list" where
  "AddDesktopItem sh path folder items =
     (if kMaximumItems \<le> length items \<or> (\<not> folder \<and> \<not> HasLaunchableExtension sh path) then items
      else if list_ex (\<lambda>item. same_text sh (item_path item) path) items then items
      else
        (let item = new_item path (LabelForPath path) in
         if folder then items @ [item]
         else
           (let extension = LowerExtension sh path in
            if extension = wide ''.lnk''
            then (case ConfigureShortcutLaunch sh item of (ok, item) \<Rightarrow> if ok then items @ [item] else items)
            else if extension = wide ''.url'' \<and> \<not> IsUsableInternetShortcut sh path then items
            else items @ [item])))"

fun collect_loop :: "Shell \<Rightarrow> wstring \<Rightarrow> (wstring \<times> bool) list \<Rightarrow> LauncherItem list \<Rightarrow> LauncherItem list" where
  "collect_loop sh folder [] items = items"
| "collect_loop sh folder ((name, isFolder) # rest) items =
     (let items' = (if name \<in> {wide ''.'', wide ''..''} then items
                    else AddDesktopItem sh (folder @ [0x5C] @ name) isFolder items)
      in if length items' < kMaximumItems then collect_loop sh folder rest items' else items')"

text \<open>What \<^verbatim>\<open>FindFirstFile\<close> and its successors find, if it succeeds.\<close>

definition CollectDesktopFolder ::
    "Shell \<Rightarrow> wstring \<Rightarrow> (wstring \<times> bool) list option \<Rightarrow> LauncherItem list \<Rightarrow> LauncherItem list" where
  "CollectDesktopFolder sh folder listing items =
     (if kMaximumItems \<le> length items \<or> folder = [] then items
      else case listing of None \<Rightarrow> items | Some entries \<Rightarrow> collect_loop sh folder entries items)"

definition apply_position :: "Shell \<Rightarrow> DesktopPosition \<Rightarrow> LauncherItem list \<Rightarrow> LauncherItem list" where
  "apply_position sh p items =
     (case find (\<lambda>i. same_text sh (item_path (items ! i)) (pos_path p)) [0..<length items] of
        Some i \<Rightarrow> items[i := (items ! i)\<lparr>desktopPosition := Some (pos_point p)\<rparr>]
      | None \<Rightarrow>
          (if \<not> starts_with (wide ''::'' @ [0x7B]) (pos_path p) then items
           else items @ [(new_item (pos_path p) (pos_label p))\<lparr>desktopPosition := Some (pos_point p)\<rparr>]))"

definition ApplyExplorerDesktopPositions :: "Shell \<Rightarrow> DesktopPosition list \<Rightarrow> LauncherItem list \<Rightarrow> LauncherItem list" where
  "ApplyExplorerDesktopPositions sh positions items = fold (apply_position sh) positions items"

text \<open>The order of the items.\<close>

definition item_before :: "Shell \<Rightarrow> LauncherItem \<Rightarrow> LauncherItem \<Rightarrow> bool" where
  "item_before sh a b =
     (case (desktopPosition a, desktopPosition b) of
        (Some p, Some q) \<Rightarrow> if pt_x p \<noteq> pt_x q then pt_x p < pt_x q else pt_y p < pt_y q
      | (Some p, None) \<Rightarrow> True
      | (None, Some q) \<Rightarrow> False
      | (None, None) \<Rightarrow> text_less sh (item_label a) (item_label b))"

text \<open>\<^verbatim>\<open>std::sort\<close>; it may leave equivalent items in another order.\<close>

fun insert_by :: "('a \<Rightarrow> 'a \<Rightarrow> bool) \<Rightarrow> 'a \<Rightarrow> 'a list \<Rightarrow> 'a list" where
  "insert_by before x [] = [x]"
| "insert_by before x (y # ys) = (if before y x then y # insert_by before x ys else x # y # ys)"

definition sort_by :: "('a \<Rightarrow> 'a \<Rightarrow> bool) \<Rightarrow> 'a list \<Rightarrow> 'a list" where
  "sort_by before xs = foldr (insert_by before) xs []"

definition CollectLauncherItems ::
    "Shell \<Rightarrow> wstring \<times> (wstring \<times> bool) list option \<Rightarrow> wstring \<times> (wstring \<times> bool) list option \<Rightarrow>
     DesktopPosition list \<Rightarrow> LauncherItem list" where
  "CollectLauncherItems sh user common positions =
     sort_by (item_before sh) (ApplyExplorerDesktopPositions sh positions
       (CollectDesktopFolder sh (fst common) (snd common) (CollectDesktopFolder sh (fst user) (snd user) [])))"

subsection \<open>Where an item is\<close>

definition kDesktopMarginX :: int where "kDesktopMarginX = 12"
definition kDesktopMarginY :: int where "kDesktopMarginY = 10"
definition kDesktopCellWidth :: int where "kDesktopCellWidth = 94"
definition kDesktopCellHeight :: int where "kDesktopCellHeight = 106"
definition kTaskbarReserve :: int where "kTaskbarReserve = 58"

lemmas cell_sizes = kDesktopMarginX_def kDesktopMarginY_def kDesktopCellWidth_def kDesktopCellHeight_def kTaskbarReserve_def

text \<open>Rounded to the nearest integer; \<open>-1\<close> when the result is not one of 32 bits.\<close>

definition MulDiv :: "int \<Rightarrow> int \<Rightarrow> int \<Rightarrow> int" where
  "MulDiv a b c =
     (if c = 0 then - 1
      else (let q = sgn (a * b) * sgn c * ((\<bar>a * b\<bar> + \<bar>c\<bar> div 2) div \<bar>c\<bar>) in
            if - (2 ^ 31) \<le> q \<and> q < 2 ^ 31 then q else - 1))"

text \<open>The client rectangle and the work area of the primary monitor.\<close>

definition fallback_index :: "LauncherItem list \<Rightarrow> nat \<Rightarrow> nat" where
  "fallback_index items i = length (filter (\<lambda>it. desktopPosition it = None) (take i items))"

definition CellForItem :: "LauncherItem list \<Rightarrow> RECT \<Rightarrow> RECT \<Rightarrow> nat \<Rightarrow> RECT" where
  "CellForItem items client source i =
     (let contentHeight = max 1 (bottom client - kTaskbarReserve) in
      case desktopPosition (items ! i) of
        Some p \<Rightarrow>
          (let sourceWidth = max 1 (right source - left source); sourceHeight = max 1 (bottom source - upper source);
               x = MulDiv (pt_x p) (right client) sourceWidth; y = MulDiv (pt_y p) contentHeight sourceHeight
           in \<lparr>left = x, upper = y, right = x + kDesktopCellWidth, bottom = y + kDesktopCellHeight\<rparr>)
      | None \<Rightarrow>
          (let usableHeight = max 1 (contentHeight - kDesktopMarginY); rows = max 1 (usableHeight div kDesktopCellHeight);
               column = int (fallback_index items i) div rows; row = int (fallback_index items i) mod rows
           in \<lparr>left = kDesktopMarginX + column * kDesktopCellWidth, upper = kDesktopMarginY + row * kDesktopCellHeight,
               right = kDesktopMarginX + (column + 1) * kDesktopCellWidth,
               bottom = kDesktopMarginY + (row + 1) * kDesktopCellHeight\<rparr>))"

definition PointInRect :: "RECT \<Rightarrow> POINT \<Rightarrow> bool" where
  "PointInRect r p \<longleftrightarrow> left r \<le> pt_x p \<and> pt_x p < right r \<and> upper r \<le> pt_y p \<and> pt_y p < bottom r"

definition intersects :: "RECT \<Rightarrow> RECT \<Rightarrow> bool" where
  "intersects a b \<longleftrightarrow> max (left a) (left b) < min (right a) (right b) \<and> max (upper a) (upper b) < min (bottom a) (bottom b)"

text \<open>The items that are drawn, in that order.\<close>

definition Paint :: "LauncherItem list \<Rightarrow> RECT \<Rightarrow> RECT \<Rightarrow> nat list" where
  "Paint items client source =
     filter (\<lambda>i. intersects (CellForItem items client source i) client \<and>
                 upper (CellForItem items client source i) < bottom client - kTaskbarReserve) [0..<length items]"

definition ItemAt :: "LauncherItem list \<Rightarrow> RECT \<Rightarrow> RECT \<Rightarrow> POINT \<Rightarrow> nat option" where
  "ItemAt items client source point =
     (if pt_x point < 0 \<or> pt_y point < 0 \<or> bottom client - kTaskbarReserve \<le> pt_y point then None
      else find (\<lambda>i. PointInRect (CellForItem items client source i) point) (rev [0..<length items]))"

subsection \<open>Sorting\<close>

text \<open>What \<^verbatim>\<open>std::sort\<close> requires of an order, and what it then gives.\<close>

locale weak_order =
  fixes before :: "'a \<Rightarrow> 'a \<Rightarrow> bool"
  assumes irrefl: "\<not> before x x"
    and trans: "before x y \<Longrightarrow> before y z \<Longrightarrow> before x z"
    and equiv_trans: "\<not> before x y \<Longrightarrow> \<not> before y z \<Longrightarrow> \<not> before x z"
begin

lemma insert_by_sorted: "sorted_wrt (\<lambda>x y. \<not> before y x) xs \<Longrightarrow> sorted_wrt (\<lambda>x y. \<not> before y x) (insert_by before x xs)"
proof (induction xs)
  case (Cons y ys)
  have s: "set (insert_by before x zs) = insert x (set zs)" for zs by (induction zs) auto
  show ?case
  proof (cases "before y x")
    case True
    then have "\<not> before x y" using irrefl trans by blast
    with True Cons show ?thesis by (simp add: s)
  next
    case False
    then have "\<not> before z x" if "z \<in> set ys" for z using Cons.prems that equiv_trans by auto
    with False Cons.prems show ?thesis by simp
  qed
qed simp

lemma sort_by_sorted: "sorted_wrt (\<lambda>x y. \<not> before y x) (sort_by before xs)"
  unfolding sort_by_def by (induction xs) (simp_all add: insert_by_sorted)

end

lemma mset_sort_by [simp]: "mset (sort_by before xs) = mset xs"
proof -
  have "mset (insert_by before x xs) = add_mset x (mset xs)" for x xs by (induction xs) auto
  then show ?thesis unfolding sort_by_def by (induction xs) simp_all
qed

lemma units_less_order:
  "\<not> units_less a a" "units_less a b \<Longrightarrow> units_less b c \<Longrightarrow> units_less a c" "\<not> units_less a b \<Longrightarrow> \<not> units_less b c \<Longrightarrow> \<not> units_less a c"
proof -
  show "\<not> units_less a a" by (induction a) simp_all
  show "units_less a b \<Longrightarrow> units_less b c \<Longrightarrow> units_less a c"
  proof (induction a b arbitrary: c rule: units_less.induct)
    case (3 x xs y ys)
    then show ?case by (cases c) (auto dest: less_trans)
  next
    case (2 y ys)
    then show ?case by (cases c) simp_all
  qed simp
  show "\<not> units_less a b \<Longrightarrow> \<not> units_less b c \<Longrightarrow> \<not> units_less a c"
  proof (induction a c arbitrary: b rule: units_less.induct)
    case (3 x xs z zs)
    then show ?case by (cases b) (auto dest: less_trans)
  next
    case (2 z zs)
    then show ?case by (cases b) simp_all
  qed simp
qed

interpretation desktop_order: weak_order "item_before sh" for sh
proof
  fix a b c
  show "\<not> item_before sh a a" by (simp add: item_before_def text_less_def units_less_order(1) split: option.split)
  show "item_before sh a b \<Longrightarrow> item_before sh b c \<Longrightarrow> item_before sh a c"
    by (auto simp: item_before_def text_less_def dest: units_less_order(2) split: option.splits if_splits)
  show "\<not> item_before sh a b \<Longrightarrow> \<not> item_before sh b c \<Longrightarrow> \<not> item_before sh a c"
    by (auto simp: item_before_def text_less_def dest: units_less_order(3) split: option.splits if_splits)
qed

end
