(* ===== verification/LauncherProps.thy ===== *)
theory LauncherProps
  imports LauncherItems
begin

text \<open>
  The shortcuts of the launcher panel: what is shown can be launched and is shown once, in Explorer's order, and
  a tap reaches the shortcut that is drawn on top at that point.
\<close>

subsection \<open>Which items are collected\<close>

definition launchable_file :: "Shell \<Rightarrow> LauncherItem \<Rightarrow> bool" where
  "launchable_file sh it \<longleftrightarrow>
     (let extension = LowerExtension sh (item_path it) in
      (extension = wide ''.lnk'' \<and> (case shortcut sh (item_path it) of None \<Rightarrow> False
         | Some l \<Rightarrow> target_exists l \<and> link_target l \<noteq> [] \<and> launchPath it = link_target l)) \<or>
      (extension = wide ''.url'' \<and> IsUsableInternetShortcut sh (item_path it) \<and> launchPath it = item_path it) \<or>
      (extension = wide ''.exe'' \<and> launchPath it = item_path it))"

text \<open>An item of one of the listed folders, or one of the shell's namespace.\<close>

definition listed :: "Shell \<Rightarrow> (wstring \<times> (wstring \<times> bool) list option) list \<Rightarrow> LauncherItem \<Rightarrow> bool" where
  "listed sh folders it \<longleftrightarrow>
     (\<exists>(folder, listing) \<in> set folders. \<exists>(name, isFolder) \<in> set (value_or listing []).
        item_path it = folder @ [0x5C] @ name \<and> (isFolder \<or> launchable_file sh it))"

definition namespace_item :: "LauncherItem \<Rightarrow> bool" where
  "namespace_item it \<longleftrightarrow> starts_with (wide ''::'' @ [0x7B]) (item_path it)"

definition folded_paths :: "Shell \<Rightarrow> LauncherItem list \<Rightarrow> wstring list" where
  "folded_paths sh items = map (\<lambda>it. map (to_upper sh) (item_path it)) items"

lemma AddDesktopItem_cases:
  obtains "AddDesktopItem sh path folder items = items"
  | it where "AddDesktopItem sh path folder items = items @ [it]" "item_path it = path" "length items < kMaximumItems"
      "map (to_upper sh) path \<notin> set (folded_paths sh items)" "folder \<or> launchable_file sh it"
proof (cases "AddDesktopItem sh path folder items = items")
  case False
  then have g: "length items < kMaximumItems" "folder \<or> HasLaunchableExtension sh path"
    "\<not> list_ex (\<lambda>item. same_text sh (item_path item) path) items"
    unfolding AddDesktopItem_def by (auto split: if_splits)
  have n: "map (to_upper sh) path \<notin> set (folded_paths sh items)"
    using g(3) by (auto simp: folded_paths_def same_text_def list_ex_iff)
  have ext: "LowerExtension sh path \<in> {wide ''.lnk'', wide ''.url'', wide ''.exe''}" if "\<not> folder"
    using g(2) that by (auto simp: HasLaunchableExtension_def LowerExtension_def split: option.splits)
  have "\<exists>it. AddDesktopItem sh path folder items = items @ [it] \<and> item_path it = path \<and> (folder \<or> launchable_file sh it)"
    using False g ext
    by (auto simp: AddDesktopItem_def Let_def ConfigureShortcutLaunch_def new_item_def launchable_file_def not_le wide_def
        split: option.splits if_splits prod.splits)
  with g(1) n that(2) show ?thesis by blast
qed (rule that(1))

definition collected :: "Shell \<Rightarrow> (wstring \<times> (wstring \<times> bool) list option) list \<Rightarrow> LauncherItem list \<Rightarrow> bool" where
  "collected sh folders items \<longleftrightarrow> length items \<le> kMaximumItems \<and> distinct (folded_paths sh items) \<and> list_all (listed sh folders) items"

lemma collected_loop:
  assumes "(folder, Some all) \<in> set folders" and "set entries \<subseteq> set all" and "collected sh folders items"
  shows "collected sh folders (collect_loop sh folder entries items)"
  using assms
proof (induction sh folder entries items rule: collect_loop.induct)
  case (2 sh folder name isFolder rest items)
  let ?next = "if name \<in> {wide ''.'', wide ''..''} then items else AddDesktopItem sh (folder @ [0x5C] @ name) isFolder items"
  have "collected sh folders (AddDesktopItem sh (folder @ [0x5C] @ name) isFolder items)"
  proof (cases rule: AddDesktopItem_cases [of sh "folder @ [0x5C] @ name" isFolder items])
    case (2 it)
    have "\<exists>(n, b) \<in> set all. item_path it = folder @ [0x5C] @ n \<and> (b \<or> launchable_file sh it)"
      using 2 "2.prems"(2) by (intro bexI [of _ "(name, isFolder)"]) auto
    then have "listed sh folders it"
      using "2.prems"(1) unfolding listed_def by (intro bexI [of _ "(folder, Some all)"]) auto
    with 2 "2.prems"(3) show ?thesis by (simp add: collected_def folded_paths_def)
  qed (use "2.prems" in simp)
  then have n: "collected sh folders ?next" using "2.prems" by simp
  show ?case using "2.IH" [OF refl] n "2.prems"(1,2) by (simp add: Let_def)
qed simp

lemma collected_folder: "(folder, listing) \<in> set folders \<Longrightarrow> collected sh folders items \<Longrightarrow>
    collected sh folders (CollectDesktopFolder sh folder listing items)"
  by (auto simp: CollectDesktopFolder_def intro: collected_loop split: option.split)

text \<open>Positions keep the paths of the items, and add items of the namespace.\<close>

definition positioned :: "Shell \<Rightarrow> (wstring \<times> (wstring \<times> bool) list option) list \<Rightarrow> LauncherItem list \<Rightarrow> bool" where
  "positioned sh folders items \<longleftrightarrow> length (filter (\<lambda>it. \<not> namespace_item it) items) \<le> kMaximumItems \<and>
     distinct (folded_paths sh items) \<and> list_all (\<lambda>it. namespace_item it \<or> listed sh folders it) items"

lemma positioned_collected: "collected sh folders items \<Longrightarrow> positioned sh folders items"
  using length_filter_le [of "\<lambda>it. \<not> namespace_item it" items]
  unfolding collected_def positioned_def list_all_iff by (meson order_trans)

lemma listed_cong: "item_path it' = item_path it \<Longrightarrow> launchPath it' = launchPath it \<Longrightarrow> listed sh folders it' = listed sh folders it"
proof -
  assume e: "item_path it' = item_path it" "launchPath it' = launchPath it"
  then have "launchable_file sh it' = launchable_file sh it"
    by (cases "shortcut sh (item_path it)") (simp_all add: launchable_file_def)
  with e show ?thesis by (simp add: listed_def)
qed

lemma same_item:
  assumes "i < length items" and "item_path it = item_path (items ! i)"
  shows "map item_path (items[i := it]) = map item_path items"
  using assms by (simp add: map_update list_update_same_conv)

lemma positioned_apply: "positioned sh folders items \<Longrightarrow> positioned sh folders (apply_position sh p items)"
proof (cases "find (\<lambda>i. same_text sh (item_path (items ! i)) (pos_path p)) [0..<length items]")
  case (Some i)
  assume p: "positioned sh folders items"
  have i: "i < length items" using Some by (auto simp: find_Some_iff)
  let ?it = "(items ! i)\<lparr>desktopPosition := Some (pos_point p)\<rparr>"
  have paths: "map item_path (items[i := ?it]) = map item_path items" using i by (intro same_item) simp_all
  have "length (filter (\<lambda>it. \<not> namespace_item it) xs) = length (filter (\<lambda>u. \<not> starts_with (wide ''::'' @ [0x7B]) u) (map item_path xs))" for xs
    by (simp add: namespace_item_def filter_map o_def)
  moreover have "folded_paths sh xs = map (map (to_upper sh)) (map item_path xs)" for xs by (simp add: folded_paths_def)
  moreover have "namespace_item ?it = namespace_item (items ! i) \<and> listed sh folders ?it = listed sh folders (items ! i)"
    by (simp add: namespace_item_def listed_cong [of ?it "items ! i"])
  then have "list_all (\<lambda>it. namespace_item it \<or> listed sh folders it) (items[i := ?it])"
    using p i by (simp add: positioned_def list_all_length nth_list_update)
  ultimately show ?thesis using p by (simp only: positioned_def apply_position_def Some option.case paths)
next
  case None
  assume p: "positioned sh folders items"
  have "map (to_upper sh) (pos_path p) \<notin> set (folded_paths sh items)"
    using None by (auto simp: find_None_iff folded_paths_def same_text_def in_set_conv_nth)
  with p show ?thesis
    by (auto simp: apply_position_def None positioned_def folded_paths_def new_item_def namespace_item_def)
qed


subsection \<open>Taps\<close>


definition two_places :: "LauncherItem list" where
  "two_places = [(new_item (wide ''a'') (wide ''a''))\<lparr>desktopPosition := Some \<lparr>pt_x = 0, pt_y = 0\<rparr>\<rparr>,
     (new_item (wide ''b'') (wide ''b''))\<lparr>desktopPosition := Some \<lparr>pt_x = 60, pt_y = 0\<rparr>\<rparr>, new_item (wide ''c'') (wide ''c'')]"


end
