(* ===== verification/LauncherWindows.thy ===== *)
theory LauncherWindows
  imports LauncherItems Routing Config
begin

text \<open>
  The windows of the launcher panel (\<^verbatim>\<open>src/src/app/DisplayLauncher.h\<close>,
  \<^verbatim>\<open>src/src/app/DisplayLauncher.cpp\<close>): one per display, shown, moved and destroyed by the
  manager.  Window handles are numbers; the calls that Windows gets are logged in order.
\<close>

subsection \<open>State\<close>

record LauncherDisplay =
  display_target :: string
  display_label :: wstring
  display_rect :: RECT

record LauncherWindow =
  win_target :: string
  win_label :: wstring
  monitorRect :: RECT
  win_rect :: RECT
  win_handle :: "nat option"
  win_items :: "LauncherItem list"

datatype LauncherCall =
  Created nat RECT | Destroyed nat | Repositioned nat RECT | Shown nat RECT | HiddenWindow nat | ShownAgain nat | Minimized nat

record DisplayLauncherManager =
  launcher_enabled :: bool
  launcher_mode :: LauncherMode
  windows :: "LauncherWindow list"
  launcher_calls :: "LauncherCall list"

definition DisplayLauncherManager_init :: DisplayLauncherManager where
  "DisplayLauncherManager_init = \<lparr>launcher_enabled = True, launcher_mode = Fullscreen, windows = [], launcher_calls = []\<rparr>"

subsection \<open>One window\<close>

text \<open>\<^verbatim>\<open>std::clamp\<close> is given bounds in the wrong order on a monitor that is narrower than three
  columns; the library's comparisons are then taken in their order.\<close>

definition SurfaceRect :: "LauncherMode \<Rightarrow> RECT \<Rightarrow> RECT" where
  "SurfaceRect mode r =
     (if mode \<noteq> Region then r
      else
        (let monitorWidth = max 1 (right r - left r); lo = kDesktopCellWidth * 3 + 2 * kDesktopMarginX;
             v = monitorWidth * 2 div 5;
             regionWidth = (if v < lo then lo else if monitorWidth < v then monitorWidth else v)
         in \<lparr>left = left r, upper = upper r, right = left r + regionWidth, bottom = bottom r\<rparr>))"

definition Reposition :: "LauncherMode \<Rightarrow> RECT \<Rightarrow> wstring \<Rightarrow> LauncherWindow \<Rightarrow> LauncherWindow \<times> LauncherCall list" where
  "Reposition mode r label w =
     (let w' = w\<lparr>monitorRect := r, win_rect := SurfaceRect mode r, win_label := label\<rparr> in
      (w', case win_handle w of None \<Rightarrow> [] | Some h \<Rightarrow> [Repositioned h (win_rect w')]))"

definition Show_calls :: "LauncherWindow \<Rightarrow> LauncherCall list" where
  "Show_calls w = (case win_handle w of None \<Rightarrow> [] | Some h \<Rightarrow> [Shown h (win_rect w)])"

definition Hide_calls :: "LauncherWindow \<Rightarrow> LauncherCall list" where
  "Hide_calls w = (case win_handle w of None \<Rightarrow> [] | Some h \<Rightarrow> [HiddenWindow h])"

definition Destroy_calls :: "LauncherWindow \<Rightarrow> LauncherCall list" where
  "Destroy_calls w = (case win_handle w of None \<Rightarrow> [] | Some h \<Rightarrow> [Destroyed h])"

text \<open>The monitor of the launcher's window, the windows of the desktop with the monitor of each, and the items that
  are then collected.\<close>

record RevealAnswer =
  own_monitor :: "nat option"
  desktop_windows :: "(nat \<times> Window \<times> nat option) list"
  recollected :: "LauncherItem list"

definition MinimizeWindowOnDisplay :: "nat \<Rightarrow> nat \<Rightarrow> nat \<times> Window \<times> nat option \<Rightarrow> LauncherCall list" where
  "MinimizeWindowOnDisplay launcher monitor window =
     (case window of (h, w, on) \<Rightarrow>
        if h = launcher \<or> \<not> IsRoutableTopLevelWindow (Some w) \<or> on \<noteq> Some monitor then [] else [Minimized h])"

definition Window_RevealDesktop :: "RevealAnswer \<Rightarrow> LauncherWindow \<Rightarrow> LauncherWindow \<times> LauncherCall list" where
  "Window_RevealDesktop a w =
     (case win_handle w of
        None \<Rightarrow> (w, [])
      | Some h \<Rightarrow>
          (let minimized = (case own_monitor a of None \<Rightarrow> []
                            | Some m \<Rightarrow> concat (map (MinimizeWindowOnDisplay h m) (desktop_windows a)))
           in (w\<lparr>win_items := recollected a\<rparr>, minimized @ Show_calls w)))"

text \<open>What a tap starts: the program, and the two ways its window is brought to the display.  The answer is whether
  the shell started something, with the process if there is one.\<close>

datatype TapCall = Executed wstring "wstring option" "wstring option" | RouteForeground | RouteProcess nat

definition LaunchAt :: "RECT \<Rightarrow> RECT \<Rightarrow> nat option option \<Rightarrow> POINT \<Rightarrow> LauncherWindow \<Rightarrow> TapCall list" where
  "LaunchAt client source started point w =
     (case ItemAt (win_items w) client source point of
        None \<Rightarrow> []
      | Some i \<Rightarrow>
          (let item = win_items w ! i; non_empty = (\<lambda>t. if t = [] then None else Some t) in
           Executed (launchPath item) (non_empty (launchParameters item)) (non_empty (launchDirectory item)) #
           (case started of
              None \<Rightarrow> []
            | Some process \<Rightarrow> RouteForeground # (case process of None \<Rightarrow> [] | Some pid \<Rightarrow> [RouteProcess pid]))))"

definition ForwardContextMenu :: "LauncherWindow \<Rightarrow> LauncherCall list" where
  "ForwardContextMenu w = (case win_handle w of None \<Rightarrow> [] | Some h \<Rightarrow> [HiddenWindow h, ShownAgain h])"

subsection \<open>The manager\<close>

definition ShowAll :: "DisplayLauncherManager \<Rightarrow> DisplayLauncherManager" where
  "ShowAll m =
     (if \<not> launcher_enabled m then m
      else m\<lparr>launcher_calls := launcher_calls m @ concat (map Show_calls (windows m))\<rparr>)"

definition SetMode :: "LauncherMode \<Rightarrow> DisplayLauncherManager \<Rightarrow> DisplayLauncherManager" where
  "SetMode mode m =
     (let moved = map (\<lambda>w. Reposition mode (monitorRect w) (win_label w) w) (windows m);
          m' = m\<lparr>launcher_mode := mode, launcher_enabled := (mode \<noteq> Hidden), windows := map fst moved,
                 launcher_calls := launcher_calls m @ concat (map snd moved)\<rparr>
      in if launcher_enabled m' then ShowAll m'
         else m'\<lparr>launcher_calls := launcher_calls m' @ concat (map Hide_calls (windows m'))\<rparr>)"

text \<open>One display, with the handle that a new window gets and the items it then collects.\<close>

definition sync_display ::
    "LauncherDisplay \<times> nat option \<times> LauncherItem list \<Rightarrow> DisplayLauncherManager \<Rightarrow> DisplayLauncherManager" where
  "sync_display d m =
     (case d of (display, h, collected) \<Rightarrow>
        let r = display_rect display in
        if right r \<le> left r \<or> bottom r \<le> upper r then m
        else
          (case find (\<lambda>i. win_target (windows m ! i) = display_target display) [0..<length (windows m)] of
             Some i \<Rightarrow>
               (case Reposition (launcher_mode m) r (display_label display) (windows m ! i) of
                  (w, calls) \<Rightarrow> m\<lparr>windows := (windows m)[i := w], launcher_calls := launcher_calls m @ calls\<rparr>)
           | None \<Rightarrow>
               (let w = \<lparr>win_target = display_target display, win_label = display_label display, monitorRect = r,
                         win_rect = SurfaceRect (launcher_mode m) r, win_handle = h, win_items = collected\<rparr>
                in m\<lparr>windows := windows m @ [w],
                     launcher_calls := launcher_calls m @
                       (case h of None \<Rightarrow> []
                        | Some n \<Rightarrow> Created n r # (if launcher_enabled m then Show_calls w else []))\<rparr>)))"

definition Sync :: "(LauncherDisplay \<times> nat option \<times> LauncherItem list) list \<Rightarrow> DisplayLauncherManager \<Rightarrow> DisplayLauncherManager" where
  "Sync displays m =
     (let m' = fold sync_display displays m;
          stillPresent = (\<lambda>w. list_ex (\<lambda>d. display_target (fst d) = win_target w) displays)
      in m'\<lparr>windows := filter stillPresent (windows m'),
            launcher_calls := launcher_calls m' @ concat (map Destroy_calls (filter (\<lambda>w. \<not> stillPresent w) (windows m')))\<rparr>)"

definition RevealDesktop :: "(LauncherWindow \<Rightarrow> RevealAnswer) \<Rightarrow> DisplayLauncherManager \<Rightarrow> DisplayLauncherManager" where
  "RevealDesktop answer m =
     (if \<not> launcher_enabled m then m
      else
        (let revealed = map (\<lambda>w. Window_RevealDesktop (answer w) w) (windows m) in
         m\<lparr>windows := map fst revealed, launcher_calls := launcher_calls m @ concat (map snd revealed)\<rparr>))"

definition Shutdown :: "DisplayLauncherManager \<Rightarrow> DisplayLauncherManager" where
  "Shutdown m = m\<lparr>windows := [], launcher_calls := launcher_calls m @ concat (map Destroy_calls (windows m))\<rparr>"

text \<open>Which windows are on the screen after the calls.  Only those get messages of the mouse and the keyboard.\<close>

fun on_screen :: "LauncherCall list \<Rightarrow> nat \<Rightarrow> bool" where
  "on_screen [] h = False"
| "on_screen (c # cs) h =
     (case c of
        Created n r \<Rightarrow> if n = h then False else on_screen cs h
      | Destroyed n \<Rightarrow> if n = h then False else on_screen cs h
      | HiddenWindow n \<Rightarrow> if n = h then False else on_screen cs h
      | Shown n r \<Rightarrow> if n = h then True else on_screen cs h
      | ShownAgain n \<Rightarrow> if n = h then True else on_screen cs h
      | _ \<Rightarrow> on_screen cs h)"

definition receives_input :: "DisplayLauncherManager \<Rightarrow> nat \<Rightarrow> bool" where
  "receives_input m i \<longleftrightarrow> i < length (windows m) \<and>
     (case win_handle (windows m ! i) of None \<Rightarrow> False | Some h \<Rightarrow> on_screen (rev (launcher_calls m)) h)"

text \<open>Every message to a window and every call of the tray.\<close>

datatype LauncherOp =
  OpSetMode LauncherMode | OpSync "(LauncherDisplay \<times> nat option \<times> LauncherItem list) list" | OpShowAll
| OpReveal "LauncherWindow \<Rightarrow> RevealAnswer" | OpEscape nat | OpRightClick nat | OpShutdown

fun launcher_op :: "LauncherOp \<Rightarrow> DisplayLauncherManager \<Rightarrow> DisplayLauncherManager" where
  "launcher_op (OpSetMode mode) m = SetMode mode m"
| "launcher_op (OpSync displays) m = Sync displays m"
| "launcher_op OpShowAll m = ShowAll m"
| "launcher_op (OpReveal answer) m = RevealDesktop answer m"
| "launcher_op (OpEscape i) m =
     (if receives_input m i then m\<lparr>launcher_calls := launcher_calls m @ Hide_calls (windows m ! i)\<rparr> else m)"
| "launcher_op (OpRightClick i) m =
     (if receives_input m i then m\<lparr>launcher_calls := launcher_calls m @ ForwardContextMenu (windows m ! i)\<rparr> else m)"
| "launcher_op OpShutdown m = Shutdown m"

definition launcher_ops :: "LauncherOp list \<Rightarrow> DisplayLauncherManager \<Rightarrow> DisplayLauncherManager" where
  "launcher_ops ops m = fold launcher_op ops m"

end
