(* ===== verification/LauncherOwner.thy ===== *)
theory LauncherOwner
  imports LauncherWindows "HOL-Library.Multiset"
begin

text \<open>
  The windows of the launcher panel over any sequence of calls and messages: each window that was created is
  destroyed once or still kept, one per display, on the surface that the mode asks for, and none is visible while
  the launcher is hidden.
\<close>

definition created_handles :: "LauncherCall list \<Rightarrow> nat list" where
  "created_handles cs = concat (map (\<lambda>c. case c of Created h r \<Rightarrow> [h] | _ \<Rightarrow> []) cs)"

definition destroyed_handles :: "LauncherCall list \<Rightarrow> nat list" where
  "destroyed_handles cs = concat (map (\<lambda>c. case c of Destroyed h \<Rightarrow> [h] | _ \<Rightarrow> []) cs)"

definition owned_handles :: "LauncherWindow list \<Rightarrow> nat list" where
  "owned_handles ws = concat (map (\<lambda>w. case win_handle w of None \<Rightarrow> [] | Some h \<Rightarrow> [h]) ws)"

lemma handles_append [simp]:
  "created_handles (a @ b) = created_handles a @ created_handles b"
  "destroyed_handles (a @ b) = destroyed_handles a @ destroyed_handles b"
  "owned_handles (ws @ us) = owned_handles ws @ owned_handles us"
  by (simp_all add: created_handles_def destroyed_handles_def owned_handles_def)

lemma handles_simps [simp]:
  "created_handles [] = []" "destroyed_handles [] = []" "owned_handles [] = []"
  "created_handles (c # cs) = (case c of Created h r \<Rightarrow> [h] | _ \<Rightarrow> []) @ created_handles cs"
  "destroyed_handles (c # cs) = (case c of Destroyed h \<Rightarrow> [h] | _ \<Rightarrow> []) @ destroyed_handles cs"
  "owned_handles (w # ws) = (case win_handle w of None \<Rightarrow> [] | Some h \<Rightarrow> [h]) @ owned_handles ws"
  by (simp_all add: created_handles_def destroyed_handles_def owned_handles_def)

text \<open>Calls that neither create nor destroy.\<close>

definition quiet :: "LauncherCall list \<Rightarrow> bool" where
  "quiet cs \<longleftrightarrow> created_handles cs = [] \<and> destroyed_handles cs = []"

lemma quiet_concat: "(\<And>c. c \<in> set cs \<Longrightarrow> quiet c) \<Longrightarrow> quiet (concat cs)"
  unfolding quiet_def by (induction cs) auto

lemma quiet_calls [simp]: "quiet (Show_calls w)" "quiet (Hide_calls w)" "quiet (ForwardContextMenu w)"
  "quiet (snd (Reposition mode r l w))" "quiet (MinimizeWindowOnDisplay h k x)" "quiet []"
  by (simp_all add: quiet_def Show_calls_def Hide_calls_def ForwardContextMenu_def Reposition_def MinimizeWindowOnDisplay_def Let_def
      split: option.split prod.split)

lemma quiet_append [simp]: "quiet (a @ b) \<longleftrightarrow> quiet a \<and> quiet b"
  by (auto simp: quiet_def)

lemma quiet_reveal [simp]: "quiet (snd (Window_RevealDesktop a w))"
proof -
  have "quiet (concat (map (MinimizeWindowOnDisplay h k) xs))" for h k xs by (rule quiet_concat) auto
  then show ?thesis by (simp add: Window_RevealDesktop_def Let_def split: option.split)
qed

lemma destroy_calls: "created_handles (concat (map Destroy_calls ws)) = []"
  "destroyed_handles (concat (map Destroy_calls ws)) = owned_handles ws"
  by (induction ws) (auto simp: Destroy_calls_def split: option.split)

subsection \<open>The invariant\<close>

definition balanced :: "DisplayLauncherManager \<Rightarrow> bool" where
  "balanced m \<longleftrightarrow> mset (created_handles (launcher_calls m)) =
     mset (destroyed_handles (launcher_calls m)) + mset (owned_handles (windows m))"

definition placed_well :: "DisplayLauncherManager \<Rightarrow> bool" where
  "placed_well m \<longleftrightarrow> distinct (map win_target (windows m)) \<and> (launcher_enabled m \<longleftrightarrow> launcher_mode m \<noteq> Hidden) \<and>
     (\<forall>w \<in> set (windows m). win_rect w = SurfaceRect (launcher_mode m) (monitorRect w))"

definition kept :: "DisplayLauncherManager \<Rightarrow> bool" where
  "kept m \<longleftrightarrow> balanced m \<and> placed_well m"

lemma balanced_quiet:
  "balanced m \<Longrightarrow> launcher_calls m' = launcher_calls m @ cs \<Longrightarrow> quiet cs \<Longrightarrow>
   map win_handle (windows m') = map win_handle (windows m) \<Longrightarrow> balanced m'"
proof -
  have o: "owned_handles ws = concat (map (\<lambda>h. case h of None \<Rightarrow> [] | Some h \<Rightarrow> [h]) (map win_handle ws))" for ws
    by (simp add: owned_handles_def comp_def)
  show "balanced m \<Longrightarrow> launcher_calls m' = launcher_calls m @ cs \<Longrightarrow> quiet cs \<Longrightarrow>
      map win_handle (windows m') = map win_handle (windows m) \<Longrightarrow> balanced m'"
    unfolding balanced_def quiet_def o by simp
qed

lemma Reposition_facts [simp]:
  "win_handle (fst (Reposition mode r l w)) = win_handle w" "win_target (fst (Reposition mode r l w)) = win_target w"
  "win_rect (fst (Reposition mode r l w)) = SurfaceRect mode (monitorRect (fst (Reposition mode r l w)))"
  "monitorRect (fst (Reposition mode r l w)) = r"
  by (simp_all add: Reposition_def Let_def)

lemma reveal_facts [simp]:
  "win_handle (fst (Window_RevealDesktop a w)) = win_handle w" "win_target (fst (Window_RevealDesktop a w)) = win_target w"
  "win_rect (fst (Window_RevealDesktop a w)) = win_rect w" "monitorRect (fst (Window_RevealDesktop a w)) = monitorRect w"
  by (simp_all add: Window_RevealDesktop_def Let_def split: option.split)

lemma placed_wellI:
  "map win_target (windows m') = ts \<Longrightarrow> distinct ts \<Longrightarrow> (launcher_enabled m' \<longleftrightarrow> launcher_mode m' \<noteq> Hidden) \<Longrightarrow>
   (\<And>w. w \<in> set (windows m') \<Longrightarrow> win_rect w = SurfaceRect (launcher_mode m') (monitorRect w)) \<Longrightarrow> placed_well m'"
  unfolding placed_well_def by blast

lemma placed_wellD:
  assumes "placed_well m"
  shows "distinct (map win_target (windows m))" "launcher_enabled m \<longleftrightarrow> launcher_mode m \<noteq> Hidden"
    "w \<in> set (windows m) \<Longrightarrow> win_rect w = SurfaceRect (launcher_mode m) (monitorRect w)"
  using assms unfolding placed_well_def by blast+

lemma keptD: "kept m \<Longrightarrow> balanced m" "kept m \<Longrightarrow> placed_well m"
  unfolding kept_def by blast+

lemma kept_calls: "kept m \<Longrightarrow> quiet cs \<Longrightarrow> kept (m\<lparr>launcher_calls := launcher_calls m @ cs\<rparr>)"
proof -
  assume k: "kept m" and q: "quiet cs"
  have "balanced (m\<lparr>launcher_calls := launcher_calls m @ cs\<rparr>)" using q by (intro balanced_quiet [OF keptD(1) [OF k], where cs = cs]) simp_all
  moreover have "placed_well (m\<lparr>launcher_calls := launcher_calls m @ cs\<rparr>) = placed_well m" by (simp add: placed_well_def)
  ultimately show ?thesis using keptD(2) [OF k] unfolding kept_def by blast
qed

lemma quiet_map: "(\<And>w. quiet (f w)) \<Longrightarrow> quiet (concat (map f ws))"
  by (rule quiet_concat) auto

lemma kept_ShowAll: "kept m \<Longrightarrow> kept (ShowAll m)"
  using kept_calls [OF _ quiet_map [where f = Show_calls], of m "windows m"] by (simp add: ShowAll_def)

text \<open>All windows are changed in place.\<close>

lemma kept_all:
  assumes k: "kept m" and f: "\<And>w. win_handle (fst (f w)) = win_handle w" "\<And>w. win_target (fst (f w)) = win_target w"
    "\<And>w. quiet (snd (f w))" and r: "\<And>w. w \<in> set (windows m) \<Longrightarrow> win_rect (fst (f w)) = SurfaceRect mode (monitorRect (fst (f w)))"
    and e: "en \<longleftrightarrow> mode \<noteq> Hidden"
  shows "kept (m\<lparr>launcher_mode := mode, launcher_enabled := en, windows := map fst (map f (windows m)),
    launcher_calls := launcher_calls m @ concat (map snd (map f (windows m)))\<rparr>)" (is "kept ?m")
proof -
  have "quiet (concat (map snd (map f (windows m))))" by (rule quiet_concat) (auto simp: f(3))
  then have "balanced ?m" by (intro balanced_quiet [OF keptD(1) [OF k], where cs = "concat (map snd (map f (windows m)))"]) (simp_all add: comp_def f(1))
  moreover have "placed_well ?m"
  proof (rule placed_wellI [OF _ placed_wellD(1) [OF keptD(2) [OF k]]])
    show "map win_target (windows ?m) = map win_target (windows m)" by (simp add: comp_def f(2))
    show "launcher_enabled ?m \<longleftrightarrow> launcher_mode ?m \<noteq> Hidden" using e by simp
    show "win_rect w = SurfaceRect (launcher_mode ?m) (monitorRect w)" if "w \<in> set (windows ?m)" for w using that r by auto
  qed
  ultimately show ?thesis unfolding kept_def by blast
qed

lemma kept_SetMode: "kept m \<Longrightarrow> kept (SetMode mode m)"
proof -
  assume k: "kept m"
  define f where "f = (\<lambda>w. Reposition mode (monitorRect w) (win_label w) w)"
  have m': "kept (m\<lparr>launcher_mode := mode, launcher_enabled := (mode \<noteq> Hidden), windows := map fst (map f (windows m)),
      launcher_calls := launcher_calls m @ concat (map snd (map f (windows m)))\<rparr>)"
    by (rule kept_all [OF k]) (simp_all add: f_def)
  show ?thesis
  proof (cases "mode = Hidden")
    case True
    then show ?thesis
      using kept_calls [OF m' quiet_map [where f = Hide_calls], of "map fst (map f (windows m))"]
      by (simp add: SetMode_def Let_def f_def comp_def)
  qed (use kept_ShowAll [OF m'] in \<open>simp add: SetMode_def Let_def f_def comp_def\<close>)
qed

lemma kept_Reveal: "kept m \<Longrightarrow> kept (RevealDesktop answer m)"
proof -
  assume k: "kept m"
  note p = placed_wellD [OF keptD(2) [OF k]]
  have "kept (m\<lparr>launcher_mode := launcher_mode m, launcher_enabled := launcher_enabled m,
      windows := map fst (map (\<lambda>w. Window_RevealDesktop (answer w) w) (windows m)),
      launcher_calls := launcher_calls m @ concat (map snd (map (\<lambda>w. Window_RevealDesktop (answer w) w) (windows m)))\<rparr>)"
    by (rule kept_all [OF k]) (simp_all add: p(3) p(2))
  then show ?thesis using k by (simp add: RevealDesktop_def Let_def)
qed

text \<open>What one display does: nothing when its rectangle is empty, else its window moves or is created.\<close>

lemma sync_display_cases:
  obtains (empty) "sync_display d m = m"
      "right (display_rect (fst d)) \<le> left (display_rect (fst d)) \<or> bottom (display_rect (fst d)) \<le> upper (display_rect (fst d))"
  | (moved) i q where "i < length (windows m)" "win_target (windows m ! i) = display_target (fst d)"
      "q = Reposition (launcher_mode m) (display_rect (fst d)) (display_label (fst d)) (windows m ! i)"
      "sync_display d m = m\<lparr>windows := (windows m)[i := fst q], launcher_calls := launcher_calls m @ snd q\<rparr>"
  | (created) w where "display_target (fst d) \<notin> set (map win_target (windows m))" "win_target w = display_target (fst d)"
      "monitorRect w = display_rect (fst d)" "win_rect w = SurfaceRect (launcher_mode m) (monitorRect w)"
      "sync_display d m = m\<lparr>windows := windows m @ [w], launcher_calls := launcher_calls m @
         (case win_handle w of None \<Rightarrow> []
          | Some n \<Rightarrow> Created n (monitorRect w) # (if launcher_enabled m then Show_calls w else []))\<rparr>"
proof -
  obtain display h items where d: "d = (display, h, items)" by (cases d) auto
  define r where "r = display_rect display"
  define w where "w = \<lparr>win_target = display_target display, win_label = display_label display, monitorRect = r,
      win_rect = SurfaceRect (launcher_mode m) r, win_handle = h, win_items = items\<rparr>"
  define f where "f = find (\<lambda>i. win_target (windows m ! i) = display_target display) [0..<length (windows m)]"
  have eq: "sync_display d m = (if right r \<le> left r \<or> bottom r \<le> upper r then m
      else case f of
        Some i \<Rightarrow> (case Reposition (launcher_mode m) r (display_label display) (windows m ! i) of
          (w, calls) \<Rightarrow> m\<lparr>windows := (windows m)[i := w], launcher_calls := launcher_calls m @ calls\<rparr>)
      | None \<Rightarrow> m\<lparr>windows := windows m @ [w], launcher_calls := launcher_calls m @
         (case h of None \<Rightarrow> [] | Some n \<Rightarrow> Created n r # (if launcher_enabled m then Show_calls w else []))\<rparr>)"
    unfolding sync_display_def d prod.case Let_def r_def w_def f_def ..
  show thesis
  proof (cases "right r \<le> left r \<or> bottom r \<le> upper r")
    case True
    with that(1) show thesis by (simp add: eq) (simp add: r_def d)
  next
    case nonempty: False
    show thesis
    proof (cases f)
      case None
      then have "display_target display \<notin> set (map win_target (windows m))"
        by (auto simp: f_def find_None_iff in_set_conv_nth)
      moreover have "sync_display d m = m\<lparr>windows := windows m @ [w], launcher_calls := launcher_calls m @
          (case win_handle w of None \<Rightarrow> []
           | Some n \<Rightarrow> Created n (monitorRect w) # (if launcher_enabled m then Show_calls w else []))\<rparr>"
      proof -
        have "monitorRect w = r" "win_handle w = h" by (simp_all add: w_def)
        then show ?thesis using nonempty None by (simp only: eq) simp
      qed
      ultimately show thesis by (intro that(3) [of w]) (simp_all add: w_def r_def d)
    next
      case (Some i)
      then have "i < length (windows m)" "win_target (windows m ! i) = display_target display"
        by (auto simp: f_def find_Some_iff)
      with that(2) [of i, OF _ _ refl] nonempty Some show thesis by (simp add: eq case_prod_unfold) (simp add: r_def d)
    qed
  qed
qed

lemma kept_sync_display: "kept m \<Longrightarrow> kept (sync_display d m)"
proof -
  assume k: "kept m"
  note p = placed_wellD [OF keptD(2) [OF k]]
  show ?thesis
  proof (cases rule: sync_display_cases [of d m])
    case (moved i q)
    have "balanced (sync_display d m)"
      using moved by (intro balanced_quiet [OF keptD(1) [OF k], where cs = "snd q"]) (simp_all add: map_update list_update_same_conv)
    moreover have "placed_well (sync_display d m)"
    proof (rule placed_wellI [OF _ p(1)])
      show "map win_target (windows (sync_display d m)) = map win_target (windows m)"
        using moved by (simp add: map_update list_update_same_conv)
      show "win_rect v = SurfaceRect (launcher_mode (sync_display d m)) (monitorRect v)" if "v \<in> set (windows (sync_display d m))" for v
        using that p(3) moved by (auto dest!: set_update_subset_insert [THEN subsetD])
    qed (use p(2) moved in simp)
    ultimately show ?thesis unfolding kept_def by blast
  next
    case (created w)
    have "balanced (sync_display d m)" using keptD(1) [OF k] quiet_calls(1) [of w] created
      by (cases "win_handle w") (simp_all add: balanced_def quiet_def)
    moreover have "placed_well (sync_display d m)"
    proof (rule placed_wellI [OF refl])
      show "distinct (map win_target (windows (sync_display d m)))" using p(1) created by simp
      show "win_rect v = SurfaceRect (launcher_mode (sync_display d m)) (monitorRect v)" if "v \<in> set (windows (sync_display d m))" for v
        using that p(3) created by auto
    qed (use p(2) created in simp)
    ultimately show ?thesis unfolding kept_def by blast
  qed (use k in simp)
qed

lemma kept_Sync: "kept m \<Longrightarrow> kept (Sync displays m)"
proof -
  assume "kept m"
  then have k: "kept (fold sync_display displays m)" by (induction displays arbitrary: m) (simp_all add: kept_sync_display)
  define m' where "m' = fold sync_display displays m"
  define P :: "LauncherWindow \<Rightarrow> bool" where "P = (\<lambda>w. list_ex (\<lambda>d. display_target (fst d) = win_target w) displays)"
  let ?m = "m'\<lparr>windows := filter P (windows m'), launcher_calls := launcher_calls m' @
      concat (map Destroy_calls (filter (\<lambda>w. \<not> P w) (windows m')))\<rparr>"
  note k' = k [folded m'_def]
  note p = placed_wellD [OF keptD(2) [OF k']]
  have "mset (owned_handles ws) = mset (owned_handles (filter P ws)) + mset (owned_handles (filter (\<lambda>w. \<not> P w) ws))" for ws
    by (induction ws) auto
  from this [of "windows m'"] have "balanced ?m" using keptD(1) [OF k'] by (simp add: balanced_def destroy_calls)
  moreover have "placed_well ?m"
    by (rule placed_wellI [OF refl]) (use p in \<open>auto simp: distinct_map_filter\<close>)
  ultimately show ?thesis
    unfolding Sync_def Let_def m'_def [symmetric] P_def [symmetric] kept_def by blast
qed

lemma kept_Shutdown: "kept m \<Longrightarrow> kept (Shutdown m)"
proof -
  assume k: "kept m"
  have "balanced (Shutdown m)" using keptD(1) [OF k] by (simp add: balanced_def Shutdown_def destroy_calls)
  moreover have "placed_well (Shutdown m)"
    using placed_wellD(2) [OF keptD(2) [OF k]] by (intro placed_wellI [OF refl]) (simp_all add: Shutdown_def)
  ultimately show ?thesis unfolding kept_def by blast
qed

lemma kept_ops: "kept m \<Longrightarrow> kept (launcher_ops ops m)"
proof -
  have "kept m \<Longrightarrow> kept (launcher_op op m)" for op m
    by (cases op) (simp_all add: kept_SetMode kept_Sync kept_ShowAll kept_Reveal kept_Shutdown kept_calls)
  then show "kept m \<Longrightarrow> kept (launcher_ops ops m)"
    unfolding launcher_ops_def by (induction ops arbitrary: m) simp_all
qed

lemma kept_init: "kept DisplayLauncherManager_init"
  by (simp add: kept_def balanced_def placed_well_def DisplayLauncherManager_init_def)

subsection \<open>What is on the screen\<close>

text \<open>While the launcher is hidden.\<close>

definition hidden_well :: "DisplayLauncherManager \<Rightarrow> bool" where
  "hidden_well m \<longleftrightarrow> (\<not> launcher_enabled m \<longrightarrow>
     (\<forall>h \<in> set (owned_handles (windows m)). \<not> on_screen (rev (launcher_calls m)) h))"

text \<open>Calls that put no window on the screen.\<close>

definition no_show :: "LauncherCall list \<Rightarrow> bool" where
  "no_show cs \<longleftrightarrow> (\<forall>c \<in> set cs. case c of Shown h r \<Rightarrow> False | ShownAgain h \<Rightarrow> False | _ \<Rightarrow> True)"

lemma no_show_on_screen: "no_show cs \<Longrightarrow> on_screen (rev cs @ ds) h \<Longrightarrow> on_screen ds h"
proof (induction cs arbitrary: h rule: rev_induct)
  case (snoc c cs)
  then show ?case by (cases c) (auto simp: no_show_def split: if_splits)
qed simp

lemma no_show_append [simp]: "no_show (a @ b) \<longleftrightarrow> no_show a \<and> no_show b"
  by (auto simp: no_show_def)

lemma no_show_concat: "(\<And>c. c \<in> set cs \<Longrightarrow> no_show c) \<Longrightarrow> no_show (concat cs)"
  unfolding no_show_def by auto

lemma no_show_calls [simp]: "no_show (Hide_calls w)" "no_show (Destroy_calls w)" "no_show (snd (Reposition mode r l w))" "no_show []"
  by (auto simp: no_show_def Hide_calls_def Destroy_calls_def Reposition_def Let_def split: option.splits)

lemma hidden_step:
  assumes "hidden_well m" and "launcher_calls m' = launcher_calls m @ cs" and "no_show cs"
    and "launcher_enabled m' = launcher_enabled m" and "set (owned_handles (windows m')) \<subseteq> set (owned_handles (windows m))"
  shows "hidden_well m'"
  using assms no_show_on_screen [OF assms(3), of "rev (launcher_calls m)"] unfolding hidden_well_def by auto

lemma owned_set: "set (owned_handles ws) = {h. \<exists>w \<in> set ws. win_handle w = Some h}"
  by (induction ws) (auto split: option.splits)

lemma hide_all: "h \<in> set (owned_handles ws) \<Longrightarrow> \<not> on_screen (rev (cs @ concat (map Hide_calls ws))) h"
proof (induction ws rule: rev_induct)
  case (snoc w ws)
  then show ?case by (cases "win_handle w") (auto simp: Hide_calls_def)
qed simp

lemma hidden_SetMode: "hidden_well m \<Longrightarrow> hidden_well (SetMode mode m)"
proof (cases "mode = Hidden")
  case True
  let ?ws = "map fst (map (\<lambda>w. Reposition mode (monitorRect w) (win_label w) w) (windows m))"
  have "windows (SetMode mode m) = ?ws" "launcher_calls (SetMode mode m) = (launcher_calls m @
      concat (map snd (map (\<lambda>w. Reposition mode (monitorRect w) (win_label w) w) (windows m)))) @ concat (map Hide_calls ?ws)"
    using True by (simp_all add: SetMode_def Let_def comp_def)
  note e = this
  show ?thesis unfolding hidden_well_def e using hide_all [of _ ?ws] by blast
qed (simp add: SetMode_def Let_def ShowAll_def hidden_well_def)

lemma hidden_sync_display: "hidden_well m \<Longrightarrow> hidden_well (sync_display d m)"
proof -
  assume k: "hidden_well m"
  show ?thesis
  proof (cases rule: sync_display_cases [of d m])
    case (moved i q)
    then have "set (owned_handles ((windows m)[i := fst q])) \<subseteq> set (owned_handles (windows m))"
      by (auto simp: owned_set dest!: set_update_subset_insert [THEN subsetD]) (metis nth_mem)?
    with moved show ?thesis by (intro hidden_step [OF k, where cs = "snd q"]) simp_all
  next
    case (created w)
    with k show ?thesis by (cases "win_handle w") (auto simp: hidden_well_def)
  qed (use k in simp)
qed

lemma hidden_Sync: "hidden_well m \<Longrightarrow> hidden_well (Sync displays m)"
proof -
  assume "hidden_well m"
  then have k: "hidden_well (fold sync_display displays m)" by (induction displays arbitrary: m) (simp_all add: hidden_sync_display)
  show ?thesis
    unfolding Sync_def Let_def
    by (rule hidden_step [OF k], simp, intro no_show_concat) (auto simp: owned_set)
qed

lemma hidden_ops: "hidden_well m \<Longrightarrow> hidden_well (launcher_ops ops m)"
proof -
  have "hidden_well (launcher_op op m)" if k: "hidden_well m" for op m
  proof (cases op)
    case (OpRightClick i)
    show ?thesis
    proof (cases "receives_input m i")
      case True
      then obtain h where h: "i < length (windows m)" "win_handle (windows m ! i) = Some h" "on_screen (rev (launcher_calls m)) h"
        by (auto simp: receives_input_def split: option.splits)
      then have "h \<in> set (owned_handles (windows m))" using nth_mem by (fastforce simp: owned_set)
      with k h(3) have "launcher_enabled m" by (auto simp: hidden_well_def)
      then show ?thesis by (simp add: OpRightClick hidden_well_def)
    qed (simp add: OpRightClick k)
  next
    case (OpEscape i)
    show ?thesis using hidden_step [OF k, of "m\<lparr>launcher_calls := launcher_calls m @ Hide_calls (windows m ! i)\<rparr>"] k
      by (simp add: OpEscape)
  next
    case (OpSetMode mode)
    show ?thesis by (simp add: OpSetMode hidden_SetMode [OF k])
  next
    case (OpSync displays)
    show ?thesis by (simp add: OpSync hidden_Sync [OF k])
  next
    case OpShutdown
    show ?thesis by (simp add: OpShutdown Shutdown_def hidden_well_def)
  qed (use k in \<open>simp_all add: ShowAll_def RevealDesktop_def Let_def hidden_well_def\<close>)
  then show "hidden_well m \<Longrightarrow> hidden_well (launcher_ops ops m)"
    unfolding launcher_ops_def by (induction ops arbitrary: m) simp_all
qed

lemma hidden_init: "hidden_well DisplayLauncherManager_init"
  by (simp add: hidden_well_def DisplayLauncherManager_init_def)

subsection \<open>Properties\<close>


definition tablet_rect :: RECT where "tablet_rect = \<lparr>left = 1920, upper = 0, right = 3120, bottom = 834\<rparr>"

definition tablet :: LauncherDisplay where
  "tablet = \<lparr>display_target = ''192.168.1.2'', display_label = wide ''iPad'', display_rect = tablet_rect\<rparr>"

definition sample_ops :: "LauncherOp list" where
  "sample_ops = [OpSync [(tablet, Some 7, [])], OpSetMode Region, OpRightClick 0, OpSetMode Hidden,
     OpSync [(tablet, Some 8, []), (tablet\<lparr>display_target := ''usb''\<rparr>, Some 9, [])], OpRightClick 1, OpSync [(tablet\<lparr>display_target := ''usb''\<rparr>, None, [])]]"


text \<open>What the windows cover, by target.\<close>

definition covered :: "LauncherWindow list \<Rightarrow> (string \<times> RECT) list" where
  "covered ws = map (\<lambda>w. (win_target w, monitorRect w)) ws"

definition wanted :: "(LauncherDisplay \<times> nat option \<times> LauncherItem list) list \<Rightarrow> (string \<times> RECT) list" where
  "wanted displays = map (\<lambda>d. (display_target (fst d), display_rect (fst d))) displays"

definition extended :: "LauncherDisplay \<Rightarrow> bool" where
  "extended d \<longleftrightarrow> left (display_rect d) < right (display_rect d) \<and> upper (display_rect d) < bottom (display_rect d)"

lemma covered_step:
  assumes "extended (fst d)" and "distinct (map win_target (windows m))"
  shows "(display_target (fst d), display_rect (fst d)) \<in> set (covered (windows (sync_display d m)))"
    "x \<in> set (covered (windows m)) \<Longrightarrow> fst x \<noteq> display_target (fst d) \<Longrightarrow> x \<in> set (covered (windows (sync_display d m)))"
proof -
  have "(display_target (fst d), display_rect (fst d)) \<in> set (covered (windows (sync_display d m))) \<and>
    (\<forall>x \<in> set (covered (windows m)). fst x \<noteq> display_target (fst d) \<longrightarrow> x \<in> set (covered (windows (sync_display d m))))"
  proof (cases rule: sync_display_cases [of d m])
    case empty
    with assms(1) show ?thesis by (auto simp: extended_def)
  next
    case (moved i q)
    let ?ws = "(windows m)[i := fst q]"
    have "?ws ! i = fst q" "?ws ! i \<in> set ?ws" using moved(1) by (simp_all add: set_update_memI)
    then have "(display_target (fst d), display_rect (fst d)) \<in> set (covered ?ws)"
      using moved by (force simp: covered_def)
    moreover have "x \<in> set (covered ?ws)" if x: "x \<in> set (covered (windows m))" "fst x \<noteq> display_target (fst d)" for x
    proof -
      obtain j where j: "j < length (windows m)" "x = (win_target (windows m ! j), monitorRect (windows m ! j))"
        using x(1) by (auto simp: covered_def in_set_conv_nth)
      then have "j \<noteq> i" using x(2) moved(2) by auto
      then have "?ws ! j = windows m ! j" "?ws ! j \<in> set ?ws" using j(1) by (simp, metis length_list_update nth_mem)
      then show ?thesis using j(2) by (force simp: covered_def)
    qed
    ultimately show ?thesis using moved(4) by simp
  next
    case (created w)
    then show ?thesis by (auto simp: covered_def)
  qed
  then show "(display_target (fst d), display_rect (fst d)) \<in> set (covered (windows (sync_display d m)))"
    "x \<in> set (covered (windows m)) \<Longrightarrow> fst x \<noteq> display_target (fst d) \<Longrightarrow> x \<in> set (covered (windows (sync_display d m)))"
    by blast+
qed

lemma covered_all:
  assumes "kept m" and "distinct (map (display_target \<circ> fst) displays)" and "\<forall>d \<in> set displays. extended (fst d)"
  shows "set (wanted displays) \<subseteq> set (covered (windows (fold sync_display displays m)))"
  using assms
proof (induction displays rule: rev_induct)
  case (snoc d ds)
  have k: "kept (fold sync_display ds m)" using snoc.prems(1) by (induction ds arbitrary: m) (simp_all add: kept_sync_display)
  note step = covered_step [OF _ placed_wellD(1) [OF keptD(2) [OF k]], of d]
  have ex: "extended (fst d)" using snoc.prems(3) by simp
  show ?case
  proof
    fix x assume "x \<in> set (wanted (ds @ [d]))"
    then consider "x = (display_target (fst d), display_rect (fst d))" | "x \<in> set (wanted ds)" by (auto simp: wanted_def)
    then show "x \<in> set (covered (windows (fold sync_display (ds @ [d]) m)))"
    proof cases
      case 2
      then have "fst x \<noteq> display_target (fst d)" using snoc.prems(2) by (auto simp: wanted_def image_iff)
      moreover have "x \<in> set (covered (windows (fold sync_display ds m)))" using 2 snoc by auto
      ultimately show ?thesis using step(2) [OF ex] by simp
    qed (use step(1) [OF ex] in simp)
  qed
qed (simp add: wanted_def)

text \<open>After \<^verbatim>\<open>Sync\<close> the windows are exactly those of the displays: whatever windows there were
  before, there is one for each display, on its rectangle, and none for a display that is gone.\<close>

lemma launcher_follows_the_displays:
  assumes "m = launcher_ops ops DisplayLauncherManager_init" and "distinct (map (display_target \<circ> fst) displays)"
    and "\<forall>d \<in> set displays. extended (fst d)"
  shows "mset (covered (windows (Sync displays m))) = mset (wanted displays)"
proof -
  have k: "kept m" unfolding assms by (intro kept_ops kept_init)
  define ws where "ws = windows (fold sync_display displays m)"
  define P :: "LauncherWindow \<Rightarrow> bool" where "P = (\<lambda>w. list_ex (\<lambda>d. display_target (fst d) = win_target w) displays)"
  have w: "windows (Sync displays m) = filter P ws" by (simp add: Sync_def Let_def ws_def P_def)
  have "kept (fold sync_display displays m)" using k by (induction displays arbitrary: m) (simp_all add: kept_sync_display)
  then have d: "distinct (map win_target ws)" using placed_wellD(1) keptD(2) unfolding ws_def by blast
  have c: "set (wanted displays) \<subseteq> set (covered ws)" using covered_all [OF k assms(2,3)] by (simp add: ws_def)
  have fd: "distinct (map fst (covered ws))" using d by (simp add: covered_def comp_def)
  have "set (covered (filter P ws)) = set (wanted displays)"
  proof
    show "set (covered (filter P ws)) \<subseteq> set (wanted displays)"
    proof
      fix x assume "x \<in> set (covered (filter P ws))"
      then obtain v where v: "v \<in> set ws" "P v" "x = (win_target v, monitorRect v)" by (auto simp: covered_def)
      then obtain e where e: "e \<in> set displays" "display_target (fst e) = win_target v" by (auto simp: P_def list_ex_iff)
      then have "(win_target v, display_rect (fst e)) \<in> set (covered ws)" using c by (force simp: wanted_def)
      moreover have "x \<in> set (covered ws)" using v by (force simp: covered_def)
      ultimately have "monitorRect v = display_rect (fst e)" using fd v(3) by (metis eq_key_imp_eq_value)
      then show "x \<in> set (wanted displays)" using v(3) e by (force simp: wanted_def)
    qed
    show "set (wanted displays) \<subseteq> set (covered (filter P ws))"
    proof
      fix x assume x: "x \<in> set (wanted displays)"
      then obtain v where "v \<in> set ws" "x = (win_target v, monitorRect v)" using c by (auto simp: covered_def)
      moreover from this x have "P v" by (force simp: P_def list_ex_iff wanted_def)
      ultimately show "x \<in> set (covered (filter P ws))" by (force simp: covered_def)
    qed
  qed
  moreover have "distinct (covered (filter P ws))" using d by (simp add: covered_def distinct_map inj_on_def)
  moreover have "distinct (wanted displays)" using assms(2) by (auto simp: wanted_def distinct_map inj_on_def)
  ultimately show ?thesis unfolding w by (simp add: set_eq_iff_mset_eq_distinct)
qed

lemma launcher_follows_the_displays_witness:
  "mset (covered (windows (Sync [(tablet\<lparr>display_target := ''usb''\<rparr>, Some 9, [])]
     (launcher_ops [OpSync [(tablet, Some 7, [])]] DisplayLauncherManager_init)))) = {#(''usb'', tablet_rect)#}"
  using launcher_follows_the_displays [OF refl, of "[(tablet\<lparr>display_target := ''usb''\<rparr>, Some 9, [])]" "[OpSync [(tablet, Some 7, [])]]"]
  by (simp add: wanted_def tablet_def extended_def tablet_rect_def)

subsection \<open>Where the code falls short\<close>

text \<open>A window that could not be created is kept without a handle and never tried again.\<close>

lemma failed_window_is_never_created_again:
  "let m = launcher_ops [OpSync [(tablet, None, [])], OpSync [(tablet, Some 7, [])], OpShowAll, OpSync [(tablet, Some 8, [])]]
       DisplayLauncherManager_init
   in length (windows m) = 1 \<and> owned_handles (windows m) = [] \<and> launcher_calls m = []"
  by code_simp

text \<open>The region reaches beyond a monitor that is narrower than three columns.\<close>

lemma region_beyond_a_narrow_monitor:
  "right (SurfaceRect Region \<lparr>left = 0, upper = 0, right = 240, bottom = 320\<rparr>) = 306"
  by code_simp

lemma region_fits:
  "306 \<le> right r - left r \<Longrightarrow> left r \<le> left (SurfaceRect mode r) \<and> right (SurfaceRect mode r) \<le> right r \<and>
     upper (SurfaceRect mode r) = upper r \<and> bottom (SurfaceRect mode r) = bottom r"
  by (auto simp: SurfaceRect_def Let_def cell_sizes)

end
