(* ===== verification/PanelLayout.thy ===== *)
theory PanelLayout
  imports LauncherItems TrayEvents
begin

text \<open>
  The control panel of the tray (\<^verbatim>\<open>src/src/app/TrayApp.cpp\<close>): where its controls are, which one a
  click means, the cursor over it, and how it scrolls.  Painting is left out.
\<close>

subsection \<open>The layout\<close>

abbreviation rect :: "int \<Rightarrow> int \<Rightarrow> int \<Rightarrow> int \<Rightarrow> RECT" where
  "rect l t r b \<equiv> \<lparr>left = l, upper = t, right = r, bottom = b\<rparr>"

record PanelLayout =
  themeButton :: RECT
  primaryConnectionButton :: RECT
  secondaryConnectionButton :: RECT
  revealButton :: RECT
  displaySettingsButton :: RECT
  placeRightButton :: RECT
  diagnosticsButton :: RECT
  modeCards :: "RECT list"
  settingsCard :: RECT
  advancedSettingsButton :: RECT
  discoveryInput :: RECT
  addDiscoveredButton :: RECT
  devicesInput :: RECT
  profileCards :: "RECT list"
  portInput :: RECT
  fpsInput :: RECT
  bitrateInput :: RECT
  autoReconnectToggle :: RECT
  privateNetworkToggle :: RECT
  saveSettingsButton :: RECT
  deviceSelector :: RECT
  deviceConnectButton :: RECT
  deviceDefaultButton :: RECT
  deviceUpButton :: RECT
  deviceRemoveButton :: RECT

definition PanelScale :: "int \<Rightarrow> int \<Rightarrow> int" where
  "PanelScale dpi n = MulDiv n (if dpi = 0 then 96 else dpi) 96"

definition card_row :: "int \<Rightarrow> int \<Rightarrow> int \<Rightarrow> int \<Rightarrow> int \<Rightarrow> RECT list" where
  "card_row x w gap t b = map (\<lambda>i. rect (x + i * (w + gap)) t (x + i * (w + gap) + w) b) [0, 1, 2]"

definition BuildPanelLayout :: "int \<Rightarrow> RECT \<Rightarrow> PanelLayout" where
  "BuildPanelLayout dpi client =
     (let S = PanelScale dpi;
          margin = S 28; gap = S 14; themeWidth = S 94; buttonHeight = S 40; cardTop = S 304; cardHeight = S 92;
          contentWidth = max 1 (right client - left client - 2 * margin);
          cardWidth = max 1 ((contentWidth - 2 * gap) div 3);
          primaryRight = margin + S 150;
          selectorRight = right client - margin - S 388;
          connectRight = selectorRight + gap + S 96;
          defaultRight = connectRight + gap + S 96;
          upRight = defaultRight + gap + S 60;
          buttonTop = cardTop + cardHeight + S 20;
          utilityGap = S 10;
          utilityWidth = max 1 ((contentWidth - 3 * utilityGap) div 4);
          revealRight = margin + utilityWidth;
          displayRight = revealRight + utilityGap + utilityWidth;
          placeRight = displayRight + utilityGap + utilityWidth;
          settingsTop = buttonTop + buttonHeight + S 60;
          cardRight = right client - margin;
          inputLeft = margin + S 22; inputRight = cardRight - S 22; fieldGap = S 14;
          discoveryRight = inputRight - S 118;
          profileTop = settingsTop + S 128;
          profileWidth = max 1 ((inputRight - inputLeft - 2 * fieldGap) div 3);
          fieldWidth = max 1 ((inputRight - inputLeft - 2 * fieldGap) div 3);
          fieldsTop = settingsTop + S 128;
          portRight = inputLeft + fieldWidth;
          fpsRight = portRight + fieldGap + fieldWidth;
          togglesTop = settingsTop + S 163;
          autoRight = inputLeft + S 198
      in \<lparr>themeButton = rect (right client - margin - themeWidth) (S 26) (right client - margin) (S 26 + S 34),
          primaryConnectionButton = rect (margin + S 24) (S 204) primaryRight (S 240),
          secondaryConnectionButton = rect (primaryRight + gap) (S 204) (primaryRight + gap + S 142) (S 240),
          revealButton = rect margin buttonTop revealRight (buttonTop + buttonHeight),
          displaySettingsButton = rect (revealRight + utilityGap) buttonTop displayRight (buttonTop + buttonHeight),
          placeRightButton = rect (displayRight + utilityGap) buttonTop placeRight (buttonTop + buttonHeight),
          diagnosticsButton = rect (placeRight + utilityGap) buttonTop (right client - margin) (buttonTop + buttonHeight),
          modeCards = card_row margin cardWidth gap cardTop (cardTop + cardHeight),
          settingsCard = rect margin settingsTop cardRight (settingsTop + S 200),
          advancedSettingsButton = rect (inputRight - S 112) (settingsTop + S 12) inputRight (settingsTop + S 40),
          discoveryInput = rect inputLeft (settingsTop + S 58) discoveryRight (settingsTop + S 88),
          addDiscoveredButton = rect (discoveryRight + S 10) (settingsTop + S 58) inputRight (settingsTop + S 88),
          devicesInput = rect inputLeft (settingsTop + S 58) inputRight (settingsTop + S 99),
          profileCards = card_row inputLeft profileWidth fieldGap profileTop (profileTop + S 34),
          portInput = rect inputLeft fieldsTop portRight (fieldsTop + S 30),
          fpsInput = rect (portRight + fieldGap) fieldsTop fpsRight (fieldsTop + S 30),
          bitrateInput = rect (fpsRight + fieldGap) fieldsTop inputRight (fieldsTop + S 30),
          autoReconnectToggle = rect inputLeft togglesTop autoRight (togglesTop + S 28),
          privateNetworkToggle = rect (autoRight + S 10) togglesTop (autoRight + S 10 + S 242) (togglesTop + S 28),
          saveSettingsButton = rect (inputRight - S 122) (settingsTop + S 159) inputRight (settingsTop + S 193),
          deviceSelector = rect (margin + S 24) (S 166) selectorRight (S 196),
          deviceConnectButton = rect (selectorRight + gap) (S 166) connectRight (S 196),
          deviceDefaultButton = rect (connectRight + gap) (S 166) defaultRight (S 196),
          deviceUpButton = rect (defaultRight + gap) (S 166) upRight (S 196),
          deviceRemoveButton = rect (upRight + gap) (S 166) (right client - margin) (S 196)\<rparr>)"

subsection \<open>Clicks\<close>

datatype PanelControl =
  ThemeArea | PrimaryArea | SecondaryArea | ModeArea nat | RevealArea | DisplaySettingsArea | PlaceRightArea
| DiagnosticsArea | AdvancedArea | AddDiscoveredArea | ProfileArea nat | AutoReconnectArea | PrivateNetworkArea | SaveArea

text \<open>The areas in the order in which a click is compared with them.\<close>

definition click_areas :: "PanelLayout \<Rightarrow> bool \<Rightarrow> (PanelControl \<times> RECT) list" where
  "click_areas l advanced =
     [(ThemeArea, themeButton l), (PrimaryArea, primaryConnectionButton l), (SecondaryArea, secondaryConnectionButton l)] @
     map (\<lambda>i. (ModeArea i, modeCards l ! i)) [0, 1, 2] @
     [(RevealArea, revealButton l), (DisplaySettingsArea, displaySettingsButton l), (PlaceRightArea, placeRightButton l),
      (DiagnosticsArea, diagnosticsButton l), (AdvancedArea, advancedSettingsButton l)] @
     (if advanced then [] else (AddDiscoveredArea, addDiscoveredButton l) # map (\<lambda>i. (ProfileArea i, profileCards l ! i)) [0, 1, 2]) @
     [(AutoReconnectArea, autoReconnectToggle l), (PrivateNetworkArea, privateNetworkToggle l), (SaveArea, saveSettingsButton l)]"

definition scrolled :: "int \<Rightarrow> POINT \<Rightarrow> POINT" where
  "scrolled panelScrollY p = p\<lparr>pt_y := pt_y p + panelScrollY\<rparr>"

definition WM_LBUTTONUP :: "int \<Rightarrow> RECT \<Rightarrow> bool \<Rightarrow> int \<Rightarrow> POINT \<Rightarrow> PanelControl option" where
  "WM_LBUTTONUP dpi client advanced panelScrollY point =
     map_option fst (find (\<lambda>(c, r). PointInRect r (scrolled panelScrollY point)) (click_areas (BuildPanelLayout dpi client) advanced))"

text \<open>Whether the cursor is the hand.\<close>

definition WM_SETCURSOR :: "int \<Rightarrow> RECT \<Rightarrow> bool \<Rightarrow> int \<Rightarrow> POINT \<Rightarrow> bool" where
  "WM_SETCURSOR dpi client advanced panelScrollY cursor =
     (let p = scrolled panelScrollY cursor; l = BuildPanelLayout dpi client;
          clickable = (PointInRect (themeButton l) p \<or> PointInRect (revealButton l) p \<or> PointInRect (primaryConnectionButton l) p \<or>
            PointInRect (secondaryConnectionButton l) p \<or> PointInRect (displaySettingsButton l) p \<or> PointInRect (placeRightButton l) p \<or>
            PointInRect (diagnosticsButton l) p \<or> PointInRect (advancedSettingsButton l) p \<or> PointInRect (autoReconnectToggle l) p \<or>
            PointInRect (privateNetworkToggle l) p \<or> PointInRect (saveSettingsButton l) p)
      in clickable \<or> list_ex (\<lambda>card. PointInRect card p) (modeCards l) \<or>
         (\<not> advanced \<and> (PointInRect (addDiscoveredButton l) p \<or> list_ex (\<lambda>card. PointInRect card p) (profileCards l))))"

text \<open>What a click does to the tray, for the controls that change its state.\<close>

fun panel_event :: "PanelInput \<Rightarrow> nat option \<Rightarrow> string option \<Rightarrow> LauncherMode \<Rightarrow> PanelControl \<Rightarrow> TrayEvent option" where
  "panel_event p row sel mode ThemeArea = Some ThemeButton"
| "panel_event p row sel mode PrimaryArea = Some Toggle"
| "panel_event p row sel mode SecondaryArea = Some (RetryOrSwitch row)"
| "panel_event p row sel mode (ModeArea i) = Some (LauncherModeCard ([Hidden, Fullscreen, Region] ! i))"
| "panel_event p row sel mode RevealArea = (if mode = Hidden then Some (LauncherModeCard Fullscreen) else None)"
| "panel_event p row sel mode AddDiscoveredArea = Some (AddDiscovered sel)"
| "panel_event p row sel mode (ProfileArea i) = Some (ProfileCard ([Balanced, LowBandwidth, Sharp] ! i))"
| "panel_event p row sel mode AutoReconnectArea = Some AutoReconnectToggle"
| "panel_event p row sel mode PrivateNetworkArea = Some PrivateNetworkToggle"
| "panel_event p row sel mode SaveArea = Some (SaveSettings p)"
| "panel_event p row sel mode _ = None"

subsection \<open>Scrolling\<close>

definition clamp_scroll :: "int \<Rightarrow> int \<Rightarrow> int" where
  "clamp_scroll v maximum = (if v < 0 then 0 else if maximum < v then maximum else v)"

definition contentHeight :: "int \<Rightarrow> int" where "contentHeight dpi = PanelScale dpi 760"

definition scroll_page :: "RECT \<Rightarrow> int" where "scroll_page client = max 1 (bottom client - upper client)"

definition UpdatePanelScroll :: "int \<Rightarrow> RECT \<Rightarrow> int \<Rightarrow> int" where
  "UpdatePanelScroll dpi client panelScrollY = clamp_scroll panelScrollY (max 0 (contentHeight dpi - scroll_page client))"

datatype ScrollRequest = LineUp | LineDown | PageUp | PageDown | ThumbTrack int | OtherRequest

fun scroll_position :: "int \<Rightarrow> int \<Rightarrow> int \<Rightarrow> ScrollRequest \<Rightarrow> int" where
  "scroll_position dpi page y LineUp = y - PanelScale dpi 32"
| "scroll_position dpi page y LineDown = y + PanelScale dpi 32"
| "scroll_position dpi page y PageUp = y - page"
| "scroll_position dpi page y PageDown = y + page"
| "scroll_position dpi page y (ThumbTrack t) = t"
| "scroll_position dpi page y OtherRequest = y"

text \<open>The range of the scroll bar is the one that \<^verbatim>\<open>UpdatePanelScroll\<close> has set.\<close>

definition WM_VSCROLL :: "int \<Rightarrow> RECT \<Rightarrow> ScrollRequest \<Rightarrow> int \<Rightarrow> int" where
  "WM_VSCROLL dpi client request panelScrollY =
     (let page = scroll_page client in
      clamp_scroll (scroll_position dpi page panelScrollY request) (max 0 (contentHeight dpi - page + 1)))"

definition WM_MOUSEWHEEL :: "int \<Rightarrow> RECT \<Rightarrow> int \<Rightarrow> int \<Rightarrow> int" where
  "WM_MOUSEWHEEL dpi client delta panelScrollY =
     WM_VSCROLL dpi client (if 0 < delta then LineUp else LineDown) panelScrollY"

subsection \<open>The cursor\<close>

text \<open>The cursor is the hand exactly where a click does something, whatever the size of the window, its
  resolution, how far it is scrolled and whether the advanced settings are open.\<close>

lemma hand_cursor_where_clicks_count:
  "WM_SETCURSOR dpi client advanced y p \<longleftrightarrow> WM_LBUTTONUP dpi client advanced y p \<noteq> None"
proof -
  define l where "l = BuildPanelLayout dpi client"
  have c: "length (modeCards l) = 3" "length (profileCards l) = 3" by (simp_all add: l_def BuildPanelLayout_def Let_def card_row_def)
  have three: "list_ex P xs \<longleftrightarrow> P (xs ! 0) \<or> P (xs ! 1) \<or> P (xs ! 2)" if "length xs = 3" for P and xs :: "RECT list"
    using that by (auto simp: length_Suc_conv numeral_3_eq_3)
  have "(find Q xs \<noteq> None) = list_ex Q xs" for Q :: "PanelControl \<times> RECT \<Rightarrow> bool" and xs
    by (auto simp: find_None_iff list_ex_iff)
  then show ?thesis
    unfolding WM_SETCURSOR_def WM_LBUTTONUP_def Let_def l_def [symmetric] three [OF c(1)] three [OF c(2)]
    by (simp add: click_areas_def) blast
qed

subsection \<open>The controls are apart\<close>

lemma scale_bounds:
  assumes "96 \<le> dpi" and "dpi \<le> 9600" and "0 \<le> n" and "n \<le> 1000"
  shows "96 * PanelScale dpi n \<le> n * dpi + 48" "n * dpi + 48 < 96 * PanelScale dpi n + 96"
proof -
  have "0 \<le> n * dpi" using assms by simp
  moreover have "n * dpi \<le> 1000 * 9600" using assms by (intro mult_mono) simp_all
  ultimately have "(\<bar>n * dpi\<bar> + \<bar>96\<bar> div 2) div \<bar>96\<bar> = (n * dpi + 48) div 96" "0 \<le> (n * dpi + 48) div 96"
    "(n * dpi + 48) div 96 < 2 ^ 31" by simp_all
  then have "PanelScale dpi n = (if n * dpi = 0 then 0 else (n * dpi + 48) div 96)"
    using assms(1) \<open>0 \<le> n * dpi\<close> by (simp add: PanelScale_def MulDiv_def Let_def sgn_if)
  also have "\<dots> = (n * dpi + 48) div 96" by simp
  finally have "PanelScale dpi n = (n * dpi + 48) div 96" .
  then show "96 * PanelScale dpi n \<le> n * dpi + 48" "n * dpi + 48 < 96 * PanelScale dpi n + 96"
    using div_mult_mod_eq [of "n * dpi + 48" 96] pos_mod_bound [of 96 "n * dpi + 48"] pos_mod_sign [of 96 "n * dpi + 48"]
    by linarith+
qed

lemma scale_nonneg: "96 \<le> dpi \<Longrightarrow> dpi \<le> 9600 \<Longrightarrow> 0 \<le> n \<Longrightarrow> n \<le> 1000 \<Longrightarrow> n \<le> PanelScale dpi n"
proof -
  assume a: "96 \<le> dpi" "dpi \<le> 9600" "0 \<le> n" "n \<le> 1000"
  then have "n * 96 \<le> n * dpi" by (intro mult_left_mono) simp_all
  with scale_bounds [OF a] show ?thesis by linarith
qed

lemma scale_mono: "96 \<le> dpi \<Longrightarrow> dpi \<le> 9600 \<Longrightarrow> 0 \<le> a \<Longrightarrow> a \<le> b \<Longrightarrow> b \<le> 1000 \<Longrightarrow> PanelScale dpi a \<le> PanelScale dpi b"
proof -
  assume a: "96 \<le> dpi" "dpi \<le> 9600" "0 \<le> a" "a \<le> b" "b \<le> 1000"
  then have "a * dpi \<le> b * dpi" by (intro mult_right_mono) simp_all
  with scale_bounds [of dpi a] scale_bounds [of dpi b] a show ?thesis by linarith
qed

text \<open>A rounded sum stays within the rounded length when a pixel is left.\<close>

lemma scale_add:
  assumes "96 \<le> dpi" "dpi \<le> 9600" "0 \<le> a" "0 \<le> b" "a + b + 1 \<le> c" "c \<le> 1000"
  shows "PanelScale dpi a + PanelScale dpi b \<le> PanelScale dpi c"
proof -
  have "(a + b + 1) * dpi \<le> c * dpi" using assms by (intro mult_right_mono) simp_all
  then have "a * dpi + b * dpi + dpi \<le> c * dpi" by (simp add: distrib_right)
  moreover have "96 * PanelScale dpi a \<le> a * dpi + 48" "96 * PanelScale dpi b \<le> b * dpi + 48" "c * dpi + 48 < 96 * PanelScale dpi c + 96"
    using scale_bounds [of dpi a] scale_bounds [of dpi b] scale_bounds [of dpi c] assms by simp_all
  ultimately show ?thesis using assms(1) by linarith
qed

text \<open>The rows of the panel, and where each begins and ends.\<close>

fun row_of :: "PanelControl \<Rightarrow> nat" where
  "row_of ThemeArea = 0"
| "row_of PrimaryArea = 1" | "row_of SecondaryArea = 1"
| "row_of (ModeArea i) = 2"
| "row_of RevealArea = 3" | "row_of DisplaySettingsArea = 3" | "row_of PlaceRightArea = 3" | "row_of DiagnosticsArea = 3"
| "row_of AdvancedArea = 4"
| "row_of AddDiscoveredArea = 5"
| "row_of (ProfileArea i) = 6" | "row_of AutoReconnectArea = 6" | "row_of PrivateNetworkArea = 6" | "row_of SaveArea = 6"

definition button_top :: "int \<Rightarrow> int" where
  "button_top dpi = PanelScale dpi 304 + PanelScale dpi 92 + PanelScale dpi 20"

definition settings_top :: "int \<Rightarrow> int" where
  "settings_top dpi = button_top dpi + PanelScale dpi 40 + PanelScale dpi 60"

definition row_edges :: "int \<Rightarrow> int list" where
  "row_edges dpi = [PanelScale dpi 26, PanelScale dpi 204, PanelScale dpi 304, button_top dpi, settings_top dpi + PanelScale dpi 12,
     settings_top dpi + PanelScale dpi 58, settings_top dpi + PanelScale dpi 128]"

text \<open>The layout is a chain of local names; a property of it is shown with the names as variables.\<close>

lemma let_intro: "(\<And>x. x = a \<Longrightarrow> P (f x)) \<Longrightarrow> P (Let a f)"
  by simp

lemma vertical_areas:
  fixes dpi client
  defines "l \<equiv> BuildPanelLayout dpi client" and "S \<equiv> PanelScale dpi"
  shows "upper (themeButton l) = S 26 \<and> bottom (themeButton l) = S 26 + S 34 \<and>
    upper (primaryConnectionButton l) = S 204 \<and> bottom (primaryConnectionButton l) = S 240 \<and>
    upper (secondaryConnectionButton l) = S 204 \<and> bottom (secondaryConnectionButton l) = S 240 \<and>
    upper (revealButton l) = button_top dpi \<and> bottom (revealButton l) = button_top dpi + S 40 \<and>
    upper (displaySettingsButton l) = button_top dpi \<and> bottom (displaySettingsButton l) = button_top dpi + S 40 \<and>
    upper (placeRightButton l) = button_top dpi \<and> bottom (placeRightButton l) = button_top dpi + S 40 \<and>
    upper (diagnosticsButton l) = button_top dpi \<and> bottom (diagnosticsButton l) = button_top dpi + S 40 \<and>
    upper (advancedSettingsButton l) = settings_top dpi + S 12 \<and> bottom (advancedSettingsButton l) = settings_top dpi + S 40 \<and>
    upper (addDiscoveredButton l) = settings_top dpi + S 58 \<and> bottom (addDiscoveredButton l) = settings_top dpi + S 88 \<and>
    upper (autoReconnectToggle l) = settings_top dpi + S 163 \<and> upper (privateNetworkToggle l) = settings_top dpi + S 163 \<and>
    upper (saveSettingsButton l) = settings_top dpi + S 159 \<and> bottom (settingsCard l) = settings_top dpi + S 200" (is "?Q l")
proof -
  define Q where "Q = ?Q"
  have "Q (BuildPanelLayout dpi client)"
    unfolding BuildPanelLayout_def
    by ((rule let_intro [where P = Q])+, unfold Q_def PanelLayout.simps RECT.simps S_def settings_top_def button_top_def) (simp (no_asm_simp))
  then show ?thesis unfolding Q_def l_def .
qed

lemma horizontal_areas:
  fixes dpi client
  defines "l \<equiv> BuildPanelLayout dpi client" and "S \<equiv> PanelScale dpi"
  shows "left (secondaryConnectionButton l) = right (primaryConnectionButton l) + S 14 \<and>
    left (displaySettingsButton l) = right (revealButton l) + S 10 \<and>
    left (placeRightButton l) = right (displaySettingsButton l) + S 10 \<and>
    left (diagnosticsButton l) = right (placeRightButton l) + S 10 \<and>
    left (displaySettingsButton l) < right (displaySettingsButton l) \<and> left (placeRightButton l) < right (placeRightButton l) \<and>
    left (privateNetworkToggle l) = right (autoReconnectToggle l) + S 10 \<and>
    right (privateNetworkToggle l) = left (privateNetworkToggle l) + S 242 \<and>
    right (privateNetworkToggle l) = S 28 + S 22 + S 198 + S 10 + S 242 \<and>
    left (saveSettingsButton l) = right client - S 28 - S 22 - S 122" (is "?Q l")
proof -
  define Q where "Q = ?Q"
  have m: "a < a + max 1 b" for a b :: int by simp
  have "Q (BuildPanelLayout dpi client)"
    unfolding BuildPanelLayout_def
    by ((rule let_intro [where P = Q])+, unfold Q_def PanelLayout.simps RECT.simps S_def) (simp (no_asm_simp) only: m simp_thms)
  then show ?thesis unfolding Q_def l_def .
qed

lemma card_rows:
  fixes dpi client
  defines "l \<equiv> BuildPanelLayout dpi client" and "S \<equiv> PanelScale dpi"
  shows "modeCards l = card_row (S 28) (max 1 ((max 1 (right client - left client - 2 * S 28) - 2 * S 14) div 3)) (S 14)
      (S 304) (S 304 + S 92) \<and>
    profileCards l = card_row (S 28 + S 22) (max 1 ((right client - S 28 - S 22 - (S 28 + S 22) - 2 * S 14) div 3)) (S 14)
      (settings_top dpi + S 128) (settings_top dpi + S 128 + S 34)" (is "?Q l")
proof -
  define Q where "Q = ?Q"
  have "Q (BuildPanelLayout dpi client)"
    unfolding BuildPanelLayout_def
    by ((rule let_intro [where P = Q])+, unfold Q_def PanelLayout.simps RECT.simps S_def settings_top_def button_top_def)
      (simp (no_asm_simp) only: simp_thms)
  then show ?thesis unfolding Q_def l_def .
qed

lemma card_row_facts:
  assumes "i < 3"
  shows "upper (card_row x w gap t b ! i) = t" "bottom (card_row x w gap t b ! i) = b"
    "0 \<le> gap \<Longrightarrow> 0 \<le> w \<Longrightarrow> j < i \<Longrightarrow> right (card_row x w gap t b ! j) \<le> left (card_row x w gap t b ! i)"
  using assms by (auto simp: card_row_def nth_Cons' less_Suc_eq numeral_3_eq_3)

text \<open>The area of each control.\<close>

fun area_of :: "PanelLayout \<Rightarrow> PanelControl \<Rightarrow> RECT" where
  "area_of l ThemeArea = themeButton l"
| "area_of l PrimaryArea = primaryConnectionButton l"
| "area_of l SecondaryArea = secondaryConnectionButton l"
| "area_of l (ModeArea i) = modeCards l ! i"
| "area_of l RevealArea = revealButton l"
| "area_of l DisplaySettingsArea = displaySettingsButton l"
| "area_of l PlaceRightArea = placeRightButton l"
| "area_of l DiagnosticsArea = diagnosticsButton l"
| "area_of l AdvancedArea = advancedSettingsButton l"
| "area_of l AddDiscoveredArea = addDiscoveredButton l"
| "area_of l (ProfileArea i) = profileCards l ! i"
| "area_of l AutoReconnectArea = autoReconnectToggle l"
| "area_of l PrivateNetworkArea = privateNetworkToggle l"
| "area_of l SaveArea = saveSettingsButton l"

fun is_control :: "PanelControl \<Rightarrow> bool" where
  "is_control (ModeArea i) = (i < 3)" | "is_control (ProfileArea i) = (i < 3)" | "is_control _ = True"

lemma click_areas_of: "(c, r) \<in> set (click_areas l advanced) \<Longrightarrow> r = area_of l c \<and> is_control c"
  by (auto simp: click_areas_def split: if_splits)

lemma row_heights:
  assumes "96 \<le> dpi" and "dpi \<le> 9600" and "is_control c"
  shows "row_edges dpi ! row_of c \<le> upper (area_of (BuildPanelLayout dpi client) c) \<and>
    (row_of c < 6 \<longrightarrow> bottom (area_of (BuildPanelLayout dpi client) c) \<le> row_edges dpi ! Suc (row_of c))"
proof -
  note mono = scale_mono [OF assms(1,2)] and add = scale_add [OF assms(1,2)] and pos = scale_nonneg [OF assms(1,2)]
  let ?S = "PanelScale dpi"
  have h: "?S 26 + ?S 34 \<le> ?S 204" "?S 240 \<le> ?S 304" "0 \<le> ?S 20" "0 \<le> ?S 60" "0 \<le> ?S 12"
    "?S 40 \<le> ?S 58" "?S 88 \<le> ?S 128" "?S 128 \<le> ?S 159" "?S 128 \<le> ?S 163"
    using add [of 26 34 204] mono [of 240 304] pos [of 20] pos [of 60] pos [of 12] mono [of 40 58] mono [of 88 128]
      mono [of 128 159] mono [of 128 163] by simp_all
  have t: "button_top dpi + ?S 40 \<le> settings_top dpi + ?S 12" "?S 304 + ?S 92 \<le> button_top dpi"
    using h by (simp_all add: settings_top_def button_top_def)
  show ?thesis
    using assms(3) h t
    by (cases c) (simp_all add: row_edges_def vertical_areas card_rows card_row_facts)
qed

text \<open>In a window that is wide enough, what is left of the save button.\<close>

lemma save_apart:
  assumes d: "96 \<le> dpi" "dpi \<le> 9600" and w: "PanelScale dpi 680 \<le> right client"
  shows "right (privateNetworkToggle (BuildPanelLayout dpi client)) \<le> left (saveSettingsButton (BuildPanelLayout dpi client))"
    "i < 2 \<Longrightarrow> right (profileCards (BuildPanelLayout dpi client) ! i) \<le> left (saveSettingsButton (BuildPanelLayout dpi client))"
proof -
  let ?S = "PanelScale dpi" and ?l = "BuildPanelLayout dpi client"
  note s = scale_bounds [OF d, of 28, simplified] scale_bounds [OF d, of 22, simplified] scale_bounds [OF d, of 198, simplified]
    scale_bounds [OF d, of 10, simplified] scale_bounds [OF d, of 242, simplified] scale_bounds [OF d, of 122, simplified]
    scale_bounds [OF d, of 680, simplified] scale_bounds [OF d, of 14, simplified]
  have l: "right (privateNetworkToggle ?l) = ?S 28 + ?S 22 + ?S 198 + ?S 10 + ?S 242"
    "left (saveSettingsButton ?l) = right client - ?S 28 - ?S 22 - ?S 122"
    using horizontal_areas [of dpi client] by blast+
  show "right (privateNetworkToggle ?l) \<le> left (saveSettingsButton ?l)"
    unfolding l using w d s by linarith
  define N where "N = right client - ?S 28 - ?S 22 - (?S 28 + ?S 22) - 2 * ?S 14"
  have "3 * ?S 122 + 2 * ?S 28 + 2 * ?S 22 \<le> right client + ?S 14" using w d s by linarith
  then have "3 * ?S 122 \<le> N + 3 * ?S 14" by (simp add: N_def)
  moreover have "3 + 2 * ?S 28 + 2 * ?S 22 + 2 * ?S 14 \<le> right client" using w d s by linarith
  then have "3 \<le> N" by (simp add: N_def)
  moreover have "0 \<le> ?S 14" using scale_nonneg [OF d, of 14] by simp
  moreover have "3 * x \<le> N + 3 * y \<Longrightarrow> 3 \<le> N \<Longrightarrow> x \<le> N div 3 + y \<and> 1 \<le> N div 3 \<and> 3 * (N div 3) \<le> N" for x y by presburger
  ultimately have q: "?S 122 \<le> N div 3 + ?S 14" "1 \<le> N div 3" "3 * (N div 3) \<le> N" "0 \<le> ?S 14" by blast+
  have "max 1 (N div 3) = N div 3" using q(2) by simp
  then have c: "profileCards ?l = card_row (?S 28 + ?S 22) (N div 3) (?S 14) (settings_top dpi + ?S 128) (settings_top dpi + ?S 128 + ?S 34)"
    using card_rows [of dpi client] unfolding N_def by simp
  have "right (profileCards ?l ! i) = ?S 28 + ?S 22 + int i * (N div 3 + ?S 14) + N div 3" if "i < 2"
    using that unfolding c by (auto simp: card_row_def less_2_cases_iff)
  moreover note l(2)
  moreover have "?S 28 + ?S 22 + (N div 3 + ?S 14) + N div 3 \<le> right client - ?S 28 - ?S 22 - ?S 122"
    using q(1,3) N_def by linarith
  moreover have "?S 28 + ?S 22 + N div 3 \<le> right client - ?S 28 - ?S 22 - ?S 122" using q N_def by linarith
  ultimately show "i < 2 \<Longrightarrow> right (profileCards ?l ! i) \<le> left (saveSettingsButton ?l)"
    by (auto simp: less_2_cases_iff)
qed

text \<open>Two controls at one point.\<close>

lemma same_row:
  assumes d: "96 \<le> dpi" "dpi \<le> 9600" and c: "is_control c" "is_control c'"
    and h: "PointInRect (area_of (BuildPanelLayout dpi client) c) p" "PointInRect (area_of (BuildPanelLayout dpi client) c') p"
  shows "row_of c = row_of c'"
proof -
  have less: False if "row_of a < row_of b" "is_control a" "is_control b" "PointInRect (area_of (BuildPanelLayout dpi client) a) p"
      "PointInRect (area_of (BuildPanelLayout dpi client) b) p" for a b
  proof -
    note a = row_heights [OF d that(2), of client] and b = row_heights [OF d that(3), of client]
    have six: "row_of x \<le> 6" for x by (cases x) simp_all
    have "row_edges dpi ! Suc (row_of a) \<le> row_edges dpi ! row_of b"
    proof -
      have "sorted (row_edges dpi)"
      proof -
        have "0 \<le> PanelScale dpi k" if "k \<in> {92, 20, 40, 60, 12}" for k using scale_nonneg [OF d, of k] that by auto
        note pos = this [of 92] this [of 20] this [of 40] this [of 60] this [of 12]
        show ?thesis
          using scale_mono [OF d, of 26 204] scale_mono [OF d, of 204 304] scale_mono [OF d, of 12 58] scale_mono [OF d, of 58 128] pos
          by (simp add: row_edges_def settings_top_def button_top_def)
      qed
      moreover have "length (row_edges dpi) = 7" by (simp add: row_edges_def)
      ultimately show ?thesis using that(1) six [of b] by (simp add: sorted_nth_mono)
    qed
    moreover have "row_of a < 6" using that(1) six [of b] by linarith
    ultimately show False using a b that(4,5) by (simp add: PointInRect_def)
  qed
  from less [of c c'] less [of c' c] c h show ?thesis by (meson linorder_neqE_nat)
qed

text \<open>C30. A click on the panel is unambiguous: at any resolution and in any window at least 680 units wide, a point lies
  on at most one control, but for the seam of three units where the third picture-quality card reaches into the save
  button.\<close>

theorem clicks_are_unambiguous:
  assumes "96 \<le> dpi" and "dpi \<le> 9600" and "PanelScale dpi 680 \<le> right client"
    and "(c, r) \<in> set (click_areas (BuildPanelLayout dpi client) advanced)" and "PointInRect r p"
    and "(c', r') \<in> set (click_areas (BuildPanelLayout dpi client) advanced)" and "PointInRect r' p"
  shows "c = c' \<or> {c, c'} = {ProfileArea 2, SaveArea}"
proof -
  let ?l = "BuildPanelLayout dpi client" and ?S = "PanelScale dpi"
  have c: "r = area_of ?l c" "is_control c" "r' = area_of ?l c'" "is_control c'"
    using click_areas_of [OF assms(4)] click_areas_of [OF assms(6)] by simp_all
  have row: "row_of c = row_of c'" using same_row [OF assms(1,2) c(2,4)] assms(5,7) c(1,3) by simp
  have gap: "0 \<le> ?S 14" "0 \<le> ?S 10" "0 \<le> ?S 242"
    using scale_nonneg [OF assms(1,2), of 14] scale_nonneg [OF assms(1,2), of 10] scale_nonneg [OF assms(1,2), of 242] by simp_all
  have profile: "bottom (profileCards ?l ! i) \<le> upper (autoReconnectToggle ?l)" "bottom (profileCards ?l ! i) \<le> upper (privateNetworkToggle ?l)"
    if "i < 3" for i
    using that scale_add [OF assms(1,2), of 128 34 163] by (simp_all add: card_rows card_row_facts vertical_areas)
  note save = save_apart [OF assms(1-3)]
  have cards: "right (modeCards ?l ! i) \<le> left (modeCards ?l ! j)" "right (profileCards ?l ! i) \<le> left (profileCards ?l ! j)"
    if "i < j" "j < 3" for i j
    using that gap by (simp_all add: card_rows card_row_facts)
  let ?at = "\<lambda>c. PointInRect (area_of ?l c) p"
  have x: "\<not> (PointInRect r p \<and> PointInRect r' p)" if "right r \<le> left r'" for r r'
    using that by (auto simp: PointInRect_def)
  have y: "\<not> (PointInRect r p \<and> PointInRect r' p)" if "bottom r \<le> upper r'" for r r'
    using that by (auto simp: PointInRect_def)
  note h = horizontal_areas [of dpi client]
  have apart: "\<not> (?at PrimaryArea \<and> ?at SecondaryArea)" "\<not> (?at RevealArea \<and> ?at DisplaySettingsArea)"
    "\<not> (?at RevealArea \<and> ?at PlaceRightArea)" "\<not> (?at RevealArea \<and> ?at DiagnosticsArea)" "\<not> (?at DisplaySettingsArea \<and> ?at PlaceRightArea)"
    "\<not> (?at DisplaySettingsArea \<and> ?at DiagnosticsArea)" "\<not> (?at PlaceRightArea \<and> ?at DiagnosticsArea)"
    "\<not> (?at AutoReconnectArea \<and> ?at PrivateNetworkArea)"
    unfolding area_of.simps by (rule x, use h gap in linarith)+
  have t: "left (privateNetworkToggle ?l) \<le> right (privateNetworkToggle ?l)" using h gap(3) by linarith
  have toggles: "\<not> (?at AutoReconnectArea \<and> ?at SaveArea)" "\<not> (?at PrivateNetworkArea \<and> ?at SaveArea)"
    unfolding area_of.simps by (rule x, use h gap t save(1) in linarith)+
  have modes: "\<not> (?at (ModeArea i) \<and> ?at (ModeArea j))" "\<not> (?at (ProfileArea i) \<and> ?at (ProfileArea j))" if "i < j" "j < 3" for i j
    unfolding area_of.simps by (rule x, rule cards [OF that])+
  have profiles: "\<not> (?at (ProfileArea i) \<and> ?at AutoReconnectArea)" "\<not> (?at (ProfileArea i) \<and> ?at PrivateNetworkArea)" if "i < 3" for i
    unfolding area_of.simps by (rule y, rule profile [OF that])+
  have saves: "\<not> (?at (ProfileArea i) \<and> ?at SaveArea)" if "i < 2" for i
    unfolding area_of.simps by (rule x, rule save(2) [OF that])
  have sep: "c = c' \<or> {c, c'} = {ProfileArea 2, SaveArea}"
    if "row_of c = row_of c'" "is_control c" "is_control c'" "?at c" "?at c'" for c c'
  proof (cases c; cases c')
    fix i j assume "c = ModeArea i" "c' = ModeArea j"
    then show ?thesis using that modes(1) [of i j] modes(1) [of j i] by (metis is_control.simps(1) nat_neq_iff)
  next
    fix i j assume "c = ProfileArea i" "c' = ProfileArea j"
    then show ?thesis using that modes(2) [of i j] modes(2) [of j i] by (metis is_control.simps(2) nat_neq_iff)
  next
    fix i assume "c = ProfileArea i" "c' = SaveArea"
    then show ?thesis using that saves [of i] by (cases "i < 2") (auto simp: less_Suc_eq numeral_3_eq_3)
  next
    fix i assume "c = SaveArea" "c' = ProfileArea i"
    then show ?thesis using that saves [of i] by (cases "i < 2") (auto simp: less_Suc_eq numeral_3_eq_3)
  qed (use that apart toggles profiles in \<open>auto\<close>)
  then show ?thesis using row c assms(5,7) by blast
qed

lemma clicks_are_unambiguous_witness:
  "let areas = click_areas (BuildPanelLayout 144 (rect 0 0 1100 800)) False; p = \<lparr>pt_x = 1000, pt_y = 1015\<rparr>;
       hits = map fst (filter (\<lambda>(c, r). PointInRect r p) areas)
   in length areas = 18 \<and> hits = [ProfileArea 2, SaveArea] \<and>
      (hits ! 0 = hits ! 1 \<or> {hits ! 0, hits ! 1} = {ProfileArea 2, SaveArea})"
proof -
  let ?areas = "click_areas (BuildPanelLayout 144 (rect 0 0 1100 800)) False" and ?p = "\<lparr>pt_x = 1000, pt_y = 1015\<rparr>"
  have l: "length ?areas = 18" by code_simp
  have h: "map fst (filter (\<lambda>(c, r). PointInRect r ?p) ?areas) = [ProfileArea 2, SaveArea]" by code_simp
  have w: "PanelScale 144 680 \<le> right (rect 0 0 1100 800)" by code_simp
  have "\<exists>r. (c, r) \<in> set ?areas \<and> PointInRect r ?p" if "c \<in> {ProfileArea 2, SaveArea}" for c
  proof -
    have "c \<in> set (map fst (filter (\<lambda>(c, r). PointInRect r ?p) ?areas))" unfolding h using that by auto
    then show ?thesis by auto
  qed
  then obtain r r' where "(ProfileArea 2, r) \<in> set ?areas" "PointInRect r ?p" "(SaveArea, r') \<in> set ?areas" "PointInRect r' ?p" by blast
  then have "ProfileArea 2 = SaveArea \<or> {ProfileArea 2, SaveArea} = {ProfileArea 2, SaveArea}"
    using clicks_are_unambiguous [OF _ _ w] by simp
  then show ?thesis unfolding Let_def l h by simp
qed

subsection \<open>Where the panel falls short\<close>

text \<open>The narrowest window that is allowed is 620 units wide with its frame.  There the switch of the trusted-network
  policy covers the left half of the button that saves.\<close>

lemma saving_toggles_the_policy_in_a_narrow_window:
  "WM_LBUTTONUP 96 (rect 0 0 604 441) False 275 \<lparr>pt_x = 450, pt_y = 416\<rparr> = Some PrivateNetworkArea \<and>
   PointInRect (saveSettingsButton (BuildPanelLayout 96 (rect 0 0 604 441))) (scrolled 275 \<lparr>pt_x = 450, pt_y = 416\<rparr>)"
  by code_simp

text \<open>The scroll bar goes one pixel further than the content.\<close>

lemma scrolling_past_the_end:
  "WM_VSCROLL 96 (rect 0 0 700 500) (ThumbTrack 1000) 0 = 261 \<and> UpdatePanelScroll 96 (rect 0 0 700 500) 1000 = 260"
  by code_simp

subsection \<open>Scrolling\<close>

lemma everything_can_be_scrolled_to:
  assumes "96 \<le> dpi" and "dpi \<le> 9600" and "upper client = 0"
  shows "bottom (settingsCard (BuildPanelLayout dpi client)) - UpdatePanelScroll dpi client (PanelScale dpi 760) \<le> scroll_page client"
proof -
  note s = scale_bounds [OF assms(1,2), of 304, simplified] scale_bounds [OF assms(1,2), of 92, simplified]
    scale_bounds [OF assms(1,2), of 20, simplified] scale_bounds [OF assms(1,2), of 40, simplified] scale_bounds [OF assms(1,2), of 60, simplified]
    scale_bounds [OF assms(1,2), of 200, simplified] scale_bounds [OF assms(1,2), of 760, simplified]
  have "bottom (settingsCard (BuildPanelLayout dpi client)) = settings_top dpi + PanelScale dpi 200"
    using vertical_areas [of dpi client] by blast
  moreover have "settings_top dpi + PanelScale dpi 200 \<le> PanelScale dpi 760"
    unfolding settings_top_def button_top_def using s assms(1) by linarith
  moreover have "1 \<le> scroll_page client" by (simp add: scroll_page_def)
  moreover have "0 \<le> PanelScale dpi 760" using scale_nonneg [OF assms(1,2), of 760] by simp
  ultimately show ?thesis by (auto simp: UpdatePanelScroll_def clamp_scroll_def contentHeight_def)
qed

end
