(* ===== verification/TrayViews.thy ===== *)
theory TrayViews
  imports TrayEvents LauncherOwner DisplayCatalog
begin

text \<open>
  What the tray shows of its sessions (\<^verbatim>\<open>src/src/app/TrayApp.cpp\<close>): the icon, the displays that get
  a launcher, and the display that the user can place beside the primary one.
\<close>

subsection \<open>The icon\<close>

datatype StatusIcon = IconGrey | IconGreen | IconRed

definition PickIcon :: "TrayContext \<Rightarrow> StatusIcon" where
  "PickIcon ctx =
     (if devices (cfg ctx) = [] \<and> usbApp ctx = None then IconGrey
      else if AnyStreaming ctx then IconGreen else IconRed)"

subsection \<open>Launchers\<close>

text \<open>The widening of UTF-8 is an argument.\<close>

definition launcher_displays :: "(string \<Rightarrow> wstring) \<Rightarrow> TrayContext \<Rightarrow> LauncherDisplay list" where
  "launcher_displays widen ctx =
     concat (map (\<lambda>i. let a = apps ctx ! i in
         if state a \<noteq> StateStreaming then []
         else case StreamMonitorRect a of
           None \<Rightarrow> []
         | Some r \<Rightarrow> [\<lparr>display_target = endpoint (devices (cfg ctx) ! i),
                      display_label = widen (DeviceLabel ctx i) @ [0xFF08] @ wide ''WiFi'' @ [0xFF09], display_rect = r\<rparr>])
       [0..<min (length (apps ctx)) (length (devices (cfg ctx)))]) @
     (case usbApp ctx of
        None \<Rightarrow> []
      | Some a \<Rightarrow>
          (if state a \<noteq> StateStreaming then []
           else case StreamMonitorRect a of
             None \<Rightarrow> []
           | Some r \<Rightarrow> [\<lparr>display_target = activeUsbTarget ctx,
                        display_label = wide ''iPad'' @ [0xFF08] @ wide ''USB'' @ [0xFF09], display_rect = r\<rparr>]))"

text \<open>With the handle and the items of each window that is created.\<close>

definition UpdateLaunchers ::
    "(string \<Rightarrow> wstring) \<Rightarrow> (LauncherDisplay \<Rightarrow> nat option \<times> LauncherItem list) \<Rightarrow>
     TrayContext \<Rightarrow> DisplayLauncherManager \<Rightarrow> DisplayLauncherManager" where
  "UpdateLaunchers widen answer ctx launcher =
     Sync (map (\<lambda>d. (d, answer d)) (launcher_displays widen ctx)) launcher"

subsection \<open>Placing the display\<close>

definition ActiveDisplayName :: "int \<Rightarrow> TrayContext \<Rightarrow> wstring" where
  "ActiveDisplayName now ctx =
     (case find (\<lambda>a. snap_phase (Snapshot now a) = ConnectionPhase.Streaming)
             ((case usbApp ctx of None \<Rightarrow> [] | Some a \<Rightarrow> [a]) @ apps ctx) of
        None \<Rightarrow> []
      | Some a \<Rightarrow> snap_displayName (Snapshot now a))"

text \<open>The monitors that are attached, the position of the display, what the user answers, and whether the two changes of
  the display settings succeed.\<close>

record PlaceAnswer =
  attached :: "MonitorInfo option list"
  original_position :: "(int \<times> int) option"
  confirmed :: bool
  stage_ok :: bool
  apply_ok :: bool

datatype PositionCall = StagePosition wstring "int \<times> int" | ApplyPositions

definition PlaceActiveDisplayRightOfPrimary :: "int \<Rightarrow> PlaceAnswer \<Rightarrow> TrayContext \<Rightarrow> bool \<times> PositionCall list" where
  "PlaceActiveDisplayRightOfPrimary now a ctx =
     (let displayName = ActiveDisplayName now ctx in
      if displayName = [] then (False, [])
      else
        (case find primary (rev (EnumerateAttachedDisplays (attached a))) of
           None \<Rightarrow> (False, [])
         | Some d \<Rightarrow>
             (case original_position a of
                None \<Rightarrow> (False, [])
              | Some original \<Rightarrow>
                  (if \<not> confirmed a then (False, [])
                   else
                     (let stage = StagePosition displayName (right (display_bounds d), upper (display_bounds d));
                          applied = (stage_ok a \<and> apply_ok a);
                          calls = stage # (if stage_ok a then [ApplyPositions] else [])
                      in if \<not> applied then (False, calls @ [StagePosition displayName original, ApplyPositions])
                         else (True, calls))))))"

subsection \<open>Properties\<close>

text \<open>The position of the display after the calls: the staged one once it is applied.\<close>

fun position_after :: "wstring \<Rightarrow> (int \<times> int) \<times> (int \<times> int) \<Rightarrow> PositionCall list \<Rightarrow> int \<times> int" where
  "position_after name (staged, actual) [] = actual"
| "position_after name (staged, actual) (StagePosition n p # cs) =
     position_after name (if n = name then p else staged, actual) cs"
| "position_after name (staged, actual) (ApplyPositions # cs) = position_after name (staged, staged) cs"

lemma find_in: "find P xs = Some x \<Longrightarrow> x \<in> set xs \<and> P x"
  by (induction xs) (auto split: if_splits)


definition streaming_cable :: TrayContext where
  "streaming_cable = (TrayContext_default Config_default)\<lparr>usbApp := Some (SenderApp_default\<lparr>phase := ConnectionPhase.Streaming,
     displayName := wide ''DISPLAY2''\<rparr>)\<rparr>"

definition refused :: PlaceAnswer where
  "refused = \<lparr>attached = [Some \<lparr>szDevice = wide ''DISPLAY1'', rcMonitor = \<lparr>left = 0, upper = 0, right = 1920, bottom = 1080\<rparr>,
     dwFlags = 1\<rparr>], original_position = Some (- 1200, 40), confirmed = True, stage_ok = True, apply_ok = False\<rparr>"


end
