(* ===== verification/SenderPing.thy ===== *)
theory SenderPing
  imports ProtocolProps
begin

text \<open>
  The sender's own liveness message with its health counters (\<^verbatim>\<open>SerializeSenderPing\<close> in
  \<^verbatim>\<open>src/src/net/Protocol.cpp\<close>).  The text of a finite double is
  \<^verbatim>\<open>std::to_chars\<close> of the library, an argument.
\<close>

subsection \<open>The writer\<close>

datatype measure = Finite double | NotFinite

record SenderPingStats =
  ping_drops :: "64 word option"
  encDrops :: "64 word option"
  netDrops :: "64 word option"
  pending :: "64 word option"
  inp50 :: "measure option"
  inp95 :: "measure option"
  capFps :: "measure option"

definition SenderPingStats_default :: SenderPingStats where
  "SenderPingStats_default =
     \<lparr>ping_drops = None, encDrops = None, netDrops = None, pending = None, inp50 = None, inp95 = None, capFps = None\<rparr>"

text \<open>An integer of 64 bits has at most 20 digits and a double at most 24 characters, so neither buffer is too
  short.\<close>

definition AppendIntegerField :: "string \<Rightarrow> string \<Rightarrow> 64 word option \<Rightarrow> string" where
  "AppendIntegerField json key v =
     (case v of None \<Rightarrow> json | Some n \<Rightarrow> json @ '','' @ quoted key @ '':'' @ show_nat (unat n))"

definition AppendDoubleField :: "(double \<Rightarrow> string) \<Rightarrow> string \<Rightarrow> string \<Rightarrow> measure option \<Rightarrow> string" where
  "AppendDoubleField to_chars json key v =
     (case v of Some (Finite x) \<Rightarrow> json @ '','' @ quoted key @ '':'' @ to_chars x | _ \<Rightarrow> json)"

definition SerializeSenderPing :: "(double \<Rightarrow> string) \<Rightarrow> SenderPingStats \<Rightarrow> string" where
  "SerializeSenderPing to_chars stats =
     (let j0 = [lbrace] @ quoted ''type'' @ '':'' @ quoted ''ping'';
          j1 = AppendIntegerField j0 ''drops'' (ping_drops stats);
          j2 = AppendIntegerField j1 ''encDrops'' (encDrops stats);
          j3 = AppendIntegerField j2 ''netDrops'' (netDrops stats);
          j4 = AppendIntegerField j3 ''pending'' (pending stats);
          j5 = AppendDoubleField to_chars j4 ''inp50'' (inp50 stats);
          j6 = AppendDoubleField to_chars j5 ''inp95'' (inp95 stats);
          j7 = AppendDoubleField to_chars j6 ''capFps'' (capFps stats)
      in j7 @ [rbrace])"

subsection \<open>Its members\<close>

text \<open>The optional members with the text that each one gets, if it is written.\<close>

definition integer_text :: "64 word option \<Rightarrow> string option" where
  "integer_text = map_option (\<lambda>n. show_nat (unat n))"

fun measure_text :: "(double \<Rightarrow> string) \<Rightarrow> measure option \<Rightarrow> string option" where
  "measure_text to_chars (Some (Finite x)) = Some (to_chars x)"
| "measure_text to_chars _ = None"

definition ping_fields :: "(double \<Rightarrow> string) \<Rightarrow> SenderPingStats \<Rightarrow> (string \<times> string option) list" where
  "ping_fields to_chars s =
     [(''drops'', integer_text (ping_drops s)), (''encDrops'', integer_text (encDrops s)),
      (''netDrops'', integer_text (netDrops s)), (''pending'', integer_text (pending s)),
      (''inp50'', measure_text to_chars (inp50 s)), (''inp95'', measure_text to_chars (inp95 s)),
      (''capFps'', measure_text to_chars (capFps s))]"

definition plain_member :: "string \<Rightarrow> item list \<Rightarrow> member" where
  "plain_member key v = \<lparr>m_ws1 = [], m_key = key, m_ws2 = [], m_ws3 = [], m_value = v, m_ws4 = []\<rparr>"

definition number_members :: "(string \<times> string option) list \<Rightarrow> member list" where
  "number_members fs = concat (map (\<lambda>(key, t). case t of None \<Rightarrow> [] | Some t \<Rightarrow> [plain_member key (map Ch t)]) fs)"

definition ping_members :: "(string \<times> string option) list \<Rightarrow> member list" where
  "ping_members fs = plain_member ''type'' [Str ''ping''] # number_members fs"

definition appended :: "(string \<times> string option) list \<Rightarrow> string" where
  "appended fs = concat (map (\<lambda>(key, t). case t of None \<Rightarrow> [] | Some t \<Rightarrow> '','' @ quoted key @ '':'' @ t) fs)"

lemma AppendIntegerField_eq: "AppendIntegerField json key v = json @ appended [(key, integer_text v)]"
  by (cases v) (simp_all add: AppendIntegerField_def appended_def integer_text_def)

lemma AppendDoubleField_eq: "AppendDoubleField f json key v = json @ appended [(key, measure_text f v)]"
  by (cases "(f, v)" rule: measure_text.cases) (simp_all add: AppendDoubleField_def appended_def)

lemma appended_simps [simp]:
  "appended [] = []" "appended ((key, None) # fs) = appended fs"
  "appended ((key, Some t) # fs) = '','' @ quoted key @ '':'' @ t @ appended fs"
  by (simp_all add: appended_def)

lemma number_members_simps [simp]:
  "number_members [] = []" "number_members ((key, None) # fs) = number_members fs"
  "number_members ((key, Some t) # fs) = plain_member key (map Ch t) # number_members fs"
  by (simp_all add: number_members_def)

lemma render_plain: "render_member (plain_member key (map Ch t)) = quoted key @ '':'' @ t"
  by (simp add: render_member_def member_head_def plain_member_def quoted_def)

lemma render_members_appended: "render_members (m # number_members fs) = render_member m @ appended fs"
proof (induction fs arbitrary: m)
  case (Cons x fs)
  obtain key t where x: "x = (key, t)" by force
  show ?case
  proof (cases t)
    case None
    with Cons [of m] show ?thesis by (simp add: x)
  next
    case (Some s)
    with Cons [of "plain_member key (map Ch s)"] show ?thesis by (simp add: x render_plain)
  qed
qed simp

lemma SerializeSenderPing_doc:
  "SerializeSenderPing f s = render_doc [] (ping_members (ping_fields f s)) []"
proof -
  have "SerializeSenderPing f s = [lbrace] @ (quoted ''type'' @ '':'' @ quoted ''ping'' @ appended (ping_fields f s)) @ [rbrace]"
    unfolding SerializeSenderPing_def Let_def AppendIntegerField_eq AppendDoubleField_eq ping_fields_def
    by (simp add: appended_def)
  moreover have "render_member (plain_member ''type'' [Str ''ping'']) = quoted ''type'' @ '':'' @ quoted ''ping''"
    by (simp add: render_member_def member_head_def plain_member_def quoted_def render_def)
  ultimately show ?thesis by (simp add: render_doc_def ping_members_def render_members_appended)
qed

lemma root_number_members:
  "distinct (map fst fs) \<Longrightarrow> root_member key (number_members fs) =
     (case map_of fs key of Some (Some t) \<Rightarrow> Some (plain_member key (map Ch t)) | _ \<Rightarrow> None)"
proof (induction fs)
  case (Cons x fs)
  obtain k t where x: "x = (k, t)" by force
  have m: "map_of fs k = None" using Cons.prems by (simp add: x map_of_eq_None_iff)
  show ?case using Cons m by (cases t; cases "k = key") (auto simp: x root_member_def plain_member_def)
qed (simp add: root_member_def)

lemma wf_plain [simp]: "wf_member (plain_member key v) \<longleftrightarrow> str_body key \<and> wf_value v"
  by (simp add: wf_member_def plain_member_def)

lemma wf_number_members:
  assumes "\<And>key t. (key, Some t) \<in> set fs \<Longrightarrow> str_body key \<and> json_number t"
  shows "list_all wf_member (number_members fs)"
  using assms
proof (induction fs)
  case (Cons x fs)
  obtain k t where x: "x = (k, t)" by force
  have "list_all wf_member (number_members fs)" using Cons.prems by (intro Cons.IH) auto
  moreover have "str_body k \<and> json_number u" if "t = Some u" for u using Cons.prems [of k u] by (simp add: x that)
  ultimately show ?case by (cases t) (simp_all add: x wf_token_value)
qed simp

text \<open>The text of a field has no byte 0, and there are at most seven of them.\<close>

lemma appended_text:
  assumes "\<And>key t. (key, Some t) \<in> set fs \<Longrightarrow> length key \<le> 8 \<and> list_all (\<lambda>c. 0 < code c) key \<and> json_number t \<and> length t \<le> 64"
  shows "list_all (\<lambda>c. 0 < code c) (appended fs) \<and> length (appended fs) \<le> 80 * length fs"
  using assms
proof (induction fs)
  case (Cons x fs)
  obtain k t where x: "x = (k, t)" by force
  have i: "list_all (\<lambda>c. 0 < code c) (appended fs) \<and> length (appended fs) \<le> 80 * length fs"
    using Cons.prems by (intro Cons.IH) auto
  show ?case
  proof (cases t)
    case (Some u)
    then have u: "length k \<le> 8" "list_all (\<lambda>c. 0 < code c) k" "json_number u" "length u \<le> 64"
      using Cons.prems [of k u] by (simp_all add: x)
    have "list_all (\<lambda>c. 0 < code c) u"
      using json_number_chars [OF u(3)] token_char_code by (auto simp: list_all_iff)
    with u i show ?thesis by (simp add: x Some quoted_def)
  qed (use i in \<open>simp add: x\<close>)
qed simp

lemma FindNumberToken_absent:
  "list_all wf_member ms \<Longrightarrow> CHR 0x5C \<notin> set key \<Longrightarrow> root_member key ms = None \<Longrightarrow>
     FindNumberToken (render_doc [] ms rest) key = None"
  using FindValueStart_absent [of "[]" ms key rest] by (simp add: FindNumberToken_def)

subsection \<open>The message is read back\<close>

definition exact_counter :: "64 word option \<Rightarrow> bool" where
  "exact_counter v \<longleftrightarrow> (case v of None \<Rightarrow> True | Some n \<Rightarrow> unat n < 2 ^ 53)"

definition to_chars_json :: "(double \<Rightarrow> string) \<Rightarrow> bool" where
  "to_chars_json to_chars \<longleftrightarrow> (\<forall>x. json_number (to_chars x) \<and> length (to_chars x) \<le> 64)"

lemma field_text_ok:
  assumes "to_chars_json f" and "list_all exact_counter [ping_drops s, encDrops s, netDrops s, pending s]"
    and "(key, Some t) \<in> set (ping_fields f s)"
  shows "json_number t \<and> length t \<le> 64"
proof -
  have c: "json_number u \<and> length u \<le> 64" if "integer_text v = Some u" "exact_counter v" for u v
  proof -
    obtain n where "v = Some n" "u = show_nat (unat n)" using \<open>integer_text v = Some u\<close> by (auto simp: integer_text_def)
    moreover from this that have "unat n < 2 ^ 53" by (simp add: exact_counter_def)
    moreover from this have "length (show_nat (unat n)) \<le> Suc 15" by (intro length_show_nat) simp
    ultimately show ?thesis by (simp add: json_number_show_nat)
  qed
  have m: "json_number u \<and> length u \<le> 64" if "measure_text f v = Some u" for u v
    using that assms(1) by (cases "(f, v)" rule: measure_text.cases) (auto simp: to_chars_json_def)
  show ?thesis using assms(2,3) c m by (auto simp: ping_fields_def dest: sym)
qed

text \<open>The liveness message with its counters is always well formed: whatever measures are present, missing or not
  finite, it is a control payload of type \<open>ping\<close>, and each of its fields reads back as exactly the number that was
  written, or is absent.\<close>

lemma sender_ping_is_read_back:
  assumes "to_chars_json to_chars" and "list_all exact_counter [ping_drops s, encDrops s, netDrops s, pending s]"
    and "p = SerializeSenderPing to_chars s"
  shows "IsControlPayload (bytes_of p) \<and> map_option msg_type (ParseControlMessage (bytes_of p)) = Some Ping \<and>
    map (FindNumberToken p) [''drops'', ''encDrops'', ''netDrops'', ''pending''] =
      map integer_text [ping_drops s, encDrops s, netDrops s, pending s] \<and>
    map (FindNumberToken p) [''inp50'', ''inp95'', ''capFps''] = map (measure_text to_chars) [inp50 s, inp95 s, capFps s]"
proof -
  define fs where "fs = ping_fields to_chars s"
  let ?ms = "ping_members fs"
  have p: "p = render_doc [] ?ms []" using assms(3) by (simp add: SerializeSenderPing_doc fs_def)
  have keys: "map fst fs = [''drops'', ''encDrops'', ''netDrops'', ''pending'', ''inp50'', ''inp95'', ''capFps'']"
    by (simp add: fs_def ping_fields_def)
  have ok: "json_number t \<and> length t \<le> 64" if "(key, Some t) \<in> set fs" for key t
    using field_text_ok [OF assms(1,2)] that by (auto simp: fs_def)
  have key: "key \<in> set (map fst fs)" if "(key, Some t) \<in> set fs" for key t using that by (force simp: image_iff)
  have "str_body key \<and> json_number t" if "(key, Some t) \<in> set fs" for key t
    using key [OF that] ok [OF that] unfolding keys by auto
  then have wf: "list_all wf_member ?ms"
    using wf_number_members [of fs] by (simp add: ping_members_def) (simp add: wf_value_def render_def is_space_def)
  have token: "FindNumberToken p key = (case map_of fs key of None \<Rightarrow> None | Some t \<Rightarrow> t)" if "key \<in> set (map fst fs)" for key
  proof -
    have k: "key \<noteq> ''type''" "CHR 0x5C \<notin> set key" using that unfolding keys by auto
    have d: "distinct (map fst fs)" unfolding keys by simp
    have r: "root_member key ?ms = (case map_of fs key of Some (Some t) \<Rightarrow> Some (plain_member key (map Ch t)) | _ \<Rightarrow> None)"
      using root_number_members [OF d, of key] k(1) by (simp add: ping_members_def root_member_def plain_member_def)
    show ?thesis
    proof (cases "map_of fs key")
      case (Some v)
      show ?thesis
      proof (cases v)
        case None
        with Some r show ?thesis using FindNumberToken_absent [OF wf k(2)] by (simp add: p)
      next
        case (Some t)
        with \<open>map_of fs key = Some v\<close> have t: "(key, Some t) \<in> set fs" by (simp add: map_of_SomeD)
        have "root_member key ?ms = Some (plain_member key (map Ch t))" using r Some \<open>map_of fs key = Some v\<close> by simp
        then show ?thesis
          using number_member_doc(1) [OF _ wf k(2), of "[]" "plain_member key (map Ch t)" t "[]"] ok [OF t]
            json_number_chars [of t] Some \<open>map_of fs key = Some v\<close> by (simp add: p plain_member_def)
      qed
    qed (use that in \<open>auto simp: map_of_eq_None_iff\<close>)
  qed
  have "FindStringField p ''type'' = Some ''ping''"
    using FindStringField_doc [OF _ wf, of "[]" "''type''" "[]"]
    by (simp add: p root_member_def ping_members_def plain_member_def string_value_def)
  then have "map_option msg_type (ParseControlMessage (bytes_of p)) = Some Ping"
    by (simp add: ParseControlMessage_def AsView_def Let_def split: option.split)
  moreover have "IsControlPayload (bytes_of p)"
  proof -
    have a: "length key \<le> 8 \<and> list_all (\<lambda>c. 0 < code c) key \<and> json_number t \<and> length t \<le> 64" if "(key, Some t) \<in> set fs" for key t
      using key [OF that] ok [OF that] unfolding keys by auto
    have "list_all (\<lambda>c. byte_of_char c \<noteq> 0) (appended fs)" "length (appended fs) \<le> 560"
      using appended_text [of fs, OF a] byte_of_char_nonzero by (auto simp: list_all_iff fs_def ping_fields_def)
    then show ?thesis
      by (simp add: p IsControlPayload_def render_doc_def ping_members_def render_members_appended render_member_def
          member_head_def plain_member_def render_def list.pred_map comp_def byte_of_char_nonzero)
  qed
  ultimately show ?thesis
    using token unfolding keys by (simp add: fs_def ping_fields_def)
qed

definition sample_to_chars :: "double \<Rightarrow> string" where "sample_to_chars x = show_nat (nat \<lfloor>x\<rfloor> mod 1000)"

lemma sender_ping_is_read_back_witness:
  "let s = SenderPingStats_default\<lparr>ping_drops := Some 3, inp50 := Some (Finite 2), capFps := Some NotFinite\<rparr>;
       p = SerializeSenderPing sample_to_chars s
   in IsControlPayload (bytes_of p) \<and> map (FindNumberToken p) [''drops'', ''encDrops''] = [Some (show_nat 3), None] \<and>
      map (FindNumberToken p) [''inp50'', ''inp95'', ''capFps''] = [Some (show_nat 2), None, None]"
proof -
  let ?s = "SenderPingStats_default\<lparr>ping_drops := Some 3, inp50 := Some (Finite 2), capFps := Some NotFinite\<rparr>"
  have "json_number (show_nat (n mod 1000)) \<and> length (show_nat (n mod 1000)) \<le> 64" for n
  proof -
    have "n mod 1000 < 10 ^ Suc 2" by simp
    from length_show_nat [OF this] have "length (show_nat (n mod 1000)) \<le> 64" by simp
    moreover have "n mod 1000 < 2 ^ 53" by (rule less_trans [of _ 1000]) simp_all
    ultimately show ?thesis using json_number_show_nat by blast
  qed
  then have "to_chars_json sample_to_chars" by (simp add: to_chars_json_def sample_to_chars_def)
  moreover have "list_all exact_counter [ping_drops ?s, encDrops ?s, netDrops ?s, pending ?s]"
    by (simp add: exact_counter_def SenderPingStats_default_def)
  moreover have "sample_to_chars 2 = show_nat 2" by (simp add: sample_to_chars_def)
  ultimately show ?thesis
    using sender_ping_is_read_back [OF _ _ refl, of sample_to_chars ?s]
    by (simp add: Let_def integer_text_def SenderPingStats_default_def)
qed

end
