(* ===== verification/TrayMenu.thy ===== *)
theory TrayMenu
  imports TrayCable
begin

text \<open>
  The menu of the tray icon and its tooltip (\<^verbatim>\<open>src/src/app/TrayApp.cpp\<close>): which entries are shown,
  what they say, and which handler a chosen one reaches.
\<close>

subsection \<open>Status texts\<close>

definition wide_number :: "u32 \<Rightarrow> wstring" where "wide_number n = wide (show_nat (unat n))"

definition state_text :: "SenderApp \<Rightarrow> wstring" where
  "state_text s =
     (case state s of
        StateStreaming \<Rightarrow> wide ''  '' @ wide_number (width s) @ wide ''x'' @ wide_number (height s)
      | StateConnecting \<Rightarrow> (wide ''  '' @ [0x6B63, 0x5728, 0x8FDE, 0x63A5] @ wide ''...'')
      | StateBlocked \<Rightarrow> (wide ''  '' @ [0x7B49, 0x5F85] @ wide '' '') @ wide_number (blockedByWidth s)
        @ wide ''x'' @ wide_number (blockedByHeight s)
      | StateUnsafeNetwork \<Rightarrow> (wide ''  '' @ [0x5DF2, 0x963B, 0x6B62, 0xFF1A, 0x7F51, 0x7EDC, 0x4E0D,
        0x662F, 0x4E13, 0x7528, 0x7F51, 0x7EDC])
      | StateIdle \<Rightarrow> (wide ''  '' @ [0x5DF2, 0x65AD, 0x5F00]))"

definition DeviceStatusText :: "(string \<Rightarrow> wstring) \<Rightarrow> TrayContext \<Rightarrow> nat \<Rightarrow> wstring" where
  "DeviceStatusText widen ctx i = widen (DeviceLabel ctx i) @ ([0xFF08] @ wide ''WiFi'' @ [0xFF09])
    @ state_text (apps ctx ! i)"

definition UsbStatusText :: "TrayContext \<Rightarrow> wstring" where
  "UsbStatusText ctx =
     (wide ''iPad'' @ [0xFF08] @ wide ''USB'' @ [0xFF09]) @ (case usbApp ctx of None \<Rightarrow> (wide ''  ''
       @ [0x5DF2, 0x65AD, 0x5F00]) | Some s \<Rightarrow> state_text s)"

subsection \<open>The tooltip\<close>

text \<open>\<^verbatim>\<open>szTip\<close> holds 128 characters with the final 0.\<close>

definition tip_entries :: "(string \<Rightarrow> wstring) \<Rightarrow> TrayContext \<Rightarrow> wstring list" where
  "tip_entries widen ctx =
     (if usbApp ctx = None then [] else [UsbStatusText ctx]) @
     map (DeviceStatusText widen ctx) [0..<length (devices (cfg ctx))]"

definition UpdateStatus_tip :: "(string \<Rightarrow> wstring) \<Rightarrow> TrayContext \<Rightarrow> wstring" where
  "UpdateStatus_tip widen ctx =
     take 127 ((wide ''iPad'' @ [0x4E92, 0x8054]) @
       (case tip_entries widen ctx of
          [] \<Rightarrow> (wide '' - '' @ [0x5C1A, 0x672A, 0x914D, 0x7F6E] @ wide '' iPad'')
        | e # es \<Rightarrow> wide '' - '' @ e @ concat (map (\<lambda>e. wide '' | '' @ e) es)))"

text \<open>Whether the icon is in the notification area afterwards; the answers are those of the shell to adding it, to
  changing it, and to adding it again.\<close>

definition UpdateStatus_added :: "bool \<Rightarrow> bool \<times> bool \<times> bool \<Rightarrow> bool" where
  "UpdateStatus_added trayAdded answers =
     (case answers of (added, modified, again) \<Rightarrow>
        if \<not> trayAdded \<and> \<not> added then False else if \<not> modified then again else True)"

subsection \<open>The menu\<close>

definition IDM_CONNECT :: nat where "IDM_CONNECT = 40001"
definition IDM_DISCONNECT :: nat where "IDM_DISCONNECT = 40002"
definition IDM_SETTINGS :: nat where "IDM_SETTINGS = 40003"
definition IDM_RUNASADMIN :: nat where "IDM_RUNASADMIN = 40004"
definition IDM_EXIT :: nat where "IDM_EXIT = 40005"
definition IDM_SHOW_LAUNCHERS :: nat where "IDM_SHOW_LAUNCHERS = 40006"
definition IDM_TOGGLE_TASKBAR_ROUTING :: nat where "IDM_TOGGLE_TASKBAR_ROUTING = 40007"
definition IDM_DISCONNECT_USB :: nat where "IDM_DISCONNECT_USB = 40008"
definition IDM_OPEN_CONTROL_PANEL :: nat where "IDM_OPEN_CONTROL_PANEL = 40009"
definition IDM_DEVICE_FIRST :: nat where "IDM_DEVICE_FIRST = 41000"
definition IDM_USB_DEVICE_FIRST :: nat where "IDM_USB_DEVICE_FIRST = 42000"

lemmas command_ids = IDM_CONNECT_def IDM_DISCONNECT_def IDM_SETTINGS_def IDM_RUNASADMIN_def IDM_EXIT_def
  IDM_SHOW_LAUNCHERS_def IDM_TOGGLE_TASKBAR_ROUTING_def IDM_DISCONNECT_USB_def IDM_OPEN_CONTROL_PANEL_def
  IDM_DEVICE_FIRST_def IDM_USB_DEVICE_FIRST_def

record MenuEntry =
  entry_id :: nat
  entry_text :: wstring
  entry_checked :: bool
  entry_grayed :: bool

datatype MenuItem = Separator | Entry MenuEntry

definition entry :: "nat \<Rightarrow> wstring \<Rightarrow> MenuItem" where
  "entry n t = Entry \<lparr>entry_id = n, entry_text = t, entry_checked = False, entry_grayed = False\<rparr>"

definition checked_entry :: "bool \<Rightarrow> nat \<Rightarrow> wstring \<Rightarrow> MenuItem" where
  "checked_entry c n t = Entry \<lparr>entry_id = n, entry_text = t, entry_checked = c, entry_grayed = False\<rparr>"

definition device_entries :: "(string \<Rightarrow> wstring) \<Rightarrow> TrayContext \<Rightarrow> MenuItem list" where
  "device_entries widen ctx =
     map (\<lambda>i. checked_entry (state (apps ctx ! i) \<noteq> StateIdle) (IDM_DEVICE_FIRST + i) (DeviceStatusText widen ctx i))
       [0..<length (devices (cfg ctx))]"

definition active_cable :: "TrayContext \<Rightarrow> nat \<Rightarrow> bool" where
  "active_cable ctx k \<longleftrightarrow> usbApp ctx \<noteq> None \<and> MakeUsbMuxTarget (udid (usbDevices ctx ! k)) = activeUsbTarget ctx"

definition cable_entries :: "TrayContext \<Rightarrow> MenuItem list" where
  "cable_entries ctx =
     map (\<lambda>k. checked_entry (active_cable ctx k \<and> state (the (usbApp ctx)) \<noteq> StateIdle) (IDM_USB_DEVICE_FIRST + k)
            (if active_cable ctx k then UsbStatusText ctx else ([0x8FDE, 0x63A5, 0x5DF2, 0x63D2, 0x5165, 0x7684]
              @ wide '' iPad'' @ [0xFF08] @ wide ''USB'' @ [0xFF09])))
       [0..<length (usbDevices ctx)]"

text \<open>The entries below, given whether the process is elevated; the context is the one that is refreshed first.\<close>

definition menu_items :: "(string \<Rightarrow> wstring) \<Rightarrow> bool \<Rightarrow> TrayContext \<Rightarrow> MenuItem list" where
  "menu_items widen elevated ctx =
     (let several = (1 < length (devices (cfg ctx)));
          activeUsbListed = list_ex (active_cable ctx) [0..<length (usbDevices ctx)]
      in device_entries widen ctx @ (if devices (cfg ctx) = [] then [] else [Separator]) @
         cable_entries ctx @
         (if usbApp ctx \<noteq> None \<and> \<not> activeUsbListed
          then [checked_entry True IDM_DISCONNECT_USB (UsbStatusText ctx)] else []) @
         (if usbDevices ctx = [] then [] else [Separator]) @
         [if AnyRunning ctx then entry IDM_DISCONNECT (if several then [0x5168, 0x90E8, 0x65AD,
           0x5F00] else [0x65AD, 0x5F00, 0x8FDE, 0x63A5])
          else Entry \<lparr>entry_id = IDM_CONNECT, entry_text = (if several then [0x5168, 0x90E8, 0x8FDE,
            0x63A5] else ([0x8FDE, 0x63A5] @ wide '' iPad'')),
                      entry_checked = False, entry_grayed = (devices (cfg ctx) = [])\<rparr>,
          Separator, entry IDM_OPEN_CONTROL_PANEL (([0x6253, 0x5F00] @ wide '' iPad'' @ [0x4E92,
            0x8054])), entry IDM_SHOW_LAUNCHERS (([0x663E, 0x793A] @ wide ''/'' @ [0x5237, 0x65B0, 0x526F,
            0x5C4F, 0x684C, 0x9762])),
          checked_entry (taskbarRouting (cfg ctx)) IDM_TOGGLE_TASKBAR_ROUTING ([0x4EFB, 0x52A1, 0x680F, 0x70B9,
            0x51FB, 0x65F6, 0x5C06, 0x7A97, 0x53E3, 0x79FB, 0x5230, 0x70B9, 0x51FB, 0x7684, 0x5C4F, 0x5E55]),
          Separator, entry IDM_SETTINGS (([0x8FDE, 0x63A5, 0x4E0E, 0x753B, 0x8D28, 0x8BBE, 0x7F6E] @ wide ''...''))] @
         (if elevated then [] else [entry IDM_RUNASADMIN ([0x4EE5, 0x7BA1, 0x7406, 0x5458, 0x8EAB, 0x4EFD,
           0x91CD, 0x65B0, 0x542F, 0x52A8])]) @
         [entry IDM_EXIT ([0x9000, 0x51FA])])"

definition ShowContextMenu :: "(string \<Rightarrow> wstring) \<Rightarrow> bool \<Rightarrow> TrayAnswer \<Rightarrow> TrayContext \<Rightarrow> TrayContext \<times> MenuItem list" where
  "ShowContextMenu widen elevated a ctx =
     (let c = RefreshUsbDevices a True ctx in (c, menu_items widen elevated c))"

subsection \<open>The command of an entry\<close>

text \<open>The handler of the connections, the panel, the launchers, or none.  The two truth values are the answers to the
  restart as administrator.  An identifier is the low half of the parameter.\<close>

datatype MenuCommand = Handler TrayEvent | ShowPanel | ShowLaunchers | NoCommand

definition WM_COMMAND :: "bool \<Rightarrow> bool \<Rightarrow> TrayContext \<Rightarrow> nat \<Rightarrow> MenuCommand" where
  "WM_COMMAND pathKnown copyUp ctx param =
     (let command = param mod 2 ^ 16 in
      if IDM_USB_DEVICE_FIRST \<le> command \<and> command < IDM_USB_DEVICE_FIRST + length (usbDevices ctx)
      then Handler (UsbEntry (command - IDM_USB_DEVICE_FIRST))
      else if command = IDM_DISCONNECT_USB then Handler DisconnectUsb
      else if IDM_DEVICE_FIRST \<le> command \<and> command < IDM_DEVICE_FIRST + length (apps ctx)
      then Handler (DeviceEntry (command - IDM_DEVICE_FIRST))
      else if command = IDM_OPEN_CONTROL_PANEL then ShowPanel
      else if command = IDM_CONNECT then Handler ConnectAll
      else if command = IDM_DISCONNECT then Handler Disconnect
      else if command = IDM_SETTINGS then ShowPanel
      else if command = IDM_RUNASADMIN then Handler (RunAsAdmin pathKnown copyUp)
      else if command = IDM_SHOW_LAUNCHERS then ShowLaunchers
      else if command = IDM_TOGGLE_TASKBAR_ROUTING then Handler TaskbarEntry
      else if command = IDM_EXIT then Handler Destroy
      else NoCommand)"

definition item_ids :: "MenuItem list \<Rightarrow> nat list" where
  "item_ids items = concat (map (\<lambda>m. case m of Separator \<Rightarrow> [] | Entry e \<Rightarrow> [entry_id e]) items)"

subsection \<open>Properties\<close>

lemma item_ids_simps [simp]:
  "item_ids [] = []" "item_ids (Separator # ms) = item_ids ms" "item_ids (Entry e # ms) = entry_id e # item_ids ms"
  "item_ids (entry n t # ms) = n # item_ids ms" "item_ids (checked_entry b n t # ms) = n # item_ids ms"
  "item_ids (xs @ ys) = item_ids xs @ item_ids ys"
  by (simp_all add: item_ids_def entry_def checked_entry_def)

lemma item_ids_map: "item_ids (map (\<lambda>i. checked_entry (b i) (n + i) (t i)) [0..<k]) = map ((+) n) [0..<k]"
  by (induction k) simp_all

lemma menu_ids:
  "item_ids (menu_items widen elevated ctx) =
     map ((+) IDM_DEVICE_FIRST) [0..<length (devices (cfg ctx))]
       @ map ((+) IDM_USB_DEVICE_FIRST) [0..<length (usbDevices ctx)] @
     (if usbApp ctx \<noteq> None \<and> \<not> list_ex (active_cable ctx) [0..<length (usbDevices ctx)] then [IDM_DISCONNECT_USB] else []) @
     [if AnyRunning ctx then IDM_DISCONNECT else IDM_CONNECT, IDM_OPEN_CONTROL_PANEL, IDM_SHOW_LAUNCHERS,
      IDM_TOGGLE_TASKBAR_ROUTING, IDM_SETTINGS] @ (if elevated then [] else [IDM_RUNASADMIN]) @ [IDM_EXIT]"
  by (simp add: menu_items_def Let_def device_entries_def cable_entries_def item_ids_map)

lemma command_device:
  "i < length (apps ctx) \<Longrightarrow> i < 1000 \<Longrightarrow> WM_COMMAND p u ctx (IDM_DEVICE_FIRST + i) = Handler (DeviceEntry i)"
  by (simp add: WM_COMMAND_def Let_def command_ids)

lemma command_cable:
  "k < length (usbDevices ctx) \<Longrightarrow> k < 23536 \<Longrightarrow> WM_COMMAND p u ctx (IDM_USB_DEVICE_FIRST + k) = Handler (UsbEntry k)"
  by (simp add: WM_COMMAND_def Let_def command_ids)

lemma command_others:
  "WM_COMMAND p u ctx IDM_DISCONNECT_USB = Handler DisconnectUsb" "WM_COMMAND p u ctx IDM_DISCONNECT = Handler Disconnect"
  "WM_COMMAND p u ctx IDM_CONNECT = Handler ConnectAll" "WM_COMMAND p u ctx IDM_OPEN_CONTROL_PANEL = ShowPanel"
  "WM_COMMAND p u ctx IDM_SHOW_LAUNCHERS = ShowLaunchers" "WM_COMMAND p u ctx IDM_TOGGLE_TASKBAR_ROUTING = Handler TaskbarEntry"
  "WM_COMMAND p u ctx IDM_SETTINGS = ShowPanel" "WM_COMMAND p u ctx IDM_RUNASADMIN = Handler (RunAsAdmin p u)"
  "WM_COMMAND p u ctx IDM_EXIT = Handler Destroy"
  by (simp_all add: WM_COMMAND_def Let_def command_ids)

text \<open>An entry of the menu does what it shows: with up to a thousand devices, the entries reach, in their order, the
  handler of each device, of each cable, of the cable session that is no longer listed, of connecting or
  disconnecting everything, whichever makes sense, and the fixed ones.\<close>

lemma menu_entries_reach_their_handlers:
  assumes "ShowContextMenu widen elevated a ctx = (c, items)"
    and "length (apps ctx) = length (devices (cfg ctx))" and "length (devices (cfg ctx)) \<le> 1000" and "length (t_usb a) \<le> 23536"
  shows "map (WM_COMMAND p u c) (item_ids items) =
    map (\<lambda>i. Handler (DeviceEntry i)) [0..<length (devices (cfg ctx))]
      @ map (\<lambda>k. Handler (UsbEntry k)) [0..<length (t_usb a)] @
    (if usbApp ctx \<noteq> None \<and> activeUsbTarget ctx \<notin> set (map (\<lambda>d. MakeUsbMuxTarget (udid d)) (t_usb a)) then [Handler DisconnectUsb] else []) @
    [if AnyRunning ctx then Handler Disconnect else Handler ConnectAll, ShowPanel, ShowLaunchers, Handler TaskbarEntry, ShowPanel] @
    (if elevated then [] else [Handler (RunAsAdmin p u)]) @ [Handler Destroy]"
proof -
  have c: "c = ctx\<lparr>lastUsbRefresh := t_now a, usbDevices := t_usb a\<rparr>" and items: "items = menu_items widen elevated c"
    using assms(1) by (auto simp: ShowContextMenu_def Let_def RefreshUsbDevices_def)
  have d: "map (WM_COMMAND p u c) (map ((+) IDM_DEVICE_FIRST) [0..<length (devices (cfg ctx))]) =
      map (\<lambda>i. Handler (DeviceEntry i)) [0..<length (devices (cfg ctx))]"
    using assms(2,3) by (simp add: c command_device)
  have k: "map (WM_COMMAND p u c) (map ((+) IDM_USB_DEVICE_FIRST) [0..<length (t_usb a)]) =
      map (\<lambda>k. Handler (UsbEntry k)) [0..<length (t_usb a)]"
    using assms(4) by (simp add: c command_cable)
  have l: "list_ex (active_cable c) [0..<length (t_usb a)] \<longleftrightarrow>
      usbApp ctx \<noteq> None \<and> activeUsbTarget ctx \<in> set (map (\<lambda>d. MakeUsbMuxTarget (udid d)) (t_usb a))"
    by (force simp: list_ex_iff active_cable_def c set_conv_nth)
  have r: "AnyRunning c = AnyRunning ctx" by (simp add: c AnyRunning_def usb_running_def)
  have f: "cfg c = cfg ctx" "usbDevices c = t_usb a" "usbApp c = usbApp ctx" by (simp_all add: c)
  show ?thesis
    unfolding items menu_ids f map_append d k l r by (auto simp: command_others)
qed

lemma menu_entries_reach_their_handlers_witness:
  "let ctx = RunTray (at_time 0) None one_device; m = ShowContextMenu wide False (with_cable 1000) ctx
   in map (WM_COMMAND True True (fst m)) (item_ids (snd m)) =
     [Handler (DeviceEntry 0), Handler (UsbEntry 0), Handler Disconnect, ShowPanel, ShowLaunchers, Handler TaskbarEntry, ShowPanel,
      Handler (RunAsAdmin True True), Handler Destroy]"
proof -
  let ?c = "RunTray (at_time 0) None one_device"
  have f: "length (apps ?c) = 1" "length (devices (cfg ?c)) = 1" "usbApp ?c = None" "AnyRunning ?c" "length (t_usb (with_cable 1000)) = 1"
    by code_simp+
  obtain c items where m: "ShowContextMenu wide False (with_cable 1000) ?c = (c, items)" by force
  show ?thesis using menu_entries_reach_their_handlers [OF m, of True True] f m by simp
qed

subsection \<open>Where the menu misleads\<close>

text \<open>The timer runs while the menu is open and lists the cables again.  The entry of the first cable then connects the
  second one, which has moved up.\<close>

definition two_cables :: TrayAnswer where
  "two_cables = (at_time 1000)\<lparr>t_usb := [cable, \<lparr>deviceId = 8, udid = ''00008112''\<rparr>]\<rparr>"

definition second_cable :: TrayAnswer where
  "second_cable = (at_time 4000)\<lparr>t_usb := [\<lparr>deviceId = 8, udid = ''00008112''\<rparr>]\<rparr>"

definition idle_tray :: TrayContext where "idle_tray = RunTray (at_time 0) (Some []) one_device"

lemma open_menu_with_a_cable_unplugged:
  "let shown = ShowContextMenu wide False two_cables idle_tray;
       ticked = handle ascii second_cable (Timer [] []) (fst shown)
   in WM_COMMAND True True ticked (item_ids (snd shown) ! 1) = Handler (UsbEntry 0) \<and>
      map launch_target (launches (handle ascii second_cable (UsbEntry 0) ticked)) = [MakeUsbMuxTarget ''00008112'']"
proof -
  let ?c = "RefreshUsbDevices two_cables True idle_tray"
  have "length (devices (cfg ?c)) = 1" "length (usbDevices ?c) = 2" by code_simp+
  then have "item_ids (menu_items wide False ?c) ! 1 = IDM_USB_DEVICE_FIRST + 0" by (simp add: menu_ids nth_append)
  moreover have "length (usbDevices (handle ascii second_cable (Timer [] []) ?c)) = 1" by code_simp
  then have "WM_COMMAND True True (handle ascii second_cable (Timer [] []) ?c) (IDM_USB_DEVICE_FIRST + 0) = Handler (UsbEntry 0)"
    by (intro command_cable) simp_all
  moreover have "map launch_target (launches (handle ascii second_cable (UsbEntry 0) (handle ascii second_cable (Timer [] []) ?c))) =
      [MakeUsbMuxTarget ''00008112'']" by code_simp
  ultimately show ?thesis by (simp add: ShowContextMenu_def Let_def)
qed

text \<open>The entry of a device that is connected stops every sender, not that one alone.\<close>

definition two_devices :: Config where
  "two_devices = Config_default\<lparr>devices := [sample_device ''192.168.1.2'', sample_device ''192.168.1.3'']\<rparr>"

lemma device_entry_stops_every_sender:
  "let ctx = handles ascii [(at_time 1000, ConnectAll), (at_time 2000, DeviceEntry 0), (at_time 3000, Timer [] [])]
       (RunTray (at_time 0) (Some []) two_devices)
   in map (\<lambda>s. running s \<and> stopRequested s) (apps ctx) = [True, True]"
  by code_simp

text \<open>The entry of the thousand-and-first device has the number of the first cable.\<close>

lemma thousand_and_first_device:
  "usbDevices ctx \<noteq> [] \<Longrightarrow> WM_COMMAND p u ctx (IDM_DEVICE_FIRST + 1000) = Handler (UsbEntry 0)"
  by (simp add: WM_COMMAND_def Let_def command_ids)

end
