(* ===== verification/TrayStatus.thy ===== *)
theory TrayStatus
  imports TrayMenu
begin

text \<open>
  What the panel says about the connection (\<^verbatim>\<open>src/src/app/TrayApp.cpp\<close>): the live status, the
  captions of the two connection buttons, the list of discovered receivers and the rows of the devices.  The widening
  of UTF-8, the texts behind \<open>StatusText\<close> and the printing of a \<^verbatim>\<open>double\<close> to a stream are
  arguments.
\<close>

subsection \<open>The status of one session\<close>

record PanelLiveStatus =
  connected :: bool
  live_running :: bool
  live_phase :: wstring
  live_device :: wstring
  live_transport :: wstring
  resolution :: wstring
  live_detail :: wstring
  health :: wstring
  live_displayName :: wstring

definition PanelLiveStatus_default :: PanelLiveStatus where
  "PanelLiveStatus_default =
     \<lparr>connected = False, live_running = False, live_phase = [0x672A, 0x8FDE,
       0x63A5], live_device = ([0x5C1A, 0x672A, 0x9009, 0x62E9] @ wide '' iPad''),
      live_transport = [0x7B49, 0x5F85, 0x8FDE, 0x63A5], resolution = ([0x7B49, 0x5F85] @ wide '' iPad''),
      live_detail = ([0x5148, 0x5728] @ wide '' iPad '' @ [0x524D, 0x53F0, 0x6253, 0x5F00]
        @ wide '' OpenDisplay'' @ [0xFF0C, 0x518D, 0x4ECE, 0x4E0B, 0x65B9, 0x9009, 0x62E9, 0x8BBE,
        0x5907]), health = [], live_displayName = []\<rparr>"

text \<open>How texts are made: UTF-8, the details, and a \<^verbatim>\<open>double\<close> with or without
  \<^verbatim>\<open>std::fixed\<close> at a precision.\<close>

record Texts =
  widen :: "string \<Rightarrow> wstring"
  said :: "StatusText \<Rightarrow> string"
  printed :: "bool \<Rightarrow> nat \<Rightarrow> double \<Rightarrow> wstring"

fun phase_detail :: "ConnectionPhase \<Rightarrow> wstring" where
  "phase_detail Connecting = [0x6B63, 0x5728, 0x6253, 0x5F00, 0x6240, 0x9009, 0x8FDE, 0x63A5, 0x901A, 0x9053]"
| "phase_detail WaitingHello = ([0x8BF7, 0x8BA9] @ wide '' OpenDisplay '' @ [0x4FDD, 0x6301, 0x524D, 0x53F0])"
| "phase_detail PreparingDisplay = ([0x6B63, 0x5728, 0x521B, 0x5EFA, 0x865A, 0x62DF, 0x663E, 0x793A, 0x5668,
  0x5E76, 0x542F, 0x52A8] @ wide '' H.264 '' @ [0x7F16, 0x7801])"
| "phase_detail Reconnecting = [0x8FDE, 0x63A5, 0x5DF2, 0x4E2D, 0x65AD, 0xFF0C, 0x6B63, 0x5728, 0x91CD, 0x8FDE,
  0x539F, 0x901A, 0x9053]"
| "phase_detail _ = [0x70B9, 0x51FB, 0x8FDE, 0x63A5, 0x5F00, 0x59CB, 0x4F7F, 0x7528, 0x526F, 0x5C4F]"

definition fluctuating :: "ConnectionSnapshot \<Rightarrow> bool" where
  "fluctuating s \<longleftrightarrow> 3 \<le> snap_networkDrops s \<or> 0 < snap_receiverStalls s \<or> 80 \<le> snap_receiverRttMs s"

text \<open>The measures, one after the other.  \<^verbatim>\<open>std::fixed\<close> is set with the first of them and stays.\<close>

definition health_text :: "Texts \<Rightarrow> ConnectionSnapshot \<Rightarrow> wstring" where
  "health_text t s =
     (let fixd = (0 \<le> snap_receiverRttMs s); dot = (\<lambda>h. if h \<noteq> [] then (wide ''  '' @ [0x00B7]
       @ wide ''  '') else []);
          h0 = (if 0 \<le> snap_receiverRttMs s then printed t True 0 (snap_receiverRttMs s) @ wide '' ms'' else []);
          h1 = (if 0 \<le> snap_receiverMbps s then h0 @ dot h0 @ printed t fixd 1 (snap_receiverMbps s)
            @ wide '' Mbps'' else h0);
          h2 = (if 0 \<le> snap_actualFps s then h1 @ dot h1 @ printed t fixd 1 (snap_actualFps s)
            @ wide '' fps'' else h1);
          h3 = (if 0 < snap_networkDrops s then h2 @ (wide ''  '' @ [0x00B7] @ wide ''  '' @ [0x4E22, 0x5E27]
            @ wide '' '') @ wide (show_nat (snap_networkDrops s)) else h2);
          h4 = (if 0 < snap_receiverStalls s then h3 @ (wide ''  '' @ [0x00B7] @ wide ''  '' @ [0x5361, 0x987F]
            @ wide '' '') @ wide (show_int (snap_receiverStalls s)) else h3);
          h5 = (if 0 \<le> snap_captureMs s then h4 @ (wide ''  '' @ [0x00B7] @ wide ''  '' @ [0x6355, 0x83B7]
            @ wide '' '') @ printed t fixd 1 (snap_captureMs s) @ wide '' ms'' else h4)
      in if 0 \<le> snap_encodeMs s then h5 @ (wide ''  '' @ [0x00B7] @ wide ''  '' @ [0x7F16, 0x7801]
        @ wide '' '') @ printed t fixd 1 (snap_encodeMs s) @ wide '' ms'' else h5)"

definition MakeLiveStatus :: "Texts \<Rightarrow> wstring \<Rightarrow> wstring \<Rightarrow> ConnectionSnapshot \<Rightarrow> bool \<Rightarrow> PanelLiveStatus" where
  "MakeLiveStatus t dev tr s run =
     (let streaming = (snap_phase s = ConnectionPhase.Streaming);
          d0 = (if snap_failure s \<noteq> NoFailure \<or> said t (snap_detail s) \<noteq> []
                then FailureHelpText (widen t) (snap_failure s) (said t (snap_detail s)) else phase_detail (snap_phase s));
          d1 = (if streaming
                then (if fluctuating s then ([0x8FDE, 0x63A5, 0x6709, 0x6CE2, 0x52A8, 0xFF0C, 0x53EF, 0x5C1D,
                  0x8BD5, 0x7701, 0x5E26, 0x5BBD, 0x753B, 0x8D28, 0x6216, 0x5207, 0x6362]
                  @ wide '' USB'') else [0x8FDE, 0x63A5, 0x7A33, 0x5B9A, 0xFF0C, 0x53EF, 0x76F4, 0x63A5, 0x5728,
                  0x526F, 0x5C4F, 0x5DE5, 0x4F5C])
                else if 0 < snap_retryInMs s
                then d0 @ [0xFF08] @ wide (show_int ((snap_retryInMs s + 999) div 1000)) @ (wide '' '' @ [0x79D2,
                  0x540E, 0x91CD, 0x8BD5, 0xFF09]) else d0);
          measured = (0 \<le> snap_receiverRttMs s \<or> 0 \<le> snap_actualFps s \<or> 0 \<le> snap_receiverMbps s)
      in PanelLiveStatus_default
        \<lparr>connected := streaming, live_running := run, live_phase := ConnectionPhaseTitle (snap_phase s), live_device := dev,
         live_transport := tr, live_detail := d1, live_displayName := snap_displayName s,
         resolution := (if snap_width s \<noteq> 0 \<and> snap_height s \<noteq> 0
           then wide_number (snap_width s) @ (wide '' '' @ [0x00D7] @ wide '' '')
             @ wide_number (snap_height s) else resolution PanelLiveStatus_default),
         health := (if streaming \<and> measured then health_text t s else [])\<rparr>)"

subsection \<open>The status of the tray\<close>

text \<open>Whole seconds until the fallback, never negative.\<close>

definition remaining_seconds :: "int \<Rightarrow> TrayContext \<Rightarrow> int" where
  "remaining_seconds now ctx =
     (let rest = kStartupConnectionAttemptTimeout - (now - started (startupConnection ctx)) in if rest < 0 then 0 else rest div 1000)"

definition with_countdown :: "int \<Rightarrow> TrayContext \<Rightarrow> ConnectionTransport \<Rightarrow> wstring \<Rightarrow> PanelLiveStatus \<Rightarrow> PanelLiveStatus" where
  "with_countdown now ctx tr other live =
     (if \<not> connected live \<and> sc_transport (startupConnection ctx) = tr \<and> \<not> fallbackUsed (startupConnection ctx)
      then live\<lparr>live_detail := live_detail live @ [0xFF1B] @ wide (show_int (remaining_seconds now ctx))
        @ (wide '' '' @ [0x79D2, 0x540E, 0x5C1D, 0x8BD5] @ wide '' '') @ other\<rparr>
      else live)"

definition shown_session :: "int \<Rightarrow> SenderApp \<Rightarrow> bool" where
  "shown_session now s \<longleftrightarrow> snap_phase (Snapshot now s) = ConnectionPhase.Streaming \<or> running s"

fun auto_connect_text :: "AutoConnectMessage \<Rightarrow> wstring" where
  "auto_connect_text NoMessage = []"
| "auto_connect_text AllCandidatesFailed = ([0x6240, 0x6709, 0x5019, 0x9009, 0x8BBE, 0x5907, 0x548C, 0x4F20,
  0x8F93, 0x65B9, 0x5F0F, 0x5747, 0x8FDE, 0x63A5, 0x5931, 0x8D25, 0xFF1B, 0x53EF, 0x91CD, 0x8BD5, 0x3001, 0x9009,
  0x62E9, 0x8BBE, 0x5907, 0xFF0C, 0x6216, 0x68C0, 0x67E5, 0x7F51, 0x7EDC] @ wide ''/OpenDisplay'')"
| "auto_connect_text NoFallbackConnection = ([0x6CA1, 0x6709, 0x53EF, 0x7528, 0x7684, 0x540E, 0x5907, 0x8FDE,
  0x63A5, 0xFF1B, 0x8BF7, 0x9009, 0x62E9, 0x8BBE, 0x5907, 0x6216, 0x68C0, 0x67E5] @ wide '' USB/Wi-Fi'')"
| "auto_connect_text StoppedForGlobalFailure = [0x81EA, 0x52A8, 0x8FDE, 0x63A5, 0x5DF2, 0x505C, 0x6B62, 0xFF1A,
  0x8BF7, 0x5148, 0x5904, 0x7406, 0x53EF, 0x4FE1, 0x7F51, 0x7EDC, 0x3001, 0x9A71, 0x52A8, 0x6216, 0x7F16, 0x7801,
  0x5668, 0x95EE, 0x9898, 0xFF0C, 0x518D, 0x70B9, 0x51FB, 0x91CD, 0x8BD5]"

definition idle_status :: "Texts \<Rightarrow> TrayContext \<Rightarrow> PanelLiveStatus" where
  "idle_status t ctx =
     (if devices (cfg ctx) \<noteq> []
      then PanelLiveStatus_default
        \<lparr>live_device := widen t (DeviceLabel ctx 0),
         live_detail := (if auto_connect_text (autoConnectMessage ctx) = []
           then ([0x8BF7, 0x5728] @ wide '' iPad '' @ [0x524D, 0x53F0, 0x6253, 0x5F00] @ wide '' OpenDisplay''
             @ [0xFF0C, 0x7136, 0x540E, 0x70B9, 0x51FB, 0x201C, 0x8FDE, 0x63A5,
             0x201D]) else auto_connect_text (autoConnectMessage ctx))\<rparr>
      else if usbDevices ctx \<noteq> []
      then PanelLiveStatus_default
        \<lparr>live_device := ([0x5DF2, 0x53D1, 0x73B0] @ wide '' USB iPad''), live_transport := (wide ''USB ''
          @ [0x53EF, 0x7528]),
         live_detail := ([0x8BF7, 0x89E3, 0x9501] @ wide '' iPad'' @ [0x3001, 0x4FE1, 0x4EFB, 0x6B64, 0x7535,
           0x8111, 0xFF0C, 0x5E76, 0x5728, 0x524D, 0x53F0, 0x6253, 0x5F00] @ wide '' OpenDisplay'')\<rparr>
      else if discovered ctx \<noteq> []
      then PanelLiveStatus_default
        \<lparr>live_device := widen t (snd (hd (discovered ctx))), live_transport := [0x5C40, 0x57DF, 0x7F51,
          0x5DF2, 0x53D1, 0x73B0],
         live_detail := [0x5728, 0x4E0B, 0x65B9, 0x9009, 0x62E9, 0x8BE5, 0x8BBE, 0x5907, 0x5E76, 0x6DFB, 0x52A0,
           0xFF0C, 0x7136, 0x540E, 0x70B9, 0x51FB, 0x201C, 0x8FDE, 0x63A5, 0x201D]\<rparr>
      else PanelLiveStatus_default)"

definition GetPanelLiveStatus :: "Texts \<Rightarrow> int \<Rightarrow> TrayContext \<Rightarrow> PanelLiveStatus" where
  "GetPanelLiveStatus t now ctx =
     (if switching ctx
      then PanelLiveStatus_default
        \<lparr>live_running := True, live_phase := [0x6B63, 0x5728, 0x5207, 0x6362],
         live_device := (case switchingTo ctx of
             Some i \<Rightarrow> if i < length (devices (cfg ctx)) then widen t (DeviceLabel ctx i) else [0x6B63, 0x5728, 0x505C, 0x6B62, 0x5F53, 0x524D, 0x8BBE, 0x5907]
           | None \<Rightarrow> [0x6B63, 0x5728, 0x505C, 0x6B62, 0x5F53, 0x524D, 0x8BBE, 0x5907]),
         live_transport := [0x5F02, 0x6B65, 0x8BBE, 0x5907, 0x5207, 0x6362], live_detail := [0x6B63, 0x5728,
           0x7B49, 0x5F85, 0x65E7, 0x4F1A, 0x8BDD, 0x9000, 0x51FA, 0xFF1B, 0x8BF7, 0x52FF, 0x91CD, 0x590D,
           0x70B9, 0x51FB]\<rparr>
      else
        (case (case usbApp ctx of Some s \<Rightarrow> if shown_session now s then Some s else None | None \<Rightarrow> None) of
           Some s \<Rightarrow>
             with_countdown now ctx Usb (wide ''Wi-Fi'') (MakeLiveStatus t (wide ''iPad'') ((wide ''USB ''
               @ [0x6709, 0x7EBF, 0x8FDE, 0x63A5])) (Snapshot now s) (running s))
         | None \<Rightarrow>
             (case find (\<lambda>i. shown_session now (apps ctx ! i)) [0..<length (apps ctx)] of
                Some i \<Rightarrow>
                  with_countdown now ctx Wifi (wide ''USB'')
                    (MakeLiveStatus t (widen t (DeviceLabel ctx i)) ((wide ''Wi-Fi '' @ [0x65E0, 0x7EBF, 0x8FDE,
                      0x63A5])) (Snapshot now (apps ctx ! i)) (running (apps ctx ! i)))
              | None \<Rightarrow> idle_status t ctx)))"

subsection \<open>The captions of the buttons\<close>

datatype PrimaryCaption = SaysDisconnect | SaysConnect
datatype SecondaryCaption = SaysSwitchDevice | SaysRetry | SaysSwitchToWifi | SaysSwitchToUsb

definition primary_caption :: "PanelLiveStatus \<Rightarrow> PrimaryCaption" where
  "primary_caption live = (if live_running live then SaysDisconnect else SaysConnect)"

definition secondary_caption :: "TrayContext \<Rightarrow> PanelLiveStatus \<Rightarrow> SecondaryCaption" where
  "secondary_caption ctx live =
     (let n = length (devices (cfg ctx)) in
      if n \<le> 1 \<and> connected live \<and> str_find (live_transport live) (wide ''USB'') 0 \<noteq> None \<and> n \<noteq> 0 then SaysSwitchToWifi
      else if connected live \<and> str_find (live_transport live) (wide ''Wi-Fi'') 0 \<noteq> None \<and> usbDevices ctx \<noteq> [] then SaysSwitchToUsb
      else if 1 < n then SaysSwitchDevice else SaysRetry)"

subsection \<open>Properties\<close>

text \<open>The senders that the panel looks at.\<close>

definition shown_senders :: "TrayContext \<Rightarrow> SenderApp list" where
  "shown_senders ctx = (case usbApp ctx of None \<Rightarrow> [] | Some s \<Rightarrow> [s]) @ apps ctx"

lemma live_running_simps [simp]:
  "live_running (with_countdown now ctx tr other live) = live_running live"
  "live_running (MakeLiveStatus t dev medium s run) = run" "live_running (idle_status t ctx) = False"
  by (simp_all add: with_countdown_def MakeLiveStatus_def idle_status_def PanelLiveStatus_default_def Let_def)

lemma live_running_iff:
  assumes "\<not> switching ctx" and "list_all (\<lambda>s. phase s = ConnectionPhase.Streaming \<longrightarrow> running s) (shown_senders ctx)"
  shows "live_running (GetPanelLiveStatus t now ctx) \<longleftrightarrow> AnyRunning ctx"
proof -
  have shown: "shown_session now s \<longleftrightarrow> running s" if "s \<in> set (shown_senders ctx)" for s
    using assms(2) that by (auto simp: shown_session_def Snapshot_def list_all_iff)
  have u: "usbApp ctx = Some s \<Longrightarrow> shown_session now s \<longleftrightarrow> running s" for s
    by (rule shown) (simp add: shown_senders_def)
  have w: "i < length (apps ctx) \<Longrightarrow> shown_session now (apps ctx ! i) \<longleftrightarrow> running (apps ctx ! i)" for i
    by (rule shown) (simp add: shown_senders_def)
  show ?thesis
  proof (cases "usb_running ctx")
    case True
    then obtain s where "usbApp ctx = Some s" "running s" by (auto simp: usb_running_def split: option.splits)
    with assms(1) u show ?thesis by (simp add: GetPanelLiveStatus_def AnyRunning_def usb_running_def)
  next
    case False
    then have "(case usbApp ctx of Some s \<Rightarrow> if shown_session now s then Some s else None | None \<Rightarrow> None) = None"
      using u by (auto simp: usb_running_def split: option.splits)
    with False assms(1) w show ?thesis
      by (auto simp: GetPanelLiveStatus_def AnyRunning_def list_ex_length find_None_iff find_Some_iff split: option.split)
  qed
qed


definition sample_texts :: Texts where
  "sample_texts = \<lparr>widen = wide, said = (\<lambda>d. []), printed = (\<lambda>f n x. wide (show_int \<lfloor>x\<rfloor>))\<rparr>"


subsection \<open>Where the captions mislead\<close>

text \<open>While interrupted sessions wait for their restart the button says disconnect, and it connects.\<close>

lemma disconnect_caption_connects:
  "let ctx = handles ascii [(at_time 1000, ConnectAll), (at_time 2000, SaveSettings new_bitrate), (at_time 2100, Worker (Returns (AppSlot 0)))]
         (RunTray (at_time 0) (Some []) one_device)
   in primary_caption (GetPanelLiveStatus sample_texts 2200 ctx) = SaysDisconnect \<and> \<not> AnyRunning ctx \<and>
      AnyRunning (TogglePanelConnection (at_time 2200) ctx)"
  by code_simp

text \<open>With two devices configured and one of them streaming over the network, a cable makes the second button say that it
  switches to USB.  It switches to the device that is selected in the list instead, here the one that streams.\<close>

lemma usb_caption_switches_devices:
  "let ctx = handles ascii [(with_cable 1000, ConnectRow 0), (with_cable 2000, Timer [] []), (with_cable 3000, Timer [] []),
           (with_cable 4000, Worker (Reports (AppSlot 0) (SenderApp_default\<lparr>phase := ConnectionPhase.Streaming, state := StateStreaming\<rparr>)))]
         (RunTray (at_time 0) (Some []) two_devices);
       clicked = RetryOrSwitchPanelConnection (with_cable 5000) (Some 0) ctx
   in secondary_caption ctx (GetPanelLiveStatus sample_texts 5000 ctx) = SaysSwitchToUsb \<and> usbApp clicked = None \<and>
      commands clicked = [\<lparr>command_type = SwitchCommand, command_index = Some 0\<rparr>]"
  by code_simp

text \<open>Before the receiver has reported a round trip the rates are printed without \<^verbatim>\<open>std::fixed\<close>, with one
  significant digit: 25.3 as \<^verbatim>\<open>3e+01\<close>.\<close>

lemma rates_without_a_round_trip:
  assumes "snap_receiverRttMs s < 0" and "0 \<le> snap_receiverMbps s" and "snap_actualFps s < 0" and "snap_networkDrops s = 0"
    and "snap_receiverStalls s \<le> 0" and "snap_captureMs s < 0" and "snap_encodeMs s < 0"
  shows "health_text t s = printed t False 1 (snap_receiverMbps s) @ wide '' Mbps''"
  using assms by (simp add: health_text_def Let_def)

end
