(* ===== verification/TrayLists.thy ===== *)
theory TrayLists
  imports TrayStatus
begin

text \<open>
  The two lists of the panel (\<^verbatim>\<open>src/src/app/TrayApp.cpp\<close>): the receivers that were discovered, of which
  the user adds one, and the configured devices, one of which the buttons beside it act on.  Both are brought up to
  date once a second; a selection is an index, \<open>-1\<close> when there is none.
\<close>

subsection \<open>Discovered receivers\<close>

record DiscoveryList =
  list_addresses :: "string list"
  list_rows :: "wstring list"
  list_selected :: int
  list_enabled :: bool

text \<open>When the panel has been created.\<close>

definition DiscoveryList_created :: DiscoveryList where
  "DiscoveryList_created = \<lparr>list_addresses = [], list_rows = [], list_selected = - 1, list_enabled = True\<rparr>"

definition SyncPanelDiscovery :: "(string \<Rightarrow> wstring) \<Rightarrow> TrayContext \<Rightarrow> DiscoveryList \<Rightarrow> DiscoveryList" where
  "SyncPanelDiscovery to_wide ctx l =
     (let receivers = discovered ctx; addresses = map fst receivers; previous = list_selected l in
      if addresses = list_addresses l then l
      else if receivers = []
      then \<lparr>list_addresses = [], list_rows = [[0x6682, 0x672A, 0x53D1, 0x73B0, 0x8BBE, 0x5907, 0xFF0C,
        0x53EF, 0x5728, 0x4E0B, 0x65B9, 0x624B, 0x52A8, 0x586B, 0x5199, 0x5730,
        0x5740]], list_selected = 0, list_enabled = False\<rparr>
      else \<lparr>list_addresses = addresses,
            list_rows = map (\<lambda>(addr, name). to_wide (if name = [] then addr else name) @ (wide ''  ''
              @ [0x00B7] @ wide ''  '') @ to_wide addr) receivers,
            list_selected = (if 0 \<le> previous \<and> previous < int (length receivers) then previous else 0), list_enabled = True\<rparr>)"

text \<open>The address that the button beside the list adds.\<close>

definition selected_address :: "DiscoveryList \<Rightarrow> string option" where
  "selected_address l =
     (if list_addresses l = [] \<or> list_selected l < 0 \<or> int (length (list_addresses l)) \<le> list_selected l then None
      else Some (list_addresses l ! nat (list_selected l)))"

subsection \<open>Configured devices\<close>

datatype ConnectCaption = SaysSwitching | SaysConnectOrSwitch | SaysConnectThis

record DeviceSelector =
  selector_rows :: "wstring list"
  selector_selected :: int
  selector_enabled :: bool
  connect_enabled :: bool
  default_enabled :: bool
  up_enabled :: bool
  remove_enabled :: bool
  connect_caption :: ConnectCaption

definition DeviceSelector_created :: DeviceSelector where
  "DeviceSelector_created =
     \<lparr>selector_rows = [], selector_selected = - 1, selector_enabled = True, connect_enabled = True, default_enabled = True,
      up_enabled = True, remove_enabled = True, connect_caption = SaysConnectOrSwitch\<rparr>"

definition initial_selection :: "TrayContext \<Rightarrow> int \<Rightarrow> int" where
  "initial_selection ctx selected =
     (if 0 \<le> selected then selected
      else case find (\<lambda>i. (preferredDeviceId (cfg ctx) \<noteq> [] \<and> dev_id (devices (cfg ctx) ! i) = preferredDeviceId (cfg ctx)) \<or>
                         state (apps ctx ! i) = StateStreaming) [0..<length (devices (cfg ctx))] of
             Some i \<Rightarrow> int i | None \<Rightarrow> selected)"

definition device_row :: "Texts \<Rightarrow> int \<Rightarrow> TrayContext \<Rightarrow> nat \<Rightarrow> wstring" where
  "device_row t now ctx i =
     (let d = devices (cfg ctx) ! i; known = FindById (dev_id d) (discoveryCache ctx);
          isOnline = (case known of None \<Rightarrow> False | Some r \<Rightarrow> online r);
          liveAddress = (case known of None \<Rightarrow> [] | Some r \<Rightarrow> address r);
          target = (if liveAddress \<noteq> [] then liveAddress else ResolveDeviceTarget ctx i);
          snapshot = Snapshot now (apps ctx ! i)
      in wide (show_nat (i + 1)) @ wide ''. '' @ widen t (DeviceLabel ctx i) @
         (wide ''  '' @ [0x00B7] @ wide '' ID '') @ (if dev_id d = [] then [0x5F85, 0x5B66,
           0x4E60] else widen t (take 8 (dev_id d))) @
         (if isOnline then (wide ''  '' @ [0x00B7] @ wide '' mDNS '' @ [0x5728, 0x7EBF]) else (wide ''  ''
           @ [0x00B7] @ wide '' mDNS '' @ [0x79BB, 0x7EBF] @ wide ''/'' @ [0x672A, 0x53D1, 0x73B0])) @
         (if target \<noteq> [] then (wide ''  '' @ [0x00B7] @ wide '' '') @ widen t target else []) @
         (if snap_failure snapshot \<noteq> NoFailure
          then (wide ''  '' @ [0x00B7] @ wide '' '')
            @ FailureHelpText (widen t) (snap_failure snapshot) (said t (snap_detail snapshot)) else []))"

text \<open>New rows take the selection away, and it is set again below.\<close>

definition SyncPanelDeviceSelector :: "Texts \<Rightarrow> int \<Rightarrow> TrayContext \<Rightarrow> DeviceSelector \<Rightarrow> DeviceSelector" where
  "SyncPanelDeviceSelector t now ctx l =
     (let n = length (devices (cfg ctx)); selected = initial_selection ctx (selector_selected l);
          rows = map (device_row t now ctx) [0..<n]; enabled = (n \<noteq> 0);
          shown = (if enabled then clamp selected 0 (int n - 1) else selected)
      in \<lparr>selector_rows = rows,
          selector_selected = (if enabled then shown else if rows \<noteq> selector_rows l then - 1 else selector_selected l),
          selector_enabled = enabled, connect_enabled = (enabled \<and> \<not> switching ctx), default_enabled = enabled,
          up_enabled = (enabled \<and> 0 < shown), remove_enabled = (enabled \<and> \<not> switching ctx),
          connect_caption = (if switching ctx then SaysSwitching else if 1 < n then SaysConnectOrSwitch else SaysConnectThis)\<rparr>)"

subsection \<open>What the buttons act on\<close>

text \<open>An address that can be added is one that is discovered now, whenever the list is up to date and the user has
  selected among its rows.\<close>

lemma added_address_is_discovered:
  "selected_address (SyncPanelDiscovery to_wide ctx l) = Some addr \<Longrightarrow> addr \<in> fst ` set (discovered ctx)"
proof -
  assume s: "selected_address (SyncPanelDiscovery to_wide ctx l) = Some addr"
  have "list_addresses (SyncPanelDiscovery to_wide ctx l) = map fst (discovered ctx)"
    by (simp add: SyncPanelDiscovery_def Let_def)
  with s show ?thesis by (auto simp: selected_address_def split: if_splits)
qed

text \<open>With devices the buttons act on one of them, whatever happened to the list: the row exists, and the button that
  moves it up is enabled exactly when it is not the first.\<close>

lemma buttons_act_on_a_device:
  assumes "devices (cfg ctx) \<noteq> []" and "l' = SyncPanelDeviceSelector t now ctx l"
  shows "0 \<le> selector_selected l' \<and> selector_selected l' < int (length (devices (cfg ctx))) \<and>
    length (selector_rows l') = length (devices (cfg ctx)) \<and> (up_enabled l' \<longleftrightarrow> 0 < selector_selected l') \<and>
    (connect_enabled l' \<longleftrightarrow> \<not> switching ctx)"
  using assms by (simp add: SyncPanelDeviceSelector_def Let_def clamp_def)

text \<open>The selection among the receivers is kept by its index: a receiver with a smaller address that appears takes the place
  of the one that was selected, and it is the one that is then added.\<close>

lemma new_receiver_takes_the_selection:
  "let before = (idle_tray\<lparr>discovered := [(''192.168.1.7'', ''Mine'')]\<rparr>);
       after = (idle_tray\<lparr>discovered := [(''192.168.1.3'', ''Other''), (''192.168.1.7'', ''Mine'')]\<rparr>);
       l = SyncPanelDiscovery wide before DiscoveryList_created
   in selected_address l = Some ''192.168.1.7'' \<and> selected_address (SyncPanelDiscovery wide after l) = Some ''192.168.1.3''"
  by (simp add: SyncPanelDiscovery_def DiscoveryList_created_def selected_address_def Let_def)

text \<open>A list that has never had a receiver stays empty and enabled: the hint is only shown after receivers are gone.\<close>

lemma hint_is_missing_at_first:
  "discovered ctx = [] \<Longrightarrow> SyncPanelDiscovery to_wide ctx DiscoveryList_created = DiscoveryList_created"
  by (simp add: SyncPanelDiscovery_def DiscoveryList_created_def Let_def)

end
