(* ===== verification/Spec2Isabelle.thy ===== *)
theory Spec2Isabelle
  imports Prelude Floating JsonScan Protocol ControlText NumberText ProtocolProps AnnexB
    JsonParser Config ConfigProps ConfigFile DeviceCoordinator
    Socket UsbMux Connection Mdns MdnsProps
    NetworkSafety Panel Input InputProps
    SenderStatus SenderLife SenderPipeline SenderReader SenderCapture SenderLoop SenderProps SenderGuards
    DisplayModes DisplayPosition VirtualDisplay VirtualDisplayProps Nv12 Duplication Encoder
    UiModel Redaction Routing DisplayCatalog CommandLine
    TrayState TraySessions TrayEvents TrayFrame TrayOwner TrayCable TrayStartup TraySettings
    LauncherItems LauncherProps LauncherWindows LauncherOwner PanelLayout TrayViews
    SenderPing TrayMenu TrayStatus TrayLists
begin

text \<open>
  Models of the Windows sender of iPad Second Display (\<^verbatim>\<open>src/src\<close>, C++) and the theorems that
  make its parts correct.

  \<^bold>\<open>The program.\<close>  A tray process keeps a list of iPads in a settings file, finds receivers by
  multicast DNS and by Apple's USB service, and asks a coordinator which endpoint of which device to try.  A
  panel, a tray menu and a timer drive it; a launcher puts the icons of the desktop on the displays that stream.
  A sender (\<^verbatim>\<open>SenderApp\<close>) is a worker thread: it opens a framed TCP connection, directly or
  through the USB tunnel, waits for the receiver's hello, answers with a welcome, creates a virtual monitor of
  the receiver's panel size, captures it, encodes the pictures and sends them, while a second thread reads
  the receiver's messages and injects touch, scroll and pen input.

  \<^bold>\<open>Theories, from the wire upwards.\<close>
  \<^item> \<^verbatim>\<open>Prelude\<close>: machine types, character classes, the string searches of the C++ library, decimal
    printing, big-endian words.  \<^verbatim>\<open>Floating\<close>: binary64 as the code uses it.
  \<^item> \<^verbatim>\<open>JsonScan\<close>, \<^verbatim>\<open>Protocol\<close> (\<^verbatim>\<open>net/Protocol.cpp\<close>): the field scanner over control
    messages, parsing and serialising.  \<^verbatim>\<open>ControlText\<close> has the texts as data and what the scanner
    finds in them, \<^verbatim>\<open>NumberText\<close> the number grammar, \<^verbatim>\<open>ProtocolProps\<close> the properties,
    \<^verbatim>\<open>SenderPing\<close> the liveness message with its counters.
  \<^item> \<^verbatim>\<open>Socket\<close>: a stream socket as its client sees it, with the interfaces of loops that receive and send a
    given number of bytes as locales.  \<^verbatim>\<open>Connection\<close> (\<^verbatim>\<open>net/Connection.cpp\<close>) and
    \<^verbatim>\<open>UsbMux\<close> (\<^verbatim>\<open>net/UsbMux.cpp\<close>) interpret them on their own loops.
  \<^item> \<^verbatim>\<open>Mdns\<close>, \<^verbatim>\<open>MdnsProps\<close> (\<^verbatim>\<open>net/Mdns.cpp\<close>): the packet parser and writer, the self check, the
    cache of receivers.  \<^verbatim>\<open>NetworkSafety\<close> (\<^verbatim>\<open>net/NetworkSafety.cpp\<close>): the trusted-LAN policy.
  \<^item> \<^verbatim>\<open>JsonParser\<close>, \<^verbatim>\<open>Config\<close>, \<^verbatim>\<open>ConfigProps\<close>, \<^verbatim>\<open>ConfigFile\<close>
    (\<^verbatim>\<open>app/Config.cpp\<close>): the settings text, and the file with its temporary and its backup.
  \<^item> \<^verbatim>\<open>DeviceCoordinator\<close> (\<^verbatim>\<open>app/DeviceCoordinator.cpp\<close>): which endpoint is tried next.
  \<^item> \<^verbatim>\<open>AnnexB\<close> (\<^verbatim>\<open>encode/AnnexB.h\<close>), \<^verbatim>\<open>Encoder\<close>
    (\<^verbatim>\<open>encode/H264Encoder.cpp\<close>): byte streams, and the driving of a Media Foundation transform.
  \<^item> \<^verbatim>\<open>DisplayModes\<close>, \<^verbatim>\<open>DisplayPosition\<close>, \<^verbatim>\<open>VirtualDisplay\<close>, \<^verbatim>\<open>VirtualDisplayProps\<close>
    (\<^verbatim>\<open>display/VirtualDisplay.cpp\<close>): the registered resolutions, the saved positions, and the monitor that is
    added to and removed from the driver.  \<^verbatim>\<open>Nv12\<close>, \<^verbatim>\<open>Duplication\<close>
    (\<^verbatim>\<open>display/DesktopDuplication.cpp\<close>): picture conversion and the capture with its pointer overlay.
  \<^item> \<^verbatim>\<open>Input\<close>, \<^verbatim>\<open>InputProps\<close> (\<^verbatim>\<open>input/InputInjector.cpp\<close>).
  \<^item> \<^verbatim>\<open>Panel\<close>, \<^verbatim>\<open>SenderStatus\<close>, \<^verbatim>\<open>SenderLife\<close>, \<^verbatim>\<open>SenderPipeline\<close>,
    \<^verbatim>\<open>SenderReader\<close>, \<^verbatim>\<open>SenderCapture\<close>, \<^verbatim>\<open>SenderLoop\<close>
    (\<^verbatim>\<open>app/SenderApp.cpp\<close>): the shared panel size, the members of a sender, its lifecycle as the owner
    drives it, and the worker: pipeline, reader thread, capture loop, reconnect loop.
    \<^verbatim>\<open>SenderProps\<close> has the invariant of a session and what rests on it, \<^verbatim>\<open>SenderGuards\<close> the
    identity, network, stop and mutex guards and the watchdogs.
  \<^item> \<^verbatim>\<open>TrayState\<close>, \<^verbatim>\<open>TraySessions\<close>, \<^verbatim>\<open>TrayEvents\<close>
    (\<^verbatim>\<open>app/TrayApp.cpp\<close>): the context that owns the senders and what workers do to it; starting and stopping
    sessions, the automatic connection and the queue of commands; one function per message of the windows, with
    \<open>handle\<close> as their sum.  \<^verbatim>\<open>TrayFrame\<close> says what each function leaves alone, \<^verbatim>\<open>TrayOwner\<close>
    has the invariant of the senders, \<^verbatim>\<open>TrayCable\<close> that cable and network exclude each other,
    \<^verbatim>\<open>TrayStartup\<close> the bound of the automatic connection, \<^verbatim>\<open>TraySettings\<close> the ranges and the
    failed save.  \<^verbatim>\<open>PanelLayout\<close> is the geometry of the panel with its clicks and its scrolling,
    \<^verbatim>\<open>TrayViews\<close> the icon, the displays that get a launcher and the placing of the display,
    \<^verbatim>\<open>TrayMenu\<close> the tooltip and the menu with the handlers its entries reach,
    \<^verbatim>\<open>TrayStatus\<close> the live status and the captions of the buttons, \<^verbatim>\<open>TrayLists\<close> the
    discovered receivers and the rows of the devices.
  \<^item> \<^verbatim>\<open>LauncherItems\<close>, \<^verbatim>\<open>LauncherProps\<close>, \<^verbatim>\<open>LauncherWindows\<close>, \<^verbatim>\<open>LauncherOwner\<close>
    (\<^verbatim>\<open>app/DisplayLauncher.cpp\<close>): the items, their order and places; the windows and their manager.
  \<^item> \<^verbatim>\<open>UiModel\<close>, \<^verbatim>\<open>Redaction\<close> (\<^verbatim>\<open>app/UiModel.cpp\<close>): texts, profiles, the list of devices
    shown and read back, the redaction of a report.  \<^verbatim>\<open>Routing\<close> (\<^verbatim>\<open>app/WindowRouting.cpp\<close>,
    \<^verbatim>\<open>app/TaskbarRouter.cpp\<close>): moving windows between monitors.  \<^verbatim>\<open>DisplayCatalog\<close>
    (\<^verbatim>\<open>display/DisplayCatalog.cpp\<close>): the attached monitors.  \<^verbatim>\<open>CommandLine\<close> (\<^verbatim>\<open>main.cpp\<close>):
    the command line and what it runs.

  \<^bold>\<open>How state and effects correspond.\<close>  A class is a record with the members it has in the code, and its
  methods are functions that return the record updated.  What the operating system, the driver, the clock
  and the encoder answer is data: an answer record per call site, universally quantified in the theorems.
  Effects that matter for the properties are logged as actions (\<open>acts\<close> of the worker, \<open>driver\<close> of the virtual
  display, the log of the transform), and properties replay the log on an abstract state.  The two threads of a
  session are lists of steps in any order, each step holding the locks that the code holds.  The tray handles one
  message at a time; its workers return and report between the handlers, while a handler waits for one of them, and
  between the parts of the timer.  Its history is a list of events, each with the answers it gets.

  \<^bold>\<open>What the groups of lemmas show.\<close>  Protocol: the type and the fields of a message are those of its root
  object, numbers that are echoed are JSON numbers.  Transport: frames arrive complete and in order or not
  at all; the tunnel talks to the requested device.  Discovery: the parser never leaves the packet and reads
  back what receivers send; the cache keeps one record per device.  Settings: texts round-trip, every accepted
  text is in range, a crash never loses both versions.  Display: calls to the driver are those of an owner of at
  most one monitor; the monitor used is the one added, at the requested size.  Capture and encoder: every
  store is in bounds, the transform is driven only in the states that allow it.  Worker: the
  monitor outlives its capture, the wire is framed, strangers are sent nothing, nothing stays pressed.  Tray:
  each device keeps its one sender, cable and network are never used together by a patient user (with the two
  impatient histories that break it), the automatic connection is bounded, sessions start within the ranges, a
  failed save changes nothing.  Launcher: what is shown can be started, what is drawn is what is hit, windows are
  owned and follow the displays.  Panel: a click means one control, the cursor shows it, and the connection button
  does what it says; the lemmas beside it show where captions and menu mislead.

  \<^bold>\<open>Bounds and fuel.\<close>  No definition is cut off by fuel that the code does not have: loops over
  text, packets, pictures and slots recurse on the remaining length, the name reader by the hop limit of 16 and then
  the remaining packet, the wait for the hello on the frames still in the inbox, interruptible sleeps on the
  slices of the code, the polls for a path and a rectangle on the attempts the code makes.  Sessions and
  reconnects are driven by finite lists of answers of any length.  The layout of the panel is shown apart for
  resolutions from 96 to 9600 dots per inch and windows of at least 680 units; the desktop folders give at most 120
  items, the bound of the code.  Machine integers are words where they wrap
  (\<open>u32\<close>, sizes of a picture, lengths of a frame), \<^verbatim>\<open>int\<close> or \<^verbatim>\<open>nat\<close> where the code keeps them in
  range, with the range as a lemma.

  \<^bold>\<open>Not modelled.\<close>  Of the tray: painting, the creation and placing of its Win32 controls, notices, and the
  collection of the diagnostics report (its redaction is modelled).  Of the launcher: icons,
  drawing, and the COM calls that read Explorer's places, whose result is an argument.  Of the command line:
  the redirection of the standard streams and the crash logger.  Of the display: two topology calls to Windows,
  the maintenance commands that remove monitors left over, and the named mutex, whose outcome is an argument.  The
  opening of sockets.  Logging and resources.  The third-party driver header, Media Foundation, DXGI, the Windows
  SDK and usbmuxd: their answers are parameters.  Byte order of the machine and data races below the granularity
  of the locks.
\<close>

text \<open>The liveness message that a session sends is the one of the writer without counters.\<close>

lemma session_sends_the_bare_ping: "SerializeSenderPing to_chars SenderPingStats_default = SerializeSenderPing_default"
  by (simp add: SerializeSenderPing_def SenderPingStats_default_def AppendIntegerField_def AppendDoubleField_def
      SerializeSenderPing_default_def Let_def)

end
